(* ===== verification/PyBase.thy ===== *)
theory PyBase
  imports Complex_Main "HOL-Library.AList" "HOL-Library.Sublist"
begin

text \<open>
  Prelude: the parts of the Python language every component of the learning service uses.
  \<^item> exceptions as values: \<open>py_exn\<close> names the exceptions the modelled code raises
    (\<open>Raised\<close> is any other exception class, by its name, the message left out);
  \<^item> operations on mutable state: a value of type \<open>('s, 'a) py\<close> takes the state and returns
    the result, or the exception raised, together with the state left behind (a Python
    exception does not undo the writes made before it);
  \<^item> dictionaries: a Python \<open>dict\<close> keeps insertion order and overwrites in place, so it is an
    association list updated with \<open>AList.update\<close>.
  The collection \<open>py_simps\<close> holds the evaluation rules of the state operations, the
  collection \<open>dict_simps\<close> the lookup rules of dictionaries.
\<close>

named_theorems py_simps \<open>evaluation of state operations\<close>
named_theorems dict_simps \<open>lookup and update of dictionaries\<close>

section \<open>Exceptions and state operations\<close>

datatype py_exn =
    OrgGuardError string
  | VersionConflictError string int int
  | ConflictError int
  | ValueError
  | NotImplementedError
  | KeyError string
  | ClientError string
  | AttributeError
  | Raised string

type_synonym ('s, 'a) py = "'s \<Rightarrow> (py_exn + 'a) \<times> 's"

definition pret :: "'a \<Rightarrow> ('s, 'a) py" where
  "pret x = (\<lambda>s. (Inr x, s))"

definition praise :: "py_exn \<Rightarrow> ('s, 'a) py" where
  "praise e = (\<lambda>s. (Inl e, s))"

definition pbind :: "('s, 'a) py \<Rightarrow> ('a \<Rightarrow> ('s, 'b) py) \<Rightarrow> ('s, 'b) py" where
  "pbind m f = (\<lambda>s. case m s of (Inl e, s') \<Rightarrow> (Inl e, s') | (Inr x, s') \<Rightarrow> f x s')"

definition pget :: "('s \<Rightarrow> 'a) \<Rightarrow> ('s, 'a) py" where
  "pget f = (\<lambda>s. (Inr (f s), s))"

definition pmodify :: "('s \<Rightarrow> 's) \<Rightarrow> ('s, unit) py" where
  "pmodify f = (\<lambda>s. (Inr (), f s))"

text \<open>A \<open>for\<close> loop with an accumulator; an exception ends it.\<close>

fun pfor :: "('x \<Rightarrow> 'acc \<Rightarrow> ('s, 'acc) py) \<Rightarrow> 'x list \<Rightarrow> 'acc \<Rightarrow> ('s, 'acc) py" where
  "pfor body [] acc = pret acc"
| "pfor body (x # xs) acc = pbind (body x acc) (pfor body xs)"

lemma pret_apply [py_simps]: "pret x s = (Inr x, s)"
  by (simp add: pret_def)

lemma praise_apply [py_simps]: "praise e s = (Inl e, s)"
  by (simp add: praise_def)

lemma pget_apply [py_simps]: "pget f s = (Inr (f s), s)"
  by (simp add: pget_def)

lemma pmodify_apply [py_simps]: "pmodify f s = (Inr (), f s)"
  by (simp add: pmodify_def)

lemma pbind_apply [py_simps]:
  "pbind m f s = (case m s of (Inl e, s') \<Rightarrow> (Inl e, s') | (Inr x, s') \<Rightarrow> f x s')"
  by (simp add: pbind_def)

lemma pbind_Inr: "m s = (Inr x, s') \<Longrightarrow> pbind m f s = f x s'"
  by (simp add: pbind_def)

lemma pbind_ret_left: "pbind (pret x) f = f x"
  by (simp add: fun_eq_iff py_simps)

lemma pbind_ret_right: "pbind m pret = m"
  by (simp add: fun_eq_iff py_simps split: prod.splits sum.splits)

lemma pbind_assoc: "pbind (pbind m f) g = pbind m (\<lambda>x. pbind (f x) g)"
  by (simp add: fun_eq_iff py_simps split: prod.splits sum.splits)

lemma pbind_InrE:
  assumes "pbind m f s = (Inr y, s'')"
  obtains x s' where "m s = (Inr x, s')" "f x s' = (Inr y, s'')"
  using assms by (auto simp: py_simps split: prod.splits sum.splits)

text \<open>
  A state predicate kept by every iteration is kept by the loop, whether the loop ends
  normally or by an exception.
\<close>

lemma pfor_invariant:
  assumes "\<And>x acc s. x \<in> set xs \<Longrightarrow> P s \<Longrightarrow> P (snd (body x acc s))" and "P s"
  shows "P (snd (pfor body xs acc s))"
  using assms
proof (induction xs arbitrary: acc s)
  case Nil
  then show ?case by (simp add: py_simps)
next
  case (Cons x xs)
  obtain r s1 where b: "body x acc s = (r, s1)" by fastforce
  have s1: "P s1" using Cons.prems(1) [of x s acc] Cons.prems(2) b by simp
  show ?case
  proof (cases r)
    case (Inl e)
    then show ?thesis using b s1 by (simp add: py_simps)
  next
    case (Inr acc')
    have "P (snd (pfor body xs acc' s1))"
      by (rule Cons.IH) (use Cons.prems(1) s1 in auto)
    then show ?thesis using b Inr by (simp add: py_simps)
  qed
qed

section \<open>Dictionaries\<close>

type_synonym ('k, 'v) dict = "('k \<times> 'v) list"

abbreviation dget :: "('k, 'v) dict \<Rightarrow> 'k \<Rightarrow> 'v option" where
  "dget \<equiv> map_of"

abbreviation dset :: "'k \<Rightarrow> 'v \<Rightarrow> ('k, 'v) dict \<Rightarrow> ('k, 'v) dict" where
  "dset \<equiv> AList.update"

abbreviation dpop :: "'k \<Rightarrow> ('k, 'v) dict \<Rightarrow> ('k, 'v) dict" where
  "dpop \<equiv> AList.delete"

definition dict_wf :: "('k, 'v) dict \<Rightarrow> bool" where
  "dict_wf d \<longleftrightarrow> distinct (map fst d)"

lemma dict_wf_Nil [dict_simps]: "dict_wf []"
  by (simp add: dict_wf_def)

lemma dget_dset [dict_simps]: "dget (dset k v d) k' = (if k' = k then Some v else dget d k')"
  by (simp add: update_conv')

lemma dict_wf_dset [dict_simps]: "dict_wf d \<Longrightarrow> dict_wf (dset k v d)"
  by (simp add: dict_wf_def distinct_update)

lemma keys_dset [dict_simps]: "set (map fst (dset k v d)) = insert k (set (map fst d))"
  by (induction d) auto

lemma dget_Some_iff: "dict_wf d \<Longrightarrow> (dget d k = Some v) = ((k, v) \<in> set d)"
  by (simp add: dict_wf_def)

lemma dset_set_iff:
  "dict_wf d \<Longrightarrow> ((k', v') \<in> set (dset k v d)) = (if k' = k then v' = v else (k', v') \<in> set d)"
  by (auto simp: dget_Some_iff [symmetric] dict_simps)

text \<open>Overwriting twice is overwriting once with the last value.\<close>

lemma dset_dset [dict_simps]: "dset k v (dset k v' d) = dset k v d"
  by (induction d) auto

lemma dset_same: "dict_wf d \<Longrightarrow> dget d k = Some v \<Longrightarrow> dset k v d = d"
  by (induction d) (auto simp: dict_wf_def)

lemma dset_new: "dget d k = None \<Longrightarrow> dset k v d = d @ [(k, v)]"
  by (induction d) (auto split: if_splits)

lemma length_dset: "length (dset k v d) = (if dget d k = None then Suc (length d) else length d)"
  by (induction d) auto

text \<open>Every entry relates to its key, e.g. a record is stored under its own key.\<close>

definition keyed_by :: "('k \<Rightarrow> 'v \<Rightarrow> bool) \<Rightarrow> ('k, 'v) dict \<Rightarrow> bool" where
  "keyed_by P d \<longleftrightarrow> dict_wf d \<and> (\<forall>(k, v) \<in> set d. P k v)"

lemma keyed_by_Nil [dict_simps]: "keyed_by P []"
  by (simp add: keyed_by_def dict_simps)

lemma keyed_by_dset [dict_simps]: "keyed_by P d \<Longrightarrow> P k v \<Longrightarrow> keyed_by P (dset k v d)"
  by (auto simp: keyed_by_def dict_simps dset_set_iff split: if_splits)

lemma keyed_byD: "keyed_by P d \<Longrightarrow> dget d k = Some v \<Longrightarrow> P k v"
  by (auto simp: keyed_by_def dget_Some_iff)

text \<open>The values listed for the keys that satisfy a condition, in insertion order.\<close>

definition dvals_where :: "('k \<Rightarrow> 'v \<Rightarrow> bool) \<Rightarrow> ('k, 'v) dict \<Rightarrow> 'v list" where
  "dvals_where P d = map snd (filter (\<lambda>(k, v). P k v) d)"

lemma dvals_where_set: "v \<in> set (dvals_where P d) \<longleftrightarrow> (\<exists>k. (k, v) \<in> set d \<and> P k v)"
  by (force simp: dvals_where_def)

lemma dvals_where_dset_other:
  "dget d k = None \<Longrightarrow> \<not> P k v \<Longrightarrow> dvals_where P (dset k v d) = dvals_where P d"
  by (induction d) (auto simp: dvals_where_def split: if_splits)

lemma dvals_where_dset_new:
  "dget d k = None \<Longrightarrow> P k v \<Longrightarrow> dvals_where P (dset k v d) = dvals_where P d @ [v]"
  by (induction d) (auto simp: dvals_where_def split: if_splits)

lemma dvals_where_dset_skip:
  "(\<And>v. \<not> P k v) \<Longrightarrow> dvals_where P (dset k v d) = dvals_where P d"
  by (induction d) (auto simp: dvals_where_def split: if_splits)

end
