(* ===== verification/PyFloat.thy ===== *)
theory PyFloat
  imports PyBase "HOL-Library.Log_Nat"
begin

text \<open>
  Python's \<open>float\<close> (IEEE-754 double precision) as the rational number it denotes.  Every
  arithmetic operation of the code is the exact operation followed by \<open>rnd\<close>, rounding to
  the nearest double with ties to the even significand, gradual underflow included.  Not
  modelled: infinities, NaN and the sign of zero; the exponent has no upper bound, so a
  magnitude above \<open>1.8e308\<close> is outside the model (the weights and rates of the service
  are below a few thousand).
\<close>

section \<open>Rounding\<close>

type_synonym pyfloat = rat

definition pow2 :: "int \<Rightarrow> rat" where
  "pow2 e = (if 0 \<le> e then 2 ^ nat e else 1 / 2 ^ nat (- e))"

text \<open>Round to the nearest integer, ties to even.\<close>

definition rne :: "rat \<Rightarrow> int" where
  "rne x = (let f = \<lfloor>x\<rfloor>; d = x - of_int f in
     if d < 1 / 2 then f else if 1 / 2 < d then f + 1 else if even f then f else f + 1)"

text \<open>The binary exponent of a positive rational: \<open>pow2 e \<le> x < pow2 (e + 1)\<close>.\<close>

definition binexp :: "rat \<Rightarrow> int" where
  "binexp x = (let (n, d) = quotient_of x; k = bitlen n - bitlen d
     in if pow2 k \<le> x then k else k - 1)"

definition ulp_exp :: "rat \<Rightarrow> int" where
  "ulp_exp x = max (binexp x - 52) (- 1074)"

definition rnd_pos :: "rat \<Rightarrow> rat" where
  "rnd_pos x = of_int (rne (x / pow2 (ulp_exp x))) * pow2 (ulp_exp x)"

definition rnd :: "rat \<Rightarrow> pyfloat" where
  "rnd x = (if x = 0 then 0 else if 0 < x then rnd_pos x else - rnd_pos (- x))"

subsection \<open>Powers of two\<close>

lemma pow2_powi: "pow2 e = 2 powi e"
  by (simp add: pow2_def power_int_def field_simps)

lemma pow2_pos [simp]: "0 < pow2 e"
  by (simp add: pow2_powi)

lemma pow2_nz [simp]: "pow2 e \<noteq> 0"
  using pow2_pos [of e] by linarith

lemma pow2_not_neg [simp]: "\<not> pow2 e < 0"
  using pow2_pos [of e] by linarith

lemma pow2_add: "pow2 (a + b) = pow2 a * pow2 b"
  by (simp add: pow2_powi power_int_add)

lemma pow2_diff: "pow2 (a - b) = pow2 a / pow2 b"
  by (simp add: pow2_powi power_int_diff)

lemma pow2_mono: "a \<le> b \<Longrightarrow> pow2 a \<le> pow2 b"
  by (simp add: pow2_powi power_int_increasing)

lemma pow2_strict_mono: "a < b \<Longrightarrow> pow2 a < pow2 b"
  by (simp add: pow2_powi power_int_strict_increasing)

lemma pow2_less_iff: "pow2 a < pow2 b \<longleftrightarrow> a < b"
  by (metis pow2_mono pow2_strict_mono linorder_not_less)

lemma pow2_nat: "0 \<le> e \<Longrightarrow> pow2 e = of_int (2 ^ nat e)"
  by (simp add: pow2_def)

lemma pow2_1: "pow2 1 = 2"
  by (simp add: pow2_def)

subsection \<open>Rounding to an integer\<close>

lemma rne_of_int [simp]: "rne (of_int m) = m"
  by (simp add: rne_def)

lemma rne_bounds: "\<lfloor>x\<rfloor> \<le> rne x" "rne x \<le> \<lceil>x\<rceil>"
  by (auto simp: rne_def Let_def ceiling_altdef)

lemma rne_mono: "x \<le> y \<Longrightarrow> rne x \<le> rne y"
proof -
  assume le: "x \<le> y"
  show ?thesis
  proof (cases "\<lfloor>x\<rfloor> = \<lfloor>y\<rfloor>")
    case True
    then show ?thesis using le by (auto simp: rne_def Let_def)
  next
    case False
    with le have "\<lfloor>x\<rfloor> + 1 \<le> \<lfloor>y\<rfloor>" using floor_mono [OF le] by linarith
    moreover have "rne x \<le> \<lfloor>x\<rfloor> + 1" by (auto simp: rne_def Let_def)
    ultimately show ?thesis using rne_bounds(1) [of y] by linarith
  qed
qed

lemma rne_ge_int: "of_int m \<le> x \<Longrightarrow> m \<le> rne x"
  using rne_mono [of "of_int m" x] by simp

lemma rne_le_int: "x \<le> of_int m \<Longrightarrow> rne x \<le> m"
  using rne_mono [of x "of_int m"] by simp

subsection \<open>The binary exponent\<close>

lemma bitlen_bounds_rat:
  assumes "0 < n"
  shows "pow2 (bitlen n - 1) \<le> of_int n" "of_int n < pow2 (bitlen n)"
proof -
  from assms have b: "2 ^ nat (bitlen n - 1) \<le> n" "n < 2 ^ nat (bitlen n)"
    using bitlen_bounds [of n] by auto
  have nn: "0 \<le> bitlen n - 1" using assms bitlen_ge_iff_power [of 1 n] by simp
  from b(1) have "(of_int (2 ^ nat (bitlen n - 1)) :: rat) \<le> of_int n" by (simp only: of_int_le_iff)
  then show "pow2 (bitlen n - 1) \<le> of_int n" using nn by (simp add: pow2_nat)
  from b(2) have "(of_int n :: rat) < of_int (2 ^ nat (bitlen n))" by (simp only: of_int_less_iff)
  then show "of_int n < pow2 (bitlen n)" using nn by (simp add: pow2_nat)
qed

lemma binexp_bounds:
  assumes "0 < x"
  shows "pow2 (binexp x) \<le> x" "x < pow2 (binexp x + 1)"
proof -
  obtain n d where q: "quotient_of x = (n, d)" by fastforce
  have d: "0 < d" using q quotient_of_denom_pos by blast
  have x: "x = of_int n / of_int d" using q by (rule quotient_of_div)
  have n: "0 < n" using assms d unfolding x by (simp add: zero_less_divide_iff)
  define k where "k = bitlen n - bitlen d"
  note bn = bitlen_bounds_rat [OF n] and bd = bitlen_bounds_rat [OF d]
  have dpos: "(0::rat) < of_int d" using d by simp
  have up: "x < pow2 (k + 1)"
  proof -
    have "of_int n < pow2 (bitlen n)" by (rule bn(2))
    also have "\<dots> = pow2 (k + 1) * pow2 (bitlen d - 1)" by (simp add: k_def pow2_add [symmetric])
    also have "\<dots> \<le> pow2 (k + 1) * of_int d" using bd(1) by (simp add: mult_left_mono)
    finally show ?thesis unfolding x using dpos by (simp add: divide_less_eq)
  qed
  have lo: "pow2 (k - 1) < x"
  proof -
    have "pow2 (k - 1) * of_int d < pow2 (k - 1) * pow2 (bitlen d)"
      using bd(2) by (simp add: mult_strict_left_mono)
    also have "\<dots> = pow2 (bitlen n - 1)" by (simp add: k_def pow2_add [symmetric])
    also have "\<dots> \<le> of_int n" by (rule bn(1))
    finally show ?thesis unfolding x using dpos by (simp add: less_divide_eq)
  qed
  have be: "binexp x = (if pow2 k \<le> x then k else k - 1)"
    by (simp add: binexp_def q k_def)
  show "pow2 (binexp x) \<le> x" using lo by (auto simp: be)
  show "x < pow2 (binexp x + 1)" using up by (auto simp: be)
qed

lemma binexp_mono:
  assumes "0 < x" "x \<le> y"
  shows "binexp x \<le> binexp y"
proof -
  have "pow2 (binexp x) < pow2 (binexp y + 1)"
    using binexp_bounds [of x] binexp_bounds [of y] assms by linarith
  then show ?thesis by (simp add: pow2_less_iff)
qed

lemma ulp_exp_mono: "0 < x \<Longrightarrow> x \<le> y \<Longrightarrow> ulp_exp x \<le> ulp_exp y"
  using binexp_mono [of x y] by (auto simp: ulp_exp_def)

lemma below_ulp_bound: "0 < x \<Longrightarrow> x < pow2 (ulp_exp x + 53)"
proof -
  assume x: "0 < x"
  have "pow2 (binexp x + 1) \<le> pow2 (ulp_exp x + 53)"
    by (rule pow2_mono) (simp add: ulp_exp_def)
  with binexp_bounds(2) [OF x] show ?thesis by (rule less_le_trans)
qed

subsection \<open>Rounding is monotone and fixes the representable numbers\<close>

lemma rnd_pos_le_pow2:
  assumes "0 < x" "ulp_exp x < e"
  shows "rnd_pos x \<le> pow2 (e + 52)"
proof -
  let ?u = "ulp_exp x"
  have "x < pow2 (?u + 53)" by (rule below_ulp_bound) (rule assms(1))
  then have "x / pow2 ?u \<le> pow2 53"
    by (simp add: pow2_add divide_le_eq mult.commute)
  then have "x / pow2 ?u \<le> of_int (2 ^ 53)" by (simp add: pow2_def)
  then have "rne (x / pow2 ?u) \<le> 2 ^ 53" by (rule rne_le_int)
  then have "(of_int (rne (x / pow2 ?u)) :: rat) \<le> of_int (2 ^ 53)" by (simp only: of_int_le_iff)
  then have "rnd_pos x \<le> pow2 53 * pow2 ?u"
    by (simp add: rnd_pos_def pow2_def [of 53] mult_right_mono)
  also have "\<dots> = pow2 (?u + 53)" by (simp add: pow2_add [symmetric] add.commute)
  also have "\<dots> \<le> pow2 (e + 52)" using assms(2) by (simp add: pow2_mono)
  finally show ?thesis .
qed

lemma rnd_pos_ge_pow2:
  assumes "0 < y" "- 1074 < ulp_exp y"
  shows "pow2 (ulp_exp y + 52) \<le> rnd_pos y"
proof -
  let ?u = "ulp_exp y"
  from assms(2) have "binexp y = ?u + 52" by (auto simp: ulp_exp_def)
  then have "pow2 (?u + 52) \<le> y" using binexp_bounds(1) [OF assms(1)] by simp
  then have "pow2 52 \<le> y / pow2 ?u" by (simp add: pow2_add le_divide_eq mult.commute)
  then have "of_int (2 ^ 52) \<le> y / pow2 ?u" by (simp add: pow2_def)
  then have "2 ^ 52 \<le> rne (y / pow2 ?u)" by (rule rne_ge_int)
  then have "(of_int (2 ^ 52) :: rat) \<le> of_int (rne (y / pow2 ?u))" by (simp only: of_int_le_iff)
  then have "pow2 52 * pow2 ?u \<le> rnd_pos y"
    by (simp add: rnd_pos_def pow2_def [of 52] mult_right_mono)
  then show ?thesis by (simp add: pow2_add mult.commute)
qed

lemma rnd_pos_mono:
  assumes "0 < x" "x \<le> y"
  shows "rnd_pos x \<le> rnd_pos y"
proof (cases "ulp_exp x = ulp_exp y")
  case True
  have "rne (x / pow2 (ulp_exp y)) \<le> rne (y / pow2 (ulp_exp y))"
    by (rule rne_mono) (simp add: assms(2) divide_right_mono less_imp_le)
  with True show ?thesis by (simp add: rnd_pos_def mult_right_mono less_imp_le)
next
  case False
  with ulp_exp_mono [OF assms] have lt: "ulp_exp x < ulp_exp y" by simp
  moreover have "- 1074 \<le> ulp_exp x" by (simp add: ulp_exp_def)
  ultimately have "pow2 (ulp_exp y + 52) \<le> rnd_pos y"
    using assms by (intro rnd_pos_ge_pow2) auto
  with rnd_pos_le_pow2 [OF assms(1) lt] show ?thesis by linarith
qed

lemma rnd_pos_nonneg: "0 < x \<Longrightarrow> 0 \<le> rnd_pos x"
  using rne_ge_int [of 0 "x / pow2 (ulp_exp x)"] by (simp add: rnd_pos_def less_imp_le)

lemma rnd_0 [simp]: "rnd 0 = 0"
  by (simp add: rnd_def)

lemma rnd_uminus: "rnd (- x) = - rnd x"
  by (simp add: rnd_def)

lemma rnd_mono: "x \<le> y \<Longrightarrow> rnd x \<le> rnd y"
  using rnd_pos_mono [of x y] rnd_pos_mono [of "- y" "- x"]
    rnd_pos_nonneg [of y] rnd_pos_nonneg [of "- x"]
  by (auto simp: rnd_def not_less)

lemma rnd_nonneg: "0 \<le> x \<Longrightarrow> 0 \<le> rnd x"
  using rnd_mono [of 0 x] by simp

lemma rnd_pos_of_scaled_int:
  assumes x: "0 < x" "x = of_int m * pow2 e" and "m \<le> 2 ^ 53" and "- 1074 \<le> e"
  shows "rnd_pos x = x"
proof -
  let ?u = "ulp_exp x"
  have "\<exists>k. x / pow2 ?u = of_int k"
  proof (cases "?u \<le> e")
    case True
    then have "x / pow2 ?u = of_int m * pow2 (e - ?u)" using x(2) by (simp add: pow2_diff)
    also have "\<dots> = of_int (m * 2 ^ nat (e - ?u))" using True by (simp add: pow2_def)
    finally show ?thesis ..
  next
    case False
    with assms(4) have be: "?u + 52 = binexp x" by (auto simp: ulp_exp_def split: if_splits)
    have "(of_int m :: rat) \<le> of_int (2 ^ 53)" using assms(3) by (simp only: of_int_le_iff)
    then have "x \<le> pow2 53 * pow2 e" unfolding x(2) by (simp add: pow2_def [of 53] mult_right_mono)
    then have up: "x \<le> pow2 (e + 53)" by (simp add: pow2_add mult.commute)
    have "pow2 (e + 53) \<le> pow2 (binexp x)" using False be by (simp add: pow2_mono)
    with binexp_bounds(1) [OF x(1)] up have "x = pow2 (?u + 52)" unfolding be by linarith
    then have "x = pow2 52 * pow2 ?u" by (metis pow2_add mult.commute)
    then have "x / pow2 ?u = pow2 52" by (metis nonzero_mult_div_cancel_right pow2_nz)
    also have "\<dots> = of_int (2 ^ 52)" by (simp add: pow2_def)
    finally show ?thesis ..
  qed
  then obtain k where k: "x / pow2 ?u = of_int k" ..
  have "rnd_pos x = x / pow2 ?u * pow2 ?u" unfolding rnd_pos_def k by simp
  then show ?thesis by simp
qed

text \<open>The doubles: multiples of a power of two with a significand of at most 53 bits.\<close>

definition is_float :: "rat \<Rightarrow> bool" where
  "is_float x \<longleftrightarrow> rnd x = x"

lemma is_float_scaled_int:
  assumes "\<bar>m\<bar> \<le> 2 ^ 53" "- 1074 \<le> e"
  shows "is_float (of_int m * pow2 e)"
proof -
  consider "m = 0" | "0 < m" | "m < 0" by linarith
  then show ?thesis
  proof cases
    case 1
    then show ?thesis by (simp add: is_float_def)
  next
    case 2
    then show ?thesis
      using rnd_pos_of_scaled_int [of "of_int m * pow2 e" m e] assms by (simp add: is_float_def rnd_def)
  next
    case 3
    then have "rat_of_int m * pow2 e < 0" by (simp add: mult_neg_pos)
    then show ?thesis
      using rnd_pos_of_scaled_int [of "of_int (- m) * pow2 e" "- m" e] assms
      by (simp add: is_float_def rnd_def)
  qed
qed

lemma is_float_of_int: "\<bar>n\<bar> \<le> 2 ^ 53 \<Longrightarrow> is_float (of_int n)"
  using is_float_scaled_int [of n 0] by (simp add: pow2_def)

lemma is_float_0 [simp]: "is_float 0" and is_float_1 [simp]: "is_float 1" and is_float_2 [simp]: "is_float 2"
  using is_float_of_int [of 0] is_float_of_int [of 1] is_float_of_int [of 2] by simp_all

lemma rnd_pos_is_float:
  assumes "0 < x"
  shows "is_float (rnd_pos x)"
proof -
  let ?u = "ulp_exp x" and ?m = "rne (x / pow2 (ulp_exp x))"
  have "x < pow2 (?u + 53)" by (rule below_ulp_bound) (rule assms)
  then have "x / pow2 ?u \<le> of_int (2 ^ 53)"
    by (simp add: pow2_add divide_le_eq mult.commute pow2_def [of 53])
  then have "?m \<le> 2 ^ 53" by (rule rne_le_int)
  moreover have "0 \<le> ?m" using assms by (intro rne_ge_int) (simp add: less_imp_le)
  ultimately show ?thesis unfolding rnd_pos_def
    by (intro is_float_scaled_int) (auto simp: ulp_exp_def)
qed

lemma is_float_uminus [simp]: "is_float (- x) = is_float x"
  by (simp add: is_float_def rnd_uminus)

lemma rnd_is_float [simp]: "is_float (rnd x)"
  using rnd_pos_is_float [of x] rnd_pos_is_float [of "- x"] by (simp add: rnd_def)

lemma rnd_rnd [simp]: "rnd (rnd x) = rnd x"
  using rnd_is_float [of x] by (simp add: is_float_def)

lemma rnd_ge_float: "is_float a \<Longrightarrow> a \<le> x \<Longrightarrow> a \<le> rnd x"
  using rnd_mono [of a x] by (simp add: is_float_def)

lemma rnd_le_float: "is_float b \<Longrightarrow> x \<le> b \<Longrightarrow> rnd x \<le> b"
  using rnd_mono [of x b] by (simp add: is_float_def)

section \<open>Arithmetic\<close>

definition flit :: "rat \<Rightarrow> pyfloat" where
  \<comment> \<open>a decimal literal of the source\<close>
  "flit q = rnd q"

definition fint :: "int \<Rightarrow> pyfloat" where
  \<comment> \<open>\<open>float(n)\<close>, also the conversion of an \<open>int\<close> operand of a mixed operation\<close>
  "fint n = rnd (of_int n)"

definition fadd :: "pyfloat \<Rightarrow> pyfloat \<Rightarrow> pyfloat" where
  "fadd a b = rnd (a + b)"

definition fsub :: "pyfloat \<Rightarrow> pyfloat \<Rightarrow> pyfloat" where
  "fsub a b = rnd (a - b)"

definition fmul :: "pyfloat \<Rightarrow> pyfloat \<Rightarrow> pyfloat" where
  "fmul a b = rnd (a * b)"

definition idiv :: "int \<Rightarrow> int \<Rightarrow> pyfloat" where
  \<comment> \<open>\<open>a / b\<close> on \<open>int\<close> operands with \<open>b\<close> not zero: the correctly rounded quotient\<close>
  "idiv a b = rnd (of_int a / of_int b)"

lemma float_results [simp]:
  "is_float (flit q)" "is_float (fint n)" "is_float (fadd a b)" "is_float (fsub a b)"
  "is_float (fmul a b)" "is_float (idiv i j)"
  by (simp_all add: flit_def fint_def fadd_def fsub_def fmul_def idiv_def)

lemma fadd_mono: "a \<le> a' \<Longrightarrow> b \<le> b' \<Longrightarrow> fadd a b \<le> fadd a' b'"
  by (simp add: fadd_def rnd_mono add_mono)

lemma fmul_mono: "0 \<le> a \<Longrightarrow> a \<le> a' \<Longrightarrow> 0 \<le> b \<Longrightarrow> b \<le> b' \<Longrightarrow> fmul a b \<le> fmul a' b'"
  by (simp add: fmul_def rnd_mono mult_mono)

lemma fadd_nonneg [simp]: "0 \<le> a \<Longrightarrow> 0 \<le> b \<Longrightarrow> 0 \<le> fadd a b"
  by (simp add: fadd_def rnd_nonneg)

lemma fmul_nonneg [simp]: "0 \<le> a \<Longrightarrow> 0 \<le> b \<Longrightarrow> 0 \<le> fmul a b"
  by (simp add: fmul_def rnd_nonneg)

lemma flit_nonneg [simp]: "0 \<le> q \<Longrightarrow> 0 \<le> flit q"
  by (simp add: flit_def rnd_nonneg)

lemma fint_nonneg [simp]: "0 \<le> n \<Longrightarrow> 0 \<le> fint n"
  by (simp add: fint_def rnd_nonneg)

lemma fint_0 [simp]: "fint 0 = 0"
  by (simp add: fint_def)

lemma fmul_0 [simp]: "fmul 0 b = 0" "fmul a 0 = 0"
  by (simp_all add: fmul_def)

lemma fadd_0_right: "is_float a \<Longrightarrow> fadd a 0 = a"
  by (simp add: fadd_def is_float_def)

text \<open>Adding a non-negative number to a double never lowers it, rounding included.\<close>

lemma fadd_increasing: "is_float a \<Longrightarrow> 0 \<le> b \<Longrightarrow> a \<le> fadd a b"
  by (simp add: fadd_def rnd_ge_float)

lemma idiv_unit_interval:
  assumes "0 \<le> a" "a \<le> b" "0 < b"
  shows "0 \<le> idiv a b" "idiv a b \<le> 1"
proof -
  show "0 \<le> idiv a b" using assms by (simp add: idiv_def rnd_nonneg)
  show "idiv a b \<le> 1" unfolding idiv_def
    by (rule rnd_le_float) (use assms in \<open>simp_all add: divide_le_eq\<close>)
qed

end
