(* ===== verification/PyStr.thy ===== *)
theory PyStr
  imports PyFloat
begin

text \<open>
  Python's \<open>str\<close> and the methods the service calls on it.  A string is a list of code
  points below 256 (\<open>string\<close>, a list of \<open>char\<close>); white space, letters, digits and lower
  case are those Python assigns to these code points.  Code points above 255 are not
  modelled.  The file ends with the word-set Jaccard similarity the service computes in
  several places.
\<close>

section \<open>Characters\<close>

definition cp :: "char \<Rightarrow> nat" where
  "cp c = of_char c"

definition nl :: char where
  "nl = CHR 0x0A"

definition is_space :: "char \<Rightarrow> bool" where
  "is_space c \<longleftrightarrow> (let n = cp c in
     (9 \<le> n \<and> n \<le> 13) \<or> (28 \<le> n \<and> n \<le> 32) \<or> n = 133 \<or> n = 160)"

definition is_digit :: "char \<Rightarrow> bool" where
  "is_digit c \<longleftrightarrow> 48 \<le> cp c \<and> cp c \<le> 57"

definition lower_char :: "char \<Rightarrow> char" where
  "lower_char c = (let n = cp c in
     if (65 \<le> n \<and> n \<le> 90) \<or> (192 \<le> n \<and> n \<le> 222 \<and> n \<noteq> 215) then char_of (n + 32) else c)"

text \<open>The class \<open>\w\<close> of the \<open>re\<close> module: letters, digits of any kind, underscore.\<close>

definition is_word_char :: "char \<Rightarrow> bool" where
  "is_word_char c \<longleftrightarrow> (let n = cp c in
     (48 \<le> n \<and> n \<le> 57) \<or> (65 \<le> n \<and> n \<le> 90) \<or> n = 95 \<or> (97 \<le> n \<and> n \<le> 122) \<or>
     n \<in> {170, 178, 179, 181, 185, 186, 188, 189, 190} \<or> (192 \<le> n \<and> n \<noteq> 215 \<and> n \<noteq> 247))"

section \<open>Methods of str\<close>

definition lower :: "string \<Rightarrow> string" where
  "lower s = map lower_char s"

definition lstrip :: "string \<Rightarrow> string" where
  "lstrip s = dropWhile is_space s"

definition rstrip :: "string \<Rightarrow> string" where
  "rstrip s = rev (dropWhile is_space (rev s))"

definition strip :: "string \<Rightarrow> string" where
  "strip s = rstrip (lstrip s)"

text \<open>\<open>s.lstrip(c)\<close> and \<open>s.rstrip(c)\<close> for a single character.\<close>

definition lstrip_char :: "char \<Rightarrow> string \<Rightarrow> string" where
  "lstrip_char c s = dropWhile (\<lambda>x. x = c) s"

definition rstrip_char :: "char \<Rightarrow> string \<Rightarrow> string" where
  "rstrip_char c s = rev (dropWhile (\<lambda>x. x = c) (rev s))"

text \<open>The guard \<open>not s or not s.strip()\<close>.\<close>

definition blank :: "string \<Rightarrow> bool" where
  "blank s \<longleftrightarrow> s = [] \<or> strip s = []"

text \<open>\<open>s.split()\<close>: the maximal runs of non-space characters; the first argument is the
  current run, reversed.\<close>

fun split_ws_from :: "string \<Rightarrow> string \<Rightarrow> string list" where
  "split_ws_from cur [] = (if cur = [] then [] else [rev cur])"
| "split_ws_from cur (c # cs) =
     (if is_space c then (if cur = [] then split_ws_from [] cs else rev cur # split_ws_from [] cs)
      else split_ws_from (c # cur) cs)"

definition split_ws :: "string \<Rightarrow> string list" where
  "split_ws s = split_ws_from [] s"

text \<open>\<open>s.split("\n\n")\<close>, the first argument again the current piece, reversed.\<close>

fun split_blank_lines_from :: "string \<Rightarrow> string \<Rightarrow> string list" where
  "split_blank_lines_from cur [] = [rev cur]"
| "split_blank_lines_from cur [a] = [rev (a # cur)]"
| "split_blank_lines_from cur (a # b # cs) =
     (if a = nl \<and> b = nl then rev cur # split_blank_lines_from [] cs
      else split_blank_lines_from (a # cur) (b # cs))"

definition split_blank_lines :: "string \<Rightarrow> string list" where
  "split_blank_lines s = split_blank_lines_from [] s"

fun join :: "string \<Rightarrow> string list \<Rightarrow> string" where
  "join sep [] = []"
| "join sep [x] = x"
| "join sep (x # y # zs) = x @ sep @ join sep (y # zs)"

text \<open>\<open>sub in s\<close>.\<close>

definition contains_str :: "string \<Rightarrow> string \<Rightarrow> bool" where
  "contains_str sub s \<longleftrightarrow> sublist sub s"

text \<open>\<open>s.rsplit(c, 1)\<close> when it has two parts: the text before and after the last \<open>c\<close>.\<close>

fun rsplit_last :: "char \<Rightarrow> string \<Rightarrow> (string \<times> string) option" where
  "rsplit_last c [] = None"
| "rsplit_last c (x # xs) =
     (case rsplit_last c xs of
        Some (a, b) \<Rightarrow> Some (x # a, b)
      | None \<Rightarrow> if x = c then Some ([], xs) else None)"

section \<open>Decimal integers\<close>

definition digit_char :: "nat \<Rightarrow> char" where
  "digit_char d = char_of (48 + d)"

fun show_nat :: "nat \<Rightarrow> string" where
  "show_nat n = (if n < 10 then [digit_char n] else show_nat (n div 10) @ [digit_char (n mod 10)])"

declare show_nat.simps [simp del]

text \<open>\<open>str(n)\<close>.\<close>

definition show_int :: "int \<Rightarrow> string" where
  "show_int i = (if i < 0 then CHR ''-'' # show_nat (nat (- i)) else show_nat (nat i))"

text \<open>
  \<open>int(s)\<close> for a string: surrounding white space, an optional sign, then digits, with
  single underscores allowed between digits; \<open>None\<close> where Python raises ValueError.  The
  first argument says whether the previous character was a digit.
\<close>

fun parse_digits :: "bool \<Rightarrow> nat \<Rightarrow> string \<Rightarrow> nat option" where
  "parse_digits prev acc [] = (if prev then Some acc else None)"
| "parse_digits prev acc (c # cs) =
     (if is_digit c then parse_digits True (10 * acc + (cp c - 48)) cs
      else if c = CHR ''_'' \<and> prev then parse_digits False acc cs
      else None)"

definition parse_int :: "string \<Rightarrow> int option" where
  "parse_int s = (case strip s of
     [] \<Rightarrow> None
   | c # cs \<Rightarrow>
       if c = CHR ''-'' then map_option (\<lambda>n. - int n) (parse_digits False 0 cs)
       else if c = CHR ''+'' then map_option int (parse_digits False 0 cs)
       else map_option int (parse_digits False 0 (c # cs)))"

lemma cp_digit_char: "d < 10 \<Longrightarrow> cp (digit_char d) = 48 + d"
  by (simp add: cp_def digit_char_def)

lemma is_digit_digit_char: "d < 10 \<Longrightarrow> is_digit (digit_char d)"
  by (simp add: is_digit_def cp_digit_char)

lemma show_nat_digits: "c \<in> set (show_nat n) \<Longrightarrow> is_digit c"
proof (induction n rule: show_nat.induct)
  case (1 n)
  show ?case
  proof (cases "n < 10")
    case True
    with "1.prems" show ?thesis by (subst (asm) show_nat.simps) (simp add: is_digit_digit_char)
  next
    case False
    with "1.prems" have "c \<in> set (show_nat (n div 10)) \<or> c = digit_char (n mod 10)"
      by (subst (asm) show_nat.simps) auto
    with False "1.IH" show ?thesis by (auto simp: is_digit_digit_char)
  qed
qed

lemma show_nat_not_Nil [simp]: "show_nat n \<noteq> []"
  by (subst show_nat.simps) simp

lemma parse_digits_append:
  "\<forall>c \<in> set xs. is_digit c \<Longrightarrow> xs \<noteq> [] \<Longrightarrow> parse_digits b acc xs = Some v \<Longrightarrow>
   parse_digits b acc (xs @ ys) = parse_digits True v ys"
proof (induction xs arbitrary: b acc)
  case Nil
  then show ?case by simp
next
  case (Cons x xs)
  show ?case
  proof (cases "xs = []")
    case True
    with Cons.prems show ?thesis by simp
  next
    case False
    with Cons.prems Cons.IH [of True "10 * acc + (cp x - 48)"] show ?thesis by simp
  qed
qed

lemma parse_show_nat: "parse_digits False 0 (show_nat n) = Some n"
proof (induction n rule: show_nat.induct)
  case (1 n)
  show ?case
  proof (cases "n < 10")
    case True
    then show ?thesis
      by (subst show_nat.simps) (simp add: is_digit_digit_char cp_digit_char)
  next
    case False
    with 1 have IH: "parse_digits False 0 (show_nat (n div 10)) = Some (n div 10)" by simp
    have "parse_digits False 0 (show_nat (n div 10) @ [digit_char (n mod 10)])
        = parse_digits True (n div 10) [digit_char (n mod 10)]"
      by (rule parse_digits_append) (use IH show_nat_digits in auto)
    also have "\<dots> = Some n" by (simp add: is_digit_digit_char cp_digit_char)
    finally show ?thesis using False by (subst show_nat.simps) simp
  qed
qed

lemma is_digit_not_space: "is_digit c \<Longrightarrow> \<not> is_space c"
  by (auto simp: is_digit_def is_space_def Let_def)

lemma strip_no_space: "\<forall>c \<in> set s. \<not> is_space c \<Longrightarrow> strip s = s"
proof -
  assume a: "\<forall>c \<in> set s. \<not> is_space c"
  have "dropWhile is_space xs = xs" if "set xs \<subseteq> set s" for xs
    using that a by (cases xs) auto
  then show ?thesis by (simp add: strip_def lstrip_def rstrip_def)
qed

lemma show_int_no_space: "c \<in> set (show_int i) \<Longrightarrow> \<not> is_space c"
  by (auto simp: show_int_def is_space_def cp_def Let_def dest: show_nat_digits is_digit_not_space split: if_splits)
     (auto simp: is_digit_def cp_def dest!: show_nat_digits)

lemma show_int_no_hash: "c \<in> set (show_int i) \<Longrightarrow> c \<noteq> CHR ''#''"
  by (auto simp: show_int_def is_digit_def cp_def dest!: show_nat_digits split: if_splits)

lemma parse_show_int: "parse_int (show_int i) = Some i"
proof -
  have st: "strip (show_int i) = show_int i"
    by (rule strip_no_space) (simp add: show_int_no_space)
  show ?thesis
  proof (cases "i < 0")
    case True
    then show ?thesis using st by (simp add: parse_int_def show_int_def parse_show_nat)
  next
    case False
    then have si: "show_int i = show_nat (nat i)" by (simp add: show_int_def)
    obtain c cs where c: "show_nat (nat i) = c # cs" by (cases "show_nat (nat i)") auto
    have "is_digit c" by (rule show_nat_digits [of _ "nat i"]) (simp add: c)
    then have "c \<noteq> CHR ''-''" "c \<noteq> CHR ''+''" by (auto simp: is_digit_def cp_def)
    then show ?thesis using st parse_show_nat [of "nat i"] False
      by (simp add: parse_int_def si c)
  qed
qed

lemma rsplit_last_append:
  "c \<notin> set b \<Longrightarrow> rsplit_last c (a @ c # b) = Some (a, b)"
proof (induction a)
  case Nil
  have "rsplit_last c b = None" using Nil by (induction b) auto
  then show ?case by simp
next
  case (Cons x a)
  then show ?case by simp
qed

section \<open>Word sets and their Jaccard similarity\<close>

text \<open>\<open>set(s.lower().split())\<close>.\<close>

definition words :: "string \<Rightarrow> string set" where
  "words s = set (split_ws (lower s))"

text \<open>\<open>len(a & b) / len(a | b)\<close>, for sets that are not both empty.\<close>

definition jaccard :: "'a set \<Rightarrow> 'a set \<Rightarrow> pyfloat" where
  "jaccard A B = idiv (int (card (A \<inter> B))) (int (card (A \<union> B)))"

lemma finite_words [simp]: "finite (words s)"
  by (simp add: words_def)

lemma jaccard_sym: "jaccard A B = jaccard B A"
  by (simp add: jaccard_def Int_commute Un_commute)

lemma jaccard_bounds:
  assumes "finite A" "finite B" "A \<noteq> {}"
  shows "0 \<le> jaccard A B" "jaccard A B \<le> 1"
proof -
  have "card (A \<inter> B) \<le> card (A \<union> B)" using assms by (intro card_mono) auto
  moreover have "0 < card (A \<union> B)" using assms by (simp add: card_gt_0_iff)
  ultimately show "0 \<le> jaccard A B" "jaccard A B \<le> 1"
    by (auto simp: jaccard_def intro!: idiv_unit_interval)
qed

lemma jaccard_self: "finite A \<Longrightarrow> A \<noteq> {} \<Longrightarrow> jaccard A A = 1"
  using is_float_1 by (simp add: jaccard_def idiv_def is_float_def)

section \<open>repr\<close>

text \<open>
  \<open>repr(s)\<close>: single quotes unless the text holds a single and no double quote; the backslash
  and the quote are escaped, the non-printable code points are written in hexadecimal.
\<close>

definition hex_digit :: "nat \<Rightarrow> char" where
  "hex_digit d = (if d < 10 then char_of (48 + d) else char_of (87 + d))"

definition repr_char :: "char \<Rightarrow> char \<Rightarrow> string" where
  "repr_char q c = (let n = cp c; bs = CHR 0x5C in
     if c = bs \<or> c = q then [bs, c]
     else if n = 9 then [bs, CHR ''t''] else if n = 10 then [bs, CHR ''n'']
     else if n = 13 then [bs, CHR ''r'']
     else if n < 32 \<or> (127 \<le> n \<and> n \<le> 160) \<or> n = 173
     then [bs, CHR ''x'', hex_digit (n div 16), hex_digit (n mod 16)] else [c])"

definition py_repr :: "string \<Rightarrow> string" where
  "py_repr s = (let sq = CHR 0x27; dq = CHR 0x22;
                    q = (if sq \<in> set s \<and> dq \<notin> set s then dq else sq)
                in [q] @ concat (map (repr_char q) s) @ [q])"

end
