(* ===== verification/Records.thy ===== *)
theory Records
  imports PyStr
begin

text \<open>
  The record types and key builders of \<open>schema/generated/py_types.py\<close>, and the two record
  types \<open>db/store.py\<close> adds.  A dataclass is a record whose field names carry the record's
  short name; a field typed \<open>T | None\<close> is an \<open>option\<close>.  A DynamoDB key is the pair of its
  partition key and its sort key.
\<close>

section \<open>Record types\<close>

record idea_record =
  idea_ideaId :: string
  idea_skillBaseName :: string
  idea_org :: string
  idea_body :: string
  idea_status :: string
  idea_corroborationVersion :: int
  idea_foldedIntoRev :: "int option"
  idea_invalidAt :: "int option"
  idea_supersededBy :: "string option"
  idea_supersedes :: "string list"
  idea_authored :: "bool option"
  idea_authorityKind :: "string option"
  idea_refines :: "string option"
  idea_revivedAt :: "int option"
  idea_legacyRecurrenceFold :: "bool option"
  idea_sourceRef :: "string option"
  idea_scopeTag :: "string option"
  idea_authorId :: "string option"
  idea_verificationRung :: "string option"

text \<open>The record built from the required fields alone, the others at their defaults.\<close>

definition mk_idea :: "string \<Rightarrow> string \<Rightarrow> string \<Rightarrow> string \<Rightarrow> string \<Rightarrow> int \<Rightarrow> idea_record" where
  "mk_idea ideaId skillBaseName org body status version =
     \<lparr>idea_ideaId = ideaId, idea_skillBaseName = skillBaseName, idea_org = org, idea_body = body,
      idea_status = status, idea_corroborationVersion = version, idea_foldedIntoRev = None,
      idea_invalidAt = None, idea_supersededBy = None, idea_supersedes = [], idea_authored = None,
      idea_authorityKind = None, idea_refines = None, idea_revivedAt = None,
      idea_legacyRecurrenceFold = None, idea_sourceRef = None, idea_scopeTag = None,
      idea_authorId = None, idea_verificationRung = None\<rparr>"

record idea_source =
  src_ideaId :: "string option"
  src_sourceId :: "string option"
  src_org :: "string option"
  src_sessionId :: "string option"
  src_segmentId :: "string option"
  src_seq :: "int option"
  src_prRef :: "string option"
  src_anchors :: "string option"
  src_authorityKind :: "string option"
  src_verificationRung :: "string option"
  src_authorId :: "string option"

definition mk_source :: "string \<Rightarrow> string \<Rightarrow> string \<Rightarrow> idea_source" where
  "mk_source ideaId sourceId org =
     \<lparr>src_ideaId = Some ideaId, src_sourceId = Some sourceId, src_org = Some org,
      src_sessionId = None, src_segmentId = None, src_seq = None, src_prRef = None,
      src_anchors = None, src_authorityKind = None, src_verificationRung = None,
      src_authorId = None\<rparr>"

record golden_case =
  gold_caseId :: string
  gold_skillBaseName :: string
  gold_org :: string
  gold_before :: string
  gold_after :: string
  gold_ideaBody :: string
  gold_createdAt :: "int option"

record anchor_record =
  anchor_ideaId :: string
  anchor_ownerRepo :: string
  anchor_file :: string
  anchor_symbol :: string
  anchor_org :: string
  anchor_active :: bool

record revision_record =
  rev_baseName :: string
  rev_variantId :: string
  rev_rev :: int
  rev_body :: string
  rev_org :: string
  rev_description :: "string option"
  rev_createdBy :: "string option"
  rev_createdAt :: "int option"
  rev_ideaId :: "string option"

record true_pointer =
  ptr_baseName :: string
  ptr_variantId :: string
  ptr_rev :: int
  ptr_org :: string
  ptr_updatedAt :: "int option"

record branch_session =
  bs_ownerRepo :: string
  bs_branch :: string
  bs_org :: string
  bs_sessionId :: string
  bs_turnStart :: "int option"
  bs_turnEnd :: "int option"
  bs_distilledContext :: "string option"
  bs_pushedAt :: "int option"
  bs_ttlAt :: "int option"

record processed_pr =
  pr_org :: string
  pr_owner_repo :: string
  pr_pr_number :: int
  pr_processed_at :: int

record verify_event =
  ev_org :: string
  ev_idea_id :: string
  ev_seq :: int
  ev_verdict :: string
  ev_pr_ref :: "string option"
  ev_authority :: "string option"
  ev_recorded_at :: int

section \<open>Key builders\<close>

text \<open>\<open>s.zfill(w)\<close> for a decimal: zeros on the left, after a sign.\<close>

definition zfill :: "nat \<Rightarrow> string \<Rightarrow> string" where
  "zfill w s = (case s of
     [] \<Rightarrow> replicate w CHR ''0''
   | c # cs \<Rightarrow> if c = CHR ''-'' \<or> c = CHR ''+'' then c # replicate (w - length s) CHR ''0'' @ cs
               else replicate (w - length s) CHR ''0'' @ s)"

definition scope_pk :: "string \<Rightarrow> string" where
  "scope_pk org = ''SCOPE#org#'' @ org"

definition skill_key :: "string \<Rightarrow> string \<Rightarrow> string \<times> string" where
  "skill_key org baseName = (scope_pk org, ''SKILL#'' @ baseName)"

definition revision_key :: "string \<Rightarrow> string \<Rightarrow> int \<Rightarrow> string \<times> string" where
  "revision_key org variantId n =
     (scope_pk org, ''SKILL#'' @ variantId @ ''#r'' @ zfill 12 (show_int n))"

definition true_pointer_key :: "string \<Rightarrow> string \<Rightarrow> string \<times> string" where
  "true_pointer_key org baseName = (scope_pk org, ''SKILL#'' @ baseName @ ''#TRUE'')"

definition idea_key :: "string \<Rightarrow> string \<Rightarrow> string \<Rightarrow> string \<times> string" where
  "idea_key org skillBaseName ideaId =
     (scope_pk org, ''IDEA#'' @ skillBaseName @ ''#'' @ ideaId)"

definition idea_source_key :: "string \<Rightarrow> string \<Rightarrow> string \<Rightarrow> string \<times> string" where
  "idea_source_key org ideaId sourceId = (scope_pk org, ''IDEASRC#'' @ ideaId @ ''#'' @ sourceId)"

definition golden_case_key :: "string \<Rightarrow> string \<Rightarrow> string \<Rightarrow> string \<times> string" where
  "golden_case_key org skillBaseName caseId =
     (scope_pk org, ''IDEAGOLD#'' @ skillBaseName @ ''#'' @ caseId)"

definition anchor_key :: "string \<Rightarrow> string \<Rightarrow> string \<Rightarrow> string \<Rightarrow> string \<Rightarrow> string \<times> string" where
  "anchor_key org ownerRepo file symbol ideaId =
     (scope_pk org, ''ANCHOR#'' @ ownerRepo @ ''#'' @ file @ ''#'' @ symbol @ ''#'' @ ideaId)"

definition processed_pr_key :: "string \<Rightarrow> string \<Rightarrow> int \<Rightarrow> string \<times> string" where
  "processed_pr_key org ownerRepo prNumber =
     (scope_pk org, ''PROCESSED#'' @ ownerRepo @ ''#'' @ show_int prNumber)"

definition verify_event_key :: "string \<Rightarrow> string \<Rightarrow> int \<Rightarrow> string \<times> string" where
  "verify_event_key org ideaId seq =
     (scope_pk org, ''VERIFY#'' @ ideaId @ ''#'' @ zfill 12 (show_int seq))"

definition branch_session_key :: "string \<Rightarrow> string \<Rightarrow> string \<Rightarrow> string \<times> string" where
  "branch_session_key org ownerRepo branch =
     (scope_pk org, ''BSLINK#'' @ ownerRepo @ ''#'' @ branch)"

lemma scope_pk_inj [simp]: "scope_pk a = scope_pk b \<longleftrightarrow> a = b"
  by (simp add: scope_pk_def)

text \<open>
  A sort key is parsed back uniquely when the separator does not occur in the part before it.
\<close>

lemma sep_split_inj:
  assumes "c \<notin> set a" "c \<notin> set a'"
  shows "a @ c # b = a' @ c # b' \<longleftrightarrow> a = a' \<and> b = b'"
proof
  assume eq: "a @ c # b = a' @ c # b'"
  have "takeWhile (\<lambda>x. x \<noteq> c) (a @ c # b) = a" "takeWhile (\<lambda>x. x \<noteq> c) (a' @ c # b') = a'"
    using assms by (subst takeWhile_append2; auto)+
  then show "a = a' \<and> b = b'" using eq by auto
qed simp

lemma idea_key_inj:
  assumes "CHR ''#'' \<notin> set sk" "CHR ''#'' \<notin> set sk'"
  shows "idea_key org sk i = idea_key org' sk' i' \<longleftrightarrow> org = org' \<and> sk = sk' \<and> i = i'"
  using sep_split_inj [OF assms] by (auto simp: idea_key_def)

lemma processed_pr_key_inj:
  "processed_pr_key org repo n = processed_pr_key org' repo' n' \<longleftrightarrow> org = org' \<and> repo = repo' \<and> n = n'"
proof
  assume eq: "processed_pr_key org repo n = processed_pr_key org' repo' n'"
  then have sk: "repo @ CHR ''#'' # show_int n = repo' @ CHR ''#'' # show_int n'"
    by (simp add: processed_pr_key_def)
  have a: "rsplit_last CHR ''#'' (rp @ CHR ''#'' # show_int k) = Some (rp, show_int k)" for rp k
    by (rule rsplit_last_append) (metis show_int_no_hash)
  have "Some (repo, show_int n) = Some (repo', show_int n')"
    using a [of repo n] a [of repo' n'] unfolding sk by (rule trans [OF sym])
  then have r: "repo = repo'" and "show_int n = show_int n'" by simp_all
  then have "parse_int (show_int n) = parse_int (show_int n')" by simp
  then have "n = n'" by (simp add: parse_show_int)
  with r show "org = org' \<and> repo = repo' \<and> n = n'" using eq by (simp add: processed_pr_key_def)
qed simp

end
