(* ===== verification/Interfaces.thy ===== *)
theory Interfaces
  imports PyFloat "HOL-Library.Option_ord"
begin

text \<open>
  The interfaces between the stores and their clients, as locales.  \<open>upsert_store\<close> is a
  table written by key; \<open>occ_cell\<close> is a table with a conditional write (optimistic
  concurrency control); \<open>occ_clock\<close> adds that a write advances the version it was
  conditioned on.  \<open>spot_check_gate\<close> is the calibration gate the service keeps in three
  places: a table of spot-checked verdicts that opens once the false-positive rate over
  enough samples is below a ceiling.  The components that provide the operations interpret them.
\<close>

section \<open>Tables written by key\<close>

locale upsert_store =
  fixes put :: "'r \<Rightarrow> 's \<Rightarrow> 's"
    and get :: "'k \<Rightarrow> 's \<Rightarrow> 'r option"
    and key :: "'r \<Rightarrow> 'k"
    and ok :: "'r \<Rightarrow> bool"
  assumes get_put: "ok r \<Longrightarrow> get k (put r s) = (if k = key r then Some r else get k s)"
begin

lemma get_put_same: "ok r \<Longrightarrow> get (key r) (put r s) = Some r"
  by (simp add: get_put)

lemma get_put_other: "ok r \<Longrightarrow> k \<noteq> key r \<Longrightarrow> get k (put r s) = get k s"
  by (simp add: get_put)

lemma put_replaces:
  "ok r \<Longrightarrow> ok r' \<Longrightarrow> key r = key r' \<Longrightarrow> get k (put r (put r' s)) = get k (put r s)"
  by (simp add: get_put)

lemma puts_commute:
  "ok r \<Longrightarrow> ok r' \<Longrightarrow> key r \<noteq> key r' \<Longrightarrow> get k (put r (put r' s)) = get k (put r' (put r s))"
  by (simp add: get_put)

text \<open>After a sequence of writes a key holds the last record written under it.\<close>

lemma get_puts:
  "\<forall>r \<in> set rs. ok r \<Longrightarrow>
   get k (fold put rs s) =
     (case find (\<lambda>r. key r = k) (rev rs) of Some r \<Rightarrow> Some r | None \<Rightarrow> get k s)"
proof (induction rs arbitrary: s rule: rev_induct)
  case Nil
  then show ?case by simp
next
  case (snoc r rs)
  then show ?case by (auto simp: get_put)
qed

lemma puts_keep_present:
  "\<forall>r \<in> set rs. ok r \<Longrightarrow> get k s \<noteq> None \<Longrightarrow> get k (fold put rs s) \<noteq> None"
  by (simp add: get_puts split: option.splits)

end

section \<open>Conditional writes\<close>

text \<open>
  \<open>read k s\<close> is the version a reader of key \<open>k\<close> sees; \<open>write r v s\<close> writes \<open>r\<close> on the
  condition that the version is still \<open>v\<close>, and is \<open>None\<close> when it is not.
\<close>

locale occ_cell =
  fixes read :: "'k \<Rightarrow> 's \<Rightarrow> 'v"
    and cwrite :: "'r \<Rightarrow> 'v \<Rightarrow> 's \<Rightarrow> 's option"
    and key :: "'r \<Rightarrow> 'k"
    and ver :: "'r \<Rightarrow> 'v"
    and ok :: "'r \<Rightarrow> bool"
  assumes cwrite_iff: "ok r \<Longrightarrow> cwrite r v s \<noteq> None \<longleftrightarrow> read (key r) s = v"
    and cwrite_read:
      "ok r \<Longrightarrow> cwrite r v s = Some s' \<Longrightarrow> read k s' = (if k = key r then ver r else read k s)"
begin

lemma cwrite_current: "ok r \<Longrightarrow> read (key r) s = v \<Longrightarrow> \<exists>s'. cwrite r v s = Some s'"
  using cwrite_iff [of r v s] by auto

lemma cwrite_stale: "ok r \<Longrightarrow> read (key r) s \<noteq> v \<Longrightarrow> cwrite r v s = None"
  using cwrite_iff [of r v s] by auto

text \<open>
  No lost update: of two writers that read the same version, the second one fails once the
  first has written a record with another version.
\<close>

lemma second_writer_fails:
  assumes "ok r" "ok r'" "key r' = key r" "cwrite r v s = Some s'" "ver r \<noteq> v"
  shows "cwrite r' v s' = None"
proof (rule cwrite_stale)
  show "ok r'" by fact
  show "read (key r') s' \<noteq> v" using cwrite_read [OF assms(1,4)] assms(3,5) by simp
qed

text \<open>A run of write attempts; a failed one leaves the state as it is.\<close>

fun attempts :: "('r \<times> 'v) list \<Rightarrow> 's \<Rightarrow> 's" where
  "attempts [] s = s"
| "attempts ((r, v) # ws) s =
     (case cwrite r v s of None \<Rightarrow> attempts ws s | Some s' \<Rightarrow> attempts ws s')"

lemma attempts_other_key:
  "\<forall>(r, v) \<in> set ws. ok r \<and> key r \<noteq> k \<Longrightarrow> read k (attempts ws s) = read k s"
proof (induction ws arbitrary: s)
  case Nil
  then show ?case by simp
next
  case (Cons w ws)
  then show ?case by (cases w) (auto simp: cwrite_read split: option.splits)
qed

end

locale occ_clock = occ_cell read cwrite key ver ok
  for read :: "'k \<Rightarrow> 's \<Rightarrow> 'v::linorder"
    and cwrite :: "'r \<Rightarrow> 'v \<Rightarrow> 's \<Rightarrow> 's option"
    and key :: "'r \<Rightarrow> 'k" and ver :: "'r \<Rightarrow> 'v" and ok :: "'r \<Rightarrow> bool" +
  fixes advances :: "'r \<Rightarrow> 'v \<Rightarrow> bool"
  assumes advances_less: "advances r v \<Longrightarrow> v < ver r"
begin

lemma cwrite_advances:
  assumes "ok r" "advances r v" "cwrite r v s = Some s'"
  shows "read (key r) s < read (key r) s'"
  using cwrite_read [OF assms(1,3)] advances_less [OF assms(2)] cwrite_iff [OF assms(1), of v s] assms(3)
  by simp

text \<open>Versions never go back along a run of attempts.\<close>

lemma attempts_monotone:
  "\<forall>(r, v) \<in> set ws. ok r \<and> advances r v \<Longrightarrow> read k s \<le> read k (attempts ws s)"
proof (induction ws arbitrary: s)
  case Nil
  then show ?case by simp
next
  case (Cons w ws)
  obtain r v where w: "w = (r, v)" by fastforce
  show ?case
  proof (cases "cwrite r v s")
    case None
    then show ?thesis using Cons w by simp
  next
    case (Some s')
    have rv: "ok r" "advances r v" using Cons.prems w by auto
    have "read k s \<le> read k s'"
      using cwrite_read [OF rv(1) Some, of k] cwrite_advances [OF rv Some] by (cases "k = key r") auto
    also have "\<dots> \<le> read k (attempts ws s')" using Cons by simp
    finally show ?thesis using Some w by simp
  qed
qed

end

section \<open>Calibration gates over spot-checked verdicts\<close>

text \<open>\<open>sum(1 for v in checks.values() if not v)\<close> and the rate over all checks.\<close>

definition false_positives :: "(string, bool) dict \<Rightarrow> nat" where
  "false_positives d = length (filter (\<lambda>(_, tp). \<not> tp) d)"

definition spot_rate :: "(string, bool) dict \<Rightarrow> pyfloat" where
  "spot_rate d = idiv (int (false_positives d)) (int (length d))"

lemma false_positives_le: "false_positives d \<le> length d"
  by (simp add: false_positives_def)

lemma false_positives_dset_new:
  "dget d k = None \<Longrightarrow> false_positives (dset k tp d) = false_positives d + (if tp then 0 else 1)"
  by (induction d) (auto simp: false_positives_def)

lemma false_positives_dset_old:
  "dget d k = Some b \<Longrightarrow>
   false_positives (dset k tp d) + (if b then 0 else 1) = false_positives d + (if tp then 0 else 1)"
  by (induction d) (auto simp: false_positives_def split: if_splits)

lemma idiv_mono:
  assumes "a * d \<le> c * b" "0 < b" "0 < d"
  shows "idiv a b \<le> idiv c d"
proof -
  have "(of_int (a * d) :: rat) \<le> of_int (c * b)" using assms(1) by (simp only: of_int_le_iff)
  then have "(of_int a / of_int b :: rat) \<le> of_int c / of_int d" using assms(2,3) by (simp add: field_simps)
  then show ?thesis by (simp add: idiv_def rnd_mono)
qed

lemma spot_rate_bounds: "d \<noteq> [] \<Longrightarrow> 0 \<le> spot_rate d \<and> spot_rate d \<le> 1"
  using idiv_unit_interval [of "int (false_positives d)" "int (length d)"] false_positives_le [of d]
  by (simp add: spot_rate_def)

text \<open>Recording a confirmed false positive never lowers the rate, a true positive never
  raises it.\<close>

lemma spot_rate_false_positive:
  assumes "d \<noteq> []"
  shows "spot_rate d \<le> spot_rate (dset k False d)"
proof (cases "dget d k")
  case None
  have "int (false_positives d) * int (Suc (length d)) \<le> int (Suc (false_positives d)) * int (length d)"
    using false_positives_le [of d] by (simp add: algebra_simps)
  then show ?thesis using assms None unfolding spot_rate_def
    by (intro idiv_mono) (simp_all add: length_dset false_positives_dset_new)
next
  case (Some b)
  then have "false_positives d \<le> false_positives (dset k False d)"
    using false_positives_dset_old [OF Some, of False] by (simp split: if_splits)
  then show ?thesis using assms Some unfolding spot_rate_def
    by (intro idiv_mono) (simp_all add: length_dset mult_right_mono)
qed

lemma spot_rate_true_positive:
  assumes "d \<noteq> []"
  shows "spot_rate (dset k True d) \<le> spot_rate d"
proof (cases "dget d k")
  case None
  have "int (false_positives d) * int (length d) \<le> int (false_positives d) * int (Suc (length d))"
    by (simp add: mult_left_mono)
  then show ?thesis using assms None unfolding spot_rate_def
    by (intro idiv_mono) (simp_all add: length_dset false_positives_dset_new)
next
  case (Some b)
  then have "false_positives (dset k True d) \<le> false_positives d"
    using false_positives_dset_old [OF Some, of True] by (simp split: if_splits)
  then show ?thesis using assms Some unfolding spot_rate_def
    by (intro idiv_mono) (simp_all add: length_dset mult_right_mono)
qed

locale spot_check_gate =
  fixes checks :: "'g \<Rightarrow> (string, bool) dict"
    and record_check :: "string \<Rightarrow> bool \<Rightarrow> 'g \<Rightarrow> 'g"
    and is_open :: "'g \<Rightarrow> bool"
    and min_samples :: "'g \<Rightarrow> int"
    and ceiling :: "'g \<Rightarrow> pyfloat"
  assumes record_checks: "checks (record_check v fp g) = dset v (\<not> fp) (checks g)"
    and record_min: "min_samples (record_check v fp g) = min_samples g"
    and record_ceiling: "ceiling (record_check v fp g) = ceiling g"
    and open_iff: "checks g \<noteq> [] \<Longrightarrow>
      is_open g \<longleftrightarrow> min_samples g \<le> int (length (checks g)) \<and> spot_rate (checks g) < ceiling g"
begin

lemma checks_recorded_not_Nil: "checks (record_check v fp g) \<noteq> []"
  by (cases "checks g") (auto simp: record_checks)

text \<open>Checking the same verdict again adds no sample.\<close>

lemma recheck_adds_no_sample:
  "length (checks (record_check v fp (record_check v fp' g))) = length (checks (record_check v fp' g))"
  by (simp add: record_checks dict_simps length_dset)

lemma true_positive_keeps_open:
  assumes "checks g \<noteq> []" "is_open g"
  shows "is_open (record_check v False g)"
  using assms spot_rate_true_positive [OF assms(1), of v]
  by (auto simp: open_iff record_checks record_min record_ceiling length_dset checks_recorded_not_Nil
      dest: order_le_less_trans)

lemma false_positive_never_opens:
  assumes "checks g \<noteq> []" "min_samples g \<le> int (length (checks g))" "\<not> is_open g"
  shows "\<not> is_open (record_check v True g)"
  using assms spot_rate_false_positive [OF assms(1), of v]
  by (auto simp: open_iff record_checks record_min record_ceiling checks_recorded_not_Nil
      dest: order_le_less_trans)

text \<open>A gate with no sample recorded stays shut until the minimum is reached.\<close>

lemma shut_below_minimum:
  "checks g \<noteq> [] \<Longrightarrow> int (length (checks g)) < min_samples g \<Longrightarrow> \<not> is_open g"
  by (simp add: open_iff)

end

end
