(* ===== verification/LearningStore.thy ===== *)
theory LearningStore
  imports Records Interfaces
begin

text \<open>
  The persistence layer \<open>db/store.py\<close>: \<open>InMemoryLearningStore\<close>, method by method.  Its
  state is the record \<open>learning_store\<close>, one field per dictionary of the class.  A method
  that can raise or write is an operation of type \<open>py\<close>; a read is a function of the
  store.  Two locales state what the components above rely on: \<open>upsert_store\<close> (a write by
  key is read back, other keys are untouched) and \<open>occ_cell\<close> (a conditional write succeeds
  exactly on the version the writer read).
\<close>

section \<open>State\<close>

record learning_store =
  ls_ideas :: "(string \<times> string \<times> string, idea_record) dict"
  ls_golden_cases :: "(string \<times> string \<times> string, golden_case) dict"
  ls_idea_sources :: "(string \<times> string \<times> string, idea_source) dict"
  ls_anchors :: "anchor_record list"
  ls_processed_prs :: "(string \<times> string \<times> int, processed_pr) dict"
  ls_verify_events :: "(string \<times> string, verify_event list) dict"
  ls_branch_links :: "(string \<times> string \<times> string, branch_session) dict"

definition empty_store :: learning_store where
  "empty_store = \<lparr>ls_ideas = [], ls_golden_cases = [], ls_idea_sources = [], ls_anchors = [],
     ls_processed_prs = [], ls_verify_events = [], ls_branch_links = []\<rparr>"

text \<open>Every write method first rejects a blank organisation.\<close>

definition org_guard :: "string \<Rightarrow> string \<Rightarrow> ('s, unit) py" where
  "org_guard org operation =
     (if blank org then praise (OrgGuardError operation) else pret ())"

section \<open>Ideas\<close>

definition idea_pk :: "idea_record \<Rightarrow> string \<times> string \<times> string" where
  "idea_pk r = (idea_org r, idea_skillBaseName r, idea_ideaId r)"

definition put_idea :: "idea_record \<Rightarrow> (learning_store, unit) py" where
  "put_idea r = pbind (org_guard (idea_org r) ''put_idea'') (\<lambda>_.
     pmodify (\<lambda>s. s\<lparr>ls_ideas := dset (idea_pk r) r (ls_ideas s)\<rparr>))"

definition version_at :: "(string \<times> string \<times> string) \<Rightarrow> learning_store \<Rightarrow> int" where
  "version_at k s =
     (case dget (ls_ideas s) k of Some c \<Rightarrow> idea_corroborationVersion c | None \<Rightarrow> - 1)"

definition put_idea_conditional :: "idea_record \<Rightarrow> int \<Rightarrow> (learning_store, unit) py" where
  "put_idea_conditional r expected_version =
     pbind (org_guard (idea_org r) ''put_idea_conditional'') (\<lambda>_ s.
       let current_version = version_at (idea_pk r) s in
       if current_version \<noteq> expected_version
       then (Inl (VersionConflictError (idea_ideaId r) expected_version current_version), s)
       else (Inr (), s\<lparr>ls_ideas := dset (idea_pk r) r (ls_ideas s)\<rparr>))"

definition get_idea :: "string \<Rightarrow> string \<Rightarrow> string \<Rightarrow> learning_store \<Rightarrow> idea_record option" where
  "get_idea org skill_base_name idea_id s = dget (ls_ideas s) (org, skill_base_name, idea_id)"

definition list_current_ideas :: "string \<Rightarrow> string \<Rightarrow> learning_store \<Rightarrow> idea_record list" where
  "list_current_ideas org skill_base_name s =
     dvals_where (\<lambda>(o', sbn, _) r. o' = org \<and> sbn = skill_base_name \<and> idea_invalidAt r = None)
       (ls_ideas s)"

definition list_all_ideas_for_org :: "string \<Rightarrow> learning_store \<Rightarrow> idea_record list" where
  "list_all_ideas_for_org org s = dvals_where (\<lambda>(o', _, _) _. o' = org) (ls_ideas s)"

definition authored_kind :: "string option \<Rightarrow> bool" where
  "authored_kind k \<longleftrightarrow> k = Some ''user_directive'' \<or> k = Some ''authored_import''"

text \<open>\<open>authorityKind in {user_directive, authored_import} or authored\<close>.\<close>

definition is_authored :: "idea_record \<Rightarrow> bool" where
  "is_authored r \<longleftrightarrow> authored_kind (idea_authorityKind r) \<or> idea_authored r = Some True"

definition list_skills_with_folded_non_authored_ideas ::
    "learning_store \<Rightarrow> (string \<times> string) list" where
  "list_skills_with_folded_non_authored_ideas s =
     foldl (\<lambda>results ((org, sbn, _), r).
         if idea_invalidAt r \<noteq> None then results
         else if idea_status r \<noteq> ''folded'' then results
         else if is_authored r then results
         else if (org, sbn) \<in> set results then results
         else results @ [(org, sbn)])
       [] (ls_ideas s)"

section \<open>Idea sources and golden cases\<close>

definition put_idea_source :: "idea_source \<Rightarrow> (learning_store, unit) py" where
  "put_idea_source r =
     pbind (org_guard (case src_org r of Some g \<Rightarrow> g | None \<Rightarrow> []) ''put_idea_source'') (\<lambda>_.
       case (src_org r, src_ideaId r, src_sourceId r) of
         (Some g, Some i, Some sid) \<Rightarrow>
           if i = [] \<or> sid = [] then praise ValueError
           else pmodify (\<lambda>s. s\<lparr>ls_idea_sources := dset (g, i, sid) r (ls_idea_sources s)\<rparr>)
       | _ \<Rightarrow> praise ValueError)"

definition get_idea_source :: "string \<Rightarrow> string \<Rightarrow> string \<Rightarrow> learning_store \<Rightarrow> idea_source option" where
  "get_idea_source org idea_id source_id s = dget (ls_idea_sources s) (org, idea_id, source_id)"

definition list_idea_sources :: "string \<Rightarrow> string \<Rightarrow> learning_store \<Rightarrow> idea_source list" where
  "list_idea_sources org idea_id s =
     dvals_where (\<lambda>(o', iid, _) _. o' = org \<and> iid = idea_id) (ls_idea_sources s)"

definition gold_pk :: "golden_case \<Rightarrow> string \<times> string \<times> string" where
  "gold_pk r = (gold_org r, gold_skillBaseName r, gold_caseId r)"

definition put_golden_case :: "golden_case \<Rightarrow> (learning_store, unit) py" where
  "put_golden_case r = pbind (org_guard (gold_org r) ''put_golden_case'') (\<lambda>_.
     pmodify (\<lambda>s. s\<lparr>ls_golden_cases := dset (gold_pk r) r (ls_golden_cases s)\<rparr>))"

definition get_golden_case :: "string \<Rightarrow> string \<Rightarrow> string \<Rightarrow> learning_store \<Rightarrow> golden_case option" where
  "get_golden_case org skill_base_name case_id s =
     dget (ls_golden_cases s) (org, skill_base_name, case_id)"

section \<open>Anchor index\<close>

text \<open>The identity of an anchor row; \<open>active\<close> is not part of it.\<close>

definition anchor_pk :: "anchor_record \<Rightarrow> string \<times> string \<times> string \<times> string \<times> string" where
  "anchor_pk a = (anchor_org a, anchor_ownerRepo a, anchor_file a, anchor_symbol a, anchor_ideaId a)"

fun upsert_anchor :: "anchor_record \<Rightarrow> anchor_record list \<Rightarrow> anchor_record list" where
  "upsert_anchor r [] = [r]"
| "upsert_anchor r (x # xs) =
     (if anchor_pk x = anchor_pk r then r # xs else x # upsert_anchor r xs)"

definition put_anchor :: "anchor_record \<Rightarrow> (learning_store, unit) py" where
  "put_anchor r = pbind (org_guard (anchor_org r) ''put_anchor'') (\<lambda>_.
     pmodify (\<lambda>s. s\<lparr>ls_anchors := upsert_anchor r (ls_anchors s)\<rparr>))"

definition get_anchors_for_idea ::
    "string \<Rightarrow> string \<Rightarrow> string \<Rightarrow> learning_store \<Rightarrow> anchor_record list" where
  "get_anchors_for_idea org owner_repo idea_id s =
     filter (\<lambda>a. anchor_org a = org \<and> anchor_ownerRepo a = owner_repo \<and> anchor_ideaId a = idea_id)
       (ls_anchors s)"

definition get_ideas_by_anchor ::
    "string \<Rightarrow> string \<Rightarrow> string \<Rightarrow> string \<Rightarrow> learning_store \<Rightarrow> string list" where
  "get_ideas_by_anchor org owner_repo file symbol s =
     map anchor_ideaId
       (filter (\<lambda>a. anchor_org a = org \<and> anchor_ownerRepo a = owner_repo \<and> anchor_file a = file \<and>
                  anchor_symbol a = symbol \<and> anchor_active a) (ls_anchors s))"

section \<open>Processed-PR cursor, audit events, branch links\<close>

definition mark_pr_processed :: "processed_pr \<Rightarrow> (learning_store, unit) py" where
  "mark_pr_processed r = pbind (org_guard (pr_org r) ''mark_pr_processed'') (\<lambda>_.
     pmodify (\<lambda>s. s\<lparr>ls_processed_prs :=
       dset (pr_org r, pr_owner_repo r, pr_pr_number r) r (ls_processed_prs s)\<rparr>))"

definition is_pr_processed :: "string \<Rightarrow> string \<Rightarrow> int \<Rightarrow> learning_store \<Rightarrow> bool" where
  "is_pr_processed org owner_repo pr_number s \<longleftrightarrow>
     dget (ls_processed_prs s) (org, owner_repo, pr_number) \<noteq> None"

definition events_at :: "(string \<times> string) \<Rightarrow> learning_store \<Rightarrow> verify_event list" where
  "events_at k s = (case dget (ls_verify_events s) k of Some es \<Rightarrow> es | None \<Rightarrow> [])"

definition append_verify_event :: "verify_event \<Rightarrow> (learning_store, unit) py" where
  "append_verify_event r = pbind (org_guard (ev_org r) ''append_verify_event'') (\<lambda>_.
     pmodify (\<lambda>s. s\<lparr>ls_verify_events :=
       dset (ev_org r, ev_idea_id r) (events_at (ev_org r, ev_idea_id r) s @ [r]) (ls_verify_events s)\<rparr>))"

definition list_verify_events :: "string \<Rightarrow> string \<Rightarrow> learning_store \<Rightarrow> verify_event list" where
  "list_verify_events org idea_id s = sort_key ev_seq (events_at (org, idea_id) s)"

definition put_branch_session_link :: "branch_session \<Rightarrow> (learning_store, unit) py" where
  "put_branch_session_link r = pbind (org_guard (bs_org r) ''put_branch_session_link'') (\<lambda>_.
     pmodify (\<lambda>s. s\<lparr>ls_branch_links :=
       dset (bs_org r, bs_ownerRepo r, bs_branch r) r (ls_branch_links s)\<rparr>))"

definition get_branch_session_link ::
    "string \<Rightarrow> string \<Rightarrow> string \<Rightarrow> learning_store \<Rightarrow> branch_session option" where
  "get_branch_session_link org owner_repo branch s =
     dget (ls_branch_links s) (org, owner_repo, branch)"

section \<open>Evaluation of the write operations\<close>

lemma org_guard_apply [py_simps]:
  "org_guard org operation s = (if blank org then Inl (OrgGuardError operation) else Inr (), s)"
  by (simp add: org_guard_def py_simps)

lemma put_idea_apply [py_simps]:
  "put_idea r s = (if blank (idea_org r) then (Inl (OrgGuardError ''put_idea''), s)
     else (Inr (), s\<lparr>ls_ideas := dset (idea_pk r) r (ls_ideas s)\<rparr>))"
  by (simp add: put_idea_def py_simps)

lemma put_idea_conditional_apply [py_simps]:
  "put_idea_conditional r v s =
     (if blank (idea_org r) then (Inl (OrgGuardError ''put_idea_conditional''), s)
      else if version_at (idea_pk r) s \<noteq> v
      then (Inl (VersionConflictError (idea_ideaId r) v (version_at (idea_pk r) s)), s)
      else (Inr (), s\<lparr>ls_ideas := dset (idea_pk r) r (ls_ideas s)\<rparr>))"
  by (simp add: put_idea_conditional_def py_simps Let_def)

lemma put_golden_case_apply [py_simps]:
  "put_golden_case r s = (if blank (gold_org r) then (Inl (OrgGuardError ''put_golden_case''), s)
     else (Inr (), s\<lparr>ls_golden_cases := dset (gold_pk r) r (ls_golden_cases s)\<rparr>))"
  by (simp add: put_golden_case_def py_simps)

lemma put_anchor_apply [py_simps]:
  "put_anchor r s = (if blank (anchor_org r) then (Inl (OrgGuardError ''put_anchor''), s)
     else (Inr (), s\<lparr>ls_anchors := upsert_anchor r (ls_anchors s)\<rparr>))"
  by (simp add: put_anchor_def py_simps)

lemma mark_pr_processed_apply [py_simps]:
  "mark_pr_processed r s = (if blank (pr_org r) then (Inl (OrgGuardError ''mark_pr_processed''), s)
     else (Inr (), s\<lparr>ls_processed_prs :=
       dset (pr_org r, pr_owner_repo r, pr_pr_number r) r (ls_processed_prs s)\<rparr>))"
  by (simp add: mark_pr_processed_def py_simps)

lemma append_verify_event_apply [py_simps]:
  "append_verify_event r s = (if blank (ev_org r) then (Inl (OrgGuardError ''append_verify_event''), s)
     else (Inr (), s\<lparr>ls_verify_events :=
       dset (ev_org r, ev_idea_id r) (events_at (ev_org r, ev_idea_id r) s @ [r]) (ls_verify_events s)\<rparr>))"
  by (simp add: append_verify_event_def py_simps)

lemma put_branch_session_link_apply [py_simps]:
  "put_branch_session_link r s =
     (if blank (bs_org r) then (Inl (OrgGuardError ''put_branch_session_link''), s)
      else (Inr (), s\<lparr>ls_branch_links :=
        dset (bs_org r, bs_ownerRepo r, bs_branch r) r (ls_branch_links s)\<rparr>))"
  by (simp add: put_branch_session_link_def py_simps)

text \<open>The source record the service builds, with an organisation, an idea and a source id.\<close>

lemma put_idea_source_apply [py_simps]:
  "src_org r = Some g \<Longrightarrow> src_ideaId r = Some i \<Longrightarrow> src_sourceId r = Some sid \<Longrightarrow> sid \<noteq> [] \<Longrightarrow>
   put_idea_source r s =
     (if blank g then (Inl (OrgGuardError ''put_idea_source''), s)
      else if i = [] then (Inl ValueError, s)
      else (Inr (), s\<lparr>ls_idea_sources := dset (g, i, sid) r (ls_idea_sources s)\<rparr>))"
  by (simp add: put_idea_source_def py_simps)

section \<open>The store is a set of tables written by key\<close>

text \<open>
  A write operation as a state transformer, for records with a non-blank organisation (the
  guard passes).
\<close>

interpretation golden_table: upsert_store
  "\<lambda>r s. snd (put_golden_case r s)" "\<lambda>(g, sk, c) s. get_golden_case g sk c s"
  gold_pk "\<lambda>r. \<not> blank (gold_org r)"
  by unfold_locales (auto simp: py_simps get_golden_case_def dict_simps split: prod.splits)

interpretation idea_table: upsert_store
  "\<lambda>r s. snd (put_idea r s)" "\<lambda>(g, sk, i) s. get_idea g sk i s"
  idea_pk "\<lambda>r. \<not> blank (idea_org r)"
  by unfold_locales (auto simp: py_simps get_idea_def dict_simps split: prod.splits)

interpretation cursor_table: upsert_store
  "\<lambda>r s. snd (mark_pr_processed r s)" "\<lambda>k s. dget (ls_processed_prs s) k"
  "\<lambda>r. (pr_org r, pr_owner_repo r, pr_pr_number r)" "\<lambda>r. \<not> blank (pr_org r)"
  by unfold_locales (auto simp: py_simps dict_simps)

interpretation link_table: upsert_store
  "\<lambda>r s. snd (put_branch_session_link r s)" "\<lambda>(g, rp, b) s. get_branch_session_link g rp b s"
  "\<lambda>r. (bs_org r, bs_ownerRepo r, bs_branch r)" "\<lambda>r. \<not> blank (bs_org r)"
  by unfold_locales (auto simp: py_simps get_branch_session_link_def dict_simps split: prod.splits)

text \<open>The idea table with its conditional write, versioned by \<open>corroborationVersion\<close>.\<close>

definition cas_idea :: "idea_record \<Rightarrow> int \<Rightarrow> learning_store \<Rightarrow> learning_store option" where
  "cas_idea r v s = (case put_idea_conditional r v s of (Inr _, s') \<Rightarrow> Some s' | (Inl _, _) \<Rightarrow> None)"

lemma version_at_put [dict_simps]:
  "version_at k (s\<lparr>ls_ideas := dset (idea_pk r) r (ls_ideas s)\<rparr>) =
     (if k = idea_pk r then idea_corroborationVersion r else version_at k s)"
  by (simp add: version_at_def dict_simps)

interpretation idea_occ: occ_clock version_at cas_idea idea_pk idea_corroborationVersion
  "\<lambda>r. \<not> blank (idea_org r)" "\<lambda>r v. idea_corroborationVersion r = v + 1"
  by unfold_locales (auto simp: cas_idea_def py_simps dict_simps split: if_splits)

section \<open>Well-formed stores\<close>

text \<open>
  Every record sits under its own key, with a non-blank organisation; anchor rows have
  distinct identities; an event list holds the events of its own idea.
\<close>

definition src_pk :: "idea_source \<Rightarrow> (string \<times> string \<times> string) option" where
  "src_pk r = (case (src_org r, src_ideaId r, src_sourceId r) of
     (Some g, Some i, Some sid) \<Rightarrow> Some (g, i, sid) | _ \<Rightarrow> None)"

definition ev_pk :: "verify_event \<Rightarrow> string \<times> string" where
  "ev_pk e = (ev_org e, ev_idea_id e)"

definition own_events :: "string \<times> string \<Rightarrow> verify_event list \<Rightarrow> bool" where
  "own_events k es \<longleftrightarrow> (\<forall>e \<in> set es. ev_pk e = k \<and> \<not> blank (ev_org e))"

definition store_wf :: "learning_store \<Rightarrow> bool" where
  "store_wf s \<longleftrightarrow>
     keyed_by (\<lambda>k r. idea_pk r = k \<and> \<not> blank (idea_org r)) (ls_ideas s) \<and>
     keyed_by (\<lambda>k r. gold_pk r = k \<and> \<not> blank (gold_org r)) (ls_golden_cases s) \<and>
     keyed_by (\<lambda>k r. src_pk r = Some k \<and> \<not> blank (fst k)) (ls_idea_sources s) \<and>
     distinct (map anchor_pk (ls_anchors s)) \<and> (\<forall>a \<in> set (ls_anchors s). \<not> blank (anchor_org a)) \<and>
     keyed_by (\<lambda>k r. (pr_org r, pr_owner_repo r, pr_pr_number r) = k \<and> \<not> blank (pr_org r))
       (ls_processed_prs s) \<and>
     keyed_by own_events (ls_verify_events s) \<and>
     keyed_by (\<lambda>k r. (bs_org r, bs_ownerRepo r, bs_branch r) = k \<and> \<not> blank (bs_org r))
       (ls_branch_links s)"

lemma set_upsert_anchor:
  "distinct (map anchor_pk xs) \<Longrightarrow>
   x \<in> set (upsert_anchor r xs) \<longleftrightarrow> x = r \<or> (x \<in> set xs \<and> anchor_pk x \<noteq> anchor_pk r)"
proof (induction xs)
  case (Cons a xs)
  then have "anchor_pk a = anchor_pk r \<Longrightarrow> y \<in> set xs \<Longrightarrow> anchor_pk y \<noteq> anchor_pk r" for y
    by (metis distinct.simps(2) image_eqI list.set_map list.simps(9))
  with Cons show ?case by auto
qed simp

lemma keys_upsert_anchor:
  "set (map anchor_pk (upsert_anchor r xs)) = insert (anchor_pk r) (set (map anchor_pk xs))"
  by (induction xs) auto

lemma distinct_upsert_anchor:
  "distinct (map anchor_pk xs) \<Longrightarrow> distinct (map anchor_pk (upsert_anchor r xs))"
proof (induction xs)
  case Nil
  then show ?case by simp
next
  case (Cons x xs)
  then show ?case using keys_upsert_anchor [of r xs] by auto
qed

lemma filter_upsert_anchor_other:
  "\<not> P r \<Longrightarrow> (\<And>x. anchor_pk x = anchor_pk r \<Longrightarrow> \<not> P x) \<Longrightarrow>
   filter P (upsert_anchor r xs) = filter P xs"
  by (induction xs) auto

lemma store_wf_empty: "store_wf empty_store"
  by (simp add: store_wf_def empty_store_def dict_simps)

lemma keyed_events_append:
  assumes "keyed_by own_events (ls_verify_events s)" "\<not> blank (ev_org r)"
  shows "keyed_by own_events
    (dset (ev_pk r) (events_at (ev_pk r) s @ [r]) (ls_verify_events s))"
proof (rule keyed_by_dset [OF assms(1)])
  have "own_events (ev_pk r) (events_at (ev_pk r) s)"
    using keyed_byD [OF assms(1), of "ev_pk r"]
    by (cases "dget (ls_verify_events s) (ev_pk r)") (auto simp: events_at_def own_events_def)
  then show "own_events (ev_pk r) (events_at (ev_pk r) s @ [r])"
    using assms(2) by (auto simp: own_events_def)
qed

section \<open>The write operations as one step type\<close>

datatype store_op =
    PutIdea idea_record
  | PutIdeaConditional idea_record int
  | PutIdeaSource idea_source
  | PutGoldenCase golden_case
  | PutAnchor anchor_record
  | MarkPrProcessed processed_pr
  | AppendVerifyEvent verify_event
  | PutBranchLink branch_session

fun run_op :: "store_op \<Rightarrow> (learning_store, unit) py" where
  "run_op (PutIdea r) = put_idea r"
| "run_op (PutIdeaConditional r v) = put_idea_conditional r v"
| "run_op (PutIdeaSource r) = put_idea_source r"
| "run_op (PutGoldenCase r) = put_golden_case r"
| "run_op (PutAnchor r) = put_anchor r"
| "run_op (MarkPrProcessed r) = mark_pr_processed r"
| "run_op (AppendVerifyEvent r) = append_verify_event r"
| "run_op (PutBranchLink r) = put_branch_session_link r"

text \<open>The organisation an operation writes under.\<close>

fun op_org :: "store_op \<Rightarrow> string" where
  "op_org (PutIdea r) = idea_org r"
| "op_org (PutIdeaConditional r v) = idea_org r"
| "op_org (PutIdeaSource r) = (case src_org r of Some g \<Rightarrow> g | None \<Rightarrow> [])"
| "op_org (PutGoldenCase r) = gold_org r"
| "op_org (PutAnchor r) = anchor_org r"
| "op_org (MarkPrProcessed r) = pr_org r"
| "op_org (AppendVerifyEvent r) = ev_org r"
| "op_org (PutBranchLink r) = bs_org r"

text \<open>The stores reachable from the empty one by write calls, whatever their arguments.\<close>

inductive store_reach :: "learning_store \<Rightarrow> bool" where
  reach_empty: "store_reach empty_store"
| reach_op: "store_reach s \<Longrightarrow> store_reach (snd (run_op p s))"

lemma put_idea_source_cases:
  obtains e where "put_idea_source r s = (Inl e, s)"
  | g i sid where "put_idea_source r s = (Inr (), s\<lparr>ls_idea_sources := dset (g, i, sid) r (ls_idea_sources s)\<rparr>)"
      "src_pk r = Some (g, i, sid)" "\<not> blank g" "src_org r = Some g" "i \<noteq> []" "sid \<noteq> []"
proof (cases "fst (put_idea_source r s)")
  case (Inl e)
  then have "put_idea_source r s = (Inl e, s)"
    by (auto simp: put_idea_source_def py_simps split: option.splits if_splits)
  then show thesis by (rule that(1))
next
  case (Inr u)
  then obtain g i sid where "src_org r = Some g" "src_ideaId r = Some i" "src_sourceId r = Some sid"
      "\<not> blank g" "i \<noteq> []" "sid \<noteq> []"
    by (auto simp: put_idea_source_def py_simps split: option.splits if_splits)
  then show thesis by (intro that(2) [of g i sid]) (auto simp: put_idea_source_def py_simps src_pk_def)
qed

lemma run_op_guard: "blank (op_org p) \<Longrightarrow> \<exists>w. run_op p s = (Inl (OrgGuardError w), s)"
  by (cases p) (auto simp: py_simps put_idea_source_def)

lemma store_wf_step: "store_wf s \<Longrightarrow> store_wf (snd (run_op p s))"
proof (cases p)
  case (PutIdeaSource r)
  assume wf: "store_wf s"
  show ?thesis unfolding PutIdeaSource run_op.simps
    by (rule put_idea_source_cases [of r s]) (use wf in \<open>auto simp: store_wf_def dict_simps\<close>)
next
  case (AppendVerifyEvent r)
  assume "store_wf s"
  then show ?thesis using keyed_events_append [of s r]
    by (simp add: AppendVerifyEvent store_wf_def py_simps ev_pk_def)
next
  case (PutAnchor r)
  assume "store_wf s"
  then show ?thesis
    by (auto simp: PutAnchor store_wf_def py_simps distinct_upsert_anchor set_upsert_anchor)
qed (auto simp: store_wf_def py_simps dict_simps)

lemma store_reach_wf: "store_reach s \<Longrightarrow> store_wf s"
  by (induction rule: store_reach.induct) (auto intro: store_wf_empty store_wf_step)

section \<open>What the reads return\<close>

lemma list_current_ideas_iff:
  assumes "store_wf s"
  shows "r \<in> set (list_current_ideas g sk s) \<longleftrightarrow>
    (\<exists>i. get_idea g sk i s = Some r) \<and> idea_invalidAt r = None"
proof -
  have wf: "dict_wf (ls_ideas s)" using assms by (simp add: store_wf_def keyed_by_def)
  show ?thesis
    by (auto simp: list_current_ideas_def dvals_where_set get_idea_def dget_Some_iff [OF wf])
qed

lemma get_idea_key:
  "store_wf s \<Longrightarrow> get_idea g sk i s = Some r \<Longrightarrow>
   idea_org r = g \<and> idea_skillBaseName r = sk \<and> idea_ideaId r = i"
  using keyed_byD [of "\<lambda>k r. idea_pk r = k \<and> \<not> blank (idea_org r)" "ls_ideas s" "(g, sk, i)" r]
  by (auto simp: store_wf_def get_idea_def idea_pk_def)

lemma list_idea_sources_iff:
  assumes "store_wf s"
  shows "r \<in> set (list_idea_sources g i s) \<longleftrightarrow> (\<exists>sid. get_idea_source g i sid s = Some r)"
proof -
  have wf: "dict_wf (ls_idea_sources s)" using assms by (simp add: store_wf_def keyed_by_def)
  show ?thesis
    by (auto simp: list_idea_sources_def dvals_where_set get_idea_source_def dget_Some_iff [OF wf])
qed

lemma get_ideas_by_anchor_iff:
  "i \<in> set (get_ideas_by_anchor g rp f sy s) \<longleftrightarrow>
     (\<exists>a \<in> set (ls_anchors s). anchor_pk a = (g, rp, f, sy, i) \<and> anchor_active a)"
  by (auto simp: get_ideas_by_anchor_def anchor_pk_def)

text \<open>An idea whose retirement is stamped is still read back by \<open>get_idea\<close>, but not listed.\<close>

lemma retired_not_current:
  "store_wf s \<Longrightarrow> idea_invalidAt r \<noteq> None \<Longrightarrow> r \<notin> set (list_current_ideas g sk s)"
  by (simp add: list_current_ideas_iff)

lemma events_at_append [dict_simps]:
  "events_at k (s\<lparr>ls_verify_events := dset k' es (ls_verify_events s)\<rparr>) =
     (if k = k' then es else events_at k s)"
  by (simp add: events_at_def dict_simps)

section \<open>Operations under one organisation leave the others alone\<close>

text \<open>All reads of organisation \<open>g\<close> agree on two stores.\<close>

definition same_reads :: "string \<Rightarrow> learning_store \<Rightarrow> learning_store \<Rightarrow> bool" where
  "same_reads g s t \<longleftrightarrow>
     (\<forall>sk i. get_idea g sk i s = get_idea g sk i t) \<and>
     (\<forall>sk. list_current_ideas g sk s = list_current_ideas g sk t) \<and>
     list_all_ideas_for_org g s = list_all_ideas_for_org g t \<and>
     (\<forall>i sid. get_idea_source g i sid s = get_idea_source g i sid t) \<and>
     (\<forall>i. list_idea_sources g i s = list_idea_sources g i t) \<and>
     (\<forall>sk c. get_golden_case g sk c s = get_golden_case g sk c t) \<and>
     (\<forall>rp i. get_anchors_for_idea g rp i s = get_anchors_for_idea g rp i t) \<and>
     (\<forall>rp f sy. get_ideas_by_anchor g rp f sy s = get_ideas_by_anchor g rp f sy t) \<and>
     (\<forall>rp n. is_pr_processed g rp n s = is_pr_processed g rp n t) \<and>
     (\<forall>i. list_verify_events g i s = list_verify_events g i t) \<and>
     (\<forall>rp b. get_branch_session_link g rp b s = get_branch_session_link g rp b t)"

lemmas read_defs = get_idea_def list_current_ideas_def list_all_ideas_for_org_def get_idea_source_def
  list_idea_sources_def get_golden_case_def get_anchors_for_idea_def get_ideas_by_anchor_def
  is_pr_processed_def list_verify_events_def get_branch_session_link_def events_at_def

lemma same_reads_refl [simp]: "same_reads g s s"
  by (simp add: same_reads_def)

lemma same_reads_trans: "same_reads g s t \<Longrightarrow> same_reads g t u \<Longrightarrow> same_reads g s u"
  by (simp add: same_reads_def)

lemma same_reads_step:
  assumes "op_org p \<noteq> g"
  shows "same_reads g s (snd (run_op p s))"
proof (cases p)
  case (PutIdeaSource r)
  show ?thesis unfolding PutIdeaSource run_op.simps
    by (rule put_idea_source_cases [of r s])
       (use assms PutIdeaSource in \<open>auto simp: same_reads_def read_defs dict_simps dvals_where_dset_skip\<close>)
next
  case (PutAnchor r)
  have "filter (\<lambda>a. anchor_org a = g \<and> Q a) (upsert_anchor r xs) = filter (\<lambda>a. anchor_org a = g \<and> Q a) xs"
    for Q xs
    by (rule filter_upsert_anchor_other) (use assms PutAnchor in \<open>auto simp: anchor_pk_def\<close>)
  then show ?thesis using assms
    by (simp add: PutAnchor same_reads_def read_defs py_simps)
qed (use assms in \<open>auto simp: same_reads_def read_defs py_simps dict_simps dvals_where_dset_skip
       idea_pk_def gold_pk_def\<close>)

end
