(* ===== verification/Telemetry.thy ===== *)
theory Telemetry
  imports PyStr Interfaces "HOL-Library.Char_ord" "HOL-Library.List_Lexorder"
begin

text \<open>
  \<open>telemetry.py\<close>: the accumulator, its snapshot and the enforce gates read from it.  A counter
  is a natural number.  Not modelled: the reason texts of the gate status, the means of
  float lists (they use the compensated \<open>sum\<close> of Python 3.12), and the JSON rendering.
\<close>

section \<open>The accumulator\<close>

record telemetry =
  tel_weights :: "pyfloat list"
  tel_distinct_pr_counts :: "nat list"
  tel_per_author_credibility :: "(string, pyfloat) dict"
  tel_symbol_count :: nat
  tel_file_fallback_count :: nat
  tel_supersede_events :: nat
  tel_unfold_count :: nat
  tel_fp_spot_checks :: "(string, bool) dict"
  tel_revive_count :: nat
  tel_necessity_demotion_count :: nat
  tel_nli_corroborate :: nat
  tel_nli_refine :: nat
  tel_nli_supersede :: nat
  tel_nli_neutral :: nat
  tel_judge_fallback_count :: nat
  tel_authored_count :: nat
  tel_inferred_count :: nat

definition new_telemetry :: telemetry where
  "new_telemetry = \<lparr>tel_weights = [], tel_distinct_pr_counts = [], tel_per_author_credibility = [],
     tel_symbol_count = 0, tel_file_fallback_count = 0, tel_supersede_events = 0,
     tel_unfold_count = 0, tel_fp_spot_checks = [], tel_revive_count = 0,
     tel_necessity_demotion_count = 0, tel_nli_corroborate = 0, tel_nli_refine = 0,
     tel_nli_supersede = 0, tel_nli_neutral = 0, tel_judge_fallback_count = 0,
     tel_authored_count = 0, tel_inferred_count = 0\<rparr>"

definition record_corroboration_weight :: "pyfloat \<Rightarrow> nat \<Rightarrow> telemetry \<Rightarrow> telemetry" where
  "record_corroboration_weight weight distinct_pr_count t =
     t\<lparr>tel_weights := tel_weights t @ [weight],
       tel_distinct_pr_counts := tel_distinct_pr_counts t @ [distinct_pr_count]\<rparr>"

definition record_author_credibility :: "string \<Rightarrow> pyfloat \<Rightarrow> telemetry \<Rightarrow> telemetry" where
  "record_author_credibility author_id credibility t =
     t\<lparr>tel_per_author_credibility := dset author_id credibility (tel_per_author_credibility t)\<rparr>"

definition record_anchor_resolution :: "bool \<Rightarrow> telemetry \<Rightarrow> telemetry" where
  "record_anchor_resolution resolved_as_symbol t =
     (if resolved_as_symbol then t\<lparr>tel_symbol_count := tel_symbol_count t + 1\<rparr>
      else t\<lparr>tel_file_fallback_count := tel_file_fallback_count t + 1\<rparr>)"

definition record_supersede_event :: "bool \<Rightarrow> telemetry \<Rightarrow> telemetry" where
  "record_supersede_event unfold_executed t =
     (let t' = t\<lparr>tel_supersede_events := tel_supersede_events t + 1\<rparr> in
      if unfold_executed then t'\<lparr>tel_unfold_count := tel_unfold_count t' + 1\<rparr> else t')"

definition record_supersede_fp_check :: "string \<Rightarrow> bool \<Rightarrow> telemetry \<Rightarrow> telemetry" where
  "record_supersede_fp_check verdict_id is_false_positive t =
     t\<lparr>tel_fp_spot_checks := dset verdict_id (\<not> is_false_positive) (tel_fp_spot_checks t)\<rparr>"

definition record_revive :: "telemetry \<Rightarrow> telemetry" where
  "record_revive t = t\<lparr>tel_revive_count := tel_revive_count t + 1\<rparr>"

definition record_necessity_demotion :: "telemetry \<Rightarrow> telemetry" where
  "record_necessity_demotion t =
     t\<lparr>tel_necessity_demotion_count := tel_necessity_demotion_count t + 1\<rparr>"

definition record_nli_verdict :: "string \<Rightarrow> bool \<Rightarrow> telemetry \<Rightarrow> telemetry" where
  "record_nli_verdict verdict low_confidence t =
     (let v = lower verdict;
          t' = (if v = ''corroborate'' then t\<lparr>tel_nli_corroborate := tel_nli_corroborate t + 1\<rparr>
                else if v = ''refine'' then t\<lparr>tel_nli_refine := tel_nli_refine t + 1\<rparr>
                else if v = ''supersede'' then t\<lparr>tel_nli_supersede := tel_nli_supersede t + 1\<rparr>
                else t\<lparr>tel_nli_neutral := tel_nli_neutral t + 1\<rparr>)
      in if low_confidence then t'\<lparr>tel_judge_fallback_count := tel_judge_fallback_count t' + 1\<rparr> else t')"

definition record_idea_authority :: "string \<Rightarrow> telemetry \<Rightarrow> telemetry" where
  "record_idea_authority authority_kind t =
     (if authority_kind = ''user_directive'' \<or> authority_kind = ''authored_import''
      then t\<lparr>tel_authored_count := tel_authored_count t + 1\<rparr>
      else t\<lparr>tel_inferred_count := tel_inferred_count t + 1\<rparr>)"

definition reset_telemetry :: "telemetry \<Rightarrow> telemetry" where
  "reset_telemetry t = new_telemetry"

section \<open>Snapshot and derived rates\<close>

record snapshot =
  snap_per_author_credibility :: "(string \<times> pyfloat) list"
  snap_weights :: "pyfloat list"
  snap_distinct_pr_counts :: "nat list"
  snap_symbol_count :: nat
  snap_file_fallback_count :: nat
  snap_supersede_event_count :: nat
  snap_unfold_count :: nat
  snap_supersede_fp_rate :: pyfloat
  snap_supersede_fp_sample_count :: nat
  snap_revive_count :: nat
  snap_necessity_demotion_count :: nat
  snap_nli_corroborate :: nat
  snap_nli_refine :: nat
  snap_nli_supersede :: nat
  snap_nli_neutral :: nat
  snap_judge_fallback_count :: nat
  snap_authored_count :: nat
  snap_inferred_count :: nat

definition take_snapshot :: "telemetry \<Rightarrow> snapshot" where
  "take_snapshot t =
     (let n_checks = length (tel_fp_spot_checks t);
          fp_rate = (if n_checks = 0 then 0
                     else idiv (int (length (filter (\<lambda>(_, is_tp). \<not> is_tp) (tel_fp_spot_checks t))))
                            (int n_checks))
      in \<lparr>snap_per_author_credibility = sort_key fst (tel_per_author_credibility t),
          snap_weights = tel_weights t, snap_distinct_pr_counts = tel_distinct_pr_counts t,
          snap_symbol_count = tel_symbol_count t,
          snap_file_fallback_count = tel_file_fallback_count t,
          snap_supersede_event_count = tel_supersede_events t,
          snap_unfold_count = tel_unfold_count t, snap_supersede_fp_rate = fp_rate,
          snap_supersede_fp_sample_count = n_checks, snap_revive_count = tel_revive_count t,
          snap_necessity_demotion_count = tel_necessity_demotion_count t,
          snap_nli_corroborate = tel_nli_corroborate t, snap_nli_refine = tel_nli_refine t,
          snap_nli_supersede = tel_nli_supersede t, snap_nli_neutral = tel_nli_neutral t,
          snap_judge_fallback_count = tel_judge_fallback_count t,
          snap_authored_count = tel_authored_count t, snap_inferred_count = tel_inferred_count t\<rparr>)"

definition anchor_total :: "snapshot \<Rightarrow> nat" where
  "anchor_total sn = snap_symbol_count sn + snap_file_fallback_count sn"

definition symbol_resolution_rate :: "snapshot \<Rightarrow> pyfloat" where
  "symbol_resolution_rate sn =
     (if anchor_total sn = 0 then 0 else idiv (int (snap_symbol_count sn)) (int (anchor_total sn)))"

definition nli_total :: "snapshot \<Rightarrow> nat" where
  "nli_total sn = snap_nli_corroborate sn + snap_nli_refine sn + snap_nli_supersede sn + snap_nli_neutral sn"

definition nli_distribution :: "snapshot \<Rightarrow> (string, pyfloat) dict" where
  "nli_distribution sn =
     (let t = nli_total sn in
      if t = 0 then [(''corroborate'', 0), (''refine'', 0), (''supersede'', 0), (''neutral'', 0)]
      else [(''corroborate'', idiv (int (snap_nli_corroborate sn)) (int t)),
            (''refine'', idiv (int (snap_nli_refine sn)) (int t)),
            (''supersede'', idiv (int (snap_nli_supersede sn)) (int t)),
            (''neutral'', idiv (int (snap_nli_neutral sn)) (int t))])"

definition judge_fallback_rate :: "snapshot \<Rightarrow> pyfloat" where
  "judge_fallback_rate sn =
     (if nli_total sn = 0 then 0 else idiv (int (snap_judge_fallback_count sn)) (int (nli_total sn)))"

definition authored_inferred_ratio :: "snapshot \<Rightarrow> pyfloat" where
  "authored_inferred_ratio sn =
     (let total = snap_authored_count sn + snap_inferred_count sn in
      if total = 0 then 0 else idiv (int (snap_authored_count sn)) (int total))"

section \<open>Enforce gates\<close>

record gate_config =
  gc_supersede_fp_ceiling :: pyfloat
  gc_supersede_fp_min_samples :: int
  gc_min_anchor_samples :: int

definition default_gate_config :: gate_config where
  "default_gate_config = \<lparr>gc_supersede_fp_ceiling = flit (1/10), gc_supersede_fp_min_samples = 30,
     gc_min_anchor_samples = 10\<rparr>"

record gate_state =
  verified_learning_gate_open :: bool
  supersede_gate_open :: bool
  unfold_gate_open :: bool

definition gate_status :: "snapshot \<Rightarrow> gate_config \<Rightarrow> gate_state" where
  "gate_status sn cfg =
     (let vl_open = (gc_min_anchor_samples cfg \<le> int (anchor_total sn));
          sup_open = (if int (snap_supersede_fp_sample_count sn) < gc_supersede_fp_min_samples cfg then False
                      else if gc_supersede_fp_ceiling cfg \<le> snap_supersede_fp_rate sn then False
                      else True);
          unfold_open = (if \<not> sup_open then False else True)
      in \<lparr>verified_learning_gate_open = vl_open, supersede_gate_open = sup_open,
          unfold_gate_open = unfold_open\<rparr>)"

text \<open>The supersede gate of an accumulator under a configuration, as a calibration gate.\<close>

interpretation tel_gate: spot_check_gate
  "\<lambda>(t, cfg). tel_fp_spot_checks t" "\<lambda>v fp (t, cfg). (record_supersede_fp_check v fp t, cfg)"
  "\<lambda>(t, cfg). supersede_gate_open (gate_status (take_snapshot t) cfg)"
  "\<lambda>(t, cfg). gc_supersede_fp_min_samples cfg" "\<lambda>(t, cfg). gc_supersede_fp_ceiling cfg"
  by unfold_locales
     (auto simp: record_supersede_fp_check_def gate_status_def take_snapshot_def Let_def
        spot_rate_def false_positives_def not_le not_less)

end
