(* ===== verification/World.thy ===== *)
theory World
  imports LearningStore Telemetry
begin

text \<open>
  The state the service's operations act on: the learning store and the telemetry
  accumulator, which the code passes as an optional argument.  The record is extensible, so
  the operations that also use the skill store and the anti-thrash tracker act on an
  extension of it and call these operations unchanged.
\<close>

record lworld =
  w_store :: learning_store
  w_tel :: "telemetry option"

text \<open>A store operation, run on the store of a world.\<close>

definition on_store :: "(learning_store, 'b) py \<Rightarrow> ('a lworld_scheme, 'b) py" where
  "on_store m w = (let (r, s) = m (w_store w) in (r, w\<lparr>w_store := s\<rparr>))"

text \<open>\<open>if telemetry is not None: telemetry.record_...\<close>\<close>

definition on_tel :: "(telemetry \<Rightarrow> telemetry) \<Rightarrow> ('a lworld_scheme, unit) py" where
  "on_tel f w = (Inr (), w\<lparr>w_tel := map_option f (w_tel w)\<rparr>)"

lemma on_store_apply [py_simps]:
  "on_store m w = (fst (m (w_store w)), w\<lparr>w_store := snd (m (w_store w))\<rparr>)"
  by (simp add: on_store_def split: prod.splits)

lemma on_tel_apply [py_simps]: "on_tel f w = (Inr (), w\<lparr>w_tel := map_option f (w_tel w)\<rparr>)"
  by (simp add: on_tel_def)

section \<open>A store with one open idea, used by the examples\<close>

definition demo_idea :: idea_record where
  "demo_idea = mk_idea ''i1'' ''sk'' ''acme'' ''Use the cache.'' ''open'' 0"

definition demo_store :: learning_store where
  "demo_store = snd (run_op (PutIdea demo_idea) empty_store)"

definition demo_world :: lworld where
  "demo_world = \<lparr>w_store = demo_store, w_tel = Some new_telemetry\<rparr>"

lemma blank_acme [simp]: "\<not> blank ''acme''"
  by code_simp

lemma demo_store_eq: "demo_store = empty_store\<lparr>ls_ideas := [((''acme'', ''sk'', ''i1''), demo_idea)]\<rparr>"
  by (simp add: demo_store_def py_simps demo_idea_def mk_idea_def idea_pk_def empty_store_def)

lemma demo_store_wf: "store_wf demo_store"
  unfolding demo_store_def by (rule store_wf_step [OF store_wf_empty])

lemma demo_get_idea: "get_idea ''acme'' ''sk'' ''i1'' demo_store = Some demo_idea"
  by (simp add: demo_store_eq get_idea_def)

lemma demo_world_store [simp]: "w_store demo_world = demo_store"
  by (simp add: demo_world_def)

end
