(* ===== verification/StoreProps.thy ===== *)
theory StoreProps
  imports World "HOL-Library.Multiset"
begin

text \<open>
  Properties of the learning store and of the telemetry accumulator: runs of write
  operations, isolation of organisations, conditional writes, the append-only audit log, the
  processed-PR cursor, and the bounds of the telemetry rates.
\<close>

section \<open>Runs of store operations\<close>

definition run_ops :: "store_op list \<Rightarrow> learning_store \<Rightarrow> learning_store" where
  "run_ops ps s = fold (\<lambda>p s. snd (run_op p s)) ps s"

lemma run_ops_simps [simp]:
  "run_ops [] s = s" "run_ops (p # ps) s = run_ops ps (snd (run_op p s))"
  by (simp_all add: run_ops_def)

lemma run_ops_induct:
  assumes "P s" "\<And>p s. p \<in> set ps \<Longrightarrow> P s \<Longrightarrow> P (snd (run_op p s))"
  shows "P (run_ops ps s)"
  using assms
proof (induction ps arbitrary: s)
  case (Cons p ps)
  then show ?case by simp
qed simp

lemma store_reach_run: "store_reach s \<Longrightarrow> store_reach (run_ops ps s)"
  by (rule run_ops_induct) (auto intro: reach_op)

section \<open>Properties of the store\<close>

text \<open>C21: every store reachable by write calls, whatever their arguments and whether they
  return or raise, is well-formed: each record sits under its own key with a non-blank
  organisation, anchor identities are distinct, event lists hold the events of their idea.\<close>

theorem reachable_store_wf:
  "store_wf (run_ops ps empty_store)"
  by (rule store_reach_wf [OF store_reach_run [OF reach_empty]])

text \<open>a run of write operations under other organisations changes nothing that an
  organisation can read, through any read method of the store.\<close>

theorem organisations_isolated:
  assumes "\<forall>p \<in> set ps. op_org p \<noteq> g"
  shows "same_reads g s (run_ops ps s)"
proof (rule run_ops_induct)
  fix p t
  assume "p \<in> set ps" "same_reads g s t"
  then show "same_reads g s (snd (run_op p t))"
    using same_reads_trans same_reads_step assms by metis
qed simp

theorem organisations_isolated_witness:
  "same_reads ''other'' demo_store (run_ops [PutIdea demo_idea] demo_store)"
  by (rule organisations_isolated) (simp add: demo_idea_def mk_idea_def)

text \<open>an operation with a blank organisation (empty or white space) raises the guard's
  error and leaves the store as it is.\<close>

theorem blank_organisation_refused:
  assumes "blank (op_org p)"
  shows "(\<exists>name. fst (run_op p s) = Inl (OrgGuardError name)) \<and> snd (run_op p s) = s"
  using run_op_guard [OF assms, of s] by auto

theorem blank_organisation_refused_witness:
  "snd (run_op (PutIdea (demo_idea\<lparr>idea_org := ''  ''\<rparr>)) demo_store) = demo_store"
proof -
  have "blank ''  ''" by code_simp
  then show ?thesis
    using blank_organisation_refused [of "PutIdea (demo_idea\<lparr>idea_org := ''  ''\<rparr>)" demo_store] by simp
qed

text \<open>C12: no lost update.  Of two writers that read the same version of an idea, once one has
  written the next version conditionally, the other's conditional write raises the version
  conflict and changes nothing.\<close>

theorem no_lost_update:
  assumes "\<not> blank (idea_org r)" "\<not> blank (idea_org r')" "idea_pk r' = idea_pk r"
    and "put_idea_conditional r v s = (Inr (), s')" "idea_corroborationVersion r = v + 1"
  shows "put_idea_conditional r' v s' = (Inl (VersionConflictError (idea_ideaId r') v (v + 1)), s')"
proof -
  have "cas_idea r v s = Some s'" using assms(4) by (simp add: cas_idea_def)
  then have "version_at (idea_pk r') s' = v + 1"
    using idea_occ.cwrite_read [OF assms(1), of v s s' "idea_pk r"] assms(3,5) by simp
  moreover have "cas_idea r' v s' = None"
    using idea_occ.second_writer_fails [OF assms(1,2,3)] \<open>cas_idea r v s = Some s'\<close> assms(5) by simp
  ultimately show ?thesis using assms(2) by (simp add: put_idea_conditional_apply)
qed

theorem no_lost_update_witness:
  "\<exists>s'. put_idea_conditional (demo_idea\<lparr>idea_corroborationVersion := 1\<rparr>) 0 demo_store = (Inr (), s') \<and>
     put_idea_conditional (demo_idea\<lparr>idea_corroborationVersion := 1, idea_body := ''x''\<rparr>) 0 s' =
       (Inl (VersionConflictError ''i1'' 0 1), s')"
proof -
  let ?r = "demo_idea\<lparr>idea_corroborationVersion := 1\<rparr>"
  obtain s' where s': "put_idea_conditional ?r 0 demo_store = (Inr (), s')"
    by (simp add: put_idea_conditional_apply demo_store_eq version_at_def demo_idea_def mk_idea_def idea_pk_def)
  have "put_idea_conditional (?r\<lparr>idea_body := ''x''\<rparr>) 0 s' =
      (Inl (VersionConflictError (idea_ideaId (?r\<lparr>idea_body := ''x''\<rparr>)) 0 (0 + 1)), s')"
    by (rule no_lost_update [OF _ _ _ s']) (simp_all add: demo_idea_def mk_idea_def idea_pk_def)
  then show ?thesis using s' by (auto simp: demo_idea_def mk_idea_def)
qed

text \<open>The operations that write an idea only conditionally, one version on.\<close>

fun next_version_op :: "store_op \<Rightarrow> bool" where
  "next_version_op (PutIdea r) = False"
| "next_version_op (PutIdeaConditional r v) = (idea_corroborationVersion r = v + 1)"
| "next_version_op _ = True"

lemma version_step:
  assumes "next_version_op p"
  shows "version_at k s \<le> version_at k (snd (run_op p s))"
proof (cases p)
  case (PutIdeaConditional r v)
  have "snd (put_idea_conditional r v s) = (if blank (idea_org r) then s else idea_occ.attempts [(r, v)] s)"
    by (auto simp: cas_idea_def py_simps split: prod.splits sum.splits)
  then show ?thesis using idea_occ.attempts_monotone [of "[(r, v)]" k s] assms PutIdeaConditional by simp
next
  case (PutIdeaSource r)
  then show ?thesis by (simp, cases rule: put_idea_source_cases [of r s]) (auto simp: version_at_def)
qed (use assms in \<open>auto simp: py_simps version_at_def\<close>)

text \<open>the version of an idea never goes back along any run of operations whose writes to
  ideas are conditional writes of the next version.\<close>

theorem versions_never_go_back:
  assumes "\<forall>p \<in> set ps. next_version_op p"
  shows "version_at k s \<le> version_at k (run_ops ps s)"
proof (rule run_ops_induct)
  fix p t
  assume "p \<in> set ps" "version_at k s \<le> version_at k t"
  then show "version_at k s \<le> version_at k (snd (run_op p t))"
    using version_step [of p k t] assms by force
qed simp

theorem versions_never_go_back_witness:
  "version_at (''acme'', ''sk'', ''i1'') demo_store \<le> version_at (''acme'', ''sk'', ''i1'')
     (run_ops [PutIdeaConditional (demo_idea\<lparr>idea_corroborationVersion := 1\<rparr>) 0] demo_store)"
  by (rule versions_never_go_back) simp

text \<open>the listing of current ideas is exact on every reachable store: it holds the idea
  records that a lookup returns and that are not retired, each once.\<close>

theorem current_listing_exact:
  "(r \<in> set (list_current_ideas g sk (run_ops ps empty_store)) \<longleftrightarrow>
     get_idea g sk (idea_ideaId r) (run_ops ps empty_store) = Some r \<and> idea_invalidAt r = None) \<and>
   distinct (list_current_ideas g sk (run_ops ps empty_store))"
proof -
  let ?s = "run_ops ps empty_store"
  have wf: "store_wf ?s" by (rule store_reach_wf [OF store_reach_run [OF reach_empty]])
  have k: "distinct (map fst (ls_ideas ?s))" "\<forall>(k, r) \<in> set (ls_ideas ?s). idea_pk r = k"
    using wf by (auto simp: store_wf_def keyed_by_def dict_wf_def)
  have "map idea_pk (dvals_where P d) = map fst (filter (\<lambda>(k, v). P k v) d)"
    if "\<forall>(k, r) \<in> set d. idea_pk r = k" for P d
    using that by (induction d) (auto simp: dvals_where_def)
  from this [OF k(2)] have "distinct (map idea_pk (list_current_ideas g sk ?s))" using k(1)
    by (simp add: list_current_ideas_def distinct_map del: map_map) (auto simp: inj_on_def)
  then have "distinct (list_current_ideas g sk ?s)" by (simp add: distinct_map)
  then show ?thesis using list_current_ideas_iff [OF wf, of r g sk] get_idea_key [OF wf, of g sk] by auto
qed

text \<open>the audit log is append-only: no operation removes or reorders a verification
  event, so a later log of an idea starts with the earlier one, and the events read are a
  permutation of those appended, sorted by sequence number.\<close>

theorem audit_log_append_only:
  "prefix (events_at (g, i) s) (events_at (g, i) (run_ops ps s)) \<and>
   mset (list_verify_events g i (run_ops ps s)) = mset (events_at (g, i) (run_ops ps s)) \<and>
   sorted (map ev_seq (list_verify_events g i (run_ops ps s)))"
proof -
  have "prefix (events_at (g, i) s) (events_at (g, i) (run_ops ps s))"
  proof (rule run_ops_induct)
    fix p t
    assume pre: "prefix (events_at (g, i) s) (events_at (g, i) t)"
    have "prefix (events_at (g, i) t) (events_at (g, i) (snd (run_op p t)))"
    proof (cases p)
      case (PutIdeaSource r)
      then show ?thesis by (simp, cases rule: put_idea_source_cases [of r t]) (auto simp: events_at_def)
    qed (auto simp: py_simps dict_simps, auto simp: events_at_def)
    then show "prefix (events_at (g, i) s) (events_at (g, i) (snd (run_op p t)))"
      using pre prefix_order.trans by blast
  qed simp
  then show ?thesis by (simp add: list_verify_events_def)
qed

text \<open>a pull request once marked processed stays processed under every later operation,
  and marking it makes it processed.\<close>

theorem processed_pr_stays_processed:
  assumes "\<not> blank (pr_org r)"
  shows "is_pr_processed (pr_org r) (pr_owner_repo r) (pr_pr_number r)
    (run_ops ps (snd (mark_pr_processed r s)))"
proof (rule run_ops_induct)
  let ?k = "(pr_org r, pr_owner_repo r, pr_pr_number r)"
  show "is_pr_processed (pr_org r) (pr_owner_repo r) (pr_pr_number r) (snd (mark_pr_processed r s))"
    using cursor_table.get_put_same [OF assms, of s] by (simp add: is_pr_processed_def)
  fix p t
  assume pr: "is_pr_processed (pr_org r) (pr_owner_repo r) (pr_pr_number r) t"
  show "is_pr_processed (pr_org r) (pr_owner_repo r) (pr_pr_number r) (snd (run_op p t))"
  proof (cases p)
    case (MarkPrProcessed r')
    show ?thesis
    proof (cases "blank (pr_org r')")
      case False
      then show ?thesis using cursor_table.puts_keep_present [where rs = "[r']" and k = ?k and s = t] pr MarkPrProcessed
        by (simp add: is_pr_processed_def)
    qed (use pr MarkPrProcessed in \<open>simp add: py_simps\<close>)
  next
    case (PutIdeaSource r')
    then show ?thesis using pr
      by (simp, cases rule: put_idea_source_cases [of r' t]) (auto simp: is_pr_processed_def)
  qed (use pr in \<open>auto simp: py_simps is_pr_processed_def\<close>)
qed

theorem processed_pr_stays_processed_witness:
  "is_pr_processed ''acme'' ''o/r'' 7
     (run_ops [PutIdea demo_idea] (snd (mark_pr_processed (processed_pr.make ''acme'' ''o/r'' 7 0) demo_store)))"
  using processed_pr_stays_processed [where r = "processed_pr.make ''acme'' ''o/r'' 7 0"
      and ps = "[PutIdea demo_idea]" and s = demo_store]
  by (simp add: processed_pr.make_def)

text \<open>the keys of the single-table layout that end in a pull-request number are parsed
  back uniquely, and so are idea keys whose skill name holds no separator.\<close>

theorem cursor_and_idea_keys_unique:
  "(processed_pr_key g rp n = processed_pr_key g' rp' n' \<longleftrightarrow> g = g' \<and> rp = rp' \<and> n = n') \<and>
   (CHR ''#'' \<in> set sk \<or> CHR ''#'' \<in> set sk' \<or>
      (idea_key g sk i = idea_key g' sk' i' \<longleftrightarrow> g = g' \<and> sk = sk' \<and> i = i'))"
  using idea_key_inj [of sk sk' g i g' i'] by (auto simp only: processed_pr_key_inj)

section \<open>Properties of the telemetry\<close>

text \<open>The recording calls as one step type.\<close>

datatype tel_op =
    TWeight pyfloat nat
  | TCredibility string pyfloat
  | TAnchor bool
  | TSupersede bool
  | TFpCheck string bool
  | TRevive
  | TDemotion
  | TNli string bool
  | TAuthority string
  | TReset

fun run_tel :: "tel_op \<Rightarrow> telemetry \<Rightarrow> telemetry" where
  "run_tel (TWeight w n) = record_corroboration_weight w n"
| "run_tel (TCredibility a c) = record_author_credibility a c"
| "run_tel (TAnchor b) = record_anchor_resolution b"
| "run_tel (TSupersede b) = record_supersede_event b"
| "run_tel (TFpCheck v b) = record_supersede_fp_check v b"
| "run_tel TRevive = record_revive"
| "run_tel TDemotion = record_necessity_demotion"
| "run_tel (TNli v b) = record_nli_verdict v b"
| "run_tel (TAuthority k) = record_idea_authority k"
| "run_tel TReset = reset_telemetry"

definition tel_inv :: "telemetry \<Rightarrow> bool" where
  "tel_inv t \<longleftrightarrow> length (tel_weights t) = length (tel_distinct_pr_counts t) \<and>
     tel_unfold_count t \<le> tel_supersede_events t \<and>
     tel_judge_fallback_count t \<le> tel_nli_corroborate t + tel_nli_refine t + tel_nli_supersede t + tel_nli_neutral t \<and>
     dict_wf (tel_fp_spot_checks t) \<and> dict_wf (tel_per_author_credibility t)"

lemma tel_inv_step: "tel_inv t \<Longrightarrow> tel_inv (run_tel p t)"
  by (cases p) (auto simp: tel_inv_def record_corroboration_weight_def record_author_credibility_def
      record_anchor_resolution_def record_supersede_event_def record_supersede_fp_check_def record_revive_def
      record_necessity_demotion_def record_nli_verdict_def record_idea_authority_def reset_telemetry_def
      new_telemetry_def Let_def dict_simps)

lemma tel_inv_run: "tel_inv (fold run_tel ps new_telemetry)"
proof -
  have "tel_inv t \<Longrightarrow> tel_inv (fold run_tel ps t)" for t
    by (induction ps arbitrary: t) (auto intro: tel_inv_step)
  moreover have "tel_inv new_telemetry" by (simp add: tel_inv_def new_telemetry_def dict_simps)
  ultimately show ?thesis by blast
qed

text \<open>after any sequence of recording calls the derived rates of a snapshot lie between 0
  and 1, and no event is counted on one side only: unfolds are among supersede events, judge
  fallbacks among classified verdicts.\<close>

theorem telemetry_rates_bounded:
  fixes ps :: "tel_op list"
  defines "sn \<equiv> take_snapshot (fold run_tel ps new_telemetry)"
  shows "0 \<le> symbol_resolution_rate sn \<and> symbol_resolution_rate sn \<le> 1 \<and>
    0 \<le> judge_fallback_rate sn \<and> judge_fallback_rate sn \<le> 1 \<and>
    0 \<le> authored_inferred_ratio sn \<and> authored_inferred_ratio sn \<le> 1 \<and>
    0 \<le> snap_supersede_fp_rate sn \<and> snap_supersede_fp_rate sn \<le> 1 \<and>
    (\<forall>(l, q) \<in> set (nli_distribution sn). 0 \<le> q \<and> q \<le> 1) \<and>
    snap_unfold_count sn \<le> snap_supersede_event_count sn"
proof -
  have inv: "tel_inv (fold run_tel ps new_telemetry)" by (rule tel_inv_run)
  let ?t = "fold run_tel ps new_telemetry"
  have unit: "b \<noteq> 0 \<Longrightarrow> a \<le> b \<Longrightarrow> 0 \<le> idiv (int a) (int b) \<and> idiv (int a) (int b) \<le> 1" for a b :: nat
    using idiv_unit_interval [of "int a" "int b"] by simp
  have fp: "length (filter (\<lambda>(_, is_tp). \<not> is_tp) (tel_fp_spot_checks ?t)) \<le> length (tel_fp_spot_checks ?t)"
    by (rule length_filter_le)
  have "0 \<le> symbol_resolution_rate sn \<and> symbol_resolution_rate sn \<le> 1"
    using unit by (simp add: symbol_resolution_rate_def anchor_total_def del: of_nat_add)
  moreover have "0 \<le> judge_fallback_rate sn \<and> judge_fallback_rate sn \<le> 1"
    using unit inv unfolding judge_fallback_rate_def nli_total_def sn_def take_snapshot_def Let_def tel_inv_def
    by (simp del: of_nat_add)
  moreover have "0 \<le> authored_inferred_ratio sn \<and> authored_inferred_ratio sn \<le> 1"
    using unit by (simp add: authored_inferred_ratio_def Let_def del: of_nat_add)
  moreover have "0 \<le> snap_supersede_fp_rate sn \<and> snap_supersede_fp_rate sn \<le> 1"
    using unit fp unfolding sn_def take_snapshot_def Let_def by simp
  moreover have "\<forall>(l, q) \<in> set (nli_distribution sn). 0 \<le> q \<and> q \<le> 1"
    using unit by (simp add: nli_distribution_def Let_def nli_total_def del: of_nat_add)
  moreover have "snap_unfold_count sn \<le> snap_supersede_event_count sn"
    using inv unfolding sn_def take_snapshot_def Let_def tel_inv_def by simp
  ultimately show ?thesis by blast
qed

theorem telemetry_rates_bounded_witness:
  "snap_unfold_count (take_snapshot (fold run_tel [TSupersede True, TSupersede False] new_telemetry)) \<le>
   snap_supersede_event_count (take_snapshot (fold run_tel [TSupersede True, TSupersede False] new_telemetry))"
  using telemetry_rates_bounded [of "[TSupersede True, TSupersede False]"] by blast

text \<open>the supersede gate fails closed: with at least one verdict checked, it is open only
  with the minimum of samples and a false-positive rate below the ceiling; a confirmed true
  positive never shuts it, a confirmed false positive never opens it once the minimum is
  reached, and the unfold gate opens only with it.\<close>

theorem supersede_gate_monotone:
  assumes "tel_fp_spot_checks t \<noteq> []"
  shows "(supersede_gate_open (gate_status (take_snapshot t) cfg) \<longrightarrow>
      gc_supersede_fp_min_samples cfg \<le> int (length (tel_fp_spot_checks t)) \<and>
      supersede_gate_open (gate_status (take_snapshot (record_supersede_fp_check v False t)) cfg)) \<and>
    (gc_supersede_fp_min_samples cfg \<le> int (length (tel_fp_spot_checks t)) \<longrightarrow>
      \<not> supersede_gate_open (gate_status (take_snapshot t) cfg) \<longrightarrow>
      \<not> supersede_gate_open (gate_status (take_snapshot (record_supersede_fp_check v True t)) cfg)) \<and>
    (unfold_gate_open (gate_status (take_snapshot t) cfg) \<longrightarrow>
      supersede_gate_open (gate_status (take_snapshot t) cfg))"
proof -
  have "unfold_gate_open (gate_status (take_snapshot t) cfg) = supersede_gate_open (gate_status (take_snapshot t) cfg)"
    by (simp add: gate_status_def Let_def)
  then show ?thesis
    using assms tel_gate.open_iff [of "(t, cfg)"] tel_gate.true_positive_keeps_open [of "(t, cfg)" v]
      tel_gate.false_positive_never_opens [of "(t, cfg)" v] by simp
qed

theorem supersede_gate_monotone_witness:
  "\<not> supersede_gate_open (gate_status (take_snapshot
     (record_supersede_fp_check ''b'' True (record_supersede_fp_check ''a'' True new_telemetry)))
     (default_gate_config\<lparr>gc_supersede_fp_min_samples := 1\<rparr>))"
proof -
  let ?t = "record_supersede_fp_check ''a'' True new_telemetry"
  let ?cfg = "default_gate_config\<lparr>gc_supersede_fp_min_samples := 1\<rparr>"
  have a: "tel_fp_spot_checks ?t \<noteq> []" "gc_supersede_fp_min_samples ?cfg \<le> int (length (tel_fp_spot_checks ?t))"
    by (simp_all add: record_supersede_fp_check_def new_telemetry_def)
  have "flit (1/10) \<le> 1" unfolding flit_def by (rule rnd_le_float) simp_all
  moreover have "idiv 1 1 = 1" using is_float_1 by (simp add: idiv_def is_float_def)
  ultimately have b: "\<not> supersede_gate_open (gate_status (take_snapshot ?t) ?cfg)"
    by (simp add: gate_status_def take_snapshot_def record_supersede_fp_check_def new_telemetry_def
        default_gate_config_def Let_def)
  show ?thesis using supersede_gate_monotone [OF a(1), of ?cfg "''b''"] a(2) b by blast
qed

end
