(* ===== verification/Corroboration.thy ===== *)
theory Corroboration
  imports World
begin

text \<open>
  \<open>corroboration.py\<close>: author credibility, the corroboration weight of an idea, the rewrite of
  overlapping bodies, and the operations \<open>corroborate\<close> and \<open>create_idea_from_pr\<close>.
\<close>

section \<open>Author credibility\<close>

record cred_store =
  cs_overrides :: "(string, pyfloat) dict"
  cs_default :: pyfloat
  cs_reviewer_default :: pyfloat

definition DEFAULT_VERIFIED_K :: pyfloat where
  "DEFAULT_VERIFIED_K = flit 2"

definition DEFAULT_AUTHOR_CREDIBILITY :: pyfloat where
  "DEFAULT_AUTHOR_CREDIBILITY = flit (1/2)"

definition REVIEWER_CREDIBILITY :: pyfloat where
  "REVIEWER_CREDIBILITY = flit (7/10)"

definition RECURRENCE_BONUS :: pyfloat where
  "RECURRENCE_BONUS = flit (2/10)"

definition new_cred_store :: "(string, pyfloat) dict \<Rightarrow> cred_store" where
  "new_cred_store overrides = \<lparr>cs_overrides = overrides,
     cs_default = DEFAULT_AUTHOR_CREDIBILITY, cs_reviewer_default = REVIEWER_CREDIBILITY\<rparr>"

definition cred_get :: "cred_store \<Rightarrow> string \<Rightarrow> bool \<Rightarrow> pyfloat" where
  "cred_get cs author_id has_reviewer =
     (case dget (cs_overrides cs) author_id of
        Some v \<Rightarrow> v
      | None \<Rightarrow> if has_reviewer then cs_reviewer_default cs else cs_default cs)"

definition cred_set :: "string \<Rightarrow> pyfloat \<Rightarrow> (cred_store, unit) py" where
  "cred_set author_id weight =
     (if \<not> (0 < weight \<and> weight \<le> 2) then praise ValueError
      else pmodify (\<lambda>cs. cs\<lparr>cs_overrides := dset author_id weight (cs_overrides cs)\<rparr>))"

definition cred_delete :: "string \<Rightarrow> (cred_store, unit) py" where
  "cred_delete author_id = pmodify (\<lambda>cs. cs\<lparr>cs_overrides := dpop author_id (cs_overrides cs)\<rparr>)"

section \<open>Weights\<close>

definition RUNG_WEIGHTS :: "(string, pyfloat) dict" where
  "RUNG_WEIGHTS = [(''test'', flit 1), (''normal'', flit (6/10)), (''bare'', flit (4/10))]"

definition rung_weight :: "string \<Rightarrow> pyfloat" where
  "rung_weight rung = (case dget RUNG_WEIGHTS rung of None \<Rightarrow> flit (4/10) | Some w \<Rightarrow> w)"

text \<open>\<open>x or default\<close> on an optional string: \<open>None\<close> and the empty string are falsy.\<close>

definition str_or :: "string option \<Rightarrow> string \<Rightarrow> string" where
  "str_or x d = (case x of None \<Rightarrow> d | Some s \<Rightarrow> if s = [] then d else s)"

definition extract_pr_number :: "string option \<Rightarrow> int option" where
  "extract_pr_number pr_ref = (case pr_ref of None \<Rightarrow> None
     | Some s \<Rightarrow> (case rsplit_last CHR ''#'' s of None \<Rightarrow> None | Some (_, num) \<Rightarrow> parse_int num))"

definition group_by_pr :: "idea_source list \<Rightarrow> (int, idea_source list) dict" where
  "group_by_pr sources = foldl (\<lambda>seen_pr src.
     case extract_pr_number (src_prRef src) of
       None \<Rightarrow> seen_pr
     | Some n \<Rightarrow> dset n ((case dget seen_pr n of Some hits \<Rightarrow> hits | None \<Rightarrow> []) @ [src]) seen_pr) [] sources"

definition src_rung_weight :: "idea_source \<Rightarrow> pyfloat" where
  "src_rung_weight h = rung_weight (str_or (src_verificationRung h) ''bare'')"

fun best_hit :: "idea_source \<Rightarrow> idea_source list \<Rightarrow> idea_source" where
  "best_hit best [] = best"
| "best_hit best (h # hs) =
     best_hit (if src_rung_weight best < src_rung_weight h then h else best) hs"

text \<open>One iteration of the summation loop: the votes of one PR.\<close>

definition add_pr_votes :: "cred_store \<Rightarrow> pyfloat \<Rightarrow> idea_source list \<Rightarrow> pyfloat" where
  "add_pr_votes cs acc hits = (case hits of [] \<Rightarrow> acc | h # hs \<Rightarrow>
     (let best = best_hit h hs;
          base_w = src_rung_weight best;
          cred = cred_get cs (str_or (src_authorId best) []) False;
          repeats = int (length hits) - 1
      in fadd (fadd acc (fmul base_w cred)) (fmul (fint repeats) RECURRENCE_BONUS)))"

definition corroboration_weight :: "idea_source list \<Rightarrow> cred_store \<Rightarrow> pyfloat" where
  "corroboration_weight sources cs = foldl (add_pr_votes cs) 0 (map snd (group_by_pr sources))"

definition distinct_pr_count :: "idea_source list \<Rightarrow> nat" where
  "distinct_pr_count sources =
     card (set (List.map_filter (\<lambda>src. extract_pr_number (src_prRef src)) sources))"

section \<open>Body re-synthesis\<close>

definition paragraphs_overlap :: "string \<Rightarrow> string \<Rightarrow> pyfloat \<Rightarrow> bool" where
  "paragraphs_overlap body_a body_b threshold =
     (let words_a = words body_a; words_b = words body_b in
      if words_a = {} \<or> words_b = {} then False else threshold \<le> jaccard words_a words_b)"

definition sentence_end :: "char \<Rightarrow> bool" where
  "sentence_end c \<longleftrightarrow> c = CHR ''.'' \<or> c = CHR ''!'' \<or> c = CHR ''?''"

text \<open>\<open>re.split(r"(?<=[.!?])\s+", text)\<close>; the first argument is the current piece, reversed.\<close>

function split_sentences_from :: "string \<Rightarrow> string \<Rightarrow> string list" where
  "split_sentences_from cur [] = [rev cur]"
| "split_sentences_from cur (c # cs) =
     (if is_space c \<and> (case cur of [] \<Rightarrow> False | d # _ \<Rightarrow> sentence_end d)
      then rev cur # split_sentences_from [] (dropWhile is_space cs)
      else split_sentences_from (c # cur) cs)"
  by pat_completeness auto
termination
  by (relation "measure (\<lambda>(cur, cs). length cs)") (auto simp: le_imp_less_Suc length_dropWhile_le)

definition clauses :: "string \<Rightarrow> string list" where
  "clauses text =
     filter (\<lambda>p. p \<noteq> []) (map strip (split_sentences_from [] (map (\<lambda>c. if c = nl then CHR '' '' else c) text)))"

text \<open>The loop that appends the clauses whose lower-case form has not been seen.\<close>

fun append_new_clauses :: "string list \<Rightarrow> string set \<Rightarrow> string list \<Rightarrow> string list" where
  "append_new_clauses merged seen [] = merged"
| "append_new_clauses merged seen (cl # cls) =
     (if lower cl \<in> seen then append_new_clauses merged seen cls
      else append_new_clauses (merged @ [cl]) (insert (lower cl) seen) cls)"

definition resynthesize_body :: "string \<Rightarrow> string \<Rightarrow> string" where
  "resynthesize_body incumbent challenger =
     (let inc_stripped = strip incumbent; chal_stripped = strip challenger in
      if chal_stripped = [] \<or> contains_str chal_stripped inc_stripped then inc_stripped
      else if inc_stripped = [] then chal_stripped
      else if paragraphs_overlap inc_stripped chal_stripped (flit (1/2))
      then (if length inc_stripped \<le> length chal_stripped then chal_stripped else inc_stripped)
      else
        let inc_clauses = clauses inc_stripped;
            merged = append_new_clauses inc_clauses (set (map lower inc_clauses)) (clauses chal_stripped);
            result = join '' '' merged
        in if result \<noteq> [] \<and> sentence_end (last result) then result else result @ ''.'')"

section \<open>The corroborate operation\<close>

record corr_request =
  cr_org :: string
  cr_idea_id :: string
  cr_skill_base_name :: string
  cr_pr_number :: int
  cr_owner_repo :: string
  cr_rung :: string
  cr_author_id :: string
  cr_challenger_body :: string
  cr_authority_kind :: string
  cr_has_reviewer :: bool

record corr_result =
  res_action :: string
  res_idea_id :: string
  res_weight :: pyfloat
  res_folded :: bool
  res_body :: string
  res_new_source_written :: bool
  res_version :: int

definition pr_ref_str :: "string \<Rightarrow> int \<Rightarrow> string" where
  "pr_ref_str owner_repo pr_number = owner_repo @ ''#'' @ show_int pr_number"

definition pr_source_id :: "int \<Rightarrow> string" where
  "pr_source_id pr_number = ''pr#'' @ show_int pr_number"

text \<open>The source record of a vote.\<close>

definition vote_source ::
    "string \<Rightarrow> string \<Rightarrow> int \<Rightarrow> string \<Rightarrow> string \<Rightarrow> string \<Rightarrow> string \<Rightarrow> idea_source" where
  "vote_source org idea_id pr_number owner_repo authority_kind rung author_id =
     (mk_source idea_id (pr_source_id pr_number) org)
       \<lparr>src_prRef := Some (pr_ref_str owner_repo pr_number),
        src_authorityKind := Some authority_kind,
        src_verificationRung := Some rung, src_authorId := Some author_id\<rparr>"

text \<open>
  The idempotency step of one attempt.  The argument is \<open>wrote_new_source\<close> (\<open>None\<close> on the
  first attempt); the result is \<open>already_counted\<close> with the new \<open>wrote_new_source\<close>.
\<close>

definition count_vote :: "corr_request \<Rightarrow> bool option \<Rightarrow> ('a lworld_scheme, bool \<times> bool) py" where
  "count_vote rq wrote = (case wrote of
     None \<Rightarrow> (\<lambda>w.
       let sources = list_idea_sources (cr_org rq) (cr_idea_id rq) (w_store w) in
       if Some (cr_pr_number rq) \<in> set (map (\<lambda>s. extract_pr_number (src_prRef s)) sources)
       then (Inr (True, False), w)
       else pbind (on_store (put_idea_source
              (vote_source (cr_org rq) (cr_idea_id rq) (cr_pr_number rq) (cr_owner_repo rq)
                 (cr_authority_kind rq) (cr_rung rq) (cr_author_id rq))))
            (\<lambda>_. pret (False, True)) w)
   | Some wr \<Rightarrow> pret (\<not> wr, wr))"

text \<open>The idea record one attempt writes.\<close>

definition voted_idea :: "corr_request \<Rightarrow> pyfloat \<Rightarrow> pyfloat \<Rightarrow> bool \<Rightarrow> idea_record \<Rightarrow> idea_record" where
  "voted_idea rq verified_k weight wrote idea =
     idea\<lparr>idea_body :=
            (if wrote \<and> paragraphs_overlap (idea_body idea) (cr_challenger_body rq) (flit (6/10))
             then resynthesize_body (idea_body idea) (cr_challenger_body rq) else idea_body idea),
          idea_status :=
            (if verified_k \<le> weight \<and> idea_status idea \<noteq> ''folded'' then ''folded''
             else idea_status idea),
          idea_corroborationVersion := idea_corroborationVersion idea + 1\<rparr>"

definition vote_telemetry :: "corr_request \<Rightarrow> cred_store \<Rightarrow> pyfloat \<Rightarrow> idea_source list \<Rightarrow> telemetry \<Rightarrow> telemetry" where
  "vote_telemetry rq cs weight sources t =
     record_idea_authority (cr_authority_kind rq)
       (record_author_credibility (cr_author_id rq) (cred_get cs (cr_author_id rq) (cr_has_reviewer rq))
         (record_corroboration_weight weight (distinct_pr_count sources) t))"

text \<open>
  The retry loop.  \<open>left\<close> counts the attempts left, \<open>attempt\<close> the attempts made.  \<open>env i\<close> is
  what other writers do to the store on attempt \<open>i\<close> between the reads and the conditional
  write; for a single-threaded store it is the identity.
\<close>

fun corroborate_loop ::
    "corr_request \<Rightarrow> cred_store \<Rightarrow> pyfloat \<Rightarrow> (nat \<Rightarrow> learning_store \<Rightarrow> learning_store) \<Rightarrow>
     nat \<Rightarrow> nat \<Rightarrow> bool option \<Rightarrow> ('a lworld_scheme, corr_result) py" where
  "corroborate_loop rq cs k env 0 attempt wrote =
     praise (VersionConflictError (cr_idea_id rq) 0 (- 1))"
| "corroborate_loop rq cs k env (Suc left) attempt wrote = (\<lambda>w.
     case get_idea (cr_org rq) (cr_skill_base_name rq) (cr_idea_id rq) (w_store w) of
       None \<Rightarrow> (Inl ValueError, w)
     | Some idea \<Rightarrow>
         pbind (count_vote rq wrote) (\<lambda>(already_counted, wrote') w1.
           let sources = list_idea_sources (cr_org rq) (cr_idea_id rq) (w_store w1);
               weight = corroboration_weight sources cs;
               updated = voted_idea rq k weight wrote' idea
           in case on_store (\<lambda>s. put_idea_conditional updated (idea_corroborationVersion idea) (env attempt s)) w1 of
                (Inl e, w2) \<Rightarrow>
                  (case e of
                     VersionConflictError i ex cu \<Rightarrow>
                       if left = 0 then (Inl e, w2)
                       else corroborate_loop rq cs k env left (Suc attempt) (Some wrote') w2
                   | _ \<Rightarrow> (Inl e, w2))
              | (Inr _, w2) \<Rightarrow>
                  pbind (if wrote' then on_tel (vote_telemetry rq cs weight sources) else pret ())
                    (\<lambda>_. pret
                       \<lparr>res_action = (if already_counted then ''already_counted''
                          else if k \<le> weight \<and> idea_status idea \<noteq> ''folded'' then ''folded''
                          else ''candidate''),
                        res_idea_id = cr_idea_id rq, res_weight = weight,
                        res_folded = (idea_status updated = ''folded''),
                        res_body = idea_body updated, res_new_source_written = wrote',
                        res_version = idea_corroborationVersion updated\<rparr>) w2) w)"

definition corroborate ::
    "corr_request \<Rightarrow> cred_store \<Rightarrow> pyfloat \<Rightarrow> nat \<Rightarrow> (nat \<Rightarrow> learning_store \<Rightarrow> learning_store) \<Rightarrow>
     ('a lworld_scheme, corr_result) py" where
  "corroborate rq cs verified_k max_retries env =
     pbind (org_guard (cr_org rq) ''corroborate'') (\<lambda>_.
       corroborate_loop rq cs verified_k env max_retries 0 None)"

definition MAX_OCC_RETRIES :: nat where
  "MAX_OCC_RETRIES = 5"

section \<open>Creating an idea from its first vote\<close>

definition create_idea_from_pr ::
    "string \<Rightarrow> string \<Rightarrow> string \<Rightarrow> int \<Rightarrow> string \<Rightarrow> string \<Rightarrow> string \<Rightarrow> string \<Rightarrow> cred_store \<Rightarrow>
     string \<Rightarrow> bool \<Rightarrow> pyfloat \<Rightarrow> ('a lworld_scheme, corr_result) py" where
  "create_idea_from_pr org idea_id skill_base_name pr_number owner_repo rung author_id body cs
       authority_kind has_reviewer verified_k =
     pbind (org_guard org ''create_idea_from_pr'') (\<lambda>_.
       let cred = cred_get cs author_id has_reviewer;
           weight = fmul (rung_weight rung) cred;
           should_fold = (verified_k \<le> weight);
           status = (if should_fold then ''folded'' else ''open'');
           idea = (mk_idea idea_id skill_base_name org body status 0)
                    \<lparr>idea_authorityKind := Some authority_kind\<rparr>
       in pbind (on_store (put_idea_conditional idea (- 1))) (\<lambda>_.
          pbind (on_store (put_idea_source
            (vote_source org idea_id pr_number owner_repo authority_kind rung author_id))) (\<lambda>_.
          pbind (on_tel (\<lambda>t. record_idea_authority authority_kind
             (record_author_credibility author_id cred (record_corroboration_weight weight 1 t)))) (\<lambda>_.
          pret \<lparr>res_action = (if should_fold then ''folded'' else ''created''),
                res_idea_id = idea_id, res_weight = weight, res_folded = should_fold,
                res_body = body, res_new_source_written = True, res_version = 0\<rparr>))))"

text \<open>Read only: the weight under the current credibility store.\<close>

definition recompute_weight :: "string \<Rightarrow> string \<Rightarrow> cred_store \<Rightarrow> learning_store \<Rightarrow> pyfloat" where
  "recompute_weight org idea_id cs s = corroboration_weight (list_idea_sources org idea_id s) cs"

section \<open>Grouping the votes by pull request\<close>

definition vote_pr :: "idea_source \<Rightarrow> int option" where
  "vote_pr h = extract_pr_number (src_prRef h)"

lemma group_fresh:
  assumes "distinct (List.map_filter vote_pr sources)"
    and "\<forall>n \<in> set (List.map_filter vote_pr sources). dget seen n = None"
  shows "foldl (\<lambda>seen_pr src. case extract_pr_number (src_prRef src) of None \<Rightarrow> seen_pr
       | Some n \<Rightarrow> dset n ((case dget seen_pr n of Some hits \<Rightarrow> hits | None \<Rightarrow> []) @ [src]) seen_pr) seen sources
     = seen @ map (\<lambda>h. (the (vote_pr h), [h])) (filter (\<lambda>h. vote_pr h \<noteq> None) sources)"
  using assms
proof (induction sources arbitrary: seen)
  case Nil
  then show ?case by simp
next
  case (Cons h hs)
  show ?case
  proof (cases "vote_pr h")
    case None
    then show ?thesis using Cons by (simp add: vote_pr_def List.map_filter_simps)
  next
    case (Some n)
    then have new: "dget seen n = None" using Cons.prems(2) by (simp add: List.map_filter_simps)
    have "\<forall>m \<in> set (List.map_filter vote_pr hs). dget (seen @ [(n, [h])]) m = None"
      using Cons.prems Some by (auto simp: List.map_filter_simps map_of_eq_None_iff)
    then show ?thesis using Cons.IH [of "seen @ [(n, [h])]"] Cons.prems(1) Some new
      by (simp add: vote_pr_def [symmetric] List.map_filter_simps dset_new)
  qed
qed

lemma group_by_pr_distinct:
  "distinct (List.map_filter vote_pr sources) \<Longrightarrow>
   group_by_pr sources = map (\<lambda>h. (the (vote_pr h), [h])) (filter (\<lambda>h. vote_pr h \<noteq> None) sources)"
  using group_fresh [of sources "[]"] by (simp add: group_by_pr_def)

lemma group_by_pr_snoc:
  "group_by_pr (hs @ [h]) = (case vote_pr h of None \<Rightarrow> group_by_pr hs
     | Some n \<Rightarrow> dset n ((case dget (group_by_pr hs) n of Some hits \<Rightarrow> hits | None \<Rightarrow> []) @ [h]) (group_by_pr hs))"
  unfolding group_by_pr_def vote_pr_def foldl_append by simp

lemma keys_group_by_pr:
  "set (map fst (group_by_pr sources)) = set (List.map_filter vote_pr sources)"
proof (induction sources rule: rev_induct)
  case Nil
  then show ?case by (simp add: group_by_pr_def List.map_filter_simps)
next
  case (snoc h hs)
  show ?case
  proof (cases "vote_pr h")
    case None
    then show ?thesis using snoc by (simp add: group_by_pr_snoc List.map_filter_def)
  next
    case (Some n)
    then show ?thesis using snoc
      by (simp only: group_by_pr_snoc option.case keys_dset) (simp add: List.map_filter_def)
  qed
qed

lemma group_by_pr_snoc_fresh:
  assumes "vote_pr h = Some n" "n \<notin> set (List.map_filter vote_pr hs)"
  shows "group_by_pr (hs @ [h]) = group_by_pr hs @ [(n, [h])]"
proof -
  have "dget (group_by_pr hs) n = None"
    using assms(2) keys_group_by_pr [of hs] by (simp add: map_of_eq_None_iff)
  then show ?thesis using assms(1) by (simp add: group_by_pr_snoc dset_new)
qed

section \<open>Bounds and monotonicity of the weight\<close>

lemma rung_weight_bounds: "flit (4/10) \<le> rung_weight r" "rung_weight r \<le> 1"
  by (auto simp: rung_weight_def RUNG_WEIGHTS_def flit_def rnd_mono intro!: rnd_le_float split: option.splits)

lemma rung_weight_nonneg [simp]: "0 \<le> rung_weight r"
  using rung_weight_bounds(1) [of r] flit_nonneg [of "4/10"] by linarith

lemma src_rung_weight_nonneg [simp]: "0 \<le> src_rung_weight h"
  by (simp add: src_rung_weight_def)

lemma RECURRENCE_BONUS_nonneg [simp]: "0 \<le> RECURRENCE_BONUS"
  by (simp add: RECURRENCE_BONUS_def)

lemma is_float_add_pr_votes: "is_float acc \<Longrightarrow> is_float (add_pr_votes cs acc hits)"
  by (simp add: add_pr_votes_def Let_def split: list.splits)

lemma is_float_weight: "is_float (corroboration_weight sources cs)"
proof -
  have "is_float acc \<Longrightarrow> is_float (foldl (add_pr_votes cs) acc xs)" for acc xs
    by (induction xs arbitrary: acc) (auto simp: is_float_add_pr_votes)
  then show ?thesis by (simp add: corroboration_weight_def)
qed

text \<open>Credibility weights below another store's, all of them non-negative.\<close>

definition cred_le :: "cred_store \<Rightarrow> cred_store \<Rightarrow> bool" where
  "cred_le cs cs' \<longleftrightarrow> (\<forall>a. 0 \<le> cred_get cs a False \<and> cred_get cs a False \<le> cred_get cs' a False)"

lemma add_pr_votes_mono:
  "cred_le cs cs' \<Longrightarrow> acc \<le> acc' \<Longrightarrow> add_pr_votes cs acc hits \<le> add_pr_votes cs' acc' hits"
  by (auto simp: add_pr_votes_def Let_def cred_le_def intro!: fadd_mono fmul_mono split: list.splits)

lemma corroboration_weight_mono_cred:
  assumes "cred_le cs cs'"
  shows "corroboration_weight sources cs \<le> corroboration_weight sources cs'"
proof -
  have "acc \<le> acc' \<Longrightarrow> foldl (add_pr_votes cs) acc xs \<le> foldl (add_pr_votes cs') acc' xs" for acc acc' xs
    by (induction xs arbitrary: acc acc') (auto simp: add_pr_votes_mono [OF assms])
  then show ?thesis by (simp add: corroboration_weight_def)
qed

lemma add_pr_votes_increasing:
  assumes "is_float acc" "\<forall>a. 0 \<le> cred_get cs a False" "hits \<noteq> []"
  shows "acc \<le> add_pr_votes cs acc hits"
proof -
  obtain h hs where hits: "hits = h # hs" using assms(3) by (cases hits) auto
  let ?b = "best_hit h hs"
  let ?v = "fmul (src_rung_weight ?b) (cred_get cs (str_or (src_authorId ?b) []) False)"
  have "acc \<le> fadd acc ?v" using assms by (simp add: fadd_increasing)
  also have "\<dots> \<le> fadd (fadd acc ?v) (fmul (fint (int (length hs))) RECURRENCE_BONUS)"
    by (rule fadd_increasing) simp_all
  finally show ?thesis by (simp add: hits add_pr_votes_def Let_def)
qed

lemma weight_new_vote:
  assumes "vote_pr h = Some n" "n \<notin> set (List.map_filter vote_pr hs)"
  shows "corroboration_weight (hs @ [h]) cs = add_pr_votes cs (corroboration_weight hs cs) [h]"
  using group_by_pr_snoc_fresh [OF assms] by (simp add: corroboration_weight_def)

text \<open>With one vote per pull request the weight is the plain sum: no recurrence bonus.\<close>

definition vote_value :: "cred_store \<Rightarrow> idea_source \<Rightarrow> pyfloat" where
  "vote_value cs h = fmul (src_rung_weight h) (cred_get cs (str_or (src_authorId h) []) False)"

lemma add_pr_votes_single: "add_pr_votes cs acc [h] = fadd acc (vote_value cs h)"
  by (simp add: add_pr_votes_def Let_def vote_value_def fadd_0_right)

lemma weight_distinct_votes:
  assumes "distinct (List.map_filter vote_pr sources)"
  shows "corroboration_weight sources cs =
    foldl (\<lambda>acc h. fadd acc (vote_value cs h)) 0 (filter (\<lambda>h. vote_pr h \<noteq> None) sources)"
proof -
  have "foldl (add_pr_votes cs) acc (map (\<lambda>h. [h]) xs) = foldl (\<lambda>acc h. fadd acc (vote_value cs h)) acc xs"
    for acc xs by (induction xs arbitrary: acc) (auto simp: add_pr_votes_single)
  then show ?thesis
    by (simp add: corroboration_weight_def group_by_pr_distinct [OF assms] comp_def)
qed

lemma vote_pr_vote_source: "vote_pr (vote_source g i n rp ak rg au) = Some n"
proof -
  have "rsplit_last CHR ''#'' (rp @ CHR ''#'' # show_int n) = Some (rp, show_int n)"
    by (rule rsplit_last_append) (metis show_int_no_hash)
  then show ?thesis
    by (simp add: vote_pr_def vote_source_def pr_ref_str_def extract_pr_number_def parse_show_int mk_source_def)
qed

end
