(* ===== verification/SkillsWrite.thy ===== *)
theory SkillsWrite
  imports Records PyBase Interfaces
begin

text \<open>
  \<open>skills_write.py\<close>: the in-memory skill store (revision rows, TRUE pointers, golden cases)
  and \<open>write_revision\<close>, the only writer of revisions, with its compare-and-swap retry loop.
  The interceptor of the store, which the code calls before each compare-and-swap, is the
  argument \<open>env\<close>: \<open>env n\<close> is what other writers do on attempt \<open>n\<close>.  The clock is the argument
  \<open>now\<close>: \<open>now n\<close> is its answer to call \<open>n\<close>.
\<close>

section \<open>The skill store\<close>

record skill_store =
  sk_revisions :: "(string \<times> string \<times> int, revision_record) dict"
  sk_pointers :: "(string \<times> string, true_pointer) dict"
  sk_golden :: "(string \<times> string \<times> string, golden_case) dict"

definition empty_skill_store :: skill_store where
  "empty_skill_store = \<lparr>sk_revisions = [], sk_pointers = [], sk_golden = []\<rparr>"

definition get_current_rev :: "string \<Rightarrow> string \<Rightarrow> skill_store \<Rightarrow> int option" where
  "get_current_rev org variant_id s =
     (case dget (sk_pointers s) (org, variant_id) of
        Some p \<Rightarrow> Some (ptr_rev p)
      | None \<Rightarrow>
          (let revs = map rev_rev (dvals_where (\<lambda>(o', v, _) _. o' = org \<and> v = variant_id) (sk_revisions s))
           in if revs \<noteq> [] then Some (Max (set revs)) else None))"

definition get_revision_body :: "string \<Rightarrow> string \<Rightarrow> int \<Rightarrow> skill_store \<Rightarrow> string option" where
  "get_revision_body org variant_id n s = map_option rev_body (dget (sk_revisions s) (org, variant_id, n))"

definition put_revision :: "revision_record \<Rightarrow> skill_store \<Rightarrow> skill_store" where
  "put_revision r s = s\<lparr>sk_revisions := dset (rev_org r, rev_variantId r, rev_rev r) r (sk_revisions s)\<rparr>"

definition get_true_pointer :: "string \<Rightarrow> string \<Rightarrow> skill_store \<Rightarrow> true_pointer option" where
  "get_true_pointer org base_name s = dget (sk_pointers s) (org, base_name)"

text \<open>The compare-and-swap, after the interceptor has run.\<close>

definition cas_true_pointer :: "true_pointer \<Rightarrow> int option \<Rightarrow> skill_store \<Rightarrow> bool \<times> skill_store" where
  "cas_true_pointer r expected_rev s =
     (let key = (ptr_org r, ptr_baseName r);
          current_rev = map_option ptr_rev (dget (sk_pointers s) key)
      in if current_rev \<noteq> expected_rev then (False, s)
         else (True, s\<lparr>sk_pointers := dset key r (sk_pointers s)\<rparr>))"

definition put_skill_golden :: "golden_case \<Rightarrow> skill_store \<Rightarrow> skill_store" where
  "put_skill_golden r s =
     s\<lparr>sk_golden := dset (gold_org r, gold_skillBaseName r, gold_caseId r) r (sk_golden s)\<rparr>"

section \<open>Writing a revision\<close>

record golden_payload =
  gp_case_id :: string
  gp_before :: string
  gp_after :: string
  gp_idea_body :: string

record revision_request =
  rr_org :: string
  rr_base_name :: string
  rr_variant_id :: string
  rr_body :: string
  rr_author_user_id :: "string option"
  rr_description :: "string option"
  rr_golden_case :: "golden_payload option"
  rr_idea_id :: "string option"

record write_result =
  wr_org :: string
  wr_base_name :: string
  wr_variant_id :: string
  wr_rev :: int
  wr_true_pointer_updated :: bool
  wr_golden_case_written :: bool

definition MAX_CAS_RETRIES :: nat where
  "MAX_CAS_RETRIES = 5"

definition get_pointer_rev :: "string \<Rightarrow> string \<Rightarrow> skill_store \<Rightarrow> int option" where
  "get_pointer_rev org base_name s = map_option ptr_rev (get_true_pointer org base_name s)"

definition read_winning_body :: "revision_request \<Rightarrow> true_pointer option \<Rightarrow> skill_store \<Rightarrow> string" where
  "read_winning_body rq pointer s = (case pointer of
     None \<Rightarrow> rr_body rq
   | Some p \<Rightarrow> (case get_revision_body (rr_org rq) (ptr_variantId p) (ptr_rev p) s of
        None \<Rightarrow> rr_body rq
      | Some b \<Rightarrow> b))"

definition default_delta :: "string \<Rightarrow> string \<Rightarrow> string" where
  "default_delta winning_body lesson_body =
     (if contains_str (strip lesson_body) winning_body then winning_body
      else rstrip_char nl winning_body @ [nl, nl] @ lstrip_char nl lesson_body)"

definition new_pointer :: "revision_request \<Rightarrow> int \<Rightarrow> int \<Rightarrow> true_pointer" where
  "new_pointer rq n now = \<lparr>ptr_baseName = rr_base_name rq, ptr_variantId = rr_variant_id rq,
     ptr_rev = n, ptr_org = rr_org rq, ptr_updatedAt = Some now\<rparr>"

definition new_revision :: "revision_request \<Rightarrow> int \<Rightarrow> string \<Rightarrow> int \<Rightarrow> revision_record" where
  "new_revision rq n body now = \<lparr>rev_baseName = rr_base_name rq, rev_variantId = rr_variant_id rq,
     rev_rev = n, rev_body = body, rev_org = rr_org rq, rev_description = rr_description rq,
     rev_createdBy = rr_author_user_id rq, rev_createdAt = Some now, rev_ideaId = rr_idea_id rq\<rparr>"

text \<open>The golden case of the fold path.\<close>

definition capture_golden :: "revision_request \<Rightarrow> int \<Rightarrow> skill_store \<Rightarrow> skill_store" where
  "capture_golden rq now s = (case rr_golden_case rq of None \<Rightarrow> s
   | Some gc \<Rightarrow> put_skill_golden \<lparr>gold_caseId = gp_case_id gc, gold_skillBaseName = rr_base_name rq,
       gold_org = rr_org rq, gold_before = gp_before gc, gold_after = gp_after gc,
       gold_ideaBody = gp_idea_body gc, gold_createdAt = Some now\<rparr> s)"

text \<open>
  The retry loop: \<open>left\<close> attempts are left, \<open>n\<close> have been made.  The clock is read once per
  attempt and twice more after a successful compare-and-swap.
\<close>

fun write_loop ::
    "revision_request \<Rightarrow> (string \<Rightarrow> string \<Rightarrow> string) \<Rightarrow> (nat \<Rightarrow> int) \<Rightarrow> (nat \<Rightarrow> skill_store \<Rightarrow> skill_store) \<Rightarrow>
     nat \<Rightarrow> nat \<Rightarrow> (skill_store, write_result) py" where
  "write_loop rq delta now env 0 n = (\<lambda>s.
     (Inl (ConflictError (case get_pointer_rev (rr_org rq) (rr_base_name rq) s of
        None \<Rightarrow> 0 | Some v \<Rightarrow> v)), s))"
| "write_loop rq delta now env (Suc left) n = (\<lambda>s.
     let pointer = get_true_pointer (rr_org rq) (rr_base_name rq) s;
         expected_rev = map_option ptr_rev pointer;
         body = (if 0 < n then delta (read_winning_body rq pointer s) (rr_body rq) else rr_body rq);
         new_rev = (case expected_rev of None \<Rightarrow> 1 | Some v \<Rightarrow> v + 1)
     in case cas_true_pointer (new_pointer rq new_rev (now n)) expected_rev (env n s) of
          (False, s1) \<Rightarrow> write_loop rq delta now env left (Suc n) s1
        | (True, s1) \<Rightarrow>
            (let s2 = put_revision (new_revision rq new_rev body (now (Suc n))) s1;
                 s3 = capture_golden rq (now (Suc (Suc n))) s2
             in (Inr \<lparr>wr_org = rr_org rq, wr_base_name = rr_base_name rq,
                   wr_variant_id = rr_variant_id rq, wr_rev = new_rev, wr_true_pointer_updated = True,
                   wr_golden_case_written = (rr_golden_case rq \<noteq> None)\<rparr>, s3)))"

definition write_revision ::
    "revision_request \<Rightarrow> (string \<Rightarrow> string \<Rightarrow> string) \<Rightarrow> (nat \<Rightarrow> int) \<Rightarrow> nat \<Rightarrow>
     (nat \<Rightarrow> skill_store \<Rightarrow> skill_store) \<Rightarrow> (skill_store, write_result) py" where
  "write_revision rq delta now max_retries env = write_loop rq delta now env max_retries 0"

section \<open>The TRUE pointer is a clock\<close>

definition cas_pointer :: "true_pointer \<Rightarrow> int option \<Rightarrow> skill_store \<Rightarrow> skill_store option" where
  "cas_pointer r v s = (case cas_true_pointer r v s of (True, s') \<Rightarrow> Some s' | (False, _) \<Rightarrow> None)"

definition pointer_rev_at :: "string \<times> string \<Rightarrow> skill_store \<Rightarrow> int option" where
  "pointer_rev_at k s = map_option ptr_rev (dget (sk_pointers s) k)"

interpretation pointer_occ: occ_clock pointer_rev_at cas_pointer "\<lambda>r. (ptr_org r, ptr_baseName r)"
  "\<lambda>r. Some (ptr_rev r)" "\<lambda>_. True"
  "\<lambda>r v. ptr_rev r = (case v of None \<Rightarrow> 1 | Some n \<Rightarrow> n + 1)"
  by unfold_locales
     (auto simp: cas_pointer_def cas_true_pointer_def pointer_rev_at_def Let_def dict_simps
       split: if_splits option.splits)

interpretation revision_table: upsert_store put_revision
  "\<lambda>(g, v, n) s. dget (sk_revisions s) (g, v, n)" "\<lambda>r. (rev_org r, rev_variantId r, rev_rev r)" "\<lambda>_. True"
  by unfold_locales (auto simp: put_revision_def dict_simps)

lemma put_revision_pointers [simp]: "sk_pointers (put_revision r s) = sk_pointers s"
  by (simp add: put_revision_def)

lemma capture_golden_simps [simp]:
  "sk_pointers (capture_golden rq t s) = sk_pointers s" "sk_revisions (capture_golden rq t s) = sk_revisions s"
  by (simp_all add: capture_golden_def put_skill_golden_def split: option.splits)

end
