(* ===== verification/Anchors.thy ===== *)
theory Anchors
  imports World
begin

text \<open>
  \<open>anchors.py\<close>: from a diff to code anchors, and the anchor index operations.  The syntax
  tree is the data the tree-sitter library returns (\<open>node\<close>); the parser itself is an argument
  \<open>parse\<close>, \<open>None\<close> when the grammar is missing or the parse fails.  File contents are strings
  of code points below 256, one for each byte.
\<close>

section \<open>Constants\<close>

definition FILE_LEVEL_SYMBOL :: string where
  "FILE_LEVEL_SYMBOL = ''__file__''"

definition TS_NAMED_TYPES :: "string list" where
  "TS_NAMED_TYPES = [''function_declaration'', ''method_definition'', ''class_declaration'',
     ''variable_declarator'', ''interface_declaration'', ''type_alias_declaration'',
     ''enum_declaration'', ''export_statement'']"

definition GO_NAMED_TYPES :: "string list" where
  "GO_NAMED_TYPES = [''function_declaration'', ''method_declaration'', ''short_var_declaration'',
     ''type_declaration'', ''var_declaration'']"

definition PY_NAMED_TYPES :: "string list" where
  "PY_NAMED_TYPES = [''function_definition'', ''class_definition'', ''decorated_definition'']"

definition EXT_TO_LANG :: "(string, string) dict" where
  "EXT_TO_LANG = [(''.ts'', ''typescript''), (''.tsx'', ''typescript''), (''.js'', ''typescript''),
     (''.jsx'', ''typescript''), (''.go'', ''go''), (''.py'', ''python'')]"

record anchor =
  an_file :: string
  an_symbol :: string
  an_resolution :: string

record diff_hunk =
  dh_file :: string
  dh_start_line :: int
  dh_end_line :: int
  dh_content :: string

section \<open>Syntax trees\<close>

text \<open>A node: its type, its text, the 0-based rows of its first and last line, its children.\<close>

datatype node = Node (n_type: string) (n_text: string) (n_first: int) (n_last: int) (n_children: "node list")

definition ts_declarator_is_function :: "node \<Rightarrow> bool" where
  "ts_declarator_is_function nd = list_ex (\<lambda>c. n_type c \<in> {''arrow_function'', ''function'',
     ''function_expression'', ''generator_function''}) (n_children nd)"

definition node_text :: "node \<Rightarrow> string option" where
  "node_text nd = (if n_text nd = [] then None else Some (n_text nd))"

text \<open>The first child of one of the types decides; \<open>None\<close> when there is no such child.\<close>

definition first_child :: "string list \<Rightarrow> node \<Rightarrow> node option" where
  "first_child types nd = find (\<lambda>c. n_type c \<in> set types) (n_children nd)"

definition node_name :: "node \<Rightarrow> string \<Rightarrow> string option" where
  "node_name nd lang =
     (if lang = ''typescript'' then
        if n_type nd = ''variable_declarator'' \<and> \<not> ts_declarator_is_function nd then None
        else case (if n_type nd = ''variable_declarator'' then first_child [''identifier''] nd else None) of
            Some c \<Rightarrow> node_text c
          | None \<Rightarrow>
              Option.bind (first_child [''identifier'', ''type_identifier'', ''property_identifier''] nd) node_text
      else if lang = ''go'' then
        case (if n_type nd = ''short_var_declaration''
              then find (\<lambda>sub. n_type sub = ''identifier'')
                     (concat (map n_children (filter (\<lambda>c. n_type c = ''expression_list'') (n_children nd))))
              else None) of
            Some c \<Rightarrow> node_text c
          | None \<Rightarrow> Option.bind (first_child [''identifier'', ''field_identifier'', ''type_identifier''] nd) node_text
      else if lang = ''python'' then Option.bind (first_child [''identifier''] nd) node_text
      else None)"

definition named_types_for_lang :: "string \<Rightarrow> string list" where
  "named_types_for_lang lang =
     (if lang = ''typescript'' then TS_NAMED_TYPES
      else if lang = ''go'' then GO_NAMED_TYPES
      else if lang = ''python'' then PY_NAMED_TYPES else [])"

text \<open>The depth-first search: the name and the number of lines of the best node below.\<close>

fun search_node :: "int \<Rightarrow> string \<Rightarrow> node \<Rightarrow> (string \<times> int) option"
  and search_children :: "int \<Rightarrow> string \<Rightarrow> (string \<times> int) option \<Rightarrow> node list \<Rightarrow> (string \<times> int) option" where
  "search_node line lang (Node t x r0 r1 cs) =
     (let node_start = r0 + 1; node_end = r1 + 1 in
      if \<not> (node_start \<le> line \<and> line \<le> node_end) then None
      else case search_children line lang None cs of
          Some b \<Rightarrow> Some b
        | None \<Rightarrow>
            if t \<in> set (named_types_for_lang lang)
            then (case node_name (Node t x r0 r1 cs) lang of
                    Some nm \<Rightarrow> if nm \<noteq> [] then Some (nm, node_end - node_start + 1) else None
                  | None \<Rightarrow> None)
            else None)"
| "search_children line lang best [] = best"
| "search_children line lang best (c # cs) =
     search_children line lang
       (case search_node line lang c of
          None \<Rightarrow> best
        | Some r \<Rightarrow> (case best of None \<Rightarrow> Some r | Some b \<Rightarrow> if snd r < snd b then Some r else Some b)) cs"

definition find_enclosing_symbol :: "node \<Rightarrow> int \<Rightarrow> string \<Rightarrow> string option" where
  "find_enclosing_symbol tree line lang = map_option fst (search_node line lang tree)"

section \<open>Anchors of a diff\<close>

text \<open>\<open>path.rfind(".")\<close> and the text from there on, in lower case.\<close>

definition file_ext :: "string \<Rightarrow> string" where
  "file_ext path = (case rsplit_last CHR ''.'' path of None \<Rightarrow> [] | Some (_, e) \<Rightarrow> lower (CHR ''.'' # e))"

definition add_anchor ::
    "string \<Rightarrow> string \<Rightarrow> string \<Rightarrow> (string \<times> string, anchor) dict \<Rightarrow> (string \<times> string, anchor) dict" where
  "add_anchor file symbol resolution seen =
     (case dget seen (file, symbol) of
        Some _ \<Rightarrow> seen
      | None \<Rightarrow> dset (file, symbol) \<lparr>an_file = file, an_symbol = symbol, an_resolution = resolution\<rparr> seen)"

text \<open>The symbol a hunk is anchored to: the middle line, then its first and its last line.\<close>

definition hunk_candidate :: "node \<Rightarrow> diff_hunk \<Rightarrow> string \<Rightarrow> string option" where
  "hunk_candidate tree hunk lang =
     (case find_enclosing_symbol tree ((dh_start_line hunk + dh_end_line hunk) div 2) lang of
        Some c \<Rightarrow> Some c
      | None \<Rightarrow> (case find_enclosing_symbol tree (dh_start_line hunk) lang of
          Some c \<Rightarrow> Some c
        | None \<Rightarrow> find_enclosing_symbol tree (dh_end_line hunk) lang))"

definition hunk_symbol :: "(string \<Rightarrow> string \<Rightarrow> node option) \<Rightarrow> diff_hunk \<Rightarrow> string option" where
  "hunk_symbol parse hunk = (case dget EXT_TO_LANG (file_ext (dh_file hunk)) of
     None \<Rightarrow> None
   | Some lang \<Rightarrow>
       if dh_content hunk = [] then None
       else (case parse lang (dh_content hunk) of
          None \<Rightarrow> None
        | Some tree \<Rightarrow> hunk_candidate tree hunk lang))"

definition extract_anchors_from_diff ::
    "(string \<Rightarrow> string \<Rightarrow> node option) \<Rightarrow> diff_hunk list \<Rightarrow> anchor list" where
  "extract_anchors_from_diff parse hunks =
     map snd (foldl (\<lambda>seen hunk.
       case hunk_symbol parse hunk of
         Some c \<Rightarrow> if c \<noteq> [] then add_anchor (dh_file hunk) c ''symbol'' seen
                   else add_anchor (dh_file hunk) FILE_LEVEL_SYMBOL ''file_fallback'' seen
       | None \<Rightarrow> add_anchor (dh_file hunk) FILE_LEVEL_SYMBOL ''file_fallback'' seen) [] hunks)"

section \<open>Parsing a unified diff\<close>

text \<open>\<open>s.splitlines()\<close>: the line boundaries among the code points below 256; \<open>\r\n\<close> is one.\<close>

definition line_break :: "char \<Rightarrow> bool" where
  "line_break c \<longleftrightarrow> cp c \<in> {10, 11, 12, 13, 28, 29, 30, 133}"

fun split_lines_from :: "string \<Rightarrow> string \<Rightarrow> string list" where
  "split_lines_from cur [] = (if cur = [] then [] else [rev cur])"
| "split_lines_from cur (c # cs) =
     (if cp c = 13 \<and> (case cs of [] \<Rightarrow> False | d # _ \<Rightarrow> cp d = 10) then rev cur # split_lines_from [] (tl cs)
      else if line_break c then rev cur # split_lines_from [] cs
      else split_lines_from (c # cur) cs)"

definition drop_prefix :: "string \<Rightarrow> string \<Rightarrow> string option" where
  "drop_prefix p s = (if take (length p) s = p then Some (drop (length p) s) else None)"

text \<open>\<open>^\+\+\+ b/(.+)$\<close>\<close>

definition match_b_file :: "string \<Rightarrow> string option" where
  "match_b_file line = (case drop_prefix ''+++ b/'' line of
     None \<Rightarrow> None | Some r \<Rightarrow> if r = [] then None else Some r)"

text \<open>\<open>\d+\<close>, then the rest of the line.\<close>

definition match_digits :: "string \<Rightarrow> (string \<times> string) option" where
  "match_digits s = (let d = takeWhile is_digit s in if d = [] then None else Some (d, dropWhile is_digit s))"

text \<open>\<open>(?:,\d+)?\<close>\<close>

definition skip_count :: "string \<Rightarrow> string" where
  "skip_count s = (case drop_prefix '','' s of
     None \<Rightarrow> s
   | Some r \<Rightarrow> (case match_digits r of None \<Rightarrow> s | Some (_, r') \<Rightarrow> r'))"

text \<open>\<open>^@@ -(\d+)(?:,\d+)? \+(\d+)(?:,(\d+))? @@\<close>, its first group as a number.\<close>

definition match_hunk :: "string \<Rightarrow> int option" where
  "match_hunk line = Option.bind (drop_prefix ''@@ -'' line) (\<lambda>r.
     Option.bind (match_digits r) (\<lambda>(d, r1).
     Option.bind (drop_prefix '' +'' (skip_count r1)) (\<lambda>r2.
     Option.bind (match_digits r2) (\<lambda>(_, r3).
     Option.bind (drop_prefix '' @@'' (skip_count r3)) (\<lambda>_. parse_int d)))))"

record diff_state =
  ds_hunks :: "diff_hunk list"
  ds_file :: "string option"
  ds_start :: "int option"
  ds_end :: "int option"

text \<open>Append the hunk under way, if there is one: \<open>end_line=hunk_end or hunk_start\<close>.\<close>

definition flush_hunk :: "(string, string) dict \<Rightarrow> diff_state \<Rightarrow> diff_hunk list" where
  "flush_hunk file_contents ds = (case (ds_file ds, ds_start ds) of
     (Some f, Some st) \<Rightarrow> ds_hunks ds @
       [\<lparr>dh_file = f, dh_start_line = st,
         dh_end_line = (case ds_end ds of None \<Rightarrow> st | Some e \<Rightarrow> if e = 0 then st else e),
         dh_content = (case dget file_contents f of None \<Rightarrow> [] | Some c \<Rightarrow> c)\<rparr>]
   | _ \<Rightarrow> ds_hunks ds)"

definition diff_line :: "(string, string) dict \<Rightarrow> diff_state \<Rightarrow> string \<Rightarrow> diff_state" where
  "diff_line file_contents ds line = (case match_b_file line of
     Some f \<Rightarrow>
       (if ds_file ds \<noteq> None \<and> ds_start ds \<noteq> None
        then ds\<lparr>ds_hunks := flush_hunk file_contents ds, ds_start := None, ds_end := None, ds_file := Some f\<rparr>
        else ds\<lparr>ds_file := Some f\<rparr>)
   | None \<Rightarrow> (case match_hunk line of
       Some n \<Rightarrow> if ds_file ds \<noteq> None
                  then ds\<lparr>ds_hunks := flush_hunk file_contents ds, ds_start := Some n, ds_end := Some n\<rparr>
                  else ds
     | None \<Rightarrow> ds))"

definition parse_unified_diff :: "string \<Rightarrow> (string, string) dict \<Rightarrow> diff_hunk list" where
  "parse_unified_diff diff_text file_contents =
     flush_hunk file_contents
       (foldl (diff_line file_contents) \<lparr>ds_hunks = [], ds_file = None, ds_start = None, ds_end = None\<rparr>
         (split_lines_from [] diff_text))"

section \<open>The anchor index\<close>

definition write_anchors_on_fold ::
    "string \<Rightarrow> string \<Rightarrow> string \<Rightarrow> anchor list \<Rightarrow> ('a lworld_scheme, unit) py" where
  "write_anchors_on_fold org owner_repo idea_id anchors =
     pbind (org_guard org ''write_anchors_on_fold'') (\<lambda>_.
     pbind (pfor (\<lambda>a seen.
        if (an_file a, an_symbol a) \<in> set seen then pret seen
        else pbind (on_store (put_anchor \<lparr>anchor_ideaId = idea_id, anchor_ownerRepo = owner_repo,
                anchor_file = an_file a, anchor_symbol = an_symbol a, anchor_org = org, anchor_active = True\<rparr>))
             (\<lambda>_. pbind (on_tel (record_anchor_resolution (an_resolution a = ''symbol'')))
               (\<lambda>_. pret (seen @ [(an_file a, an_symbol a)])))) anchors [])
       (\<lambda>_. pret ()))"

definition retired_anchor :: "anchor_record \<Rightarrow> anchor_record" where
  "retired_anchor a = a\<lparr>anchor_active := False\<rparr>"

definition retire_anchors_on_unfold :: "string \<Rightarrow> string \<Rightarrow> string \<Rightarrow> ('a lworld_scheme, unit) py" where
  "retire_anchors_on_unfold org owner_repo idea_id =
     pbind (org_guard org ''retire_anchors_on_unfold'') (\<lambda>_.
     pbind (pget (\<lambda>w. get_anchors_for_idea org owner_repo idea_id (w_store w))) (\<lambda>existing.
     pfor (\<lambda>a _. on_store (put_anchor (retired_anchor a))) existing ()))"

definition get_incumbent_ideas :: "string \<Rightarrow> string \<Rightarrow> anchor list \<Rightarrow> learning_store \<Rightarrow> string list" where
  "get_incumbent_ideas org owner_repo anchors s =
     foldl (\<lambda>seen a. foldl (\<lambda>seen iid. if iid \<in> set seen then seen else seen @ [iid]) seen
       (get_ideas_by_anchor org owner_repo (an_file a) (an_symbol a) s)) [] anchors"

end
