(* ===== verification/Supersession.thy ===== *)
theory Supersession
  imports Corroboration SkillsWrite Anchors
begin

text \<open>
  \<open>supersession.py\<close>: the false-positive gate, the anti-thrash tracker, the decision who wins,
  \<open>supersede\<close> with its un-fold, \<open>revive\<close> and the clean-up of deleted symbols.  Its world adds
  the optional skill store and tracker to the learning store and telemetry.  \<open>env\<close> is what
  other writers do to the learning store just before the conditional write, \<open>senv\<close> what they
  do to the skill store on an attempt of \<open>write_revision\<close>.
\<close>

section \<open>Calibration gate and anti-thrash tracker\<close>

definition DEFAULT_SUPERSEDE_FP_CEILING :: pyfloat where
  "DEFAULT_SUPERSEDE_FP_CEILING = flit (1/10)"

definition DEFAULT_SUPERSEDE_FP_MIN_SAMPLES :: int where
  "DEFAULT_SUPERSEDE_FP_MIN_SAMPLES = 30"

definition DEFAULT_ANTI_THRASH_WINDOW_SECS :: int where
  "DEFAULT_ANTI_THRASH_WINDOW_SECS = 7 * 24 * 3600"

definition DEFAULT_ANTI_THRASH_MAX_FLIPS :: nat where
  "DEFAULT_ANTI_THRASH_MAX_FLIPS = 3"

record fp_gate =
  fg_fp_ceiling :: pyfloat
  fg_min_samples :: int
  fg_spot_checks :: "(string, bool) dict"

definition new_fp_gate :: fp_gate where
  "new_fp_gate = \<lparr>fg_fp_ceiling = DEFAULT_SUPERSEDE_FP_CEILING,
     fg_min_samples = DEFAULT_SUPERSEDE_FP_MIN_SAMPLES, fg_spot_checks = []\<rparr>"

definition fg_record_verdict :: "string \<Rightarrow> bool \<Rightarrow> fp_gate \<Rightarrow> fp_gate" where
  "fg_record_verdict verdict_id is_false_positive g =
     g\<lparr>fg_spot_checks := dset verdict_id (\<not> is_false_positive) (fg_spot_checks g)\<rparr>"

definition fg_sample_count :: "fp_gate \<Rightarrow> nat" where
  "fg_sample_count g = length (fg_spot_checks g)"

definition fg_fp_rate :: "fp_gate \<Rightarrow> pyfloat" where
  "fg_fp_rate g =
     (if fg_spot_checks g = [] then 0
      else idiv (int (length (filter (\<lambda>(_, v). \<not> v) (fg_spot_checks g)))) (int (length (fg_spot_checks g))))"

definition fg_is_open :: "fp_gate \<Rightarrow> bool" where
  "fg_is_open g =
     (if int (fg_sample_count g) < fg_min_samples g then False else fg_fp_rate g < fg_fp_ceiling g)"

interpretation supersede_gate: spot_check_gate fg_spot_checks fg_record_verdict fg_is_open
  fg_min_samples fg_fp_ceiling
  by unfold_locales
     (auto simp: fg_record_verdict_def fg_is_open_def fg_sample_count_def fg_fp_rate_def
        spot_rate_def false_positives_def)

record thrash_tracker =
  tt_window_secs :: int
  tt_max_flips :: nat
  tt_flips :: "(string, int list) dict"

definition new_thrash_tracker :: thrash_tracker where
  "new_thrash_tracker = \<lparr>tt_window_secs = DEFAULT_ANTI_THRASH_WINDOW_SECS,
     tt_max_flips = DEFAULT_ANTI_THRASH_MAX_FLIPS, tt_flips = []\<rparr>"

definition flips_of :: "string \<Rightarrow> thrash_tracker \<Rightarrow> int list" where
  "flips_of idea_id t = (case dget (tt_flips t) idea_id of Some fs \<Rightarrow> fs | None \<Rightarrow> [])"

definition record_flip :: "string \<Rightarrow> int \<Rightarrow> thrash_tracker \<Rightarrow> thrash_tracker" where
  "record_flip idea_id now_ms t =
     t\<lparr>tt_flips := dset idea_id (flips_of idea_id t @ [now_ms]) (tt_flips t)\<rparr>"

definition is_thrashing :: "string \<Rightarrow> int \<Rightarrow> thrash_tracker \<Rightarrow> bool" where
  "is_thrashing idea_id now_ms t =
     (let window_start = now_ms - tt_window_secs t * 1000;
          recent = filter (\<lambda>u. window_start \<le> u) (flips_of idea_id t)
      in tt_max_flips t \<le> length recent)"

definition flip_count_in_window :: "string \<Rightarrow> int \<Rightarrow> thrash_tracker \<Rightarrow> nat" where
  "flip_count_in_window idea_id now_ms t =
     length (filter (\<lambda>u. now_ms - tt_window_secs t * 1000 \<le> u) (flips_of idea_id t))"

section \<open>Who wins\<close>

definition AUTHORITY_RANK :: "(string, int) dict" where
  "AUTHORITY_RANK = [(''user_directive'', 0), (''authored_import'', 0), (''merged'', 1)]"

definition authority_rank :: "string option \<Rightarrow> int" where
  "authority_rank kind =
     (case dget AUTHORITY_RANK (str_or kind ''merged'') of None \<Rightarrow> 1 | Some r \<Rightarrow> r)"

definition decide_winner :: "idea_record \<Rightarrow> string \<Rightarrow> int \<Rightarrow> nat \<Rightarrow> string" where
  "decide_winner incumbent challenger_authority_kind challenger_pr_number incumbent_sources_count =
     (let inc_rank = authority_rank (idea_authorityKind incumbent);
          chall_rank = authority_rank (Some challenger_authority_kind)
      in if chall_rank < inc_rank then ''challenger''
         else if inc_rank < chall_rank then ''incumbent''
         else if 1 < incumbent_sources_count then ''incumbent''
         else if incumbent_sources_count < 1 then ''challenger''
         else ''challenger'')"

section \<open>Removing a lesson from a skill body\<close>

definition para_matches :: "string \<Rightarrow> string \<Rightarrow> bool" where
  "para_matches lesson para \<longleftrightarrow> para = lesson \<or> contains_str lesson para \<or> contains_str para lesson"

text \<open>The first loop: the first paragraph that matches is dropped.\<close>

fun drop_first_match :: "string \<Rightarrow> string list \<Rightarrow> bool \<times> string list" where
  "drop_first_match lesson [] = (False, [])"
| "drop_first_match lesson (p # ps) =
     (if para_matches lesson p then (True, ps)
      else (let (removed, survivors) = drop_first_match lesson ps in (removed, p # survivors)))"

text \<open>The second loop: index and value of the highest word similarity, the first on ties.\<close>

fun best_similarity :: "string set \<Rightarrow> nat \<Rightarrow> nat option \<Rightarrow> pyfloat \<Rightarrow> string list \<Rightarrow> nat option \<times> pyfloat" where
  "best_similarity lesson_words i best_idx best_sim [] = (best_idx, best_sim)"
| "best_similarity lesson_words i best_idx best_sim (p # ps) =
     (let para_words = words p in
      if para_words = {} \<or> lesson_words = {}
      then best_similarity lesson_words (Suc i) best_idx best_sim ps
      else let sim = jaccard para_words lesson_words in
        if best_sim < sim then best_similarity lesson_words (Suc i) (Some i) sim ps
        else best_similarity lesson_words (Suc i) best_idx best_sim ps)"

definition paragraphs_of :: "string \<Rightarrow> string list" where
  "paragraphs_of body = map strip (filter (\<lambda>p. strip p \<noteq> []) (split_blank_lines body))"

definition remove_lesson_from_body :: "string \<Rightarrow> string \<Rightarrow> string" where
  "remove_lesson_from_body skill_body lesson_body =
     (if skill_body = [] then skill_body
      else if lesson_body = [] \<or> strip lesson_body = [] then skill_body
      else
        let lesson_stripped = strip lesson_body; paragraphs = paragraphs_of skill_body in
        if paragraphs = [] then skill_body
        else case drop_first_match lesson_stripped paragraphs of
            (True, survivors) \<Rightarrow> join [nl, nl] survivors
          | (False, _) \<Rightarrow>
              (case best_similarity (words lesson_stripped) 0 None 0 paragraphs of
                 (Some i, best_sim) \<Rightarrow>
                   if flit (35/100) \<le> best_sim
                   then join [nl, nl] (take i paragraphs @ drop (Suc i) paragraphs)
                   else skill_body
               | (None, _) \<Rightarrow> skill_body))"

section \<open>Supersede\<close>

record sworld = lworld +
  w_skills :: "skill_store option"
  w_thrash :: "thrash_tracker option"

text \<open>A call on the tracker, when there is one.\<close>

definition on_thrash :: "(thrash_tracker \<Rightarrow> thrash_tracker) \<Rightarrow> ('a sworld_scheme, unit) py" where
  "on_thrash f w = (Inr (), w\<lparr>w_thrash := map_option f (w_thrash w)\<rparr>)"

record supersede_request =
  sr_org :: string
  sr_incumbent_idea_id :: string
  sr_incumbent_skill_base_name :: string
  sr_challenger_idea_id :: "string option"
  sr_challenger_skill_base_name :: "string option"
  sr_challenger_pr_number :: int
  sr_challenger_owner_repo :: string
  sr_challenger_authority_kind :: string
  sr_idea_body_to_remove :: "string option"

record supersede_result =
  sres_action :: string
  sres_incumbent_idea_id :: string
  sres_invalid_at :: "int option"
  sres_unfold_rev :: "int option"
  sres_winner_idea_id :: "string option"

definition blocked :: "supersede_request \<Rightarrow> string \<Rightarrow> supersede_result" where
  "blocked rq action = \<lparr>sres_action = action, sres_incumbent_idea_id = sr_incumbent_idea_id rq,
     sres_invalid_at = None, sres_unfold_rev = None, sres_winner_idea_id = None\<rparr>"

definition retired_idea :: "int \<Rightarrow> string option \<Rightarrow> idea_record \<Rightarrow> idea_record" where
  "retired_idea now by r = r\<lparr>idea_corroborationVersion := idea_corroborationVersion r + 1,
     idea_invalidAt := Some now, idea_supersededBy := by\<rparr>"

text \<open>\<open>(max(e.seq for e in events) + 1) if events else 0\<close>\<close>

definition next_event_seq :: "verify_event list \<Rightarrow> int" where
  "next_event_seq events = (if events \<noteq> [] then Max (set (map ev_seq events)) + 1 else 0)"

definition append_next_event ::
    "string \<Rightarrow> string \<Rightarrow> string \<Rightarrow> string option \<Rightarrow> string option \<Rightarrow> int \<Rightarrow> ('a lworld_scheme, unit) py" where
  "append_next_event org idea_id verdict pr_ref authority now =
     pbind (pget (\<lambda>w. list_verify_events org idea_id (w_store w))) (\<lambda>events.
       on_store (append_verify_event \<lparr>ev_org = org, ev_idea_id = idea_id, ev_seq = next_event_seq events,
         ev_verdict = verdict, ev_pr_ref = pr_ref, ev_authority = authority, ev_recorded_at = now\<rparr>))"

definition unfold_description :: "idea_record \<Rightarrow> supersede_request \<Rightarrow> string" where
  "unfold_description incumbent rq =
     ''un-fold: retired idea '' @ py_repr (idea_ideaId incumbent) @ '' (superseded by PR #'' @
     show_int (sr_challenger_pr_number rq) @ '')''"

text \<open>\<open>_execute_unfold\<close>: every exception of \<open>write_revision\<close> is caught, the writes it made stay.\<close>

definition execute_unfold ::
    "idea_record \<Rightarrow> int \<Rightarrow> supersede_request \<Rightarrow> (string \<Rightarrow> string \<Rightarrow> string) \<Rightarrow>
     (nat \<Rightarrow> skill_store \<Rightarrow> skill_store) \<Rightarrow> int \<Rightarrow> ('a sworld_scheme, int option) py" where
  "execute_unfold incumbent folded_rev rq delta senv now = (\<lambda>w. case w_skills w of
     None \<Rightarrow> (Inr None, w)
   | Some sk \<Rightarrow>
       (case get_revision_body (sr_org rq) [] folded_rev sk of
          None \<Rightarrow> (Inr None, w)
        | Some current_body \<Rightarrow>
            (let lesson_to_remove = str_or (sr_idea_body_to_remove rq) (idea_body incumbent);
                 rev_request = \<lparr>rr_org = sr_org rq, rr_base_name = idea_skillBaseName incumbent,
                   rr_variant_id = [], rr_body = remove_lesson_from_body current_body lesson_to_remove,
                   rr_author_user_id = None, rr_description = Some (unfold_description incumbent rq),
                   rr_golden_case = None, rr_idea_id = Some (idea_ideaId incumbent)\<rparr>;
                 (r, sk') = write_revision rev_request delta (\<lambda>_. now) MAX_CAS_RETRIES senv sk
             in (case r of Inl _ \<Rightarrow> Inr None | Inr res \<Rightarrow> Inr (Some (wr_rev res)), w\<lparr>w_skills := Some sk'\<rparr>))))"

text \<open>What is done once the incumbent has been stamped.\<close>

definition after_retirement ::
    "supersede_request \<Rightarrow> idea_record \<Rightarrow> (string \<Rightarrow> string \<Rightarrow> string) \<Rightarrow>
     (nat \<Rightarrow> skill_store \<Rightarrow> skill_store) \<Rightarrow> int \<Rightarrow> ('a sworld_scheme, supersede_result) py" where
  "after_retirement rq incumbent delta senv now =
     pbind (append_next_event (sr_org rq) (idea_ideaId incumbent) ''supersede''
       (Some (pr_ref_str (sr_challenger_owner_repo rq) (sr_challenger_pr_number rq)))
       (Some (sr_challenger_authority_kind rq)) now) (\<lambda>_.
     pbind (on_thrash (record_flip (sr_incumbent_idea_id rq) now)) (\<lambda>_.
     pbind (case idea_foldedIntoRev incumbent of
              Some folded_rev \<Rightarrow> if idea_status incumbent = ''folded''
                then execute_unfold incumbent folded_rev rq delta senv now else pret None
            | None \<Rightarrow> pret None) (\<lambda>unfold_rev.
     pbind (retire_anchors_on_unfold (sr_org rq) (sr_challenger_owner_repo rq) (idea_ideaId incumbent)) (\<lambda>_.
     pbind (on_tel (record_supersede_event (unfold_rev \<noteq> None))) (\<lambda>_.
     pret \<lparr>sres_action = ''superseded'', sres_incumbent_idea_id = sr_incumbent_idea_id rq,
       sres_invalid_at = Some now, sres_unfold_rev = unfold_rev,
       sres_winner_idea_id = sr_challenger_idea_id rq\<rparr>)))))"

definition supersede ::
    "supersede_request \<Rightarrow> string \<Rightarrow> fp_gate option \<Rightarrow> (string \<Rightarrow> string \<Rightarrow> string) \<Rightarrow>
     (learning_store \<Rightarrow> learning_store) \<Rightarrow> (nat \<Rightarrow> skill_store \<Rightarrow> skill_store) \<Rightarrow> int \<Rightarrow>
     ('a sworld_scheme, supersede_result) py" where
  "supersede rq unfold_mode gate delta env senv now =
     pbind (org_guard (sr_org rq) ''supersede'') (\<lambda>_ w.
     case get_idea (sr_org rq) (sr_incumbent_skill_base_name rq) (sr_incumbent_idea_id rq) (w_store w) of
       None \<Rightarrow> (Inr (blocked rq ''not_found''), w)
     | Some incumbent \<Rightarrow>
         if authority_rank (idea_authorityKind incumbent) < authority_rank (Some (sr_challenger_authority_kind rq))
         then (Inr (blocked rq ''blocked_authority''), w)
         else if (case w_thrash w of None \<Rightarrow> False | Some t \<Rightarrow> is_thrashing (sr_incumbent_idea_id rq) now t)
         then (Inr (blocked rq ''blocked_thrash''), w)
         else if decide_winner incumbent (sr_challenger_authority_kind rq) (sr_challenger_pr_number rq)
             (length (list_idea_sources (sr_org rq) (sr_incumbent_idea_id rq) (w_store w))) = ''incumbent''
         then (Inr (blocked rq ''blocked_authority''), w)
         else if unfold_mode = ''shadow'' then (Inr (blocked rq ''shadow''), w)
         else if unfold_mode = ''enforce'' \<and> (case gate of None \<Rightarrow> False | Some g \<Rightarrow> \<not> fg_is_open g)
         then (Inr (blocked rq ''blocked_fp_gate''), w)
         else (case on_store (\<lambda>s. put_idea_conditional (retired_idea now (sr_challenger_idea_id rq) incumbent)
                  (idea_corroborationVersion incumbent) (env s)) w of
             (Inl e, w1) \<Rightarrow> (case e of
                VersionConflictError _ _ _ \<Rightarrow> (Inr (blocked rq ''shadow''), w1)
              | _ \<Rightarrow> (Inl e, w1))
           | (Inr _, w1) \<Rightarrow> after_retirement rq incumbent delta senv now w1))"

section \<open>Revive\<close>

record revive_request =
  rv_org :: string
  rv_idea_id :: string
  rv_skill_base_name :: string
  rv_new_pr_number :: int
  rv_new_pr_owner_repo :: string

record revive_result =
  rvr_action :: string
  rvr_idea_id :: string
  rvr_revived_at :: "int option"

definition revived_idea :: "int \<Rightarrow> idea_record \<Rightarrow> idea_record" where
  "revived_idea now r = r\<lparr>idea_status := ''open'',
     idea_corroborationVersion := idea_corroborationVersion r + 1, idea_foldedIntoRev := None,
     idea_invalidAt := None, idea_supersededBy := None, idea_revivedAt := Some now\<rparr>"

definition revive ::
    "revive_request \<Rightarrow> (learning_store \<Rightarrow> learning_store) \<Rightarrow> int \<Rightarrow> ('a sworld_scheme, revive_result) py" where
  "revive rq env now =
     pbind (org_guard (rv_org rq) ''revive'') (\<lambda>_ w.
     let done = (\<lambda>action. \<lparr>rvr_action = action, rvr_idea_id = rv_idea_id rq, rvr_revived_at = None\<rparr>) in
     case get_idea (rv_org rq) (rv_skill_base_name rq) (rv_idea_id rq) (w_store w) of
       None \<Rightarrow> (Inr (done ''not_found''), w)
     | Some idea \<Rightarrow>
         if idea_invalidAt idea = None then (Inr (done ''already_active''), w)
         else if (case w_thrash w of None \<Rightarrow> False | Some t \<Rightarrow> is_thrashing (rv_idea_id rq) now t)
         then (Inr (done ''blocked_thrash''), w)
         else (case on_store (\<lambda>s. put_idea_conditional (revived_idea now idea)
                  (idea_corroborationVersion idea) (env s)) w of
             (Inl e, w1) \<Rightarrow> (case e of
                VersionConflictError _ _ _ \<Rightarrow> (Inr (done ''blocked_thrash''), w1)
              | _ \<Rightarrow> (Inl e, w1))
           | (Inr _, w1) \<Rightarrow>
               pbind (append_next_event (rv_org rq) (idea_ideaId idea) ''revive''
                 (Some (pr_ref_str (rv_new_pr_owner_repo rq) (rv_new_pr_number rq))) (Some ''merged'') now) (\<lambda>_.
               pbind (on_thrash (record_flip (rv_idea_id rq) now)) (\<lambda>_.
               pbind (on_tel record_revive) (\<lambda>_.
               pret \<lparr>rvr_action = ''revived'', rvr_idea_id = rv_idea_id rq, rvr_revived_at = Some now\<rparr>))) w1))"

section \<open>Anchors of deleted symbols\<close>

definition clean_one_idea ::
    "string \<Rightarrow> string \<Rightarrow> string \<Rightarrow> string \<Rightarrow> string \<Rightarrow> string list \<Rightarrow> ('a lworld_scheme, string list) py" where
  "clean_one_idea org owner_repo file symbol idea_id cleaned =
     (if idea_id \<in> set cleaned then pret cleaned
      else pbind (pget (\<lambda>w. get_anchors_for_idea org owner_repo idea_id (w_store w))) (\<lambda>anchors.
           pbind (pfor (\<lambda>a _. if anchor_file a = file \<and> anchor_symbol a = symbol
                              then on_store (put_anchor (retired_anchor a)) else pret ()) anchors ())
             (\<lambda>_. pret (cleaned @ [idea_id]))))"

definition clean_deleted_symbol_anchors ::
    "string \<Rightarrow> string \<Rightarrow> (string \<times> string) list \<Rightarrow> ('a lworld_scheme, string list) py" where
  "clean_deleted_symbol_anchors org owner_repo deleted_pairs =
     pbind (org_guard org ''clean_deleted_symbol_anchors'') (\<lambda>_.
     pfor (\<lambda>(file, symbol) cleaned.
       pbind (pget (\<lambda>w. get_ideas_by_anchor org owner_repo file symbol (w_store w))) (\<lambda>idea_ids.
       pfor (clean_one_idea org owner_repo file symbol) idea_ids cleaned)) deleted_pairs [])"

end
