(* ===== verification/CorroborationProps.thy ===== *)
theory CorroborationProps
  imports Corroboration
begin

text \<open>
  What the operations of \<open>corroboration.py\<close> do: one attempt of the retry loop, one
  uncontended call, progress under contention, the stores the service reaches (each pull
  request counts once), the rewriting of overlapping bodies, and the properties.
\<close>

section \<open>The attempts of the corroborate operation\<close>

text \<open>The vote a request casts, and whether its pull request has been counted.\<close>

definition rq_source :: "corr_request \<Rightarrow> idea_source" where
  "rq_source rq = vote_source (cr_org rq) (cr_idea_id rq) (cr_pr_number rq) (cr_owner_repo rq)
     (cr_authority_kind rq) (cr_rung rq) (cr_author_id rq)"

definition pr_counted :: "corr_request \<Rightarrow> learning_store \<Rightarrow> bool" where
  "pr_counted rq s \<longleftrightarrow>
     cr_pr_number rq \<in> set (List.map_filter vote_pr (list_idea_sources (cr_org rq) (cr_idea_id rq) s))"

definition vote_key :: "corr_request \<Rightarrow> string \<times> string \<times> string" where
  "vote_key rq = (cr_org rq, cr_idea_id rq, pr_source_id (cr_pr_number rq))"

text \<open>The store after the idempotency step: the vote is added unless it was counted before.\<close>

definition with_vote :: "corr_request \<Rightarrow> learning_store \<Rightarrow> learning_store" where
  "with_vote rq s = (if pr_counted rq s then s
     else s\<lparr>ls_idea_sources := dset (vote_key rq) (rq_source rq) (ls_idea_sources s)\<rparr>)"

lemma rq_source_fields [simp]:
  "src_org (rq_source rq) = Some (cr_org rq)" "src_ideaId (rq_source rq) = Some (cr_idea_id rq)"
  "src_sourceId (rq_source rq) = Some (pr_source_id (cr_pr_number rq))"
  "vote_pr (rq_source rq) = Some (cr_pr_number rq)"
  by (simp_all add: rq_source_def vote_pr_vote_source) (simp_all add: vote_source_def mk_source_def)

lemma pr_source_id_not_Nil [simp]: "pr_source_id n \<noteq> []"
  by (simp add: pr_source_id_def)

lemma pr_counted_iff:
  "Some (cr_pr_number rq) \<in> set (map (\<lambda>s. extract_pr_number (src_prRef s))
     (list_idea_sources (cr_org rq) (cr_idea_id rq) s)) \<longleftrightarrow> pr_counted rq s"
proof -
  have "n \<in> set (List.map_filter f xs) \<longleftrightarrow> Some n \<in> set (map f xs)" for f :: "idea_source \<Rightarrow> int option" and n xs
    by (induction xs) (auto simp: List.map_filter_simps split: option.splits)
  then show ?thesis by (simp add: pr_counted_def vote_pr_def [abs_def])
qed

lemma count_vote_first:
  assumes "\<not> blank (cr_org rq)" "cr_idea_id rq \<noteq> []"
  shows "count_vote rq None w =
    (Inr (pr_counted rq (w_store w), \<not> pr_counted rq (w_store w)), w\<lparr>w_store := with_vote rq (w_store w)\<rparr>)"
  using assms
  unfolding count_vote_def option.case Let_def pr_counted_iff
  by (simp add: with_vote_def rq_source_def [symmetric] vote_key_def py_simps)

lemma count_vote_again: "count_vote rq (Some wr) w = (Inr (\<not> wr, wr), w)"
  by (simp add: count_vote_def py_simps)

lemma get_idea_with_vote [simp]: "get_idea g sk i (with_vote rq s) = get_idea g sk i s"
  by (simp add: with_vote_def get_idea_def)

lemma version_at_idea: "get_idea g sk i s = Some r \<Longrightarrow> version_at (g, sk, i) s = idea_corroborationVersion r"
  by (simp add: version_at_def get_idea_def)

lemma voted_idea_key [simp]:
  "idea_pk (voted_idea rq k wt wr idea) = idea_pk idea" "idea_org (voted_idea rq k wt wr idea) = idea_org idea"
  "idea_ideaId (voted_idea rq k wt wr idea) = idea_ideaId idea"
  by (simp_all add: voted_idea_def idea_pk_def)

lemma store_wf_with_vote:
  assumes "store_wf s" "\<not> blank (cr_org rq)" "cr_idea_id rq \<noteq> []"
  shows "store_wf (with_vote rq s)"
proof (cases "pr_counted rq s")
  case False
  then have "with_vote rq s = snd (run_op (PutIdeaSource (rq_source rq)) s)"
    using assms by (simp add: with_vote_def py_simps vote_key_def)
  then show ?thesis by (simp only: store_wf_step [OF assms(1)])
qed (simp add: with_vote_def assms)

text \<open>Appending the vote to the list the weight is computed from.\<close>

lemma list_idea_sources_with_vote:
  assumes "store_wf s" "\<not> pr_counted rq s" "dget (ls_idea_sources s) (vote_key rq) = None"
  shows "list_idea_sources (cr_org rq) (cr_idea_id rq) (with_vote rq s) =
    list_idea_sources (cr_org rq) (cr_idea_id rq) s @ [rq_source rq]"
  using assms by (simp add: with_vote_def list_idea_sources_def vote_key_def dvals_where_dset_new)

lemma pr_counted_with_vote:
  assumes "store_wf s"  "\<not> blank (cr_org rq)" "cr_idea_id rq \<noteq> []"
  shows "pr_counted rq (with_vote rq s)"
proof (cases "pr_counted rq s")
  case False
  have "rq_source rq \<in> set (list_idea_sources (cr_org rq) (cr_idea_id rq) (with_vote rq s))"
    using store_wf_with_vote [OF assms] False
    by (subst list_idea_sources_iff)
       (auto simp: with_vote_def get_idea_source_def vote_key_def dict_simps)
  then show ?thesis by (force simp: pr_counted_def List.map_filter_def)
qed (simp add: with_vote_def)

text \<open>What one attempt computes from the store with the vote.\<close>

definition rq_weight :: "corr_request \<Rightarrow> cred_store \<Rightarrow> learning_store \<Rightarrow> pyfloat" where
  "rq_weight rq cs s = recompute_weight (cr_org rq) (cr_idea_id rq) cs s"

definition rq_result ::
    "corr_request \<Rightarrow> cred_store \<Rightarrow> pyfloat \<Rightarrow> bool \<Rightarrow> idea_record \<Rightarrow> learning_store \<Rightarrow> corr_result" where
  "rq_result rq cs k wrote idea s =
     (let weight = rq_weight rq cs s; updated = voted_idea rq k weight wrote idea in
      \<lparr>res_action = (if \<not> wrote then ''already_counted''
          else if k \<le> weight \<and> idea_status idea \<noteq> ''folded'' then ''folded'' else ''candidate''),
       res_idea_id = cr_idea_id rq, res_weight = weight, res_folded = (idea_status updated = ''folded''),
       res_body = idea_body updated, res_new_source_written = wrote,
       res_version = idea_corroborationVersion updated\<rparr>)"

text \<open>The state a successful attempt leaves; \<open>s\<close> is the store with the vote, \<open>s'\<close> the store
  at the conditional write.\<close>

definition voted_store ::
    "corr_request \<Rightarrow> cred_store \<Rightarrow> pyfloat \<Rightarrow> bool \<Rightarrow> idea_record \<Rightarrow> learning_store \<Rightarrow> learning_store \<Rightarrow> learning_store" where
  "voted_store rq cs k wr idea s s' = s'\<lparr>ls_ideas :=
     dset (idea_pk idea) (voted_idea rq k (rq_weight rq cs s) wr idea) (ls_ideas s')\<rparr>"

definition voted_tel ::
    "corr_request \<Rightarrow> cred_store \<Rightarrow> bool \<Rightarrow> learning_store \<Rightarrow> telemetry option \<Rightarrow> telemetry option" where
  "voted_tel rq cs wr s t = (if wr then map_option (vote_telemetry rq cs (rq_weight rq cs s)
     (list_idea_sources (cr_org rq) (cr_idea_id rq) s)) t else t)"

lemma attempt_succeeds:
  fixes w :: "'a lworld_scheme"
  assumes "get_idea (cr_org rq) (cr_skill_base_name rq) (cr_idea_id rq) (w_store w) = Some idea"
    and "count_vote rq wrote w = (Inr (\<not> wr, wr), w1)"
    and "\<not> blank (idea_org idea)"
    and "version_at (idea_pk idea) (env attempt (w_store w1)) = idea_corroborationVersion idea"
  shows "corroborate_loop rq cs k env (Suc left) attempt wrote w =
      (Inr (rq_result rq cs k wr idea (w_store w1)),
       w1\<lparr>w_store := voted_store rq cs k wr idea (w_store w1) (env attempt (w_store w1)),
          w_tel := voted_tel rq cs wr (w_store w1) (w_tel w1)\<rparr>)"
  using assms
  by (simp add: py_simps Let_def rq_result_def rq_weight_def recompute_weight_def voted_store_def voted_tel_def)

lemma attempt_conflicts:
  fixes w :: "'a lworld_scheme"
  assumes "get_idea (cr_org rq) (cr_skill_base_name rq) (cr_idea_id rq) (w_store w) = Some idea"
    and "count_vote rq wrote w = (Inr (\<not> wr, wr), w1)"
    and "\<not> blank (idea_org idea)"
    and "version_at (idea_pk idea) (env attempt (w_store w1)) \<noteq> idea_corroborationVersion idea"
  shows "corroborate_loop rq cs k env (Suc left) attempt wrote w =
    (if left = 0 then (Inl (VersionConflictError (idea_ideaId idea) (idea_corroborationVersion idea)
        (version_at (idea_pk idea) (env attempt (w_store w1)))), w1\<lparr>w_store := env attempt (w_store w1)\<rparr>)
     else corroborate_loop rq cs k env left (Suc attempt) (Some wr) (w1\<lparr>w_store := env attempt (w_store w1)\<rparr>))"
  using assms by (auto simp: py_simps Let_def)

section \<open>One uncontended call, exactly\<close>

lemma stored_idea:
  assumes "store_wf s" "get_idea g sk i s = Some idea"
  shows "idea_pk idea = (g, sk, i)" "\<not> blank (idea_org idea)" "\<not> blank g"
proof -
  show pk: "idea_pk idea = (g, sk, i)" using get_idea_key [OF assms] by (simp add: idea_pk_def)
  show nb: "\<not> blank (idea_org idea)"
    using keyed_byD [of _ "ls_ideas s"] assms by (fastforce simp: store_wf_def get_idea_def)
  show "\<not> blank g" using pk nb by (simp add: idea_pk_def)
qed

lemma ls_ideas_with_vote [simp]: "ls_ideas (with_vote rq s) = ls_ideas s"
  by (simp add: with_vote_def)

definition corroborated :: "corr_request \<Rightarrow> cred_store \<Rightarrow> pyfloat \<Rightarrow> idea_record \<Rightarrow> 'a lworld_scheme \<Rightarrow> 'a lworld_scheme" where
  "corroborated rq cs k idea w =
     (let s = with_vote rq (w_store w); wr = (\<not> pr_counted rq (w_store w)) in
      w\<lparr>w_store := voted_store rq cs k wr idea s s, w_tel := voted_tel rq cs wr s (w_tel w)\<rparr>)"

lemma corroborate_exact:
  fixes w :: "'a lworld_scheme"
  assumes "store_wf (w_store w)" "cr_idea_id rq \<noteq> []"
    and "get_idea (cr_org rq) (cr_skill_base_name rq) (cr_idea_id rq) (w_store w) = Some idea"
    and "env 0 = (\<lambda>s. s)"
  shows "corroborate rq cs k (Suc n) env w =
      (Inr (rq_result rq cs k (\<not> pr_counted rq (w_store w)) idea (with_vote rq (w_store w))),
       corroborated rq cs k idea w)"
proof -
  note st = stored_idea [OF assms(1,3)]
  have v: "version_at (idea_pk idea) (with_vote rq (w_store w)) = idea_corroborationVersion idea"
    using assms(3) by (simp add: st(1) version_at_idea)
  show ?thesis
    using attempt_succeeds [of rq w idea None "\<not> pr_counted rq (w_store w)"
        "w\<lparr>w_store := with_vote rq (w_store w)\<rparr>" env 0 cs k n] assms(3,4) st(2,3) v
    by (simp add: count_vote_first assms(2) corroborate_def pbind_apply [of "org_guard _ _"] org_guard_apply
        corroborated_def Let_def del: corroborate_loop.simps)
qed

lemma corroborate_get_idea:
  assumes "corroborate rq cs k (Suc n) env w = (Inr r, w')"
  shows "\<exists>idea. get_idea (cr_org rq) (cr_skill_base_name rq) (cr_idea_id rq) (w_store w) = Some idea"
  using assms by (auto simp: corroborate_def py_simps split: option.splits if_splits)

lemma rq_ideas_irrelevant [simp]:
  "rq_weight rq cs (s\<lparr>ls_ideas := d\<rparr>) = rq_weight rq cs s"
  "pr_counted rq (s\<lparr>ls_ideas := d\<rparr>) = pr_counted rq s"
  by (simp_all add: rq_weight_def recompute_weight_def pr_counted_def list_idea_sources_def)

lemma voted_idea_folded:
  "idea_status (voted_idea rq k wt wr idea) = ''folded'' \<longleftrightarrow> k \<le> wt \<or> idea_status idea = ''folded''"
  by (auto simp: voted_idea_def)

lemma corroborated_store:
  "w_store (corroborated rq cs k idea w) = voted_store rq cs k (\<not> pr_counted rq (w_store w)) idea
     (with_vote rq (w_store w)) (with_vote rq (w_store w))"
  by (simp add: corroborated_def Let_def)

lemma voted_store_simps [simp]:
  "ls_idea_sources (voted_store rq cs k wr idea s s') = ls_idea_sources s'"
  "pr_counted rq (voted_store rq cs k wr idea s s') = pr_counted rq s'"
  "rq_weight rq cs (voted_store rq cs' k wr idea s s') = rq_weight rq cs s'"
  by (simp_all add: voted_store_def)

lemma get_idea_voted_store:
  "get_idea g sk i (voted_store rq cs k wr idea s s') =
     (if (g, sk, i) = idea_pk idea then Some (voted_idea rq k (rq_weight rq cs s) wr idea)
      else get_idea g sk i s')"
  by (simp add: voted_store_def get_idea_def dict_simps)

lemma store_wf_voted_store:
  assumes "store_wf s'" "\<not> blank (idea_org idea)"
  shows "store_wf (voted_store rq cs k wr idea s s')"
proof -
  have "voted_store rq cs k wr idea s s' = snd (run_op (PutIdea (voted_idea rq k (rq_weight rq cs s) wr idea)) s')"
    using assms(2) by (simp add: voted_store_def py_simps)
  then show ?thesis by (simp only: store_wf_step [OF assms(1)])
qed

section \<open>Each pull request counts once\<close>

text \<open>The source records the service writes: votes, or records that name no pull request.\<close>

definition vote_or_other :: "idea_source \<Rightarrow> bool" where
  "vote_or_other r \<longleftrightarrow> (\<forall>n. vote_pr r = Some n \<longleftrightarrow> src_sourceId r = Some (pr_source_id n))"

fun service_op :: "store_op \<Rightarrow> bool" where
  "service_op (PutIdeaSource r) = vote_or_other r"
| "service_op _ = True"

inductive service_reach :: "learning_store \<Rightarrow> bool" where
  service_empty: "service_reach empty_store"
| service_step: "service_reach s \<Longrightarrow> service_op p \<Longrightarrow> service_reach (snd (run_op p s))"

lemma service_reach_wf: "service_reach s \<Longrightarrow> store_wf s"
  by (induction rule: service_reach.induct) (auto intro: store_wf_empty store_wf_step)

lemma service_reach_votes:
  "service_reach s \<Longrightarrow> \<forall>(k, r) \<in> set (ls_idea_sources s). vote_or_other r"
proof (induction rule: service_reach.induct)
  case service_empty
  then show ?case by (simp add: empty_store_def)
next
  case (service_step s p)
  have wf: "dict_wf (ls_idea_sources s)"
    using service_reach_wf [OF service_step.hyps(1)] by (simp add: store_wf_def keyed_by_def)
  show ?case
  proof (cases p)
    case (PutIdeaSource r)
    show ?thesis unfolding PutIdeaSource run_op.simps
      by (rule put_idea_source_cases [of r s])
         (use service_step PutIdeaSource wf in \<open>auto simp: dset_set_iff split: if_splits\<close>)
  qed (use service_step in \<open>auto simp: py_simps\<close>)
qed

lemma distinct_map_filter_by:
  assumes "distinct (map f xs)" "\<And>x n. x \<in> set xs \<Longrightarrow> g x = Some n \<Longrightarrow> f x = h n"
  shows "distinct (List.map_filter g xs)"
  using assms
proof (induction xs)
  case Nil
  then show ?case by (simp add: List.map_filter_simps)
next
  case (Cons x xs)
  have "n \<notin> set (List.map_filter g xs)" if "g x = Some n" for n
  proof
    assume "n \<in> set (List.map_filter g xs)"
    then obtain y where "y \<in> set xs" "g y = Some n" by (auto simp: List.map_filter_def)
    then have "f x = f y" using Cons.prems(2) [of x n] Cons.prems(2) [of y n] that by simp
    then show False using Cons.prems(1) \<open>y \<in> set xs\<close> by simp
  qed
  then show ?case using Cons by (auto simp: List.map_filter_simps split: option.splits)
qed

lemma list_idea_sources_distinct_keys:
  assumes "store_wf s"
  shows "distinct (map src_pk (list_idea_sources g i s))"
proof -
  have k: "distinct (map fst (ls_idea_sources s))" "\<forall>(k, r) \<in> set (ls_idea_sources s). src_pk r = Some k"
    using assms by (auto simp: store_wf_def keyed_by_def dict_wf_def)
  have "map src_pk (dvals_where P d) = map Some (map fst (filter (\<lambda>(k, v). P k v) d))"
    if "\<forall>(k, r) \<in> set d. src_pk r = Some k" for P d
    using that by (induction d) (auto simp: dvals_where_def)
  from this [OF k(2)] show ?thesis using k(1)
    by (simp add: list_idea_sources_def distinct_map del: map_map) (auto simp: inj_on_def)
qed

lemma service_votes_distinct:
  assumes "service_reach s"
  shows "distinct (List.map_filter vote_pr (list_idea_sources g i s))"
proof (rule distinct_map_filter_by [of src_pk _ _ "\<lambda>n. Some (g, i, pr_source_id n)"])
  show "distinct (map src_pk (list_idea_sources g i s))"
    by (rule list_idea_sources_distinct_keys [OF service_reach_wf [OF assms]])
next
  fix r n
  assume r: "r \<in> set (list_idea_sources g i s)" and n: "vote_pr r = Some n"
  obtain sid where mem: "((g, i, sid), r) \<in> set (ls_idea_sources s)"
    using r by (auto simp: list_idea_sources_def dvals_where_set)
  then have "src_pk r = Some (g, i, sid)"
    using service_reach_wf [OF assms] by (auto simp: store_wf_def keyed_by_def)
  moreover have "src_sourceId r = Some (pr_source_id n)"
    using service_reach_votes [OF assms] mem n by (fastforce simp: vote_or_other_def)
  ultimately show "src_pk r = Some (g, i, pr_source_id n)"
    by (auto simp: src_pk_def split: option.splits)
qed

text \<open>The operations of this component only make such writes.\<close>

lemma pr_source_id_inj [simp]: "pr_source_id m = pr_source_id n \<longleftrightarrow> m = n"
  by (auto simp: pr_source_id_def dest: arg_cong [of _ _ parse_int] simp: parse_show_int)

lemma vote_or_other_vote_source [simp]: "vote_or_other (vote_source g i n rp ak rg au)"
  by (simp add: vote_or_other_def vote_pr_vote_source) (auto simp: vote_source_def mk_source_def)

lemma service_put_source:
  "service_reach s \<Longrightarrow> vote_or_other r \<Longrightarrow> service_reach (snd (put_idea_source r s))"
  using service_step [of s "PutIdeaSource r"] by simp

lemma service_put_conditional: "service_reach s \<Longrightarrow> service_reach (snd (put_idea_conditional r v s))"
  using service_step [of s "PutIdeaConditional r v"] by simp

lemma service_count_vote:
  "service_reach (w_store w) \<Longrightarrow> service_reach (w_store (snd (count_vote rq wrote w)))"
  by (auto simp: count_vote_def Let_def py_simps service_put_source split: option.splits sum.splits prod.splits)

lemma service_corroborate_loop:
  fixes w :: "'a lworld_scheme"
  assumes "\<And>i s. service_reach s \<Longrightarrow> service_reach (env i s)" "service_reach (w_store w)"
  shows "service_reach (w_store (snd (corroborate_loop rq cs k env left attempt wrote w)))"
  using assms(2)
proof (induction left arbitrary: attempt wrote w)
  case 0
  then show ?case by (simp add: py_simps)
next
  case (Suc left)
  obtain cv w1 where cv: "count_vote rq wrote w = (cv, w1)" by fastforce
  have w1: "service_reach (w_store w1)" using service_count_vote [OF Suc.prems, of rq wrote] cv by simp
  define r2 s2 where "r2 = (\<lambda>u v. fst (put_idea_conditional u v (env attempt (w_store w1))))"
    and "s2 = (\<lambda>u v. snd (put_idea_conditional u v (env attempt (w_store w1))))"
  then have put: "put_idea_conditional u v (env attempt (w_store w1)) = (r2 u v, s2 u v)" for u v by simp
  have s2: "service_reach (s2 u v)" for u v
    using service_put_conditional [OF assms(1) [OF w1, of attempt], of u v] by (simp add: put)
  show ?case
    using Suc.prems w1 s2 Suc.IH
    by (simp add: pbind_apply on_store_apply on_tel_apply pret_apply Let_def cv put
        split: option.split sum.split prod.split py_exn.split)
qed

lemma service_corroborate:
  fixes w :: "'a lworld_scheme"
  assumes "\<And>i s. service_reach s \<Longrightarrow> service_reach (env i s)" "service_reach (w_store w)"
  shows "service_reach (w_store (snd (corroborate rq cs k n env w)))"
  using service_corroborate_loop [OF assms] assms(2) by (simp add: corroborate_def py_simps)

lemma service_create:
  fixes w :: "'a lworld_scheme"
  assumes "service_reach (w_store w)"
  shows "service_reach (w_store (snd (create_idea_from_pr g i sk n rp rg au body cs ak hr k w)))"
proof -
  have "service_reach (snd (put_idea_source (vote_source g i n rp ak rg au) (snd (put_idea_conditional r v (w_store w)))))" for r v
    by (intro service_put_source service_put_conditional assms) simp
  then show ?thesis using assms service_put_conditional [OF assms]
    by (auto simp: create_idea_from_pr_def Let_def pbind_apply on_store_apply on_tel_apply pret_apply org_guard_apply
        split: sum.splits prod.splits)
qed

section \<open>Progress under contention\<close>

text \<open>Other writers neither corrupt the store nor delete ideas (the code has no deletion).\<close>

definition keeps_ideas :: "(learning_store \<Rightarrow> learning_store) \<Rightarrow> bool" where
  "keeps_ideas f \<longleftrightarrow> (\<forall>s. store_wf s \<longrightarrow> store_wf (f s)) \<and>
     (\<forall>s g sk i. get_idea g sk i s \<noteq> None \<longrightarrow> get_idea g sk i (f s) \<noteq> None)"

text \<open>An attempt with no other write to the idea's version.\<close>

definition quiet :: "string \<times> string \<times> string \<Rightarrow> (learning_store \<Rightarrow> learning_store) \<Rightarrow> bool" where
  "quiet key f \<longleftrightarrow> (\<forall>s. version_at key (f s) = version_at key s)"

lemma loop_progress:
  fixes w :: "'a lworld_scheme"
  assumes "\<forall>i. keeps_ideas (env i)"
    and "\<exists>j < left. quiet (cr_org rq, cr_skill_base_name rq, cr_idea_id rq) (env (attempt + j))"
    and "store_wf (w_store w)" "cr_idea_id rq \<noteq> []"
    and "get_idea (cr_org rq) (cr_skill_base_name rq) (cr_idea_id rq) (w_store w) \<noteq> None"
  shows "\<exists>r w'. corroborate_loop rq cs k env left attempt wrote w = (Inr r, w')"
  using assms(2,3,5)
proof (induction left arbitrary: attempt wrote w)
  case 0
  then show ?case by simp
next
  case (Suc left)
  obtain idea where idea: "get_idea (cr_org rq) (cr_skill_base_name rq) (cr_idea_id rq) (w_store w) = Some idea"
    using Suc.prems(3) by auto
  note st = stored_idea [OF Suc.prems(2) idea]
  obtain wr w1 where cv: "count_vote rq wrote w = (Inr (\<not> wr, wr), w1)"
      and w1: "w_store w1 = w_store w \<or> w_store w1 = with_vote rq (w_store w)"
    by (cases wrote) (auto simp: count_vote_first st(3) assms(4) count_vote_again)
  have wf1: "store_wf (w_store w1)"
    using w1 store_wf_with_vote [OF Suc.prems(2) st(3) assms(4)] Suc.prems(2) by auto
  have idea1: "get_idea (cr_org rq) (cr_skill_base_name rq) (cr_idea_id rq) (w_store w1) = Some idea"
    using w1 idea by auto
  let ?s2 = "env attempt (w_store w1)"
  have s2: "store_wf ?s2" "get_idea (cr_org rq) (cr_skill_base_name rq) (cr_idea_id rq) ?s2 \<noteq> None"
    using assms(1) wf1 idea1 by (auto simp: keeps_ideas_def)
  have v1: "version_at (idea_pk idea) (w_store w1) = idea_corroborationVersion idea"
    using idea1 by (simp add: st(1) version_at_idea)
  show ?case
  proof (cases "version_at (idea_pk idea) ?s2 = idea_corroborationVersion idea")
    case True
    then show ?thesis using attempt_succeeds [where env = env and attempt = attempt, OF idea cv st(2)] by blast
  next
    case False
    then have "\<not> quiet (idea_pk idea) (env attempt)" using v1 unfolding quiet_def by metis
    then obtain j where j: "j < left" "quiet (idea_pk idea) (env (Suc attempt + j))"
      using Suc.prems(1) st(1) by (metis add_Suc_shift add_0_right less_Suc_eq_0_disj)
    then have "\<exists>r w'. corroborate_loop rq cs k env left (Suc attempt) (Some wr) (w1\<lparr>w_store := ?s2\<rparr>) = (Inr r, w')"
      using s2 st(1) by (intro Suc.IH) auto
    then show ?thesis using attempt_conflicts [where env = env and attempt = attempt, OF idea cv st(2) False, of cs k left] j by auto
  qed
qed

section \<open>Rewriting of overlapping bodies\<close>

lemma split_ws_append_spaces:
  "\<forall>c \<in> set t. is_space c \<Longrightarrow> split_ws_from cur (s @ t) = split_ws_from cur s"
proof (induction cur s rule: split_ws_from.induct)
  case (1 cur)
  have "split_ws_from [] t = []" using 1 by (induction t) auto
  then show ?case using 1 by (cases t) auto
qed auto

lemma split_ws_strip: "split_ws (strip s) = split_ws s"
proof -
  have l: "split_ws (lstrip t) = split_ws t" for t
    by (induction t) (auto simp: split_ws_def lstrip_def)
  have r: "split_ws (rstrip t) = split_ws t" for t
  proof -
    have "t = rev (dropWhile is_space (rev t)) @ rev (takeWhile is_space (rev t))"
      by (metis rev_append rev_rev_ident takeWhile_dropWhile_id)
    then have "split_ws t = split_ws (rev (dropWhile is_space (rev t)) @ rev (takeWhile is_space (rev t)))" by simp
    also have "\<dots> = split_ws (rstrip t)"
      unfolding split_ws_def rstrip_def by (rule split_ws_append_spaces) (auto dest: set_takeWhileD)
    finally show ?thesis by simp
  qed
  show ?thesis by (simp add: strip_def l r)
qed

lemma lower_char_space: "is_space (lower_char c) = is_space c"
proof -
  have "n < 256 \<Longrightarrow> cp (char_of n) = n" for n :: nat by (simp add: cp_def)
  then show ?thesis by (auto simp: lower_char_def is_space_def Let_def)
qed

lemma lower_strip: "lower (strip s) = strip (lower s)"
  by (simp add: lower_def strip_def lstrip_def rstrip_def dropWhile_map rev_map comp_def lower_char_space)

lemma words_strip [simp]: "words (strip s) = words s"
  by (simp add: words_def lower_strip split_ws_strip)

lemma fadd_0_left: "is_float a \<Longrightarrow> fadd 0 a = a"
  using fadd_0_right [of a] by (simp add: fadd_def add.commute)

lemma vote_value_vote_source:
  "rg \<noteq> [] \<Longrightarrow> vote_value cs (vote_source g i n rp ak rg au) = fmul (rung_weight rg) (cred_get cs au False)"
  by (simp add: vote_value_def src_rung_weight_def vote_source_def str_or_def)

lemma weight_of_first_vote:
  assumes "rg \<noteq> []"
  shows "corroboration_weight [vote_source g i n rp ak rg au] cs = fmul (rung_weight rg) (cred_get cs au False)"
  using weight_new_vote [of "vote_source g i n rp ak rg au" n "[]" cs] assms
  by (simp add: vote_pr_vote_source List.map_filter_simps add_pr_votes_single vote_value_vote_source)
     (simp add: corroboration_weight_def group_by_pr_def fadd_0_left)

definition created_idea ::
    "string \<Rightarrow> string \<Rightarrow> string \<Rightarrow> string \<Rightarrow> string \<Rightarrow> bool \<Rightarrow> idea_record" where
  "created_idea g i sk body ak folded =
     (mk_idea i sk g body (if folded then ''folded'' else ''open'') 0)\<lparr>idea_authorityKind := Some ak\<rparr>"

section \<open>Ten votes of weight one fifth\<close>

lemma bare_vote_value: "vote_value (new_cred_store []) (vote_source g i n rp ak ''bare'' au) = flit (1/5)"
proof -
  have "fmul (flit (4/10)) (flit (1/2)) = flit (1/5)" by code_simp
  then show ?thesis
    by (simp add: vote_value_vote_source new_cred_store_def cred_get_def rung_weight_def RUNG_WEIGHTS_def
        DEFAULT_AUTHOR_CREDIBILITY_def)
qed

primrec fifths :: "nat \<Rightarrow> pyfloat" where
  "fifths 0 = 0"
| "fifths (Suc n) = fadd (fifths n) (flit (1/5))"

lemma flit_fifth: "flit (1/5) = 3602879701896397 / 18014398509481984"
  by code_simp

text \<open>The float additions, one by one.\<close>

lemma fifth_add_2: "fadd (3602879701896397 / 18014398509481984) (3602879701896397 / 18014398509481984) = 3602879701896397 / 9007199254740992"
  by code_simp

lemma fifth_add_3: "fadd (3602879701896397 / 9007199254740992) (3602879701896397 / 18014398509481984) = 1351079888211149 / 2251799813685248"
  by code_simp

lemma fifth_add_4: "fadd (1351079888211149 / 2251799813685248) (3602879701896397 / 18014398509481984) = 3602879701896397 / 4503599627370496"
  by code_simp

lemma fifth_add_5: "fadd (3602879701896397 / 4503599627370496) (3602879701896397 / 18014398509481984) = 1"
  by code_simp

lemma fifth_add_6: "fadd (1) (3602879701896397 / 18014398509481984) = 5404319552844595 / 4503599627370496"
  by code_simp

lemma fifth_add_7: "fadd (5404319552844595 / 4503599627370496) (3602879701896397 / 18014398509481984) = 3152519739159347 / 2251799813685248"
  by code_simp

lemma fifth_add_8: "fadd (3152519739159347 / 2251799813685248) (3602879701896397 / 18014398509481984) = 7205759403792793 / 4503599627370496"
  by code_simp

lemma fifth_add_9: "fadd (7205759403792793 / 4503599627370496) (3602879701896397 / 18014398509481984) = 2026619832316723 / 1125899906842624"
  by code_simp

lemma fifth_add_10: "fadd (2026619832316723 / 1125899906842624) (3602879701896397 / 18014398509481984) = 9007199254740991 / 4503599627370496"
  by code_simp

lemmas fifth_adds = fifth_add_2 fifth_add_3 fifth_add_4 fifth_add_5 fifth_add_6 fifth_add_7 fifth_add_8 fifth_add_9 fifth_add_10

lemma fifths_10: "fifths 10 = 9007199254740991 / 4503599627370496"
proof -
  have "is_float (flit (1/5))" by (simp add: flit_def)
  then have first: "fadd 0 (3602879701896397 / 18014398509481984) = 3602879701896397 / 18014398509481984"
    using fadd_0_left by (simp only: flit_fifth)
  have "(10::nat) = Suc (Suc (Suc (Suc (Suc (Suc (Suc (Suc (Suc (Suc 0)))))))))" by simp
  then show ?thesis
    by (simp only: fifths.simps first fifth_adds flit_fifth)
qed

lemma map_filter_const: "(\<And>x. x \<in> set xs \<Longrightarrow> g x = Some (h x)) \<Longrightarrow> List.map_filter g xs = map h xs"
  by (induction xs) (auto simp: List.map_filter_simps)

lemma bare_votes_weight:
  assumes "distinct ns"
  shows "corroboration_weight (map (\<lambda>n. vote_source g i n rp ak ''bare'' au) ns) (new_cred_store []) = fifths (length ns)"
proof -
  let ?v = "\<lambda>n. vote_source g i n rp ak ''bare'' au"
  have "List.map_filter vote_pr (map ?v ns) = ns"
    by (induction ns) (simp_all add: List.map_filter_simps vote_pr_vote_source)
  then have d: "distinct (List.map_filter vote_pr (map ?v ns))" using assms by simp
  have "filter (\<lambda>h. vote_pr h \<noteq> None) (map ?v ns) = map ?v ns"
    by (simp add: filter_id_conv vote_pr_vote_source)
  moreover have "foldl (\<lambda>acc h. fadd acc (vote_value (new_cred_store []) h)) 0 (map ?v ns) = fifths (length ns)"
    by (induction ns rule: rev_induct) (simp_all add: bare_vote_value)
  ultimately show ?thesis using weight_distinct_votes [OF d] by simp
qed

section \<open>Properties\<close>

text \<open>A request on the example store, and its pull request.\<close>

definition demo_request :: corr_request where
  "demo_request = \<lparr>cr_org = ''acme'', cr_idea_id = ''i1'', cr_skill_base_name = ''sk'', cr_pr_number = 7,
     cr_owner_repo = ''o/r'', cr_rung = ''test'', cr_author_id = ''ann'', cr_challenger_body = ''Use a cache.'',
     cr_authority_kind = ''merged_fix'', cr_has_reviewer = False\<rparr>"

lemma demo_request_simps [simp]:
  "cr_org demo_request = ''acme''" "cr_idea_id demo_request = ''i1''"
  "cr_skill_base_name demo_request = ''sk''" "cr_pr_number demo_request = 7"
  by (simp_all add: demo_request_def)

lemma demo_request_idea:
  "get_idea (cr_org demo_request) (cr_skill_base_name demo_request) (cr_idea_id demo_request)
     (w_store demo_world) = Some demo_idea"
  by (simp add: demo_get_idea)

lemma demo_service: "service_reach demo_store"
  unfolding demo_store_def by (rule service_step [OF service_empty]) simp

lemma demo_not_counted: "\<not> pr_counted demo_request demo_store"
  by (simp add: pr_counted_def demo_store_eq list_idea_sources_def empty_store_def dvals_where_def
      List.map_filter_simps)

lemmas demo_exact = corroborate_exact [where w = demo_world and rq = demo_request, OF _ _ demo_request_idea,
    simplified, OF demo_store_wf]



text \<open>casting the same vote twice counts it once: the second call reports
  \<open>already_counted\<close>, writes no source record, and leaves the weight, the body, the folded
  status and the telemetry as the first call left them.\<close>

theorem corroborate_idempotent:
  fixes w :: "'a lworld_scheme"
  assumes wf: "store_wf (w_store w)" and id: "cr_idea_id rq \<noteq> []"
    and first: "corroborate rq cs k (Suc n) (\<lambda>_ s. s) w = (Inr r1, w1)"
    and second: "corroborate rq cs k (Suc m) (\<lambda>_ s. s) w1 = (Inr r2, w2)"
  shows "res_action r2 = ''already_counted'' \<and> \<not> res_new_source_written r2 \<and>
    ls_idea_sources (w_store w2) = ls_idea_sources (w_store w1) \<and> res_weight r2 = res_weight r1 \<and>
    res_body r2 = res_body r1 \<and> res_folded r2 = res_folded r1 \<and> w_tel w2 = w_tel w1"
proof -
  obtain idea where idea: "get_idea (cr_org rq) (cr_skill_base_name rq) (cr_idea_id rq) (w_store w) = Some idea"
    using corroborate_get_idea [OF first] ..
  note st = stored_idea [OF wf idea]
  let ?s = "with_vote rq (w_store w)" and ?wr = "\<not> pr_counted rq (w_store w)"
  let ?idea' = "voted_idea rq k (rq_weight rq cs ?s) ?wr idea"
  have r1: "r1 = rq_result rq cs k ?wr idea ?s" and w1: "w1 = corroborated rq cs k idea w"
    using first corroborate_exact [OF wf id idea, of "\<lambda>_ s. s" cs k n] by simp_all
  have wf1: "store_wf (w_store w1)"
    unfolding w1 corroborated_store using store_wf_voted_store store_wf_with_vote wf id st by metis
  have idea1: "get_idea (cr_org rq) (cr_skill_base_name rq) (cr_idea_id rq) (w_store w1) = Some ?idea'"
    unfolding w1 corroborated_store get_idea_voted_store by (simp add: st)
  have cnt: "pr_counted rq (w_store w1)"
    using pr_counted_with_vote [OF wf st(3) id] unfolding w1 corroborated_store by simp
  have s1: "with_vote rq (w_store w1) = w_store w1" using cnt by (simp add: with_vote_def)
  have r2: "r2 = rq_result rq cs k False ?idea' (w_store w1)" and w2: "w2 = corroborated rq cs k ?idea' w1"
    using second corroborate_exact [OF wf1 id idea1, of "\<lambda>_ s. s" cs k m] cnt s1 by simp_all
  have wt: "rq_weight rq cs (w_store w1) = rq_weight rq cs ?s"
    unfolding w1 corroborated_store by simp
  show ?thesis
    unfolding r2 w2 r1 corroborated_store
    by (simp add: rq_result_def Let_def wt cnt s1 voted_idea_folded corroborated_def voted_tel_def)
       (simp add: voted_idea_def)
qed

theorem corroborate_idempotent_witness:
  "\<exists>r1 w1 r2 w2. corroborate demo_request (new_cred_store []) DEFAULT_VERIFIED_K (Suc 4) (\<lambda>_ s. s) demo_world = (Inr r1, w1) \<and>
     corroborate demo_request (new_cred_store []) DEFAULT_VERIFIED_K (Suc 4) (\<lambda>_ s. s) w1 = (Inr r2, w2) \<and>
     res_action r2 = ''already_counted'' \<and> res_weight r2 = res_weight r1"
proof -
  let ?c = "corroborate demo_request (new_cred_store []) DEFAULT_VERIFIED_K (Suc 4) (\<lambda>_ s. s)"
  let ?w1 = "corroborated demo_request (new_cred_store []) DEFAULT_VERIFIED_K demo_idea demo_world"
  have first: "?c demo_world = (Inr (rq_result demo_request (new_cred_store []) DEFAULT_VERIFIED_K True demo_idea
      (with_vote demo_request demo_store)), ?w1)"
    using demo_exact [of "\<lambda>_ s. s" "new_cred_store []" DEFAULT_VERIFIED_K 4] demo_not_counted by simp
  have wf1: "store_wf (w_store ?w1)"
    unfolding corroborated_store
    by (intro store_wf_voted_store store_wf_with_vote) (simp_all add: demo_store_wf, simp add: demo_idea_def mk_idea_def)
  have "\<exists>idea. get_idea (cr_org demo_request) (cr_skill_base_name demo_request) (cr_idea_id demo_request)
      (w_store ?w1) = Some idea"
    unfolding corroborated_store get_idea_voted_store by (simp add: demo_get_idea)
  then obtain r2 w2 where second: "?c ?w1 = (Inr r2, w2)"
    using corroborate_exact [OF wf1, of demo_request] by fastforce
  show ?thesis
    using corroborate_idempotent [OF _ _ first second] first second by (auto simp: demo_store_wf)
qed

text \<open>C15: under contention \<open>corroborate\<close> still returns: if on one of the attempts no
  other writer changes the idea's version between the read and the conditional write, the
  call ends with a result, whatever the writers do on the other attempts.\<close>

theorem corroborate_progress:
  fixes w :: "'a lworld_scheme"
  assumes "store_wf (w_store w)" "cr_idea_id rq \<noteq> []"
    and "get_idea (cr_org rq) (cr_skill_base_name rq) (cr_idea_id rq) (w_store w) \<noteq> None"
    and "\<forall>i. keeps_ideas (env i)"
    and "\<exists>j < n. quiet (cr_org rq, cr_skill_base_name rq, cr_idea_id rq) (env j)"
  shows "\<exists>r w'. corroborate rq cs k n env w = (Inr r, w')"
proof -
  obtain idea where "get_idea (cr_org rq) (cr_skill_base_name rq) (cr_idea_id rq) (w_store w) = Some idea"
    using assms(3) by auto
  then have "\<not> blank (cr_org rq)" using stored_idea(3) [OF assms(1)] by auto
  then show ?thesis using loop_progress [of env n rq 0 w cs k None] assms
    by (simp add: corroborate_def pbind_apply org_guard_apply)
qed

theorem corroborate_progress_witness:
  "\<exists>r w'. corroborate demo_request (new_cred_store []) DEFAULT_VERIFIED_K 2
     (\<lambda>i. if i = 0 then (\<lambda>s. snd (run_op (PutIdea (demo_idea\<lparr>idea_corroborationVersion := 1\<rparr>)) s)) else (\<lambda>s. s))
     demo_world = (Inr r, w')"
proof (rule corroborate_progress)
  show "\<forall>i. keeps_ideas (if i = 0 then (\<lambda>s. snd (run_op (PutIdea (demo_idea\<lparr>idea_corroborationVersion := 1\<rparr>)) s)) else (\<lambda>s. s))"
    unfolding keeps_ideas_def using store_wf_step [of _ "PutIdea (demo_idea\<lparr>idea_corroborationVersion := 1\<rparr>)"]
    by (auto simp: py_simps get_idea_def dict_simps)
  show "\<exists>j<(2::nat). quiet (cr_org demo_request, cr_skill_base_name demo_request, cr_idea_id demo_request)
     (if j = 0 then (\<lambda>s. snd (run_op (PutIdea (demo_idea\<lparr>idea_corroborationVersion := 1\<rparr>)) s)) else (\<lambda>s. s))"
    by (intro exI [of _ "1::nat"]) (simp add: quiet_def)
qed (simp_all add: demo_store_wf demo_get_idea)



text \<open>\<open>corroborate\<close>, with any interference by other writers of the service and any
  number of retries, and \<open>create_idea_from_pr\<close> keep the store among those the service
  reaches, whether they return or raise.\<close>

theorem corroboration_keeps_service_reach:
  fixes w :: "'a lworld_scheme"
  assumes "service_reach (w_store w)" "\<And>i s. service_reach s \<Longrightarrow> service_reach (env i s)"
  shows "service_reach (w_store (snd (corroborate rq cs k n env w))) \<and>
    service_reach (w_store (snd (create_idea_from_pr g i sk pn rp rg au body cs ak hr k w)))"
  using service_corroborate [of env w, OF assms(2,1)] service_create [OF assms(1)] by blast

theorem corroboration_keeps_service_reach_witness:
  "service_reach (w_store (snd (corroborate demo_request (new_cred_store []) 2 5 (\<lambda>_ s. s) demo_world))) \<and>
   service_reach (w_store (snd (create_idea_from_pr ''acme'' ''i2'' ''sk'' 3 ''o/r'' ''test'' ''ann'' ''b''
     (new_cred_store []) ''merged_fix'' False 2 demo_world)))"
  by (rule corroboration_keeps_service_reach) (simp_all add: demo_service)

text \<open>a vote by a new pull request never lowers an idea's corroboration weight, with
  double rounding taken into account, as long as no credibility is negative.\<close>

theorem new_vote_never_lowers_weight:
  assumes "service_reach s" "\<not> pr_counted rq s" "\<forall>a. 0 \<le> cred_get cs a False"
  shows "rq_weight rq cs s \<le> rq_weight rq cs (with_vote rq s)"
proof -
  have wf: "store_wf s" by (rule service_reach_wf [OF assms(1)])
  let ?L = "list_idea_sources (cr_org rq) (cr_idea_id rq) s"
  have fresh: "dget (ls_idea_sources s) (vote_key rq) = None"
  proof (rule ccontr)
    assume "dget (ls_idea_sources s) (vote_key rq) \<noteq> None"
    then obtain r where r: "dget (ls_idea_sources s) (vote_key rq) = Some r" by auto
    have "src_pk r = Some (vote_key rq)"
      using keyed_byD [OF _ r, of "\<lambda>k r. src_pk r = Some k \<and> \<not> blank (fst k)"] wf by (simp add: store_wf_def)
    then have "src_sourceId r = Some (pr_source_id (cr_pr_number rq))"
      by (auto simp: src_pk_def vote_key_def split: option.splits)
    then have "vote_pr r = Some (cr_pr_number rq)"
      using service_reach_votes [OF assms(1)] map_of_SomeD [OF r] by (fastforce simp: vote_or_other_def)
    moreover have "r \<in> set ?L"
      using wf r by (auto simp: list_idea_sources_iff get_idea_source_def vote_key_def)
    ultimately show False using assms(2) by (force simp: pr_counted_def List.map_filter_def)
  qed
  have "corroboration_weight ?L cs \<le> add_pr_votes cs (corroboration_weight ?L cs) [rq_source rq]"
    by (rule add_pr_votes_increasing) (simp_all add: is_float_weight assms(3))
  also have "\<dots> = corroboration_weight (?L @ [rq_source rq]) cs"
    using assms(2) by (subst weight_new_vote [of _ "cr_pr_number rq"]) (simp_all add: pr_counted_def)
  finally show ?thesis
    by (simp add: rq_weight_def recompute_weight_def list_idea_sources_with_vote [OF wf assms(2) fresh])
qed

theorem new_vote_never_lowers_weight_witness:
  "rq_weight demo_request (new_cred_store []) demo_store \<le>
   rq_weight demo_request (new_cred_store []) (with_vote demo_request demo_store)"
proof (rule new_vote_never_lowers_weight [OF demo_service demo_not_counted])
  show "\<forall>a. 0 \<le> cred_get (new_cred_store []) a False"
    by (simp add: cred_get_def new_cred_store_def DEFAULT_AUTHOR_CREDIBILITY_def)
qed

text \<open>raising the credibility of authors never lowers the weight of an idea.\<close>

theorem credibility_never_lowers_weight:
  assumes "\<forall>a. 0 \<le> cred_get cs a False \<and> cred_get cs a False \<le> cred_get cs' a False"
  shows "recompute_weight g i cs s \<le> recompute_weight g i cs' s"
  using assms by (simp add: recompute_weight_def corroboration_weight_mono_cred cred_le_def)

theorem credibility_never_lowers_weight_witness:
  "recompute_weight ''acme'' ''i1'' (new_cred_store []) demo_store \<le>
   recompute_weight ''acme'' ''i1'' (new_cred_store [(''ann'', flit 2)]) demo_store"
  by (rule credibility_never_lowers_weight)
     (simp add: cred_get_def new_cred_store_def DEFAULT_AUTHOR_CREDIBILITY_def flit_def rnd_mono rnd_nonneg)

text \<open>ten distinct pull requests of rung \<open>bare\<close> by authors of default credibility
  weigh less than the fold threshold in double arithmetic, although their exact sum is the
  threshold.\<close>

theorem ten_bare_votes_never_fold:
  assumes "distinct ns" "length ns = 10"
  shows "corroboration_weight (map (\<lambda>n. vote_source g i n rp ak ''bare'' au) ns) (new_cred_store [])
      < DEFAULT_VERIFIED_K \<and> (\<Sum>n \<leftarrow> ns. (4/10) * (1/2)) = (2 :: rat)"
proof -
  have "flit 2 = 2" by code_simp
  then have "fifths 10 < DEFAULT_VERIFIED_K" by (simp add: DEFAULT_VERIFIED_K_def fifths_10)
  moreover have "(\<Sum>n \<leftarrow> ns. (4/10) * (1/2)) = (of_nat (length ns)) * (1/5 :: rat)"
    by (induction ns) (simp_all add: algebra_simps)
  ultimately show ?thesis using bare_votes_weight [OF assms(1), of g i rp ak au] assms(2) by simp
qed

theorem ten_bare_votes_never_fold_witness:
  "corroboration_weight (map (\<lambda>n. vote_source ''acme'' ''i1'' n ''o/r'' ''merged_fix'' ''bare'' ''ann'')
     [1, 2, 3, 4, 5, 6, 7, 8, 9, 10]) (new_cred_store []) < DEFAULT_VERIFIED_K"
  using ten_bare_votes_never_fold [of "[1, 2, 3, 4, 5, 6, 7, 8, 9, 10]"] by simp

text \<open>when the two bodies overlap enough for \<open>corroborate\<close> to rewrite, the rewritten
  body is one of the two bodies, stripped: bodies never grow by concatenation.\<close>

theorem rewrite_never_concatenates:
  assumes "paragraphs_overlap a b (flit (6/10))"
  shows "resynthesize_body a b = strip a \<or> resynthesize_body a b = strip b"
proof -
  have "flit (1/2) \<le> flit (6/10)" by (simp add: flit_def rnd_mono)
  then have "paragraphs_overlap (strip a) (strip b) (flit (1/2))"
    using assms by (auto simp: paragraphs_overlap_def Let_def split: if_splits)
  then show ?thesis by (auto simp: resynthesize_body_def Let_def)
qed

theorem rewrite_never_concatenates_witness:
  "resynthesize_body ''use a cache'' ''use a big cache'' \<in> {''use a cache'', ''use a big cache''}"
proof -
  have "paragraphs_overlap ''use a cache'' ''use a big cache'' (flit (6/10))" by code_simp
  moreover have "strip ''use a cache'' = ''use a cache''" "strip ''use a big cache'' = ''use a big cache''"
    by code_simp+
  ultimately show ?thesis
    using rewrite_never_concatenates [of "''use a cache''" "''use a big cache''"] by simp
qed

text \<open>creating an idea stores one vote, with version 0 and status by the weight; the
  weight recomputed later is the one reported when the pull request had no reviewer, and the
  reviewer's credibility is not remembered when it had one.\<close>

theorem create_then_recompute:
  fixes w :: "'a lworld_scheme"
  assumes "store_wf (w_store w)" "\<not> blank g" "i \<noteq> []" "rg \<noteq> []"
    and "get_idea g sk i (w_store w) = None" "list_idea_sources g i (w_store w) = []"
  shows "\<exists>r w'. create_idea_from_pr g i sk n rp rg au body cs ak hr k w = (Inr r, w') \<and>
     res_weight r = fmul (rung_weight rg) (cred_get cs au hr) \<and>
     recompute_weight g i cs (w_store w') = fmul (rung_weight rg) (cred_get cs au False) \<and>
     (\<exists>idea. get_idea g sk i (w_store w') = Some idea \<and> idea_corroborationVersion idea = 0 \<and>
        idea_body idea = body \<and> (idea_status idea = ''folded'' \<longleftrightarrow> k \<le> res_weight r))"
proof -
  have "version_at (g, sk, i) (w_store w) = - 1" using assms(5) by (simp add: version_at_def get_idea_def)
  moreover have "dget (ls_idea_sources (w_store w)) (g, i, pr_source_id n) = None"
    using assms(6) by (force simp: list_idea_sources_def dvals_where_def filter_empty_conv map_of_eq_None_iff)
  ultimately show ?thesis
    using assms(2-6) weight_of_first_vote [OF assms(4), of g i n rp ak au cs]
    by (simp add: create_idea_from_pr_def Let_def py_simps mk_idea_def idea_pk_def
        recompute_weight_def list_idea_sources_def dvals_where_dset_new get_idea_def dict_simps
        vote_source_def mk_source_def)
qed

theorem create_then_recompute_witness:
  "\<exists>r w'. create_idea_from_pr ''acme'' ''i2'' ''sk'' 3 ''o/r'' ''test'' ''ann'' ''b'' (new_cred_store [])
      ''merged_fix'' True 2 demo_world = (Inr r, w') \<and> res_weight r = flit (7/10) \<and>
     recompute_weight ''acme'' ''i2'' (new_cred_store []) (w_store w') = flit (1/2)"
proof -
  have "fmul (rung_weight ''test'') (cred_get (new_cred_store []) ''ann'' True) = flit (7/10)"
    "fmul (rung_weight ''test'') (cred_get (new_cred_store []) ''ann'' False) = flit (1/2)"
    by code_simp+
  moreover have "get_idea ''acme'' ''sk'' ''i2'' (w_store demo_world) = None"
    "list_idea_sources ''acme'' ''i2'' (w_store demo_world) = []"
    by (simp_all add: demo_store_eq get_idea_def list_idea_sources_def empty_store_def dvals_where_def)
  ultimately show ?thesis
    using create_then_recompute [of demo_world "''acme''" "''i2''" "''test''" "''sk''" 3 "''o/r''" "''ann''"
        "''b''" "new_cred_store []" "''merged_fix''" True 2] demo_store_wf
    by (simp only: demo_world_store blank_acme not_False_eq_True simp_thms list.distinct) blast
qed

text \<open>\<open>create_idea_from_pr\<close> never overwrites: on an idea that exists it raises the
  version conflict and writes nothing, neither the idea nor a vote nor telemetry.\<close>

theorem create_existing_refused:
  assumes "store_wf (w_store w)" "get_idea g sk i (w_store w) = Some idea" "0 \<le> idea_corroborationVersion idea"
  shows "create_idea_from_pr g i sk n rp rg au body cs ak hr k w =
    (Inl (VersionConflictError i (- 1) (idea_corroborationVersion idea)), w)"
  using stored_idea [OF assms(1,2)] assms(2,3) version_at_idea [OF assms(2)]
  by (auto simp: create_idea_from_pr_def Let_def py_simps mk_idea_def idea_pk_def)

theorem create_existing_refused_witness:
  "create_idea_from_pr ''acme'' ''i1'' ''sk'' 3 ''o/r'' ''test'' ''ann'' ''b'' (new_cred_store []) ''merged_fix'' False 2
     demo_world = (Inl (VersionConflictError ''i1'' (- 1) 0), demo_world)"
  using create_existing_refused [of demo_world "''acme''" "''sk''" "''i1''" demo_idea]
  by (simp add: demo_store_wf demo_get_idea) (simp add: demo_idea_def mk_idea_def)

end
