(* ===== verification/SkillsWriteProps.thy ===== *)
theory SkillsWriteProps
  imports SkillsWrite
begin

text \<open>
  Properties of \<open>write_revision\<close>: progress, what a lost compare-and-swap does to the body,
  the pointer as a monotone clock, and when revision rows are immutable.
\<close>

section \<open>One attempt\<close>

abbreviation rq_key :: "revision_request \<Rightarrow> string \<times> string" where
  "rq_key rq \<equiv> (rr_org rq, rr_base_name rq)"

definition next_rev :: "revision_request \<Rightarrow> skill_store \<Rightarrow> int" where
  "next_rev rq s = (case pointer_rev_at (rq_key rq) s of None \<Rightarrow> 1 | Some v \<Rightarrow> v + 1)"

text \<open>The body attempt \<open>n\<close> writes when it reads the store \<open>s\<close>.\<close>

definition attempt_body :: "revision_request \<Rightarrow> (string \<Rightarrow> string \<Rightarrow> string) \<Rightarrow> nat \<Rightarrow> skill_store \<Rightarrow> string" where
  "attempt_body rq delta n s =
     (if 0 < n then delta (read_winning_body rq (get_true_pointer (rr_org rq) (rr_base_name rq) s) s) (rr_body rq)
      else rr_body rq)"

text \<open>The store after a successful compare-and-swap and the writes that follow it.\<close>

definition committed :: "revision_request \<Rightarrow> (nat \<Rightarrow> int) \<Rightarrow> nat \<Rightarrow> int \<Rightarrow> string \<Rightarrow> skill_store \<Rightarrow> skill_store" where
  "committed rq now n v body s = capture_golden rq (now (Suc (Suc n)))
     (put_revision (new_revision rq v body (now (Suc n)))
       (s\<lparr>sk_pointers := dset (rq_key rq) (new_pointer rq v (now n)) (sk_pointers s)\<rparr>))"

definition write_ok :: "revision_request \<Rightarrow> int \<Rightarrow> write_result" where
  "write_ok rq v = \<lparr>wr_org = rr_org rq, wr_base_name = rr_base_name rq, wr_variant_id = rr_variant_id rq,
     wr_rev = v, wr_true_pointer_updated = True, wr_golden_case_written = (rr_golden_case rq \<noteq> None)\<rparr>"

lemma write_ok_rev [simp]: "wr_rev (write_ok rq v) = v"
  by (simp add: write_ok_def)

lemma next_rev_alt:
  "(case map_option ptr_rev (get_true_pointer (rr_org rq) (rr_base_name rq) s) of None \<Rightarrow> 1 | Some v \<Rightarrow> v + 1) = next_rev rq s"
  by (simp add: next_rev_def pointer_rev_at_def get_true_pointer_def)

lemma write_attempt:
  "write_loop rq delta now env (Suc left) n s =
    (if pointer_rev_at (rq_key rq) (env n s) = pointer_rev_at (rq_key rq) s
     then (Inr (write_ok rq (next_rev rq s)),
           committed rq now n (next_rev rq s) (attempt_body rq delta n s) (env n s))
     else write_loop rq delta now env left (Suc n) (env n s))"
  unfolding write_loop.simps Let_def next_rev_alt
  by (simp add: cas_true_pointer_def Let_def new_pointer_def [of rq] pointer_rev_at_def get_true_pointer_def
      attempt_body_def committed_def write_ok_def)

lemma committed_reads [simp]:
  "pointer_rev_at (rq_key rq) (committed rq now n v body s) = Some v"
  "get_revision_body (rr_org rq) (rr_variant_id rq) v (committed rq now n v body s) = Some body"
  by (simp_all add: committed_def pointer_rev_at_def get_revision_body_def put_revision_def new_revision_def
      new_pointer_def dict_simps)

text \<open>A call with no interference.\<close>

lemma write_uncontended:
  assumes "0 < m"
  shows "write_revision rq delta now m (\<lambda>_ s. s) s =
    (Inr (write_ok rq (next_rev rq s)), committed rq now 0 (next_rev rq s) (rr_body rq) s)"
proof -
  obtain k where "m = Suc k" using assms by (cases m) auto
  then show ?thesis by (simp only: write_revision_def write_attempt) (simp add: attempt_body_def)
qed

lemma next_rev_increases:
  "pointer_rev_at (rq_key rq) s < Some (next_rev rq s)"
  by (simp add: next_rev_def split: option.splits)

text \<open>What a call that returned did: its last attempt read \<open>t\<close>, and nobody moved the pointer
  between that read and the compare-and-swap.\<close>

lemma write_loop_returned:
  assumes "write_loop rq delta now env left n s = (Inr r, s')"
  shows "\<exists>m t. n \<le> m \<and> m < n + left \<and> (m = n \<longrightarrow> t = s) \<and>
    pointer_rev_at (rq_key rq) (env m t) = pointer_rev_at (rq_key rq) t \<and>
    r = write_ok rq (next_rev rq t) \<and>
    s' = committed rq now m (next_rev rq t) (attempt_body rq delta m t) (env m t)"
  using assms
proof (induction left arbitrary: n s)
  case 0
  then show ?case by simp
next
  case (Suc left)
  show ?case
  proof (cases "pointer_rev_at (rq_key rq) (env n s) = pointer_rev_at (rq_key rq) s")
    case True
    then show ?thesis using Suc.prems unfolding write_attempt
      by (intro exI [of _ n] exI [of _ s]) auto
  next
    case False
    then have "write_loop rq delta now env left (Suc n) (env n s) = (Inr r, s')"
      using Suc.prems unfolding write_attempt by simp
    from Suc.IH [OF this] show ?thesis by (metis Suc_leD add_Suc_shift not_less_eq_eq)
  qed
qed

section \<open>The default merge\<close>

lemma sublist_dropWhile: "sublist (dropWhile P xs) xs"
  by (simp add: suffix_imp_sublist suffix_dropWhile)

lemma strip_sublist: "sublist (strip b) (lstrip b)"
proof -
  have "sublist (rev (dropWhile is_space (rev xs))) xs" for xs
    using sublist_dropWhile [of is_space "rev xs"] by (metis sublist_rev rev_rev_ident)
  then show ?thesis by (simp add: strip_def rstrip_def)
qed

lemma lstrip_lstrip_char: "lstrip (lstrip_char nl b) = lstrip b"
proof -
  have "is_space nl" by code_simp
  then show ?thesis by (induction b) (auto simp: lstrip_def lstrip_char_def)
qed

lemma strip_contained: "sublist (strip b) (lstrip_char nl b)"
  using strip_sublist [of b] sublist_dropWhile [of is_space "lstrip_char nl b"] lstrip_lstrip_char [of b]
  by (metis lstrip_def sublist_order.order_trans)

lemma default_delta_keeps_lesson: "contains_str (strip lesson) (default_delta winning lesson)"
proof -
  have "sublist (lstrip_char nl lesson) ((rstrip_char nl winning @ [nl, nl]) @ lstrip_char nl lesson)"
    by (rule suffix_imp_sublist) (rule suffix_appendI, simp)
  then show ?thesis
    using strip_contained [of lesson] sublist_order.order_trans by (auto simp: default_delta_def contains_str_def)
qed

lemma default_delta_keeps_winner: "contains_str (rstrip_char nl winning) (default_delta winning lesson)"
proof -
  have "sublist (rstrip_char nl winning) winning"
    unfolding rstrip_char_def using sublist_dropWhile [of "\<lambda>x. x = nl" "rev winning"]
    by (metis sublist_rev rev_rev_ident)
  then show ?thesis
    by (auto simp: default_delta_def contains_str_def intro: sublist_order.order_trans prefix_imp_sublist)
qed

text \<open>Merging the same lesson again changes nothing.\<close>

lemma default_delta_idempotent: "default_delta (default_delta winning lesson) lesson = default_delta winning lesson"
  using default_delta_keeps_lesson [of lesson winning] by (simp add: default_delta_def [of "default_delta winning lesson"])

section \<open>Progress\<close>

lemma write_loop_progress:
  assumes "\<exists>j < left. \<forall>t. pointer_rev_at (rq_key rq) (env (n + j) t) = pointer_rev_at (rq_key rq) t"
  shows "\<exists>r s'. write_loop rq delta now env left n s = (Inr r, s')"
  using assms
proof (induction left arbitrary: n s)
  case 0
  then show ?case by simp
next
  case (Suc left)
  show ?case
  proof (cases "pointer_rev_at (rq_key rq) (env n s) = pointer_rev_at (rq_key rq) s")
    case False
    then obtain j where "j < left" "\<forall>t. pointer_rev_at (rq_key rq) (env (Suc n + j) t) = pointer_rev_at (rq_key rq) t"
      using Suc.prems by (metis add_Suc_shift add_0_right less_Suc_eq_0_disj)
    then have "\<exists>r s'. write_loop rq delta now env left (Suc n) (env n s) = (Inr r, s')"
      by (intro Suc.IH) auto
    then show ?thesis using False unfolding write_attempt by simp
  qed (simp add: write_attempt del: write_loop.simps)
qed

lemma write_loop_state_invariant:
  assumes "\<And>i t. P t \<Longrightarrow> P (env i t)" "P s"
    and "\<And>m t. P t \<Longrightarrow> P (env m t) \<Longrightarrow> pointer_rev_at (rq_key rq) (env m t) = pointer_rev_at (rq_key rq) t \<Longrightarrow>
       P (committed rq now m (next_rev rq t) (attempt_body rq delta m t) (env m t))"
  shows "P (snd (write_loop rq delta now env left n s))"
  using assms(2)
proof (induction left arbitrary: n s)
  case 0
  then show ?case by simp
next
  case (Suc left)
  show ?case unfolding write_attempt using Suc.IH [of "env n s" "Suc n"] assms(1,3) Suc.prems
    by (simp del: write_loop.simps)
qed

section \<open>When revision rows are immutable\<close>

text \<open>
  Every TRUE pointer leads to a revision row of its own skill, and no row is ahead of its
  pointer.  \<open>V\<close> gives the variant a skill writes under.
\<close>

definition skills_wf :: "(string \<Rightarrow> string \<Rightarrow> string) \<Rightarrow> skill_store \<Rightarrow> bool" where
  "skills_wf V s \<longleftrightarrow>
     (\<forall>g b p. dget (sk_pointers s) (g, b) = Some p \<longrightarrow> ptr_variantId p = V g b \<and>
        (\<exists>r. dget (sk_revisions s) (g, V g b, ptr_rev p) = Some r \<and> rev_baseName r = b)) \<and>
     (\<forall>g v n r. dget (sk_revisions s) (g, v, n) = Some r \<longrightarrow>
        v = V g (rev_baseName r) \<and> (\<exists>p. dget (sk_pointers s) (g, rev_baseName r) = Some p \<and> n \<le> ptr_rev p))"

lemma skills_wfD1:
  "skills_wf V s \<Longrightarrow> dget (sk_pointers s) (g, b) = Some p \<Longrightarrow>
   ptr_variantId p = V g b \<and> (\<exists>r. dget (sk_revisions s) (g, V g b, ptr_rev p) = Some r \<and> rev_baseName r = b)"
  unfolding skills_wf_def by metis

lemma skills_wfD2:
  "skills_wf V s \<Longrightarrow> dget (sk_revisions s) (g, v, n) = Some r \<Longrightarrow>
   v = V g (rev_baseName r) \<and> (\<exists>p. dget (sk_pointers s) (g, rev_baseName r) = Some p \<and> n \<le> ptr_rev p)"
  unfolding skills_wf_def by metis

definition own_variants :: "(string \<Rightarrow> string \<Rightarrow> string) \<Rightarrow> bool" where
  "own_variants V \<longleftrightarrow> (\<forall>g b b'. V g b = V g b' \<longrightarrow> b = b')"

lemma fresh_revision:
  assumes "own_variants V" "skills_wf V s" "rr_variant_id rq = V (rr_org rq) (rr_base_name rq)"
  shows "dget (sk_revisions s) (rr_org rq, rr_variant_id rq, next_rev rq s) = None"
proof (rule ccontr)
  assume "dget (sk_revisions s) (rr_org rq, rr_variant_id rq, next_rev rq s) \<noteq> None"
  then obtain r where r: "dget (sk_revisions s) (rr_org rq, rr_variant_id rq, next_rev rq s) = Some r" by auto
  then obtain p where "V (rr_org rq) (rev_baseName r) = rr_variant_id rq"
      "dget (sk_pointers s) (rr_org rq, rev_baseName r) = Some p" "next_rev rq s \<le> ptr_rev p"
    using assms(2) unfolding skills_wf_def by metis
  moreover then have "rev_baseName r = rr_base_name rq" using assms(1,3) by (auto simp: own_variants_def)
  ultimately show False by (simp add: next_rev_def pointer_rev_at_def)
qed

lemma next_rev_cong: "pointer_rev_at (rq_key rq) s = pointer_rev_at (rq_key rq) t \<Longrightarrow> next_rev rq s = next_rev rq t"
  by (simp add: next_rev_def)

lemma committed_simps:
  "sk_pointers (committed rq now n v body s) = dset (rq_key rq) (new_pointer rq v (now n)) (sk_pointers s)"
  "sk_revisions (committed rq now n v body s) =
     dset (rr_org rq, rr_variant_id rq, v) (new_revision rq v body (now (Suc n))) (sk_revisions s)"
  by (simp_all add: committed_def put_revision_def new_revision_def)

lemma skills_wf_committed:
  assumes "own_variants V" "skills_wf V s" "rr_variant_id rq = V (rr_org rq) (rr_base_name rq)"
  shows "skills_wf V (committed rq now n (next_rev rq s) body s)"
proof -
  have le: "dget (sk_pointers s) (rr_org rq, rr_base_name rq) = Some p \<Longrightarrow> ptr_rev p < next_rev rq s" for p
    by (simp add: next_rev_def pointer_rev_at_def)
  have base: "V (rr_org rq) b = V (rr_org rq) (rr_base_name rq) \<longleftrightarrow> b = rr_base_name rq" for b
    using assms(1) by (auto simp: own_variants_def)
  let ?t = "committed rq now n (next_rev rq s) body s"
  show ?thesis unfolding skills_wf_def
  proof (intro conjI allI impI)
    fix g b p
    assume p: "dget (sk_pointers ?t) (g, b) = Some p"
    show "ptr_variantId p = V g b" using p assms(2,3)
      by (auto simp: committed_simps dict_simps new_pointer_def skills_wf_def split: if_splits)
    show "\<exists>r. dget (sk_revisions ?t) (g, V g b, ptr_rev p) = Some r \<and> rev_baseName r = b"
    proof (cases "(g, b) = rq_key rq")
      case True
      then show ?thesis using p assms(3) by (auto simp: committed_simps dict_simps new_pointer_def new_revision_def)
    next
      case False
      then have "dget (sk_pointers s) (g, b) = Some p" using p by (auto simp: committed_simps dict_simps)
      then obtain r where "dget (sk_revisions s) (g, V g b, ptr_rev p) = Some r" "rev_baseName r = b"
        using skills_wfD1 [OF assms(2)] by blast
      moreover have "(g, V g b) \<noteq> (rr_org rq, rr_variant_id rq)" using False assms(3) base by auto
      ultimately show ?thesis by (auto simp: committed_simps dict_simps)
    qed
  next
    fix g v m r
    assume r: "dget (sk_revisions ?t) (g, v, m) = Some r"
    show "v = V g (rev_baseName r)" using r assms(2,3)
      by (auto simp: committed_simps dict_simps new_revision_def skills_wf_def split: if_splits)
    show "\<exists>p. dget (sk_pointers ?t) (g, rev_baseName r) = Some p \<and> m \<le> ptr_rev p"
    proof (cases "(g, v, m) = (rr_org rq, rr_variant_id rq, next_rev rq s)")
      case True
      then show ?thesis using r by (auto simp: committed_simps dict_simps new_pointer_def new_revision_def)
    next
      case False
      then have "dget (sk_revisions s) (g, v, m) = Some r" using r by (auto simp: committed_simps dict_simps)
      then obtain p where "dget (sk_pointers s) (g, rev_baseName r) = Some p" "m \<le> ptr_rev p"
        using skills_wfD2 [OF assms(2)] by blast
      then show ?thesis using le [of p] by (auto simp: committed_simps dict_simps new_pointer_def)
    qed
  qed
qed

definition revisions_kept :: "skill_store \<Rightarrow> skill_store \<Rightarrow> bool" where
  "revisions_kept s t \<longleftrightarrow> (\<forall>k r. dget (sk_revisions s) k = Some r \<longrightarrow> dget (sk_revisions t) k = Some r)"

lemma revisions_kept_committed:
  assumes "dget (sk_revisions s) (rr_org rq, rr_variant_id rq, v) = None"
  shows "revisions_kept s (committed rq now n v body s)"
  using assms by (auto simp: revisions_kept_def committed_simps dict_simps)

section \<open>Properties\<close>

text \<open>A request for the base variant of a skill.\<close>

definition demo_write :: "string \<Rightarrow> string \<Rightarrow> revision_request" where
  "demo_write base body = \<lparr>rr_org = ''acme'', rr_base_name = base, rr_variant_id = [], rr_body = body,
     rr_author_user_id = None, rr_description = None, rr_golden_case = None, rr_idea_id = None\<rparr>"

text \<open>The write of another client that gets in between.\<close>

definition rival :: "nat \<Rightarrow> skill_store \<Rightarrow> skill_store" where
  "rival n s = (if n = 0 then snd (write_revision (demo_write ''sk'' ''rival'') default_delta (\<lambda>_. 0) (Suc 4) (\<lambda>_ s. s) s) else s)"

lemma rival_moves: "pointer_rev_at (''acme'', ''sk'') (rival 0 empty_skill_store) = Some 1"
  by (simp add: rival_def write_uncontended pointer_rev_at_def committed_simps dict_simps next_rev_def
      empty_skill_store_def demo_write_def new_pointer_def)

lemma rival_quiet: "\<exists>j<5. \<forall>t. pointer_rev_at (rq_key (demo_write ''sk'' ''mine'')) (rival (0 + j) t) =
    pointer_rev_at (rq_key (demo_write ''sk'' ''mine'')) t"
  by (intro exI [of _ 1]) (simp add: rival_def)





text \<open>revision rows are immutable when every skill writes under a variant of its own: a
  call, whatever other such writers do between its reads and its compare-and-swaps, keeps
  every row as it is, and keeps every TRUE pointer leading to a row of its own skill.\<close>

theorem revision_rows_immutable:
  assumes "own_variants V" "skills_wf V s" "rr_variant_id rq = V (rr_org rq) (rr_base_name rq)"
    and "\<And>i t. skills_wf V t \<Longrightarrow> skills_wf V (env i t) \<and> revisions_kept t (env i t)"
  shows "skills_wf V (snd (write_revision rq delta now m env s)) \<and>
    revisions_kept s (snd (write_revision rq delta now m env s))"
  unfolding write_revision_def
proof (rule write_loop_state_invariant [where P = "\<lambda>t. skills_wf V t \<and> revisions_kept s t"])
  show "skills_wf V (env i t) \<and> revisions_kept s (env i t)" if "skills_wf V t \<and> revisions_kept s t" for i t
    using assms(4) [of t i] that by (auto simp: revisions_kept_def)
  show "skills_wf V s \<and> revisions_kept s s" using assms(2) by (simp add: revisions_kept_def)
next
  fix n t
  assume t: "skills_wf V (env n t) \<and> revisions_kept s (env n t)"
    and quiet: "pointer_rev_at (rq_key rq) (env n t) = pointer_rev_at (rq_key rq) t"
  have "revisions_kept (env n t) (committed rq now n (next_rev rq (env n t)) (attempt_body rq delta n t) (env n t))"
    using fresh_revision [OF assms(1) _ assms(3)] t by (intro revisions_kept_committed) blast
  then show "skills_wf V (committed rq now n (next_rev rq t) (attempt_body rq delta n t) (env n t)) \<and>
      revisions_kept s (committed rq now n (next_rev rq t) (attempt_body rq delta n t) (env n t))"
    using skills_wf_committed [OF assms(1) _ assms(3), of "env n t"] t next_rev_cong [OF quiet]
    by (simp add: revisions_kept_def)
qed

theorem revision_rows_immutable_witness:
  "skills_wf (\<lambda>g b. b) (snd (write_revision ((demo_write ''sk'' ''mine'')\<lparr>rr_variant_id := ''sk''\<rparr>) default_delta (\<lambda>_. 0) 5
     (\<lambda>_ s. s) empty_skill_store))"
proof -
  have "own_variants (\<lambda>g b. b)" "skills_wf (\<lambda>g b. b) empty_skill_store"
    by (simp_all add: own_variants_def skills_wf_def empty_skill_store_def)
  then show ?thesis
    by (rule revision_rows_immutable [THEN conjunct1]) (simp_all add: revisions_kept_def demo_write_def)
qed

text \<open>with the empty variant id the service passes for every skill, revision rows are not
  immutable: the first revision of a second skill overwrites that of the first one, whose TRUE
  pointer still stands and now leads to the other skill's body.\<close>

theorem shared_variant_overwrites:
  assumes "b \<noteq> b'"
  shows "\<exists>s1 s2 r1 r2. write_revision (demo_write b body) delta now (Suc n) (\<lambda>_ s. s) empty_skill_store = (Inr r1, s1) \<and>
    write_revision (demo_write b' body') delta now (Suc n) (\<lambda>_ s. s) s1 = (Inr r2, s2) \<and>
    get_revision_body ''acme'' [] 1 s1 = Some body \<and>
    pointer_rev_at (''acme'', b) s2 = Some 1 \<and> get_revision_body ''acme'' [] 1 s2 = Some body'"
  using assms
  by (simp add: write_revision_def write_attempt del: write_loop.simps)
     (simp add: next_rev_def pointer_rev_at_def empty_skill_store_def demo_write_def committed_simps
       get_revision_body_def new_pointer_def new_revision_def attempt_body_def dict_simps)

theorem shared_variant_overwrites_witness:
  "\<exists>s1 s2 r1 r2. write_revision (demo_write ''sk'' ''A'') default_delta (\<lambda>_. 0) (Suc 4) (\<lambda>_ s. s) empty_skill_store = (Inr r1, s1) \<and>
    write_revision (demo_write ''other'' ''B'') default_delta (\<lambda>_. 0) (Suc 4) (\<lambda>_ s. s) s1 = (Inr r2, s2) \<and>
    pointer_rev_at (''acme'', ''sk'') s2 = Some 1 \<and> get_revision_body ''acme'' [] 1 s2 = Some ''B''"
  using shared_variant_overwrites [of "''sk''" "''other''" "''A''" default_delta "\<lambda>_. 0" 4 "''B''"] by auto

text \<open>the TRUE pointer has a single winner: of two compare-and-swaps from the same expected
  revision the second fails and changes nothing, and a successful one moves the pointer
  strictly forward.\<close>

theorem pointer_single_winner:
  assumes "ptr_org p' = ptr_org p" "ptr_baseName p' = ptr_baseName p"
    and "ptr_rev p = (case v of None \<Rightarrow> 1 | Some n \<Rightarrow> n + 1)" "cas_true_pointer p v s = (True, s')"
  shows "cas_true_pointer p' v s' = (False, s') \<and>
    pointer_rev_at (ptr_org p, ptr_baseName p) s < pointer_rev_at (ptr_org p, ptr_baseName p) s'"
proof -
  have w: "cas_pointer p v s = Some s'" using assms(4) by (simp add: cas_pointer_def)
  have "Some (ptr_rev p) \<noteq> v" using assms(3) by (auto split: option.splits)
  then have "cas_pointer p' v s' = None"
    using pointer_occ.second_writer_fails [where r = p and r' = p' and v = v and s = s and s' = s'] w assms(1,2) by simp
  moreover have "snd (cas_true_pointer p' v s') = s' \<or> fst (cas_true_pointer p' v s')"
    by (simp add: cas_true_pointer_def Let_def)
  ultimately have "cas_true_pointer p' v s' = (False, s')"
    by (auto simp: cas_pointer_def split: prod.splits bool.splits)
  then show ?thesis using pointer_occ.cwrite_advances [OF _ assms(3) w] by simp
qed

theorem pointer_single_winner_witness:
  "\<exists>s'. cas_true_pointer (new_pointer (demo_write ''sk'' ''A'') 1 0) None empty_skill_store = (True, s') \<and>
     cas_true_pointer (new_pointer (demo_write ''sk'' ''B'') 1 5) None s' = (False, s')"
proof -
  obtain s' where s': "cas_true_pointer (new_pointer (demo_write ''sk'' ''A'') 1 0) None empty_skill_store = (True, s')"
    by (simp add: cas_true_pointer_def empty_skill_store_def Let_def)
  then show ?thesis
    using pointer_single_winner [OF _ _ _ s', of "new_pointer (demo_write ''sk'' ''B'') 1 5"]
    by (simp add: new_pointer_def demo_write_def)
qed

end
