(* ===== verification/AnchorsProps.thy ===== *)
theory AnchorsProps
  imports Anchors
begin

text \<open>
  Properties of the anchors component: the search for the enclosing symbol against a
  reference definition, the hunks of a diff, and the anchor index over folds and un-folds.
\<close>

section \<open>The enclosing symbol\<close>

text \<open>The nodes on the paths from the root along which every node covers the line.\<close>

fun covering :: "int \<Rightarrow> node \<Rightarrow> node list" where
  "covering line (Node t x r0 r1 cs) =
     (if r0 + 1 \<le> line \<and> line \<le> r1 + 1
      then Node t x r0 r1 cs # concat (map (covering line) cs) else [])"

definition symbol_of :: "string \<Rightarrow> node \<Rightarrow> string option" where
  "symbol_of lang nd = (if n_type nd \<in> set (named_types_for_lang lang)
     then (case node_name nd lang of Some nm \<Rightarrow> if nm \<noteq> [] then Some nm else None | None \<Rightarrow> None) else None)"

text \<open>A named node with no named covering node below it.\<close>

definition innermost :: "int \<Rightarrow> string \<Rightarrow> node \<Rightarrow> bool" where
  "innermost line lang nd \<longleftrightarrow> symbol_of lang nd \<noteq> None \<and>
     (\<forall>c \<in> set (n_children nd). \<forall>m \<in> set (covering line c). symbol_of lang m = None)"

lemma search_spec:
  "(search_node line lang nd = None \<longleftrightarrow> (\<forall>m \<in> set (covering line nd). symbol_of lang m = None)) \<and>
   (\<forall>nm sz. search_node line lang nd = Some (nm, sz) \<longrightarrow>
      (\<exists>m \<in> set (covering line nd). innermost line lang m \<and> symbol_of lang m = Some nm))"
  "(search_children line lang best cs = None \<longleftrightarrow>
      best = None \<and> (\<forall>c \<in> set cs. \<forall>m \<in> set (covering line c). symbol_of lang m = None)) \<and>
   (\<forall>r. search_children line lang best cs = Some r \<longrightarrow>
      best = Some r \<or> (\<exists>c \<in> set cs. \<exists>m \<in> set (covering line c). innermost line lang m \<and> symbol_of lang m = Some (fst r)))"
proof (induction line lang nd and line lang best cs rule: search_node_search_children.induct)
  case (1 line lang t x r0 r1 cs)
  show ?case
  proof (cases "r0 + 1 \<le> line \<and> line \<le> r1 + 1")
    case True
    note IH = "1"[OF refl refl, simplified, OF True]
    show ?thesis
    proof (cases "search_children line lang None cs")
      case None
      then have none: "\<forall>c \<in> set cs. \<forall>m \<in> set (covering line c). symbol_of lang m = None" using IH by blast
      then show ?thesis using None True
        by (auto simp: Let_def symbol_of_def innermost_def split: option.splits if_splits)
    next
      case (Some r)
      then obtain c m where cm: "c \<in> set cs" "m \<in> set (covering line c)" "innermost line lang m"
          "symbol_of lang m = Some (fst r)" using IH by fastforce
      then show ?thesis using Some True by (auto simp: Let_def)
    qed
  qed (auto simp: Let_def)
next
  case (2 line lang best)
  then show ?case by simp
next
  case (3 line lang best c cs)
  let ?b = "case search_node line lang c of None \<Rightarrow> best
    | Some r \<Rightarrow> (case best of None \<Rightarrow> Some r | Some b \<Rightarrow> if snd r < snd b then Some r else Some b)"
  have b: "?b = None \<longleftrightarrow> best = None \<and> search_node line lang c = None"
    by (auto split: option.splits)
  have b': "?b = Some r \<longrightarrow> best = Some r \<or> search_node line lang c = Some r" for r
    by (auto split: option.splits if_splits)
  show ?case using 3 b b' by (auto; (metis prod.collapse)?)
qed

section \<open>Retiring anchors\<close>

definition retire_where :: "(anchor_record \<Rightarrow> bool) \<Rightarrow> anchor_record list \<Rightarrow> anchor_record list" where
  "retire_where P = map (\<lambda>a. if P a then retired_anchor a else a)"

lemma retired_anchor_pk [simp]: "anchor_pk (retired_anchor a) = anchor_pk a"
  "anchor_org (retired_anchor a) = anchor_org a" "anchor_active (retired_anchor a) = False"
  by (simp_all add: retired_anchor_def anchor_pk_def)

lemma retired_anchor_cong: "anchor_pk a = anchor_pk b \<Longrightarrow> retired_anchor a = retired_anchor b"
  by (simp add: retired_anchor_def anchor_pk_def)

lemma retire_where_pks [simp]: "map anchor_pk (retire_where P xs) = map anchor_pk xs"
  by (simp add: retire_where_def)

lemma upsert_retired:
  assumes "distinct (map anchor_pk xs)" "anchor_pk x \<in> set (map anchor_pk xs)"
  shows "upsert_anchor (retired_anchor x) xs = retire_where (\<lambda>a. anchor_pk a = anchor_pk x) xs"
  using assms
proof (induction xs)
  case Nil
  then show ?case by simp
next
  case (Cons a xs)
  show ?case
  proof (cases "anchor_pk a = anchor_pk x")
    case True
    then have "anchor_pk x \<notin> anchor_pk ` set xs" using Cons.prems(1) by simp
    then have "\<forall>b \<in> set xs. anchor_pk b \<noteq> anchor_pk x" by (metis imageI)
    then have "retire_where (\<lambda>a. anchor_pk a = anchor_pk x) xs = xs"
      by (simp add: retire_where_def map_idI)
    then show ?thesis using True retired_anchor_cong [OF True] by (simp add: retire_where_def)
  next
    case False
    then show ?thesis using Cons by (auto simp: retire_where_def)
  qed
qed

lemma retire_where_retire_where:
  "(\<And>a. Q (retired_anchor a) = Q a) \<Longrightarrow> retire_where Q (retire_where P xs) = retire_where (\<lambda>a. P a \<or> Q a) xs"
  by (auto simp: retire_where_def retired_anchor_def)

lemma retire_where_orgs: "\<forall>a \<in> set xs. Q (anchor_org a) \<Longrightarrow> \<forall>a \<in> set (retire_where P xs). Q (anchor_org a)"
  by (auto simp: retire_where_def)

lemma store_wf_retire_where:
  assumes "store_wf s"
  shows "store_wf (s\<lparr>ls_anchors := retire_where P (ls_anchors s)\<rparr>)"
  using assms retire_where_orgs [of "ls_anchors s" "\<lambda>g. \<not> blank g" P] by (simp add: store_wf_def)

lemma retire_loop:
  fixes w :: "'a lworld_scheme"
  assumes "distinct (map anchor_pk (ls_anchors (w_store w)))"
    and "\<forall>x \<in> set xs. anchor_pk x \<in> set (map anchor_pk (ls_anchors (w_store w))) \<and> \<not> blank (anchor_org x)"
  shows "pfor (\<lambda>a _. on_store (put_anchor (retired_anchor a))) xs () w =
    (Inr (), w\<lparr>w_store := (w_store w)\<lparr>ls_anchors :=
       retire_where (\<lambda>a. anchor_pk a \<in> set (map anchor_pk xs)) (ls_anchors (w_store w))\<rparr>\<rparr>)"
  using assms
proof (induction xs arbitrary: w)
  case Nil
  then show ?case by (simp add: py_simps retire_where_def)
next
  case (Cons x xs)
  let ?A = "ls_anchors (w_store w)"
  let ?w1 = "w\<lparr>w_store := (w_store w)\<lparr>ls_anchors := retire_where (\<lambda>a. anchor_pk a = anchor_pk x) ?A\<rparr>\<rparr>"
  have "on_store (put_anchor (retired_anchor x)) w = (Inr (), ?w1)"
    using Cons.prems upsert_retired [of ?A x] by (simp add: py_simps)
  moreover have "pfor (\<lambda>a _. on_store (put_anchor (retired_anchor a))) xs () ?w1 =
      (Inr (), ?w1\<lparr>w_store := (w_store ?w1)\<lparr>ls_anchors :=
         retire_where (\<lambda>a. anchor_pk a \<in> set (map anchor_pk xs)) (ls_anchors (w_store ?w1))\<rparr>\<rparr>)"
    by (rule Cons.IH) (use Cons.prems in \<open>simp_all del: list.set_map\<close>)
  moreover have "(\<lambda>a. anchor_pk a = anchor_pk x \<or> anchor_pk a \<in> set (map anchor_pk xs)) =
      (\<lambda>a. anchor_pk a \<in> set (map anchor_pk (x # xs)))" by auto
  ultimately show ?case
    by (simp add: pbind_apply retire_where_retire_where del: list.set_map)
qed

definition idea_anchor :: "string \<Rightarrow> string \<Rightarrow> string \<Rightarrow> anchor_record \<Rightarrow> bool" where
  "idea_anchor org owner_repo idea_id a \<longleftrightarrow>
     anchor_org a = org \<and> anchor_ownerRepo a = owner_repo \<and> anchor_ideaId a = idea_id"

lemma retire_anchors_exact:
  fixes w :: "'a lworld_scheme"
  assumes "store_wf (w_store w)" "\<not> blank g"
  shows "retire_anchors_on_unfold g rp i w = (Inr (), w\<lparr>w_store := (w_store w)\<lparr>ls_anchors :=
    retire_where (idea_anchor g rp i) (ls_anchors (w_store w))\<rparr>\<rparr>)"
proof -
  let ?A = "ls_anchors (w_store w)"
  let ?xs = "get_anchors_for_idea g rp i (w_store w)"
  have xs: "set ?xs = {a \<in> set ?A. idea_anchor g rp i a}"
    by (auto simp: get_anchors_for_idea_def idea_anchor_def)
  have d: "distinct (map anchor_pk ?A)" and nb: "\<forall>a \<in> set ?A. \<not> blank (anchor_org a)"
    using assms(1) by (auto simp: store_wf_def)
  have "retire_where (\<lambda>a. anchor_pk a \<in> set (map anchor_pk ?xs)) ?A = retire_where (idea_anchor g rp i) ?A"
    unfolding retire_where_def set_map xs by (auto simp: idea_anchor_def anchor_pk_def)
  then show ?thesis
    using retire_loop [of w ?xs] d nb assms(2)
    by (simp add: retire_anchors_on_unfold_def pbind_apply org_guard_apply pget_apply xs)
qed

lemma in_incumbents:
  "i \<in> set (get_incumbent_ideas g rp ans s) \<longleftrightarrow>
     (\<exists>a \<in> set ans. i \<in> set (get_ideas_by_anchor g rp (an_file a) (an_symbol a) s))"
proof -
  have inner: "set (foldl (\<lambda>seen iid. if iid \<in> set seen then seen else seen @ [iid]) acc xs) = set acc \<union> set xs"
    for acc :: "string list" and xs by (induction xs arbitrary: acc) auto
  have "set (foldl (\<lambda>seen a. foldl (\<lambda>seen iid. if iid \<in> set seen then seen else seen @ [iid]) seen
      (get_ideas_by_anchor g rp (an_file a) (an_symbol a) s)) acc ans) =
    set acc \<union> (\<Union>a \<in> set ans. set (get_ideas_by_anchor g rp (an_file a) (an_symbol a) s))" for acc
    by (induction ans arbitrary: acc) (auto simp: inner)
  then show ?thesis by (simp add: get_incumbent_ideas_def)
qed

lemma distinct_incumbents: "distinct (get_incumbent_ideas g rp ans s)"
proof -
  have inner: "distinct acc \<Longrightarrow> distinct (foldl (\<lambda>seen iid. if iid \<in> set seen then seen else seen @ [iid]) acc xs)"
    for acc :: "string list" and xs by (induction xs arbitrary: acc) auto
  have "distinct acc \<Longrightarrow> distinct (foldl (\<lambda>seen a. foldl (\<lambda>seen iid. if iid \<in> set seen then seen else seen @ [iid]) seen
      (get_ideas_by_anchor g rp (an_file a) (an_symbol a) s)) acc ans)" for acc
    by (induction ans arbitrary: acc) (auto simp: inner)
  then show ?thesis by (simp add: get_incumbent_ideas_def)
qed

section \<open>Writing anchors\<close>

definition fold_anchor :: "string \<Rightarrow> string \<Rightarrow> string \<Rightarrow> string \<times> string \<Rightarrow> anchor_record" where
  "fold_anchor g rp i p = \<lparr>anchor_ideaId = i, anchor_ownerRepo = rp, anchor_file = fst p,
     anchor_symbol = snd p, anchor_org = g, anchor_active = True\<rparr>"

lemma fold_anchor_pk [simp]: "anchor_pk (fold_anchor g rp i p) = (g, rp, fst p, snd p, i)"
  by (simp add: fold_anchor_def anchor_pk_def)

abbreviation pair_of :: "anchor \<Rightarrow> string \<times> string" where
  "pair_of a \<equiv> (an_file a, an_symbol a)"

text \<open>The anchors after the write loop: the new ones, and the old ones of other identities.\<close>

definition anchors_after ::
    "(string \<times> string \<Rightarrow> anchor_record) \<Rightarrow> anchor list \<Rightarrow> anchor_record list \<Rightarrow> anchor_record list \<Rightarrow> bool" where
  "anchors_after F ans A A' \<longleftrightarrow> distinct (map anchor_pk A') \<and>
     (\<forall>x. x \<in> set A' \<longleftrightarrow> (\<exists>a \<in> set ans. x = F (pair_of a)) \<or>
        (x \<in> set A \<and> (\<forall>a \<in> set ans. anchor_pk x \<noteq> anchor_pk (F (pair_of a)))))"

lemma anchors_after_skip:
  assumes "anchors_after F ans A A'" "F (pair_of a) \<in> set A" "distinct (map anchor_pk A)"
    and "\<And>p q. anchor_pk (F p) = anchor_pk (F q) \<Longrightarrow> F p = F q"
  shows "anchors_after F (a # ans) A A'"
proof -
  have u: "x \<in> set A \<Longrightarrow> anchor_pk x = anchor_pk (F (pair_of a)) \<Longrightarrow> x = F (pair_of a)" for x
    using assms(2,3) by (metis distinct_map inj_onD)
  have m: "F (pair_of a) \<in> set A'"
    using assms(1,2) assms(4) unfolding anchors_after_def by metis
  show ?thesis using assms(1) u m unfolding anchors_after_def by (simp, blast)
qed

lemma anchors_after_step:
  assumes "anchors_after F ans (upsert_anchor (F (pair_of a)) A) A'" "distinct (map anchor_pk A)"
    and "\<And>p q. anchor_pk (F p) = anchor_pk (F q) \<Longrightarrow> F p = F q"
  shows "anchors_after F (a # ans) A A'"
proof -
  have m: "F (pair_of a) \<in> set A'"
    using assms(1,3) unfolding anchors_after_def set_upsert_anchor [OF assms(2)] by metis
  show ?thesis using assms(1) m unfolding anchors_after_def set_upsert_anchor [OF assms(2)] by (simp, blast)
qed

lemma write_anchor_loop:
  fixes w :: "'a lworld_scheme" and F :: "string \<times> string \<Rightarrow> anchor_record"
  assumes "distinct (map anchor_pk (ls_anchors (w_store w)))" "\<And>p. \<not> blank (anchor_org (F p))"
    and "F ` set seen \<subseteq> set (ls_anchors (w_store w))"
    and inj: "\<And>p q. anchor_pk (F p) = anchor_pk (F q) \<Longrightarrow> F p = F q"
  shows "\<exists>seen' w'. pfor (\<lambda>a seen.
        if pair_of a \<in> set seen then pret seen
        else pbind (on_store (put_anchor (F (pair_of a))))
             (\<lambda>_. pbind (on_tel (record_anchor_resolution (an_resolution a = ''symbol'')))
               (\<lambda>_. pret (seen @ [pair_of a])))) ans seen w = (Inr seen', w') \<and>
    anchors_after F ans (ls_anchors (w_store w)) (ls_anchors (w_store w')) \<and>
    w_store w' = (w_store w)\<lparr>ls_anchors := ls_anchors (w_store w')\<rparr>"
  using assms(1,3)
proof (induction ans arbitrary: seen w)
  case Nil
  then show ?case by (simp add: py_simps anchors_after_def)
next
  case (Cons a ans)
  let ?body = "\<lambda>a seen. if pair_of a \<in> set seen then pret seen
        else pbind (on_store (put_anchor (F (pair_of a))))
             (\<lambda>_. pbind (on_tel (record_anchor_resolution (an_resolution a = ''symbol'')))
               (\<lambda>_. pret (seen @ [pair_of a])))"
  let ?A = "ls_anchors (w_store w)" and ?r = "F (pair_of a)"
  show ?case
  proof (cases "pair_of a \<in> set seen")
    case True
    from Cons.IH [OF Cons.prems] obtain seen' w' where IH: "pfor ?body ans seen w = (Inr seen', w')"
        "anchors_after F ans ?A (ls_anchors (w_store w'))"
        "w_store w' = (w_store w)\<lparr>ls_anchors := ls_anchors (w_store w')\<rparr>"
      by (elim exE conjE)
    have "?r \<in> set ?A" using Cons.prems(2) True by blast
    then have "anchors_after F (a # ans) ?A (ls_anchors (w_store w'))"
      by (rule anchors_after_skip [OF IH(2) _ Cons.prems(1) inj])
    moreover have "pfor ?body (a # ans) seen w = (Inr seen', w')"
      using IH(1) True by (simp add: pbind_apply pret_apply)
    ultimately show ?thesis using IH(3) by (intro exI conjI)
  next
    case False
    let ?w1 = "w\<lparr>w_store := (w_store w)\<lparr>ls_anchors := upsert_anchor ?r ?A\<rparr>,
       w_tel := map_option (record_anchor_resolution (an_resolution a = ''symbol'')) (w_tel w)\<rparr>"
    have step: "?body a seen w = (Inr (seen @ [pair_of a]), ?w1)"
      using False assms(2) by (simp add: py_simps)
    have "F ` set (seen @ [pair_of a]) \<subseteq> set (ls_anchors (w_store ?w1))"
    proof
      fix x assume "x \<in> F ` set (seen @ [pair_of a])"
      then obtain p where p: "x = F p" "p \<in> set seen \<or> p = pair_of a" by auto
      then show "x \<in> set (ls_anchors (w_store ?w1))"
        using set_upsert_anchor [OF Cons.prems(1), of x ?r] Cons.prems(2) inj [of p "pair_of a"] by auto
    qed
    moreover have "distinct (map anchor_pk (ls_anchors (w_store ?w1)))"
      using distinct_upsert_anchor [OF Cons.prems(1)] by simp
    ultimately have "\<exists>seen' w'. pfor ?body ans (seen @ [pair_of a]) ?w1 = (Inr seen', w') \<and>
        anchors_after F ans (ls_anchors (w_store ?w1)) (ls_anchors (w_store w')) \<and>
        w_store w' = (w_store ?w1)\<lparr>ls_anchors := ls_anchors (w_store w')\<rparr>"
      by (intro Cons.IH)
    then obtain seen' w' where IH: "pfor ?body ans (seen @ [pair_of a]) ?w1 = (Inr seen', w')"
        "anchors_after F ans (upsert_anchor ?r ?A) (ls_anchors (w_store w'))"
        "w_store w' = (w_store w)\<lparr>ls_anchors := ls_anchors (w_store w')\<rparr>"
      by (elim exE conjE) simp
    have "anchors_after F (a # ans) ?A (ls_anchors (w_store w'))"
      by (rule anchors_after_step [OF IH(2) Cons.prems(1) inj])
    moreover have "pfor ?body (a # ans) seen w = (Inr seen', w')"
      unfolding pfor.simps(2) pbind_apply [of "?body a seen"] step by (simp add: IH(1))
    ultimately show ?thesis using IH(3) by (intro exI conjI)
  qed
qed

lemma fold_anchor_inj: "anchor_pk (fold_anchor g rp i p) = anchor_pk (fold_anchor g rp i q) \<Longrightarrow> fold_anchor g rp i p = fold_anchor g rp i q"
  by (auto simp: fold_anchor_def anchor_pk_def)

lemma write_anchors_exact:
  fixes w :: "'a lworld_scheme"
  assumes "store_wf (w_store w)" "\<not> blank g"
  shows "\<exists>w'. write_anchors_on_fold g rp i ans w = (Inr (), w') \<and>
    anchors_after (fold_anchor g rp i) ans (ls_anchors (w_store w)) (ls_anchors (w_store w')) \<and>
    w_store w' = (w_store w)\<lparr>ls_anchors := ls_anchors (w_store w')\<rparr>"
proof -
  have "distinct (map anchor_pk (ls_anchors (w_store w)))" using assms(1) by (simp add: store_wf_def)
  moreover have "\<not> blank (anchor_org (fold_anchor g rp i p))" for p using assms(2) by (simp add: fold_anchor_def)
  ultimately have "\<exists>seen' w'. pfor (\<lambda>a seen.
        if pair_of a \<in> set seen then pret seen
        else pbind (on_store (put_anchor (fold_anchor g rp i (pair_of a))))
             (\<lambda>_. pbind (on_tel (record_anchor_resolution (an_resolution a = ''symbol'')))
               (\<lambda>_. pret (seen @ [pair_of a])))) ans [] w = (Inr seen', w') \<and>
    anchors_after (fold_anchor g rp i) ans (ls_anchors (w_store w)) (ls_anchors (w_store w')) \<and>
    w_store w' = (w_store w)\<lparr>ls_anchors := ls_anchors (w_store w')\<rparr>"
    by (rule write_anchor_loop) (auto dest: fold_anchor_inj)
  then obtain seen' w' where l: "pfor (\<lambda>a seen.
        if pair_of a \<in> set seen then pret seen
        else pbind (on_store (put_anchor (fold_anchor g rp i (pair_of a))))
             (\<lambda>_. pbind (on_tel (record_anchor_resolution (an_resolution a = ''symbol'')))
               (\<lambda>_. pret (seen @ [pair_of a])))) ans [] w = (Inr seen', w')"
      "anchors_after (fold_anchor g rp i) ans (ls_anchors (w_store w)) (ls_anchors (w_store w'))"
      "w_store w' = (w_store w)\<lparr>ls_anchors := ls_anchors (w_store w')\<rparr>"
    by (elim exE conjE)
  have "write_anchors_on_fold g rp i ans w = (Inr (), w')"
    using l(1) assms(2) unfolding fold_anchor_def fst_conv snd_conv
    by (simp add: write_anchors_on_fold_def pbind_apply org_guard_apply pret_apply)
  then show ?thesis using l(2,3) by (intro exI conjI)
qed

section \<open>The hunks of a diff\<close>

definition line_hunk :: "diff_hunk \<Rightarrow> bool" where
  "line_hunk h \<longleftrightarrow> dh_end_line h = dh_start_line h"

definition diff_inv :: "diff_state \<Rightarrow> bool" where
  "diff_inv ds \<longleftrightarrow> (\<forall>h \<in> set (ds_hunks ds). line_hunk h) \<and> ds_end ds = ds_start ds"

lemma flush_line_hunks: "diff_inv ds \<Longrightarrow> h \<in> set (flush_hunk fc ds) \<Longrightarrow> line_hunk h"
  by (auto simp: flush_hunk_def diff_inv_def line_hunk_def split: option.splits if_splits)

lemma diff_line_inv: "diff_inv ds \<Longrightarrow> diff_inv (diff_line fc ds l)"
  using flush_line_hunks [of ds _ fc] by (auto simp: diff_line_def diff_inv_def split: option.splits)

lemma diff_lines_inv: "diff_inv ds \<Longrightarrow> diff_inv (foldl (diff_line fc) ds ls)"
  by (induction ls arbitrary: ds) (auto intro: diff_line_inv)

section \<open>Anchors of hunks\<close>

definition hunk_pair :: "(string \<Rightarrow> string \<Rightarrow> node option) \<Rightarrow> diff_hunk \<Rightarrow> string \<times> string" where
  "hunk_pair parse h = (dh_file h, case hunk_symbol parse h of
     Some c \<Rightarrow> if c \<noteq> [] then c else FILE_LEVEL_SYMBOL | None \<Rightarrow> FILE_LEVEL_SYMBOL)"

definition anchors_keyed :: "(string \<times> string, anchor) dict \<Rightarrow> bool" where
  "anchors_keyed seen \<longleftrightarrow> dict_wf seen \<and> (\<forall>(k, a) \<in> set seen. pair_of a = k)"

lemma add_anchor_keyed:
  "anchors_keyed seen \<Longrightarrow> anchors_keyed (add_anchor f sy rs seen) \<and>
   set (map fst (add_anchor f sy rs seen)) = insert (f, sy) (set (map fst seen))"
proof (cases "dget seen (f, sy)")
  case None
  assume "anchors_keyed seen"
  then show ?thesis using None keys_dset [of "(f, sy)" _ seen]
    by (auto simp: anchors_keyed_def add_anchor_def dict_simps dset_set_iff simp del: list.set_map split: if_splits)
next
  case (Some a)
  assume "anchors_keyed seen"
  moreover have "(f, sy) \<in> set (map fst seen)" using map_of_SomeD [OF Some] by force
  ultimately show ?thesis using Some by (auto simp: add_anchor_def simp del: list.set_map)
qed

lemma extract_keyed:
  "anchors_keyed seen \<Longrightarrow>
   anchors_keyed (foldl (\<lambda>seen hunk.
       case hunk_symbol parse hunk of
         Some c \<Rightarrow> if c \<noteq> [] then add_anchor (dh_file hunk) c ''symbol'' seen
                   else add_anchor (dh_file hunk) FILE_LEVEL_SYMBOL ''file_fallback'' seen
       | None \<Rightarrow> add_anchor (dh_file hunk) FILE_LEVEL_SYMBOL ''file_fallback'' seen) seen hunks) \<and>
   set (map fst (foldl (\<lambda>seen hunk.
       case hunk_symbol parse hunk of
         Some c \<Rightarrow> if c \<noteq> [] then add_anchor (dh_file hunk) c ''symbol'' seen
                   else add_anchor (dh_file hunk) FILE_LEVEL_SYMBOL ''file_fallback'' seen
       | None \<Rightarrow> add_anchor (dh_file hunk) FILE_LEVEL_SYMBOL ''file_fallback'' seen) seen hunks)) =
     set (map fst seen) \<union> hunk_pair parse ` set hunks"
proof (induction hunks arbitrary: seen)
  case Nil
  then show ?case by simp
next
  case (Cons h hunks)
  define rs where "rs = (case hunk_symbol parse h of Some c \<Rightarrow> if c \<noteq> [] then ''symbol'' else ''file_fallback''
       | None \<Rightarrow> ''file_fallback'')"
  have step: "(case hunk_symbol parse h of
         Some c \<Rightarrow> if c \<noteq> [] then add_anchor (dh_file h) c ''symbol'' seen
                   else add_anchor (dh_file h) FILE_LEVEL_SYMBOL ''file_fallback'' seen
       | None \<Rightarrow> add_anchor (dh_file h) FILE_LEVEL_SYMBOL ''file_fallback'' seen) =
      add_anchor (fst (hunk_pair parse h)) (snd (hunk_pair parse h)) rs seen"
    by (simp add: hunk_pair_def rs_def split: option.split)
  show ?case
    using Cons.IH [of "add_anchor (fst (hunk_pair parse h)) (snd (hunk_pair parse h)) rs seen"]
      add_anchor_keyed [OF Cons.prems, of "fst (hunk_pair parse h)" "snd (hunk_pair parse h)" rs]
    by (simp add: step del: list.set_map)
qed

section \<open>Properties\<close>

text \<open>the enclosing symbol is right: the search returns nothing exactly when no named node
  lies on a path of nodes that cover the line, and what it returns is the name of an innermost
  such node, one with no named covering node below it.\<close>

theorem enclosing_symbol_innermost:
  "(find_enclosing_symbol tree line lang = None \<longleftrightarrow> (\<forall>m \<in> set (covering line tree). symbol_of lang m = None)) \<and>
   (\<forall>nm. find_enclosing_symbol tree line lang = Some nm \<longrightarrow>
      (\<exists>m \<in> set (covering line tree). innermost line lang m \<and> symbol_of lang m = Some nm))"
  using search_spec(1) [of line lang tree] by (auto simp: find_enclosing_symbol_def)

text \<open>A Python class with a method.\<close>

definition demo_tree :: node where
  "demo_tree = Node ''module'' [] 0 9
     [Node ''class_definition'' [] 0 9
        [Node ''identifier'' ''Cache'' 0 0 [],
         Node ''block'' [] 1 9 [Node ''function_definition'' [] 2 5 [Node ''identifier'' ''get'' 2 2 []]]]]"

theorem enclosing_symbol_innermost_witness:
  "find_enclosing_symbol demo_tree 4 ''python'' = Some ''get'' \<and>
   (\<exists>m \<in> set (covering 4 demo_tree). innermost 4 ''python'' m \<and> symbol_of ''python'' m = Some ''get'')"
proof -
  have "find_enclosing_symbol demo_tree 4 ''python'' = Some ''get''" by code_simp
  then show ?thesis using enclosing_symbol_innermost [of demo_tree 4 "''python''"] by blast
qed

text \<open>un-folding an idea takes it out of the locality index of the repository: no touched
  location names it as an incumbent any more, the incumbency of every other idea is unchanged,
  and no anchor row is deleted.\<close>

theorem retired_idea_not_incumbent:
  fixes w :: "'a lworld_scheme"
  assumes "store_wf (w_store w)" "\<not> blank g"
  shows "\<exists>w'. retire_anchors_on_unfold g rp i w = (Inr (), w') \<and>
    i \<notin> set (get_incumbent_ideas g rp ans (w_store w')) \<and>
    set (get_incumbent_ideas g rp ans (w_store w')) = set (get_incumbent_ideas g rp ans (w_store w)) - {i} \<and>
    map anchor_pk (ls_anchors (w_store w')) = map anchor_pk (ls_anchors (w_store w)) \<and> store_wf (w_store w')"
proof -
  let ?w' = "w\<lparr>w_store := (w_store w)\<lparr>ls_anchors := retire_where (idea_anchor g rp i) (ls_anchors (w_store w))\<rparr>\<rparr>"
  have act: "a \<in> set (retire_where P xs) \<and> anchor_active a \<longleftrightarrow> a \<in> set xs \<and> anchor_active a \<and> \<not> P a" for a P xs
    by (auto simp: retire_where_def retired_anchor_def)
  have left: "j \<in> set (get_ideas_by_anchor g rp f sy (w_store ?w')) \<longleftrightarrow>
      j \<in> set (get_ideas_by_anchor g rp f sy (w_store w)) \<and> j \<noteq> i" for j f sy
  proof -
    let ?R = "retire_where (idea_anchor g rp i) (ls_anchors (w_store w))"
    have "(\<exists>a \<in> set ?R. anchor_pk a = (g, rp, f, sy, j) \<and> anchor_active a) \<longleftrightarrow>
        (\<exists>a \<in> set (ls_anchors (w_store w)). anchor_pk a = (g, rp, f, sy, j) \<and> anchor_active a \<and> \<not> idea_anchor g rp i a)"
      using act by meson
    also have "\<dots> \<longleftrightarrow> (\<exists>a \<in> set (ls_anchors (w_store w)). anchor_pk a = (g, rp, f, sy, j) \<and> anchor_active a) \<and> j \<noteq> i"
      by (auto simp: idea_anchor_def anchor_pk_def)
    finally show ?thesis by (simp add: get_ideas_by_anchor_iff)
  qed
  have "store_wf (w_store ?w')" using store_wf_retire_where [OF assms(1)] by simp
  moreover have "set (get_incumbent_ideas g rp ans (w_store ?w')) = set (get_incumbent_ideas g rp ans (w_store w)) - {i}"
    using left by (auto simp: in_incumbents)
  ultimately show ?thesis
    by (intro exI [of _ ?w']) (simp add: retire_anchors_exact [OF assms])
qed

theorem retired_idea_not_incumbent_witness:
  "\<exists>w'. retire_anchors_on_unfold ''acme'' ''o/r'' ''i1'' demo_world = (Inr (), w') \<and>
     ''i1'' \<notin> set (get_incumbent_ideas ''acme'' ''o/r'' [\<lparr>an_file = ''a.py'', an_symbol = ''f'', an_resolution = ''symbol''\<rparr>] (w_store w'))"
  using retired_idea_not_incumbent [of demo_world "''acme''" "''o/r''" "''i1''"
      "[\<lparr>an_file = ''a.py'', an_symbol = ''f'', an_resolution = ''symbol''\<rparr>]"]
  by (auto simp: demo_store_wf)

text \<open>folding an idea puts it into the locality index at exactly the locations folded:
  afterwards it is an incumbent of a diff exactly when the diff touches one of them or it was
  one before, and incumbents are listed once.\<close>

theorem folded_idea_is_incumbent:
  fixes w :: "'a lworld_scheme"
  assumes "store_wf (w_store w)" "\<not> blank g"
  shows "\<exists>w'. write_anchors_on_fold g rp i ans w = (Inr (), w') \<and>
    (\<forall>touched. i \<in> set (get_incumbent_ideas g rp touched (w_store w')) \<longleftrightarrow>
       (\<exists>a \<in> set ans. \<exists>b \<in> set touched. pair_of a = pair_of b) \<or>
       i \<in> set (get_incumbent_ideas g rp touched (w_store w))) \<and>
    (\<forall>touched. distinct (get_incumbent_ideas g rp touched (w_store w')))"
proof -
  obtain w' where w': "write_anchors_on_fold g rp i ans w = (Inr (), w')"
      "anchors_after (fold_anchor g rp i) ans (ls_anchors (w_store w)) (ls_anchors (w_store w'))"
    using write_anchors_exact [OF assms] by blast
  have "i \<in> set (get_ideas_by_anchor g rp f sy (w_store w')) \<longleftrightarrow>
      (\<exists>a \<in> set ans. pair_of a = (f, sy)) \<or> i \<in> set (get_ideas_by_anchor g rp f sy (w_store w))" for f sy
  proof -
    let ?F = "fold_anchor g rp i" and ?P = "\<lambda>x. anchor_pk x = (g, rp, f, sy, i) \<and> anchor_active x"
    have m: "x \<in> set (ls_anchors (w_store w')) \<longleftrightarrow> (\<exists>a \<in> set ans. x = ?F (pair_of a)) \<or>
        (x \<in> set (ls_anchors (w_store w)) \<and> (\<forall>a \<in> set ans. anchor_pk x \<noteq> anchor_pk (?F (pair_of a))))" for x
      using w'(2) unfolding anchors_after_def by metis
    have F: "?P (?F p) \<longleftrightarrow> p = (f, sy)" for p by (auto simp: fold_anchor_def anchor_pk_def)
    have "(\<exists>x \<in> set (ls_anchors (w_store w')). ?P x) \<longleftrightarrow>
        (\<exists>a \<in> set ans. pair_of a = (f, sy)) \<or> (\<exists>x \<in> set (ls_anchors (w_store w)). ?P x)" (is "?L = ?R")
    proof
      assume ?L
      then show ?R using m F by metis
    next
      assume R: ?R
      show ?L
      proof (cases "\<exists>a \<in> set ans. pair_of a = (f, sy)")
        case True
        then obtain a where a: "a \<in> set ans" "pair_of a = (f, sy)" by blast
        then have "?F (pair_of a) \<in> set (ls_anchors (w_store w'))" using m by blast
        then show ?thesis using F [of "pair_of a"] a(2) by metis
      next
        case False
        then obtain x where x: "x \<in> set (ls_anchors (w_store w))" "?P x" using R by blast
        have "\<forall>a \<in> set ans. anchor_pk x \<noteq> anchor_pk (?F (pair_of a))" using False x(2) by auto
        then show ?thesis using m x by blast
      qed
    qed
    then show ?thesis unfolding get_ideas_by_anchor_iff .
  qed
  then show ?thesis using w'(1) distinct_incumbents
    by (intro exI [of _ w']) (auto simp: in_incumbents)
qed

theorem folded_idea_is_incumbent_witness:
  "\<exists>w'. write_anchors_on_fold ''acme'' ''o/r'' ''i1'' [\<lparr>an_file = ''a.py'', an_symbol = ''f'', an_resolution = ''symbol''\<rparr>]
       demo_world = (Inr (), w') \<and>
     ''i1'' \<in> set (get_incumbent_ideas ''acme'' ''o/r'' [\<lparr>an_file = ''a.py'', an_symbol = ''f'', an_resolution = ''x''\<rparr>] (w_store w'))"
proof -
  let ?a = "\<lambda>r. \<lparr>an_file = ''a.py'', an_symbol = ''f'', an_resolution = r\<rparr>"
  obtain w' where w': "write_anchors_on_fold ''acme'' ''o/r'' ''i1'' [?a ''symbol''] demo_world = (Inr (), w')"
      "\<forall>touched. ''i1'' \<in> set (get_incumbent_ideas ''acme'' ''o/r'' touched (w_store w')) \<longleftrightarrow>
         (\<exists>a \<in> set [?a ''symbol'']. \<exists>b \<in> set touched. pair_of a = pair_of b) \<or>
         ''i1'' \<in> set (get_incumbent_ideas ''acme'' ''o/r'' touched (w_store demo_world))"
    using folded_idea_is_incumbent [of demo_world "''acme''" "''o/r''" "''i1''" "[?a ''symbol'']"] demo_store_wf
    by (simp only: demo_world_store blank_acme not_False_eq_True simp_thms) blast
  show ?thesis using w'(1) spec [OF w'(2), of "[?a ''x'']"] by (intro exI [of _ w']) simp
qed

text \<open>every hunk of a parsed diff is the single line its header names on the base side, its
  first context line: the end line is never moved to the changed lines.\<close>

theorem hunks_are_single_lines:
  assumes "h \<in> set (parse_unified_diff diff_text file_contents)"
  shows "dh_end_line h = dh_start_line h"
proof -
  have "diff_inv (foldl (diff_line file_contents) \<lparr>ds_hunks = [], ds_file = None, ds_start = None, ds_end = None\<rparr>
      (split_lines_from [] diff_text))"
    by (rule diff_lines_inv) (simp add: diff_inv_def)
  then have "line_hunk h" using assms unfolding parse_unified_diff_def by (rule flush_line_hunks)
  then show ?thesis by (simp add: line_hunk_def)
qed

definition demo_diff :: string where
  "demo_diff = ''+++ b/a.py'' @ nl # ''@@ -7,4 +7,5 @@'' @ nl # ''+x''"

theorem hunks_are_single_lines_witness:
  "\<exists>h. parse_unified_diff demo_diff [] = [h] \<and> dh_start_line h = 7 \<and> dh_end_line h = dh_start_line h"
proof -
  let ?h = "\<lparr>dh_file = ''a.py'', dh_start_line = 7, dh_end_line = 7, dh_content = []\<rparr>"
  have "parse_unified_diff demo_diff [] = [?h]" by code_simp
  then show ?thesis using hunks_are_single_lines [of ?h demo_diff "[]"] by simp
qed

text \<open>a diff gets an anchor for every hunk and no other, each (file, symbol) pair once: the
  symbol the hunk resolves to, or the file-level sentinel.\<close>

theorem extracted_anchors_exact:
  "distinct (map pair_of (extract_anchors_from_diff parse hunks)) \<and>
   set (map pair_of (extract_anchors_from_diff parse hunks)) = hunk_pair parse ` set hunks"
proof -
  let ?d = "foldl (\<lambda>seen hunk.
       case hunk_symbol parse hunk of
         Some c \<Rightarrow> if c \<noteq> [] then add_anchor (dh_file hunk) c ''symbol'' seen
                   else add_anchor (dh_file hunk) FILE_LEVEL_SYMBOL ''file_fallback'' seen
       | None \<Rightarrow> add_anchor (dh_file hunk) FILE_LEVEL_SYMBOL ''file_fallback'' seen) [] hunks"
  have d: "anchors_keyed ?d" "set (map fst ?d) = hunk_pair parse ` set hunks"
    using extract_keyed [of "[]" parse hunks] by (simp_all add: anchors_keyed_def dict_simps)
  have "map pair_of (map snd ?d) = map fst ?d" using d(1) by (auto simp: anchors_keyed_def)
  then show ?thesis using d by (simp only: extract_anchors_from_diff_def anchors_keyed_def dict_wf_def)
qed

end
