(* ===== verification/SupersessionProps.thy ===== *)
theory SupersessionProps
  imports Supersession CorroborationProps SkillsWriteProps AnchorsProps "HOL-Library.Multiset"
begin

text \<open>
  Properties of supersession: which calls write, what a supersession and a revival leave
  behind, the bound the anti-thrash tracker keeps, and what an un-fold does to a skill body.
\<close>

section \<open>Calls that write nothing\<close>

lemma on_thrash_apply [py_simps]: "on_thrash f w = (Inr (), w\<lparr>w_thrash := map_option f (w_thrash w)\<rparr>)"
  by (simp add: on_thrash_def)

lemma blocked_action [simp]: "sres_action (blocked rq a) = a"
  by (simp add: blocked_def)

text \<open>The reasons not to supersede, in the order the code tests them.\<close>

definition supersede_stop ::
    "supersede_request \<Rightarrow> string \<Rightarrow> fp_gate option \<Rightarrow> int \<Rightarrow> 'a sworld_scheme \<Rightarrow> string option" where
  "supersede_stop rq unfold_mode gate now w =
     (case get_idea (sr_org rq) (sr_incumbent_skill_base_name rq) (sr_incumbent_idea_id rq) (w_store w) of
        None \<Rightarrow> Some ''not_found''
      | Some inc \<Rightarrow>
          if authority_rank (idea_authorityKind inc) < authority_rank (Some (sr_challenger_authority_kind rq))
          then Some ''blocked_authority''
          else if (case w_thrash w of None \<Rightarrow> False | Some t \<Rightarrow> is_thrashing (sr_incumbent_idea_id rq) now t)
          then Some ''blocked_thrash''
          else if decide_winner inc (sr_challenger_authority_kind rq) (sr_challenger_pr_number rq)
             (length (list_idea_sources (sr_org rq) (sr_incumbent_idea_id rq) (w_store w))) = ''incumbent''
          then Some ''blocked_authority''
          else if unfold_mode = ''shadow'' then Some ''shadow''
          else if unfold_mode = ''enforce'' \<and> (case gate of None \<Rightarrow> False | Some g \<Rightarrow> \<not> fg_is_open g)
          then Some ''blocked_fp_gate''
          else None)"

lemma supersede_stopped:
  "\<not> blank (sr_org rq) \<Longrightarrow> supersede_stop rq m gate now w = Some a \<Longrightarrow>
   supersede rq m gate delta env senv now w = (Inr (blocked rq a), w)"
  by (cases "get_idea (sr_org rq) (sr_incumbent_skill_base_name rq) (sr_incumbent_idea_id rq) (w_store w)")
     (auto simp: supersede_def supersede_stop_def pbind_apply org_guard_apply split: if_splits)

lemma supersede_goes_on:
  "\<not> blank (sr_org rq) \<Longrightarrow> supersede_stop rq m gate now w = None \<Longrightarrow>
   get_idea (sr_org rq) (sr_incumbent_skill_base_name rq) (sr_incumbent_idea_id rq) (w_store w) = Some inc \<Longrightarrow>
   supersede rq m gate delta env senv now w =
     (case on_store (\<lambda>s. put_idea_conditional (retired_idea now (sr_challenger_idea_id rq) inc)
                  (idea_corroborationVersion inc) (env s)) w of
             (Inl e, w1) \<Rightarrow> (case e of
                VersionConflictError _ _ _ \<Rightarrow> (Inr (blocked rq ''shadow''), w1)
              | _ \<Rightarrow> (Inl e, w1))
           | (Inr _, w1) \<Rightarrow> after_retirement rq inc delta senv now w1)"
  by (auto simp: supersede_def supersede_stop_def pbind_apply org_guard_apply split: if_splits)

lemma supersede_stop_found:
  "supersede_stop rq m gate now w = None \<Longrightarrow>
   \<exists>inc. get_idea (sr_org rq) (sr_incumbent_skill_base_name rq) (sr_incumbent_idea_id rq) (w_store w) = Some inc"
  by (simp add: supersede_stop_def split: option.splits)

lemma retired_idea_simps [simp]:
  "idea_pk (retired_idea now by r) = idea_pk r" "idea_org (retired_idea now by r) = idea_org r"
  "idea_ideaId (retired_idea now by r) = idea_ideaId r"
  "idea_corroborationVersion (retired_idea now by r) = idea_corroborationVersion r + 1"
  "idea_invalidAt (retired_idea now by r) = Some now" "idea_supersededBy (retired_idea now by r) = by"
  "idea_body (retired_idea now by r) = idea_body r" "idea_status (retired_idea now by r) = idea_status r"
  by (simp_all add: retired_idea_def idea_pk_def)

section \<open>After the retirement\<close>

text \<open>The un-fold changes the skill store only.\<close>

lemma execute_unfold_frame:
  "\<exists>v sk. execute_unfold inc fr rq delta senv now w = (Inr v, w\<lparr>w_skills := sk\<rparr>)"
proof (cases "w_skills w")
  case None
  then show ?thesis by (intro exI [of _ None] exI [of _ "w_skills w"]) (simp add: execute_unfold_def)
next
  case (Some sk)
  show ?thesis
  proof (cases "get_revision_body (sr_org rq) [] fr sk")
    case None
    then show ?thesis using Some
      by (intro exI [of _ None] exI [of _ "w_skills w"]) (simp add: execute_unfold_def)
  next
    case (Some b)
    then show ?thesis using \<open>w_skills w = Some sk\<close>
      by (auto simp: execute_unfold_def Let_def split: prod.splits sum.splits)
  qed
qed

definition next_event ::
    "string \<Rightarrow> string \<Rightarrow> string \<Rightarrow> string option \<Rightarrow> string option \<Rightarrow> int \<Rightarrow> learning_store \<Rightarrow> verify_event" where
  "next_event g i verdict pr auth now s = \<lparr>ev_org = g, ev_idea_id = i, ev_seq = next_event_seq (list_verify_events g i s),
     ev_verdict = verdict, ev_pr_ref = pr, ev_authority = auth, ev_recorded_at = now\<rparr>"

definition with_event ::
    "string \<Rightarrow> string \<Rightarrow> string \<Rightarrow> string option \<Rightarrow> string option \<Rightarrow> int \<Rightarrow> learning_store \<Rightarrow> learning_store" where
  "with_event g i verdict pr auth now s = s\<lparr>ls_verify_events :=
     dset (g, i) (events_at (g, i) s @ [next_event g i verdict pr auth now s]) (ls_verify_events s)\<rparr>"

lemma append_next_event_exact:
  fixes w :: "'a lworld_scheme"
  assumes "\<not> blank g"
  shows "append_next_event g i verdict pr auth now w = (Inr (), w\<lparr>w_store := with_event g i verdict pr auth now (w_store w)\<rparr>)"
  using assms by (simp add: append_next_event_def with_event_def next_event_def py_simps)

lemma next_event_seq_above: "e \<in> set es \<Longrightarrow> ev_seq e < next_event_seq es"
proof -
  assume "e \<in> set es"
  then have "ev_seq e \<le> Max (set (map ev_seq es))" by (intro Max_ge) auto
  then show ?thesis using \<open>e \<in> set es\<close> by (auto simp: next_event_seq_def)
qed

lemma store_wf_with_event:
  assumes "store_wf s" "\<not> blank g"
  shows "store_wf (with_event g i v pr au now s)"
proof -
  have "with_event g i v pr au now s = snd (run_op (AppendVerifyEvent (next_event g i v pr au now s)) s)"
    using assms(2) by (simp add: with_event_def next_event_def py_simps)
  then show ?thesis by (simp only: store_wf_step [OF assms(1)])
qed

definition retired_store ::
    "supersede_request \<Rightarrow> idea_record \<Rightarrow> int \<Rightarrow> learning_store \<Rightarrow> learning_store" where
  "retired_store rq inc now s =
     (let t = with_event (sr_org rq) (idea_ideaId inc) ''supersede''
        (Some (pr_ref_str (sr_challenger_owner_repo rq) (sr_challenger_pr_number rq)))
        (Some (sr_challenger_authority_kind rq)) now s
      in t\<lparr>ls_anchors := retire_where (idea_anchor (sr_org rq) (sr_challenger_owner_repo rq) (idea_ideaId inc)) (ls_anchors t)\<rparr>)"

lemma after_retirement_exact:
  fixes w :: "'a sworld_scheme"
  assumes "store_wf (w_store w)" "\<not> blank (sr_org rq)"
  shows "\<exists>v w'. after_retirement rq inc delta senv now w = (Inr \<lparr>sres_action = ''superseded'',
      sres_incumbent_idea_id = sr_incumbent_idea_id rq, sres_invalid_at = Some now, sres_unfold_rev = v,
      sres_winner_idea_id = sr_challenger_idea_id rq\<rparr>, w') \<and>
    w_store w' = retired_store rq inc now (w_store w) \<and>
    w_thrash w' = map_option (record_flip (sr_incumbent_idea_id rq) now) (w_thrash w)"
proof -
  let ?t = "with_event (sr_org rq) (idea_ideaId inc) ''supersede''
        (Some (pr_ref_str (sr_challenger_owner_repo rq) (sr_challenger_pr_number rq)))
        (Some (sr_challenger_authority_kind rq)) now (w_store w)"
  let ?w2 = "w\<lparr>w_store := ?t, w_thrash := map_option (record_flip (sr_incumbent_idea_id rq) now) (w_thrash w)\<rparr>"
  let ?U = "(case idea_foldedIntoRev inc of
              Some folded_rev \<Rightarrow> if idea_status inc = ''folded''
                then execute_unfold inc folded_rev rq delta senv now else pret None
            | None \<Rightarrow> pret None) :: ('a sworld_scheme, int option) py"
  obtain v sk where u: "?U ?w2 = (Inr v, ?w2\<lparr>w_skills := sk\<rparr>)"
  proof (cases "idea_foldedIntoRev inc")
    case None
    then show ?thesis using that [of None "w_skills ?w2"] by (simp add: pret_apply)
  next
    case (Some fr)
    show ?thesis
    proof (cases "idea_status inc = ''folded''")
      case True
      then show ?thesis using Some execute_unfold_frame [of inc fr rq delta senv now ?w2] that by auto
    next
      case False
      then show ?thesis using Some that [of None "w_skills ?w2"] by (simp add: pret_apply)
    qed
  qed
  have wf: "store_wf (w_store (?w2\<lparr>w_skills := sk\<rparr>))"
    using store_wf_with_event [OF assms] by simp
  let ?w3 = "?w2\<lparr>w_skills := sk\<rparr>"
  have a: "append_next_event (sr_org rq) (idea_ideaId inc) ''supersede''
       (Some (pr_ref_str (sr_challenger_owner_repo rq) (sr_challenger_pr_number rq)))
       (Some (sr_challenger_authority_kind rq)) now w = (Inr (), w\<lparr>w_store := ?t\<rparr>)"
    by (rule append_next_event_exact [OF assms(2)])
  have b: "on_thrash (record_flip (sr_incumbent_idea_id rq) now) (w\<lparr>w_store := ?t\<rparr>) = (Inr (), ?w2)"
    by (simp add: on_thrash_apply)
  note steps = pbind_Inr [where m = "append_next_event _ _ _ _ _ _", OF a]
    pbind_Inr [where m = "on_thrash _", OF b] pbind_Inr [where m = ?U, OF u]
    pbind_Inr [where s = ?w3 and m = "retire_anchors_on_unfold _ _ _", OF retire_anchors_exact [OF wf assms(2)]]
    pbind_Inr [where m = "on_tel _", OF on_tel_apply]
  show ?thesis
    unfolding after_retirement_def steps pret_apply by (simp add: retired_store_def Let_def)
qed

section \<open>A supersession, exactly\<close>

definition stamped :: "supersede_request \<Rightarrow> idea_record \<Rightarrow> int \<Rightarrow> learning_store \<Rightarrow> learning_store" where
  "stamped rq inc now s = s\<lparr>ls_ideas := dset (idea_pk inc) (retired_idea now (sr_challenger_idea_id rq) inc) (ls_ideas s)\<rparr>"

lemma store_wf_stamped:
  assumes "store_wf s" "\<not> blank (idea_org inc)"
  shows "store_wf (stamped rq inc now s)"
proof -
  have "stamped rq inc now s = snd (run_op (PutIdea (retired_idea now (sr_challenger_idea_id rq) inc)) s)"
    using assms(2) by (simp add: stamped_def py_simps)
  then show ?thesis by (simp only: store_wf_step [OF assms(1)])
qed

lemma supersede_exact:
  fixes w :: "'a sworld_scheme"
  assumes wf: "store_wf (w_store w)" and go: "supersede_stop rq m gate now w = None"
    and inc: "get_idea (sr_org rq) (sr_incumbent_skill_base_name rq) (sr_incumbent_idea_id rq) (w_store w) = Some inc"
  shows "\<exists>r w'. supersede rq m gate delta (\<lambda>s. s) senv now w = (Inr r, w') \<and>
    sres_action r = ''superseded'' \<and> sres_invalid_at r = Some now \<and>
    w_store w' = retired_store rq inc now (stamped rq inc now (w_store w)) \<and>
    w_thrash w' = map_option (record_flip (sr_incumbent_idea_id rq) now) (w_thrash w)"
proof -
  note st = stored_idea [OF wf inc]
  let ?w1 = "w\<lparr>w_store := stamped rq inc now (w_store w)\<rparr>"
  have "version_at (idea_pk inc) (w_store w) = idea_corroborationVersion inc"
    using inc by (simp add: st(1) version_at_idea)
  then have put: "on_store (\<lambda>s. put_idea_conditional (retired_idea now (sr_challenger_idea_id rq) inc)
      (idea_corroborationVersion inc) s) w = (Inr (), ?w1)"
    using st(2) by (simp add: py_simps stamped_def)
  have wf1: "store_wf (w_store ?w1)" using store_wf_stamped [OF wf st(2)] by simp
  show ?thesis
    using after_retirement_exact [of ?w1 rq inc delta senv now, OF wf1 st(3)]
    unfolding supersede_goes_on [OF st(3) go inc] put by auto
qed

lemma retired_store_reads:
  "get_idea g sk i (retired_store rq inc now s) = get_idea g sk i s"
  "events_at (g, i) (retired_store rq inc now s) = (if (g, i) = (sr_org rq, idea_ideaId inc)
     then events_at (g, i) s @ [next_event (sr_org rq) (idea_ideaId inc) ''supersede''
        (Some (pr_ref_str (sr_challenger_owner_repo rq) (sr_challenger_pr_number rq)))
        (Some (sr_challenger_authority_kind rq)) now s] else events_at (g, i) s)"
  "list_idea_sources g i (retired_store rq inc now s) = list_idea_sources g i s"
  by (auto simp: retired_store_def with_event_def get_idea_def Let_def events_at_def dict_simps list_idea_sources_def)

lemma stamped_reads:
  "get_idea g sk i (stamped rq inc now s) =
     (if (g, sk, i) = idea_pk inc then Some (retired_idea now (sr_challenger_idea_id rq) inc) else get_idea g sk i s)"
  "events_at k (stamped rq inc now s) = events_at k s"
  "list_idea_sources g i (stamped rq inc now s) = list_idea_sources g i s"
  by (simp_all add: stamped_def get_idea_def dict_simps events_at_def list_idea_sources_def)

lemma store_wf_retired_store:
  assumes "store_wf s" "\<not> blank (sr_org rq)"
  shows "store_wf (retired_store rq inc now s)"
  unfolding retired_store_def Let_def by (intro store_wf_retire_where store_wf_with_event assms)

section \<open>Flips in a window\<close>

text \<open>Flips gated by the tracker: a flip at time \<open>t\<close> is recorded unless the idea thrashes.\<close>

definition gated_flip :: "string \<Rightarrow> int \<Rightarrow> thrash_tracker \<Rightarrow> thrash_tracker" where
  "gated_flip i t tr = (if is_thrashing i t tr then tr else record_flip i t tr)"

lemma record_flip_simps [simp]:
  "flips_of i (record_flip j t tr) = (if i = j then flips_of i tr @ [t] else flips_of i tr)"
  "tt_window_secs (record_flip j t tr) = tt_window_secs tr" "tt_max_flips (record_flip j t tr) = tt_max_flips tr"
  by (simp_all add: record_flip_def flips_of_def dict_simps)

text \<open>At most \<open>tt_max_flips\<close> flips in the window that ends at any recorded flip, and times
  never decrease.\<close>

definition window_ok :: "string \<Rightarrow> thrash_tracker \<Rightarrow> bool" where
  "window_ok i tr \<longleftrightarrow> sorted (flips_of i tr) \<and>
     (\<forall>a. length (filter (\<lambda>u. a \<le> u \<and> u \<le> a + tt_window_secs tr * 1000) (flips_of i tr)) \<le> tt_max_flips tr)"

lemma window_ok_gated:
  assumes "window_ok i tr" "\<forall>u \<in> set (flips_of i tr). u \<le> t" "0 < tt_max_flips tr"
  shows "window_ok i (gated_flip i t tr)"
proof (cases "is_thrashing i t tr")
  case False
  let ?W = "tt_window_secs tr * 1000"
  have few: "length (filter (\<lambda>u. t - ?W \<le> u) (flips_of i tr)) < tt_max_flips tr"
    using False by (simp add: is_thrashing_def Let_def)
  have "length (filter (\<lambda>u. a \<le> u \<and> u \<le> a + ?W) (flips_of i tr @ [t])) \<le> tt_max_flips tr" for a
  proof (cases "a \<le> t \<and> t \<le> a + ?W")
    case True
    have "length (filter (\<lambda>u. a \<le> u \<and> u \<le> a + ?W) (flips_of i tr)) \<le>
        length (filter (\<lambda>u. t - ?W \<le> u) (flips_of i tr))"
      using True by (induction "flips_of i tr" arbitrary: rule: list.induct)
        (auto intro!: card_mono simp: length_filter_conv_card)
    then show ?thesis using few True by simp
  next
    case False
    then have "filter (\<lambda>u. a \<le> u \<and> u \<le> a + ?W) (flips_of i tr @ [t]) =
        filter (\<lambda>u. a \<le> u \<and> u \<le> a + ?W) (flips_of i tr)" by simp
    then show ?thesis using assms(1) by (simp add: window_ok_def)
  qed
  then show ?thesis using False assms by (simp add: gated_flip_def window_ok_def sorted_append)
qed (simp add: gated_flip_def assms)

section \<open>Removing a lesson\<close>

lemma drop_first_match_True:
  "drop_first_match l ps = (True, sv) \<Longrightarrow>
   \<exists>xs p ys. ps = xs @ p # ys \<and> sv = xs @ ys \<and> para_matches l p \<and> (\<forall>x \<in> set xs. \<not> para_matches l x)"
proof (induction ps arbitrary: sv)
  case (Cons q ps)
  show ?case
  proof (cases "para_matches l q")
    case True
    then have "q # ps = [] @ q # ps \<and> sv = [] @ ps \<and> para_matches l q \<and> (\<forall>x \<in> set []. \<not> para_matches l x)"
      using Cons.prems by simp
    then show ?thesis by blast
  next
    case False
    then obtain sv' where sv: "drop_first_match l ps = (True, sv')" "sv = q # sv'"
      using Cons.prems by (auto split: prod.splits)
    obtain xs p ys where "ps = xs @ p # ys" "sv' = xs @ ys" "para_matches l p" "\<forall>x \<in> set xs. \<not> para_matches l x"
      using Cons.IH [OF sv(1)] by blast
    then have "q # ps = (q # xs) @ p # ys \<and> sv = (q # xs) @ ys \<and> para_matches l p \<and> (\<forall>x \<in> set (q # xs). \<not> para_matches l x)"
      using sv(2) False by simp
    then show ?thesis by blast
  qed
qed simp

lemma best_similarity_index:
  "best_similarity lw i b s ps = (Some j, x) \<Longrightarrow> b = Some j \<or> (i \<le> j \<and> j < i + length ps)"
proof (induction ps arbitrary: i b s)
  case (Cons p ps)
  have "best_similarity lw (Suc i) b s ps = (Some j, x) \<or> best_similarity lw (Suc i) (Some i) (jaccard (words p) lw) ps = (Some j, x)"
    using Cons.prems by (auto simp: Let_def split: if_splits)
  then show ?case using Cons.IH by fastforce
qed simp

section \<open>Appending the last event\<close>

lemma sort_key_append_last:
  fixes f :: "'b \<Rightarrow> int"
  assumes "\<forall>y \<in> set xs. f y \<le> f x"
  shows "sort_key f (xs @ [x]) = sort_key f xs @ [x]"
proof (rule properties_for_sort_key)
  show "filter (\<lambda>y. f k = f y) (sort_key f xs @ [x]) = filter (\<lambda>y. f k = f y) (xs @ [x])"
    if "k \<in> set (sort_key f xs @ [x])" for k
    using sort_key_stable [of f "f k" xs] by (simp add: eq_commute [of "f k"])
qed (use assms in \<open>auto simp: sorted_append\<close>)

section \<open>Properties\<close>

text \<open>authority safety: a challenger of lower authority never supersedes an idea.  Nothing
  is written, whatever the mode, the gate, the tracker and the other writers: in particular an
  authored idea is never retired by a merged one.\<close>

theorem lower_authority_never_supersedes:
  fixes w :: "'a sworld_scheme"
  assumes "store_wf (w_store w)"
    and "get_idea (sr_org rq) (sr_incumbent_skill_base_name rq) (sr_incumbent_idea_id rq) (w_store w) = Some inc"
    and "authority_rank (idea_authorityKind inc) < authority_rank (Some (sr_challenger_authority_kind rq))"
  shows "supersede rq unfold_mode gate delta env senv now w = (Inr (blocked rq ''blocked_authority''), w)"
  using stored_idea(3) [OF assms(1,2)] assms(2,3)
  by (intro supersede_stopped) (simp_all add: supersede_stop_def)

definition demo_supersede :: "string \<Rightarrow> supersede_request" where
  "demo_supersede kind = \<lparr>sr_org = ''acme'', sr_incumbent_idea_id = ''i1'', sr_incumbent_skill_base_name = ''sk'',
     sr_challenger_idea_id = Some ''i9'', sr_challenger_skill_base_name = None, sr_challenger_pr_number = 9,
     sr_challenger_owner_repo = ''o/r'', sr_challenger_authority_kind = kind, sr_idea_body_to_remove = None\<rparr>"

text \<open>A world around a store with the one idea given.\<close>

definition idea_world :: "idea_record \<Rightarrow> sworld" where
  "idea_world r = \<lparr>w_store = snd (run_op (PutIdea r) empty_store), w_tel = None,
     w_skills = Some empty_skill_store, w_thrash = Some new_thrash_tracker\<rparr>"

lemma idea_world_simps:
  "store_wf (w_store (idea_world r))"
  "\<not> blank (idea_org r) \<Longrightarrow> idea_pk r = (g, sk, i) \<Longrightarrow> get_idea g sk i (w_store (idea_world r)) = Some r"
  unfolding idea_world_def using store_wf_step [OF store_wf_empty, of "PutIdea r"]
  by (simp_all add: py_simps get_idea_def dict_simps)

theorem lower_authority_never_supersedes_witness:
  "supersede (demo_supersede ''merged'') ''enforce'' None default_delta (\<lambda>s. s) (\<lambda>_ s. s) 5
     (idea_world (demo_idea\<lparr>idea_authorityKind := Some ''user_directive''\<rparr>)) =
   (Inr (blocked (demo_supersede ''merged'') ''blocked_authority''),
    idea_world (demo_idea\<lparr>idea_authorityKind := Some ''user_directive''\<rparr>))"
proof (rule lower_authority_never_supersedes [OF idea_world_simps(1)])
  show "get_idea (sr_org (demo_supersede ''merged'')) (sr_incumbent_skill_base_name (demo_supersede ''merged''))
      (sr_incumbent_idea_id (demo_supersede ''merged'')) (w_store (idea_world (demo_idea\<lparr>idea_authorityKind := Some ''user_directive''\<rparr>)))
      = Some (demo_idea\<lparr>idea_authorityKind := Some ''user_directive''\<rparr>)"
    by (rule idea_world_simps(2)) (simp_all add: demo_supersede_def demo_idea_def mk_idea_def idea_pk_def)
qed (simp add: authority_rank_def str_or_def AUTHORITY_RANK_def demo_supersede_def)






text \<open>A folded idea whose lesson is in revision 1 of its skill, superseded by a directive.\<close>

lemma demo_stop_none: "supersede_stop (demo_supersede ''user_directive'') ''enforce'' None 5 (idea_world demo_idea) = None"
proof -
  have "get_idea ''acme'' ''sk'' ''i1'' (w_store (idea_world demo_idea)) = Some demo_idea"
    by (rule idea_world_simps(2)) (simp_all add: demo_idea_def mk_idea_def idea_pk_def)
  then show ?thesis
    by (simp add: supersede_stop_def demo_supersede_def)
       (simp add: demo_idea_def mk_idea_def authority_rank_def str_or_def AUTHORITY_RANK_def decide_winner_def
          idea_world_def is_thrashing_def new_thrash_tracker_def flips_of_def DEFAULT_ANTI_THRASH_MAX_FLIPS_def)
qed


section \<open>Revival\<close>

lemma revived_idea_simps [simp]:
  "idea_pk (revived_idea now r) = idea_pk r" "idea_org (revived_idea now r) = idea_org r"
  "idea_ideaId (revived_idea now r) = idea_ideaId r"
  "idea_corroborationVersion (revived_idea now r) = idea_corroborationVersion r + 1"
  by (simp_all add: revived_idea_def idea_pk_def)

definition revived_store :: "revive_request \<Rightarrow> idea_record \<Rightarrow> int \<Rightarrow> learning_store \<Rightarrow> learning_store" where
  "revived_store rq idea now s = with_event (rv_org rq) (idea_ideaId idea) ''revive''
     (Some (pr_ref_str (rv_new_pr_owner_repo rq) (rv_new_pr_number rq))) (Some ''merged'') now
     (s\<lparr>ls_ideas := dset (idea_pk idea) (revived_idea now idea) (ls_ideas s)\<rparr>)"

lemma revive_exact:
  fixes w :: "'a sworld_scheme"
  assumes wf: "store_wf (w_store w)"
    and idea: "get_idea (rv_org rq) (rv_skill_base_name rq) (rv_idea_id rq) (w_store w) = Some idea"
    and "idea_invalidAt idea \<noteq> None" "case w_thrash w of None \<Rightarrow> True | Some t \<Rightarrow> \<not> is_thrashing (rv_idea_id rq) now t"
  shows "\<exists>w'. revive rq (\<lambda>s. s) now w =
      (Inr \<lparr>rvr_action = ''revived'', rvr_idea_id = rv_idea_id rq, rvr_revived_at = Some now\<rparr>, w') \<and>
    w_store w' = revived_store rq idea now (w_store w) \<and>
    w_thrash w' = map_option (record_flip (rv_idea_id rq) now) (w_thrash w) \<and> w_skills w' = w_skills w"
proof -
  note st = stored_idea [OF wf idea]
  have "version_at (idea_pk idea) (w_store w) = idea_corroborationVersion idea"
    using idea by (simp add: st(1) version_at_idea)
  then have put: "on_store (\<lambda>s. put_idea_conditional (revived_idea now idea) (idea_corroborationVersion idea) s) w =
      (Inr (), w\<lparr>w_store := (w_store w)\<lparr>ls_ideas := dset (idea_pk idea) (revived_idea now idea) (ls_ideas (w_store w))\<rparr>\<rparr>)"
    using st(2) by (simp add: py_simps)
  show ?thesis
    using assms(3,4) st(3)
    by (auto simp: revive_def pbind_apply org_guard_apply idea put append_next_event_exact on_thrash_apply
        on_tel_apply pret_apply revived_store_def split: option.splits)
qed

lemma revived_store_reads:
  "get_idea g sk i (revived_store rq idea now s) =
     (if (g, sk, i) = idea_pk idea then Some (revived_idea now idea) else get_idea g sk i s)"
  by (simp add: revived_store_def with_event_def get_idea_def dict_simps)

text \<open>C19: reviving undoes a supersession: after \<open>supersede\<close> and \<open>revive\<close> the idea is current
  again, open, with its body, no retirement stamp, no winner and no folded revision, and its
  version is two higher, unless the tracker finds it thrashing; a second revive then reports
  that it is active and changes nothing.\<close>

theorem supersede_then_revive:
  fixes w :: "'a sworld_scheme"
  assumes "store_wf (w_store w)" "supersede_stop rq unfold_mode gate now w = None"
    and "get_idea (sr_org rq) (sr_incumbent_skill_base_name rq) (sr_incumbent_idea_id rq) (w_store w) = Some inc"
    and "supersede rq unfold_mode gate delta (\<lambda>s. s) senv now w = (Inr r, w1)"
    and "rv = \<lparr>rv_org = sr_org rq, rv_idea_id = sr_incumbent_idea_id rq,
       rv_skill_base_name = sr_incumbent_skill_base_name rq, rv_new_pr_number = n, rv_new_pr_owner_repo = repo\<rparr>"
    and "case w_thrash w1 of None \<Rightarrow> True | Some t \<Rightarrow> \<not> is_thrashing (sr_incumbent_idea_id rq) later t"
  shows "\<exists>w2 idea. revive rv (\<lambda>s. s) later w1 = (Inr \<lparr>rvr_action = ''revived'', rvr_idea_id = sr_incumbent_idea_id rq,
       rvr_revived_at = Some later\<rparr>, w2) \<and>
    get_idea (sr_org rq) (sr_incumbent_skill_base_name rq) (sr_incumbent_idea_id rq) (w_store w2) = Some idea \<and>
    idea = inc\<lparr>idea_status := ''open'', idea_corroborationVersion := idea_corroborationVersion inc + 2,
      idea_foldedIntoRev := None, idea_invalidAt := None, idea_supersededBy := None, idea_revivedAt := Some later\<rparr> \<and>
    revive rv (\<lambda>s. s) again w2 = (Inr \<lparr>rvr_action = ''already_active'', rvr_idea_id = sr_incumbent_idea_id rq,
       rvr_revived_at = None\<rparr>, w2)"
proof -
  note st = stored_idea [OF assms(1,3)]
  let ?inc' = "retired_idea now (sr_challenger_idea_id rq) inc"
  obtain r' w1' where "supersede rq unfold_mode gate delta (\<lambda>s. s) senv now w = (Inr r', w1')"
      "w_store w1' = retired_store rq inc now (stamped rq inc now (w_store w))"
    using supersede_exact [OF assms(1-3), of delta senv] by blast
  then have w1: "w_store w1 = retired_store rq inc now (stamped rq inc now (w_store w))" using assms(4) by simp
  have wf1: "store_wf (w_store w1)" unfolding w1 by (intro store_wf_retired_store store_wf_stamped assms(1) st)
  have g1: "get_idea (rv_org rv) (rv_skill_base_name rv) (rv_idea_id rv) (w_store w1) = Some ?inc'"
    by (simp add: assms(5) w1 retired_store_reads stamped_reads st(1))
  have i1: "idea_invalidAt ?inc' \<noteq> None" by simp
  have rvid: "rv_idea_id rv = sr_incumbent_idea_id rq" by (simp add: assms(5))
  have t1: "case w_thrash w1 of None \<Rightarrow> True | Some t \<Rightarrow> \<not> is_thrashing (rv_idea_id rv) later t"
    using assms(6) unfolding rvid .
  obtain w2 where w2: "revive rv (\<lambda>s. s) later w1 = (Inr \<lparr>rvr_action = ''revived'', rvr_idea_id = rv_idea_id rv,
       rvr_revived_at = Some later\<rparr>, w2)" "w_store w2 = revived_store rv ?inc' later (w_store w1)"
    using revive_exact [OF wf1 g1 i1 t1] by blast
  have g2: "get_idea (sr_org rq) (sr_incumbent_skill_base_name rq) (sr_incumbent_idea_id rq) (w_store w2) =
      Some (revived_idea later ?inc')"
    by (simp add: w2(2) revived_store_reads st(1))
  have "revived_idea later ?inc' = inc\<lparr>idea_status := ''open'',
      idea_corroborationVersion := idea_corroborationVersion inc + 2, idea_foldedIntoRev := None,
      idea_invalidAt := None, idea_supersededBy := None, idea_revivedAt := Some later\<rparr>"
    by (simp add: revived_idea_def retired_idea_def)
  moreover have "revive rv (\<lambda>s. s) again w2 = (Inr \<lparr>rvr_action = ''already_active'', rvr_idea_id = sr_incumbent_idea_id rq,
       rvr_revived_at = None\<rparr>, w2)"
    using g2 st(3) assms(5) by (simp add: revive_def pbind_apply org_guard_apply) (simp add: revived_idea_def)
  ultimately show ?thesis using w2(1) g2 assms(5)
    by (intro exI [of _ w2] exI [of _ "revived_idea later ?inc'"]) simp
qed




theorem supersede_then_revive_witness:
  "\<exists>r w1 w2. supersede (demo_supersede ''user_directive'') ''enforce'' None default_delta (\<lambda>s. s) (\<lambda>_ s. s) 5 (idea_world demo_idea) = (Inr r, w1) \<and>
     revive \<lparr>rv_org = ''acme'', rv_idea_id = ''i1'', rv_skill_base_name = ''sk'', rv_new_pr_number = 12, rv_new_pr_owner_repo = ''o/r''\<rparr>
       (\<lambda>s. s) 6 w1 = (Inr \<lparr>rvr_action = ''revived'', rvr_idea_id = ''i1'', rvr_revived_at = Some 6\<rparr>, w2)"
proof -
  let ?rq = "demo_supersede ''user_directive''"
  have f: "sr_org ?rq = ''acme''" "sr_incumbent_skill_base_name ?rq = ''sk''" "sr_incumbent_idea_id ?rq = ''i1''"
    by (simp_all add: demo_supersede_def)
  have "get_idea ''acme'' ''sk'' ''i1'' (w_store (idea_world demo_idea)) = Some demo_idea"
    by (rule idea_world_simps(2)) (simp_all add: demo_idea_def mk_idea_def idea_pk_def)
  then have g: "get_idea (sr_org ?rq) (sr_incumbent_skill_base_name ?rq) (sr_incumbent_idea_id ?rq)
      (w_store (idea_world demo_idea)) = Some demo_idea" unfolding f .
  obtain r w1 where s: "supersede ?rq ''enforce'' None default_delta (\<lambda>s. s) (\<lambda>_ s. s) 5 (idea_world demo_idea) = (Inr r, w1)"
      "w_thrash w1 = map_option (record_flip (sr_incumbent_idea_id ?rq) 5) (w_thrash (idea_world demo_idea))"
    using supersede_exact [OF idea_world_simps(1) demo_stop_none g, of default_delta "\<lambda>_ s. s"] by blast
  have t: "case w_thrash w1 of None \<Rightarrow> True | Some t \<Rightarrow> \<not> is_thrashing (sr_incumbent_idea_id ?rq) 6 t"
    unfolding s(2) f by (simp add: idea_world_def is_thrashing_def Let_def)
      (simp add: new_thrash_tracker_def flips_of_def DEFAULT_ANTI_THRASH_MAX_FLIPS_def DEFAULT_ANTI_THRASH_WINDOW_SECS_def)
  show ?thesis
    using supersede_then_revive [OF idea_world_simps(1) demo_stop_none g s(1) refl t, of 12 "''o/r''" 7] s(1)
    unfolding f by blast
qed

text \<open>an un-fold never corrupts several lessons: removing a lesson from a skill body leaves
  the body as it is, or drops exactly one of its paragraphs and keeps the others in order.\<close>

theorem unfold_drops_at_most_one_paragraph:
  "remove_lesson_from_body body lesson = body \<or>
   (\<exists>xs p ys. paragraphs_of body = xs @ p # ys \<and> remove_lesson_from_body body lesson = join [nl, nl] (xs @ ys))"
proof (cases "body = [] \<or> lesson = [] \<or> strip lesson = [] \<or> paragraphs_of body = []")
  case True
  then show ?thesis by (auto simp: remove_lesson_from_body_def)
next
  case False
  obtain rm sv where d: "drop_first_match (strip lesson) (paragraphs_of body) = (rm, sv)" by fastforce
  show ?thesis
  proof (cases rm)
    case True
    then have "remove_lesson_from_body body lesson = join [nl, nl] sv" using d False
      by (simp add: remove_lesson_from_body_def Let_def)
    moreover have "drop_first_match (strip lesson) (paragraphs_of body) = (True, sv)" using d True by simp
    note drop_first_match_True [OF this]
    ultimately show ?thesis by blast
  next
    case nrm: False
    obtain bi bs where b: "best_similarity (words (strip lesson)) 0 None 0 (paragraphs_of body) = (bi, bs)" by fastforce
    show ?thesis
    proof (cases bi)
      case None
      then show ?thesis using False d nrm b by (simp add: remove_lesson_from_body_def Let_def)
    next
      case (Some j)
      then have "j < length (paragraphs_of body)" using best_similarity_index [of _ _ _ _ _ j bs] b by fastforce
      then have "paragraphs_of body = take j (paragraphs_of body) @ paragraphs_of body ! j # drop (Suc j) (paragraphs_of body)"
        by (simp add: id_take_nth_drop)
      moreover have "remove_lesson_from_body body lesson = body \<or> remove_lesson_from_body body lesson =
          join [nl, nl] (take j (paragraphs_of body) @ drop (Suc j) (paragraphs_of body))"
        using False d nrm b Some by (simp add: remove_lesson_from_body_def Let_def)
      ultimately show ?thesis by blast
    qed
  qed
qed

text \<open>the paragraph dropped need not be the lesson: when the first paragraph of the body is
  part of the lesson's text, it is the one dropped, although the lesson itself stands further
  down and stays.\<close>

theorem unfold_can_drop_a_sibling:
  assumes "paragraphs_of body = p # ps" "contains_str p (strip lesson)" "strip lesson \<noteq> []" "body \<noteq> []"
  shows "remove_lesson_from_body body lesson = join [nl, nl] ps"
proof -
  have "lesson \<noteq> []" using assms(3) by (auto simp: strip_def rstrip_def lstrip_def)
  moreover have "para_matches (strip lesson) p" using assms(2) by (simp add: para_matches_def)
  ultimately show ?thesis using assms by (simp add: remove_lesson_from_body_def Let_def)
qed

theorem unfold_can_drop_a_sibling_witness:
  "remove_lesson_from_body (''Cache'' @ [nl, nl] @ ''Cache all reads.'') ''Cache all reads.'' = ''Cache all reads.''"
proof -
  let ?b = "''Cache'' @ [nl, nl] @ ''Cache all reads.''"
  have "paragraphs_of ?b = [''Cache'', ''Cache all reads.'']" "contains_str ''Cache'' (strip ''Cache all reads.'')"
    "strip ''Cache all reads.'' \<noteq> []" by code_simp+
  then show ?thesis using unfold_can_drop_a_sibling [of ?b "''Cache''" "[''Cache all reads.'']" "''Cache all reads.''"]
    by simp
qed

text \<open>an un-fold forgets later lessons: the revision it writes is built from the revision the
  idea was folded into, so whatever revisions in between added to the skill is not in it,
  although it becomes the revision the TRUE pointer stands at.\<close>

theorem unfold_rebuilds_from_old_revision:
  fixes w :: "'a sworld_scheme"
  assumes "w_skills w = Some sk" "get_revision_body (sr_org rq) [] fr sk = Some old"
    and "pointer_rev_at (sr_org rq, idea_skillBaseName inc) sk = Some cur"
  shows "\<exists>sk'. execute_unfold inc fr rq delta (\<lambda>_ s. s) now w = (Inr (Some (cur + 1)), w\<lparr>w_skills := Some sk'\<rparr>) \<and>
    pointer_rev_at (sr_org rq, idea_skillBaseName inc) sk' = Some (cur + 1) \<and>
    get_revision_body (sr_org rq) [] (cur + 1) sk' =
      Some (remove_lesson_from_body old (str_or (sr_idea_body_to_remove rq) (idea_body inc)))"
proof -
  let ?q = "\<lparr>rr_org = sr_org rq, rr_base_name = idea_skillBaseName inc,
       rr_variant_id = [], rr_body = remove_lesson_from_body old (str_or (sr_idea_body_to_remove rq) (idea_body inc)),
       rr_author_user_id = None, rr_description = Some (unfold_description inc rq),
       rr_golden_case = None, rr_idea_id = Some (idea_ideaId inc)\<rparr>"
  have n: "next_rev ?q sk = cur + 1" using assms(3) by (simp add: next_rev_def)
  let ?sk' = "committed ?q (\<lambda>_. now) 0 (cur + 1) (rr_body ?q) sk"
  have "write_revision ?q delta (\<lambda>_. now) MAX_CAS_RETRIES (\<lambda>_ s. s) sk = (Inr (write_ok ?q (cur + 1)), ?sk')"
    using write_uncontended [of MAX_CAS_RETRIES ?q delta "\<lambda>_. now" sk] n by (simp add: MAX_CAS_RETRIES_def)
  then show ?thesis
    using assms(1,2) committed_reads [where rq = ?q and now = "\<lambda>_. now" and n = 0 and v = "cur + 1" and body = "rr_body ?q" and s = sk]
    by (intro exI [of _ ?sk']) (simp add: execute_unfold_def Let_def)
qed


definition two_lessons :: skill_store where
  "two_lessons = snd (write_revision (demo_write ''sk'' (''Use the cache.'' @ [nl, nl] @ ''Close files.'')) default_delta (\<lambda>_. 0) 5 (\<lambda>_ s. s)
     (snd (write_revision (demo_write ''sk'' ''Use the cache.'') default_delta (\<lambda>_. 0) 5 (\<lambda>_ s. s) empty_skill_store)))"

theorem unfold_rebuilds_from_old_revision_witness:
  "\<exists>sk'. execute_unfold demo_idea 1 (demo_supersede ''merged'') default_delta (\<lambda>_ s. s) 5
       ((idea_world demo_idea)\<lparr>w_skills := Some two_lessons\<rparr>) =
       (Inr (Some 3), (idea_world demo_idea)\<lparr>w_skills := Some sk'\<rparr>) \<and>
     get_revision_body ''acme'' [] 2 two_lessons = Some (''Use the cache.'' @ [nl, nl] @ ''Close files.'') \<and>
     get_revision_body ''acme'' [] 3 sk' = Some []"
proof -
  let ?w = "(idea_world demo_idea)\<lparr>w_skills := Some two_lessons\<rparr>"
  have r: "get_revision_body ''acme'' [] 1 two_lessons = Some ''Use the cache.''"
    "get_revision_body ''acme'' [] 2 two_lessons = Some (''Use the cache.'' @ [nl, nl] @ ''Close files.'')"
    "pointer_rev_at (''acme'', ''sk'') two_lessons = Some 2"
    by (simp_all add: two_lessons_def write_uncontended demo_write_def next_rev_def pointer_rev_at_def committed_simps
        dict_simps empty_skill_store_def new_pointer_def get_revision_body_def new_revision_def)
  have m: "remove_lesson_from_body ''Use the cache.'' (str_or None ''Use the cache.'') = []" by code_simp
  have f: "sr_org (demo_supersede ''merged'') = ''acme''" "sr_idea_body_to_remove (demo_supersede ''merged'') = None"
    "idea_skillBaseName demo_idea = ''sk''" "idea_body demo_idea = ''Use the cache.''" "(2::int) + 1 = 3"
    by (simp_all add: demo_supersede_def demo_idea_def mk_idea_def)
  have w: "w_skills ?w = Some two_lessons" by simp
  from unfold_rebuilds_from_old_revision [of ?w two_lessons "demo_supersede ''merged''" 1 "''Use the cache.''" demo_idea 2 default_delta 5,
      unfolded f m, OF w r(1,3)]
  obtain sk' where "execute_unfold demo_idea 1 (demo_supersede ''merged'') default_delta (\<lambda>_ s. s) 5 ?w =
      (Inr (Some 3), ?w\<lparr>w_skills := Some sk'\<rparr>)" "get_revision_body ''acme'' [] 3 sk' = Some []" by blast
  then show ?thesis using r(2) by (intro exI [of _ sk']) simp
qed

section \<open>Deleted symbols\<close>

definition two_anchors :: lworld where
  "two_anchors = \<lparr>w_store = empty_store\<lparr>ls_anchors :=
     [fold_anchor ''acme'' ''o/r'' ''i1'' (''a.py'', ''f''), fold_anchor ''acme'' ''o/r'' ''i1'' (''a.py'', ''g'')]\<rparr>, w_tel = None\<rparr>"

text \<open>a pull request that deletes two symbols an idea is anchored to cleans up the first one
  only: the second anchor stays active, and the idea stays an incumbent of the deleted symbol.\<close>

theorem second_deleted_anchor_stays:
  "\<exists>w'. clean_deleted_symbol_anchors ''acme'' ''o/r'' [(''a.py'', ''f''), (''a.py'', ''g'')] two_anchors = (Inr [''i1''], w') \<and>
     get_ideas_by_anchor ''acme'' ''o/r'' ''a.py'' ''f'' (w_store w') = [] \<and>
     get_ideas_by_anchor ''acme'' ''o/r'' ''a.py'' ''g'' (w_store w') = [''i1'']"
  by (simp add: clean_deleted_symbol_anchors_def clean_one_idea_def two_anchors_def pbind_apply org_guard_apply
      pget_apply pret_apply on_store_apply put_anchor_apply get_ideas_by_anchor_def get_anchors_for_idea_def
      fold_anchor_def retired_anchor_def anchor_pk_def)

end
