(* ===== verification/Classifier.thy ===== *)
theory Classifier
  imports World
begin

text \<open>
  \<open>classifier.py\<close>: from the label and confidence of the NLI model to one of the four verdicts.
  The model is outside the repository's service code: it is the argument \<open>nli\<close>, a function of
  premise and hypothesis.
\<close>

record nli_result =
  nli_label :: string
  nli_confidence :: pyfloat
  nli_request_hash :: string

datatype verdict = CORROBORATE | SUPERSEDE | REFINE | NEUTRAL

fun verdict_value :: "verdict \<Rightarrow> string" where
  "verdict_value CORROBORATE = ''corroborate''"
| "verdict_value SUPERSEDE = ''supersede''"
| "verdict_value REFINE = ''refine''"
| "verdict_value NEUTRAL = ''neutral''"

record classifier_result =
  cl_verdict :: verdict
  cl_nli_label :: string
  cl_nli_confidence :: pyfloat
  cl_request_hash :: string
  cl_low_confidence :: bool

definition DEFAULT_CONFIDENCE_THRESHOLD :: pyfloat where
  "DEFAULT_CONFIDENCE_THRESHOLD = flit (65/100)"

definition DEFAULT_CANDIDATE_FLOOR :: pyfloat where
  "DEFAULT_CANDIDATE_FLOOR = flit (80/100)"

definition PINNED_MODEL_REVISION :: string where
  "PINNED_MODEL_REVISION = ''5c0c8e7f6b4c3a1d9e2f4b6a8c0e2f4b6a8c0e2f''"

definition map_verdict :: "nli_result \<Rightarrow> pyfloat \<Rightarrow> verdict \<times> bool" where
  "map_verdict nli confidence_threshold =
     (let label = nli_label nli; conf = nli_confidence nli; low = (conf < confidence_threshold) in
      if label = ''neutral'' then (NEUTRAL, False)
      else if label = ''contradiction'' then (if low then (REFINE, True) else (SUPERSEDE, False))
      else if label = ''entailment'' then (if low then (REFINE, True) else (CORROBORATE, False))
      else (NEUTRAL, False))"

record nli_classifier =
  nc_model_revision :: string
  nc_confidence_threshold :: pyfloat

text \<open>The constructor: a model revision that is missing or too short is refused.\<close>

definition new_nli_classifier :: "string \<Rightarrow> pyfloat \<Rightarrow> py_exn + nli_classifier" where
  "new_nli_classifier model_revision confidence_threshold =
     (if model_revision = [] \<or> strip model_revision = [] then Inl ValueError
      else if length (strip model_revision) < 8 then Inl ValueError
      else Inr \<lparr>nc_model_revision = strip model_revision, nc_confidence_threshold = confidence_threshold\<rparr>)"

definition judged :: "nli_classifier \<Rightarrow> (string \<Rightarrow> string \<Rightarrow> nli_result) \<Rightarrow> string \<Rightarrow> string \<Rightarrow> classifier_result" where
  "judged cl nli premise hypothesis =
     (let r = nli premise hypothesis; (v, low_conf) = map_verdict r (nc_confidence_threshold cl)
      in \<lparr>cl_verdict = v, cl_nli_label = nli_label r, cl_nli_confidence = nli_confidence r,
           cl_request_hash = nli_request_hash r, cl_low_confidence = low_conf\<rparr>)"

definition classify ::
    "nli_classifier \<Rightarrow> (string \<Rightarrow> string \<Rightarrow> nli_result) \<Rightarrow> string \<Rightarrow> string \<Rightarrow>
     ('a lworld_scheme, classifier_result) py" where
  "classify cl nli premise hypothesis =
     (let r = judged cl nli premise hypothesis in
      pbind (on_tel (record_nli_verdict (verdict_value (cl_verdict r)) (cl_low_confidence r))) (\<lambda>_. pret r))"

text \<open>One call without a classifier object; it passes no telemetry.\<close>

definition classify_pair ::
    "string \<Rightarrow> pyfloat \<Rightarrow> (string \<Rightarrow> string \<Rightarrow> nli_result) \<Rightarrow> string \<Rightarrow> string \<Rightarrow> py_exn + classifier_result" where
  "classify_pair model_revision confidence_threshold nli premise hypothesis =
     (case new_nli_classifier model_revision confidence_threshold of
        Inl e \<Rightarrow> Inl e
      | Inr cl \<Rightarrow> Inr (judged cl nli premise hypothesis))"

section \<open>Properties\<close>

text \<open>only a confident contradiction supersedes and only a confident entailment
  corroborates; a weak one of either kind is a refinement flagged for the judge, and everything
  else is neutral and unflagged.  The call counts the verdict once and changes nothing else.\<close>

theorem classify_exact:
  fixes w :: "'a lworld_scheme"
  shows "\<exists>r. classify cl nli p h w = (Inr r, w\<lparr>w_tel :=
      map_option (record_nli_verdict (verdict_value (cl_verdict r)) (cl_low_confidence r)) (w_tel w)\<rparr>) \<and>
    (cl_verdict r = SUPERSEDE \<longleftrightarrow> nli_label (nli p h) = ''contradiction'' \<and> nc_confidence_threshold cl \<le> nli_confidence (nli p h)) \<and>
    (cl_verdict r = CORROBORATE \<longleftrightarrow> nli_label (nli p h) = ''entailment'' \<and> nc_confidence_threshold cl \<le> nli_confidence (nli p h)) \<and>
    (cl_verdict r = REFINE \<longleftrightarrow> cl_low_confidence r) \<and>
    (cl_low_confidence r \<longleftrightarrow> nli_label (nli p h) \<in> {''contradiction'', ''entailment''} \<and>
       nli_confidence (nli p h) < nc_confidence_threshold cl)"
  by (auto simp: classify_def judged_def map_verdict_def Let_def py_simps not_le split: prod.splits)

end
