(* ===== verification/Necessity.thy ===== *)
theory Necessity
  imports World
begin

text \<open>
  \<open>necessity.py\<close> and the verdict of \<open>entrypoints/golden_judge.py\<close>: the fold-time filter, the
  ablation of one idea, its demotion with retries, and the scheduled scan.  The language model
  behind the judge is the argument \<open>run_judge\<close>: its \<open>satisfied\<close> flag for a prompt, \<open>None\<close> when
  the call raises or the flag is missing.
\<close>

section \<open>Constants and results\<close>

definition NEAR_DUPLICATE_THRESHOLD :: pyfloat where
  "NEAR_DUPLICATE_THRESHOLD = flit (70/100)"

definition SOFT_BLOCK_FP_CEILING :: pyfloat where
  "SOFT_BLOCK_FP_CEILING = flit (15/100)"

definition SOFT_BLOCK_MIN_SAMPLES :: int where
  "SOFT_BLOCK_MIN_SAMPLES = 50"

definition NECESSITY_SCORE_DIFF_THRESHOLD :: pyfloat where
  "NECESSITY_SCORE_DIFF_THRESHOLD = flit (5/100)"

definition DEMOTE_OCC_RETRIES :: nat where
  "DEMOTE_OCC_RETRIES = 3"

record triviality_result =
  tr_passed :: bool
  tr_reason :: string
  tr_near_duplicate_of :: "string option"

record necessity_verdict =
  nv_idea_id :: string
  nv_outcome :: string
  nv_score_with :: "pyfloat option"
  nv_score_without :: "pyfloat option"
  nv_score_diff :: "pyfloat option"
  nv_demoted :: bool
  nv_reason :: string

record scan_result =
  sc_ideas_scanned :: nat
  sc_ideas_demoted :: nat
  sc_no_signal :: nat
  sc_scope_miss :: nat
  sc_exempt :: nat
  sc_verdicts :: "necessity_verdict list"

definition new_scan_result :: scan_result where
  "new_scan_result = \<lparr>sc_ideas_scanned = 0, sc_ideas_demoted = 0, sc_no_signal = 0,
     sc_scope_miss = 0, sc_exempt = 0, sc_verdicts = []\<rparr>"

section \<open>The gate of graduated enforcement\<close>

record necessity_gate =
  ng_fp_ceiling :: pyfloat
  ng_min_samples :: int
  ng_spot_checks :: "(string, bool) dict"

definition new_necessity_gate :: necessity_gate where
  "new_necessity_gate = \<lparr>ng_fp_ceiling = SOFT_BLOCK_FP_CEILING, ng_min_samples = SOFT_BLOCK_MIN_SAMPLES,
     ng_spot_checks = []\<rparr>"

definition ng_record_verdict :: "string \<Rightarrow> bool \<Rightarrow> necessity_gate \<Rightarrow> necessity_gate" where
  "ng_record_verdict verdict_id is_false_positive g =
     g\<lparr>ng_spot_checks := dset verdict_id (\<not> is_false_positive) (ng_spot_checks g)\<rparr>"

definition ng_sample_count :: "necessity_gate \<Rightarrow> nat" where
  "ng_sample_count g = length (ng_spot_checks g)"

definition ng_fp_rate :: "necessity_gate \<Rightarrow> pyfloat" where
  "ng_fp_rate g =
     (if ng_spot_checks g = [] then 1
      else idiv (int (length (filter (\<lambda>(_, v). \<not> v) (ng_spot_checks g)))) (int (length (ng_spot_checks g))))"

definition ng_stage :: "necessity_gate \<Rightarrow> string" where
  "ng_stage g =
     (if ng_min_samples g \<le> int (ng_sample_count g) \<and> ng_fp_rate g < ng_fp_ceiling g
      then ''soft_block'' else ''advisory'')"

definition may_demote :: "necessity_gate \<Rightarrow> bool" where
  "may_demote g \<longleftrightarrow> ng_stage g = ''soft_block'' \<or> ng_stage g = ''hard_block''"

interpretation necessity_gate: spot_check_gate ng_spot_checks ng_record_verdict may_demote
  ng_min_samples ng_fp_ceiling
  by unfold_locales
     (auto simp: ng_record_verdict_def may_demote_def ng_stage_def ng_sample_count_def ng_fp_rate_def
        spot_rate_def false_positives_def)

section \<open>The fold-time filter\<close>

text \<open>\<open>re.sub(r"[^\w]", "", tok)\<close> on the lower-case token; tokens left empty are skipped.\<close>

definition tokenize :: "string \<Rightarrow> string set" where
  "tokenize text = set (map (\<lambda>tok. filter is_word_char (lower tok))
     (filter (\<lambda>tok. filter is_word_char tok \<noteq> []) (split_ws text)))"

definition word_jaccard :: "string \<Rightarrow> string \<Rightarrow> pyfloat" where
  "word_jaccard a b =
     (let words_a = tokenize a; words_b = tokenize b in
      if words_a = {} \<or> words_b = {} then 0 else jaccard words_a words_b)"

fun find_near_duplicate :: "idea_record \<Rightarrow> pyfloat \<Rightarrow> idea_record list \<Rightarrow> string option" where
  "find_near_duplicate idea threshold [] = None"
| "find_near_duplicate idea threshold (live # lives) =
     (if idea_ideaId live = idea_ideaId idea then find_near_duplicate idea threshold lives
      else if threshold \<le> word_jaccard (idea_body idea) (idea_body live) then Some (idea_ideaId live)
      else find_near_duplicate idea threshold lives)"

definition triviality_dedup_filter ::
    "idea_record \<Rightarrow> anchor_record list \<Rightarrow> idea_record list \<Rightarrow> pyfloat \<Rightarrow> triviality_result" where
  "triviality_dedup_filter idea anchors live_ideas near_duplicate_threshold =
     (if blank (idea_body idea)
      then \<lparr>tr_passed = False, tr_reason = ''empty_body'', tr_near_duplicate_of = None\<rparr>
      else if \<not> is_authored idea \<and> anchors = []
      then \<lparr>tr_passed = False, tr_reason = ''no_anchors'', tr_near_duplicate_of = None\<rparr>
      else case find_near_duplicate idea near_duplicate_threshold live_ideas of
          Some i \<Rightarrow> \<lparr>tr_passed = False, tr_reason = ''near_duplicate'', tr_near_duplicate_of = Some i\<rparr>
        | None \<Rightarrow> \<lparr>tr_passed = True, tr_reason = ''ok'', tr_near_duplicate_of = None\<rparr>)"

section \<open>The golden judge\<close>

definition SYSTEM_PROMPT :: string where
  "SYSTEM_PROMPT =
     ''You are a regression judge for a skill library. A skill was previously '' @
     ''edited to encode a specific lesson. You are given that lesson and a '' @
     ''CANDIDATE new version of the skill body. Decide whether the candidate '' @
     ''STILL satisfies the lesson (the guidance is still present and not '' @
     ''contradicted). Set satisfied=false ONLY when the candidate clearly drops '' @
     ''or contradicts the lesson (a regression).''"

definition render_prompt :: "string \<Rightarrow> string \<Rightarrow> string" where
  "render_prompt lesson candidate_body =
     SYSTEM_PROMPT @ [nl, nl] @ ''Lesson the skill was edited to encode:'' @ [nl] @ lesson @ [nl, nl] @
     ''Candidate new skill body:'' @ [nl] @ candidate_body"

text \<open>The \<open>satisfied\<close> field of the verdict: a failed call counts as not satisfied.\<close>

definition judge_golden :: "(string \<Rightarrow> bool option) \<Rightarrow> string \<Rightarrow> string \<Rightarrow> bool" where
  "judge_golden run_judge lesson candidate_body =
     (case run_judge (render_prompt lesson candidate_body) of Some b \<Rightarrow> b | None \<Rightarrow> False)"

definition judge_satisfaction :: "(string \<Rightarrow> bool option) \<Rightarrow> string \<Rightarrow> string \<Rightarrow> pyfloat" where
  "judge_satisfaction run_judge lesson candidate_body =
     (if judge_golden run_judge lesson candidate_body then 1 else 0)"

definition is_misretrieval :: "golden_case \<Rightarrow> idea_record \<Rightarrow> bool" where
  "is_misretrieval golden idea \<longleftrightarrow> word_jaccard (gold_ideaBody golden) (idea_body idea) < flit (20/100)"

section \<open>Demotion\<close>

definition demoted_idea :: "int \<Rightarrow> idea_record \<Rightarrow> idea_record" where
  "demoted_idea now r = r\<lparr>idea_corroborationVersion := idea_corroborationVersion r + 1, idea_invalidAt := Some now\<rparr>"

text \<open>\<open>left\<close> attempts are left, \<open>n\<close> have been made; \<open>env n\<close> is what other writers do before the
  conditional write of attempt \<open>n\<close>.\<close>

fun demote_loop ::
    "idea_record \<Rightarrow> int \<Rightarrow> (nat \<Rightarrow> learning_store \<Rightarrow> learning_store) \<Rightarrow> nat \<Rightarrow> nat \<Rightarrow> (learning_store, bool) py" where
  "demote_loop idea now env 0 n = pret False"
| "demote_loop idea now env (Suc left) n = (\<lambda>s.
     case get_idea (idea_org idea) (idea_skillBaseName idea) (idea_ideaId idea) s of
       None \<Rightarrow> (Inr False, s)
     | Some current \<Rightarrow>
         if idea_invalidAt current \<noteq> None then (Inr True, s)
         else (case put_idea_conditional (demoted_idea now current) (idea_corroborationVersion current) (env n s) of
             (Inr _, s1) \<Rightarrow> (Inr True, s1)
           | (Inl e, s1) \<Rightarrow> (case e of
               VersionConflictError _ _ _ \<Rightarrow>
                 if 0 < left then demote_loop idea now env left (Suc n) s1 else (Inr False, s1)
             | _ \<Rightarrow> (Inl e, s1))))"

definition demote_idea ::
    "idea_record \<Rightarrow> int \<Rightarrow> (nat \<Rightarrow> learning_store \<Rightarrow> learning_store) \<Rightarrow> (learning_store, bool) py" where
  "demote_idea idea now env = demote_loop idea now env DEMOTE_OCC_RETRIES 0"

section \<open>Ablation of one idea\<close>

definition no_ablation :: "idea_record \<Rightarrow> string \<Rightarrow> string \<Rightarrow> necessity_verdict" where
  "no_ablation idea outcome reason = \<lparr>nv_idea_id = idea_ideaId idea, nv_outcome = outcome, nv_score_with = None,
     nv_score_without = None, nv_score_diff = None, nv_demoted = False, nv_reason = reason\<rparr>"

definition candidate_with :: "idea_record \<Rightarrow> golden_case \<Rightarrow> string" where
  "candidate_with idea golden = ''[Relevant insight: '' @ idea_body idea @ '']'' @ [nl, nl] @ gold_after golden"

definition assess_necessity ::
    "(string \<Rightarrow> bool option) \<Rightarrow> necessity_gate option \<Rightarrow> pyfloat \<Rightarrow> int \<Rightarrow>
     (nat \<Rightarrow> learning_store \<Rightarrow> learning_store) \<Rightarrow> idea_record \<Rightarrow> ('a lworld_scheme, necessity_verdict) py" where
  "assess_necessity run_judge gate score_diff_threshold now env idea = (\<lambda>w.
     if is_authored idea then (Inr (no_ablation idea ''exempt'' ''authored_directive_exempt''), w)
     else case get_golden_case (idea_org idea) (idea_skillBaseName idea) (idea_ideaId idea) (w_store w) of
         None \<Rightarrow> (Inr (no_ablation idea ''no_signal'' ''no_golden_case_found''), w)
       | Some golden \<Rightarrow>
         if is_misretrieval golden idea
         then (Inr (no_ablation idea ''scope_miss'' ''golden_case_unrelated_to_idea''), w)
         else
           let lesson = gold_ideaBody golden;
               score_with = judge_satisfaction run_judge lesson (candidate_with idea golden);
               score_without = judge_satisfaction run_judge lesson (gold_after golden);
               score_diff = fsub score_with score_without;
               verdict = (\<lambda>outcome demoted reason. \<lparr>nv_idea_id = idea_ideaId idea, nv_outcome = outcome,
                 nv_score_with = Some score_with, nv_score_without = Some score_without,
                 nv_score_diff = Some score_diff, nv_demoted = demoted, nv_reason = reason\<rparr>)
           in if score_diff_threshold < score_diff
              then (Inr (verdict ''necessary'' False ''score_diff_above_threshold''), w)
              else if (case gate of Some g \<Rightarrow> may_demote g | None \<Rightarrow> False)
              then pbind (on_store (demote_idea idea now env)) (\<lambda>demoted.
                   pbind (if demoted then on_tel record_necessity_demotion else pret ()) (\<lambda>_.
                   pret (verdict ''unnecessary'' demoted
                     (if demoted then ''demoted_by_necessity_scan'' else ''demote_failed_occ'')))) w
              else (Inr (verdict ''unnecessary'' False ''advisory_only_gate_not_open''), w))"

section \<open>The scheduled scan\<close>

definition count_verdict :: "necessity_verdict \<Rightarrow> scan_result \<Rightarrow> scan_result" where
  "count_verdict v r0 =
     (let r = r0\<lparr>sc_ideas_scanned := sc_ideas_scanned r0 + 1, sc_verdicts := sc_verdicts r0 @ [v]\<rparr> in
      if nv_outcome v = ''unnecessary'' \<and> nv_demoted v then r\<lparr>sc_ideas_demoted := sc_ideas_demoted r + 1\<rparr>
      else if nv_outcome v = ''no_signal'' then r\<lparr>sc_no_signal := sc_no_signal r + 1\<rparr>
      else if nv_outcome v = ''scope_miss'' then r\<lparr>sc_scope_miss := sc_scope_miss r + 1\<rparr>
      else if nv_outcome v = ''exempt'' then r\<lparr>sc_exempt := sc_exempt r + 1\<rparr> else r)"

text \<open>
  The scan of one skill.  \<open>dice k\<close> is the answer of \<open>random.random()\<close> to call \<open>k\<close>, made for
  each folded idea when the sample rate is below 1; \<open>env i\<close> is the interference while idea \<open>i\<close>
  is assessed.
\<close>

definition scan_idea ::
    "(string \<Rightarrow> bool option) \<Rightarrow> necessity_gate option \<Rightarrow> pyfloat \<Rightarrow> pyfloat \<Rightarrow> int \<Rightarrow> (nat \<Rightarrow> pyfloat) \<Rightarrow>
     (string \<Rightarrow> nat \<Rightarrow> learning_store \<Rightarrow> learning_store) \<Rightarrow> idea_record \<Rightarrow> nat \<times> scan_result \<Rightarrow>
     ('a lworld_scheme, nat \<times> scan_result) py" where
  "scan_idea run_judge gate sample_rate score_diff_threshold now dice env idea acc =
     (let k = fst acc; r = snd acc in
      if sample_rate < 1 \<and> sample_rate \<le> dice k then pret (Suc k, r)
      else pbind (assess_necessity run_judge gate score_diff_threshold now (env (idea_ideaId idea)) idea)
             (\<lambda>v. pret (Suc k, count_verdict v r)))"

definition run_necessity_scan ::
    "string \<Rightarrow> string \<Rightarrow> (string \<Rightarrow> bool option) \<Rightarrow> necessity_gate option \<Rightarrow> pyfloat \<Rightarrow> pyfloat \<Rightarrow> int \<Rightarrow>
     (nat \<Rightarrow> pyfloat) \<Rightarrow> (string \<Rightarrow> nat \<Rightarrow> learning_store \<Rightarrow> learning_store) \<Rightarrow>
     ('a lworld_scheme, scan_result) py" where
  "run_necessity_scan org skill_base_name run_judge gate sample_rate score_diff_threshold now dice env =
     pbind (pget (\<lambda>w. filter (\<lambda>i. idea_status i = ''folded'') (list_current_ideas org skill_base_name (w_store w))))
     (\<lambda>folded_ideas. pbind (pfor (scan_idea run_judge gate sample_rate score_diff_threshold now dice env)
        folded_ideas (0, new_scan_result)) (\<lambda>acc. pret (snd acc)))"

definition add_scan :: "scan_result \<Rightarrow> scan_result \<Rightarrow> scan_result" where
  "add_scan a p = \<lparr>sc_ideas_scanned = sc_ideas_scanned a + sc_ideas_scanned p,
     sc_ideas_demoted = sc_ideas_demoted a + sc_ideas_demoted p, sc_no_signal = sc_no_signal a + sc_no_signal p,
     sc_scope_miss = sc_scope_miss a + sc_scope_miss p, sc_exempt = sc_exempt a + sc_exempt p,
     sc_verdicts = sc_verdicts a @ sc_verdicts p\<rparr>"

text \<open>
  The handler of the scheduled event: a fresh gate, then one scan or the scans of all skills
  with folded ideas.  \<open>now k\<close>, \<open>dice k\<close> belong to scan \<open>k\<close>.
\<close>

definition scan_target ::
    "pyfloat \<Rightarrow> (string \<Rightarrow> bool option) \<Rightarrow> (nat \<Rightarrow> int) \<Rightarrow> (nat \<Rightarrow> nat \<Rightarrow> pyfloat) \<Rightarrow>
     (string \<Rightarrow> nat \<Rightarrow> learning_store \<Rightarrow> learning_store) \<Rightarrow> string \<times> string \<Rightarrow> nat \<times> scan_result \<Rightarrow>
     ('a lworld_scheme, nat \<times> scan_result) py" where
  "scan_target sample_rate run_judge now dice env target acc =
     pbind (run_necessity_scan (fst target) (snd target) run_judge (Some new_necessity_gate) sample_rate
        NECESSITY_SCORE_DIFF_THRESHOLD (now (fst acc)) (dice (fst acc)) env)
       (\<lambda>part. pret (Suc (fst acc), add_scan (snd acc) part))"

definition scheduled_scan_handler ::
    "string \<Rightarrow> string \<Rightarrow> pyfloat \<Rightarrow> (string \<Rightarrow> bool option) \<Rightarrow> (nat \<Rightarrow> int) \<Rightarrow> (nat \<Rightarrow> nat \<Rightarrow> pyfloat) \<Rightarrow>
     (string \<Rightarrow> nat \<Rightarrow> learning_store \<Rightarrow> learning_store) \<Rightarrow> ('a lworld_scheme, scan_result) py" where
  "scheduled_scan_handler org skill_base_name sample_rate run_judge now dice env =
     (if org \<noteq> [] \<and> skill_base_name \<noteq> []
      then run_necessity_scan org skill_base_name run_judge (Some new_necessity_gate) sample_rate
             NECESSITY_SCORE_DIFF_THRESHOLD (now 0) (dice 0) env
      else pbind (pget (\<lambda>w. list_skills_with_folded_non_authored_ideas (w_store w)))
        (\<lambda>targets. pbind (pfor (scan_target sample_rate run_judge now dice env) targets (0, new_scan_result))
           (\<lambda>acc. pret (snd acc))))"

end
