(* ===== verification/NecessityProps.thy ===== *)
theory NecessityProps
  imports Necessity CorroborationProps
begin

text \<open>
  Properties of the necessity scan: what its writes depend on, what a demotion leaves behind,
  progress of its retry loop, and what the scheduled handler and a failing judge really do.
\<close>

section \<open>Demotion\<close>

definition demoted_store :: "int \<Rightarrow> idea_record \<Rightarrow> learning_store \<Rightarrow> learning_store" where
  "demoted_store now r s = s\<lparr>ls_ideas := dset (idea_pk r) (demoted_idea now r) (ls_ideas s)\<rparr>"

lemma demoted_idea_simps [simp]:
  "idea_pk (demoted_idea now r) = idea_pk r" "idea_org (demoted_idea now r) = idea_org r"
  "idea_ideaId (demoted_idea now r) = idea_ideaId r" "idea_invalidAt (demoted_idea now r) = Some now"
  "idea_corroborationVersion (demoted_idea now r) = idea_corroborationVersion r + 1"
  by (simp_all add: demoted_idea_def idea_pk_def)

lemma get_idea_demoted_store:
  "get_idea g sk i (demoted_store now r s) =
     (if (g, sk, i) = idea_pk r then Some (demoted_idea now r) else get_idea g sk i s)"
  by (simp add: demoted_store_def get_idea_def dict_simps)

lemma store_wf_demoted_store:
  assumes "store_wf s" "\<not> blank (idea_org r)"
  shows "store_wf (demoted_store now r s)"
proof -
  have "demoted_store now r s = snd (run_op (PutIdea (demoted_idea now r)) s)"
    using assms(2) by (simp add: demoted_store_def py_simps)
  then show ?thesis by (simp only: store_wf_step [OF assms(1)])
qed

text \<open>One attempt on an idea that is stored and not retired.\<close>

lemma demote_attempt:
  assumes "store_wf s" "idea_pk idea = (g, sk, i)" "get_idea g sk i s = Some c" "idea_invalidAt c = None"
  shows "demote_loop idea now env (Suc left) n s =
    (if version_at (g, sk, i) (env n s) = idea_corroborationVersion c
     then (Inr True, demoted_store now c (env n s))
     else if 0 < left then demote_loop idea now env left (Suc n) (env n s) else (Inr False, env n s))"
proof -
  note st = stored_idea [OF assms(1,3)]
  have "idea_org idea = g" "idea_skillBaseName idea = sk" "idea_ideaId idea = i"
    using assms(2) by (simp_all add: idea_pk_def)
  then show ?thesis using st assms(3,4) by (simp add: py_simps demoted_store_def)
qed

lemma demote_exact:
  assumes "store_wf s" "idea_pk idea = (g, sk, i)" "get_idea g sk i s = Some c" "idea_invalidAt c = None"
    and "env 0 = (\<lambda>s. s)"
  shows "demote_idea idea now env s = (Inr True, demoted_store now c s)"
  using demote_attempt [OF assms(1-4), of now env 2 0] version_at_idea [OF assms(3)] assms(5)
  by (simp add: demote_idea_def DEMOTE_OCC_RETRIES_def del: demote_loop.simps)

lemma demote_loop_progress:
  assumes "\<forall>n. keeps_ideas (env n)" "\<exists>j < left. quiet (g, sk, i) (env (n + j))"
    and "store_wf s" "idea_pk idea = (g, sk, i)" "get_idea g sk i s \<noteq> None"
  shows "\<exists>s'. demote_loop idea now env left n s = (Inr True, s') \<and>
    (\<exists>r. get_idea g sk i s' = Some r \<and> idea_invalidAt r \<noteq> None)"
  using assms(2,3,5)
proof (induction left arbitrary: n s)
  case 0
  then show ?case by simp
next
  case (Suc left)
  obtain c where c: "get_idea g sk i s = Some c" using Suc.prems(3) by auto
  note st = stored_idea [OF Suc.prems(2) c]
  show ?case
  proof (cases "idea_invalidAt c")
    case (Some t)
    then show ?thesis using c assms(4) by (simp add: idea_pk_def)
  next
    case None
    note at = demote_attempt [OF Suc.prems(2) assms(4) c None, of now env left n]
    show ?thesis
    proof (cases "version_at (g, sk, i) (env n s) = idea_corroborationVersion c")
      case True
      then show ?thesis using at st(1) by (auto simp: get_idea_demoted_store)
    next
      case False
      then have "\<not> quiet (g, sk, i) (env n)" using version_at_idea [OF c] unfolding quiet_def by metis
      then obtain j where j: "j < left" "quiet (g, sk, i) (env (Suc n + j))"
        using Suc.prems(1) by (metis add_Suc_shift add_0_right less_Suc_eq_0_disj)
      have "store_wf (env n s)" "get_idea g sk i (env n s) \<noteq> None"
        using assms(1) Suc.prems(2) c by (auto simp: keeps_ideas_def)
      then show ?thesis using Suc.IH [of "Suc n" "env n s"] j at False by auto
    qed
  qed
qed

section \<open>Assessment\<close>

text \<open>The two scores of the ablation against a golden case.\<close>

definition ablation_diff :: "(string \<Rightarrow> bool option) \<Rightarrow> idea_record \<Rightarrow> golden_case \<Rightarrow> pyfloat" where
  "ablation_diff run_judge idea golden =
     fsub (judge_satisfaction run_judge (gold_ideaBody golden) (candidate_with idea golden))
          (judge_satisfaction run_judge (gold_ideaBody golden) (gold_after golden))"

text \<open>Everything the code requires before it writes.\<close>

definition demotable ::
    "(string \<Rightarrow> bool option) \<Rightarrow> necessity_gate option \<Rightarrow> pyfloat \<Rightarrow> idea_record \<Rightarrow> learning_store \<Rightarrow> bool" where
  "demotable run_judge gate threshold idea s \<longleftrightarrow>
     \<not> is_authored idea \<and> (case gate of Some g \<Rightarrow> may_demote g | None \<Rightarrow> False) \<and>
     (case get_golden_case (idea_org idea) (idea_skillBaseName idea) (idea_ideaId idea) s of
        None \<Rightarrow> False
      | Some golden \<Rightarrow> \<not> is_misretrieval golden idea \<and> ablation_diff run_judge idea golden \<le> threshold)"

lemma assess_stopped:
  fixes w :: "'a lworld_scheme"
  assumes "\<not> demotable run_judge gate th idea (w_store w)"
  shows "\<exists>v. assess_necessity run_judge gate th now env idea w = (Inr v, w) \<and> \<not> nv_demoted v"
  using assms unfolding demotable_def
  by (cases "get_golden_case (idea_org idea) (idea_skillBaseName idea) (idea_ideaId idea) (w_store w)")
     (auto simp: assess_necessity_def no_ablation_def Let_def ablation_diff_def not_le)

lemma assess_goes_on:
  fixes w :: "'a lworld_scheme"
  assumes "demotable run_judge gate th idea (w_store w)"
    and "demote_idea idea now env (w_store w) = (Inr d, s')"
  shows "\<exists>v. assess_necessity run_judge gate th now env idea w =
      (Inr v, w\<lparr>w_store := s', w_tel := if d then map_option record_necessity_demotion (w_tel w) else w_tel w\<rparr>) \<and>
    nv_outcome v = ''unnecessary'' \<and> nv_demoted v = d \<and> nv_idea_id v = idea_ideaId idea"
  using assms unfolding demotable_def
  by (auto simp: assess_necessity_def Let_def ablation_diff_def py_simps not_le split: option.splits)

lemma may_demote_iff:
  "may_demote g \<longleftrightarrow> ng_min_samples g \<le> int (length (ng_spot_checks g)) \<and> ng_fp_rate g < ng_fp_ceiling g"
  by (simp add: may_demote_def ng_stage_def ng_sample_count_def)

lemma fresh_gate_shut: "\<not> may_demote new_necessity_gate"
  by (simp add: may_demote_iff new_necessity_gate_def SOFT_BLOCK_MIN_SAMPLES_def)

text \<open>A gate with fifty confirmed verdicts, for the examples.\<close>

definition checked_gate :: necessity_gate where
  "checked_gate = new_necessity_gate\<lparr>ng_spot_checks := map (\<lambda>n. (show_nat n, True)) [0..<50]\<rparr>"

lemma checked_gate_open: "may_demote checked_gate"
proof -
  have "0 < SOFT_BLOCK_FP_CEILING"
    unfolding SOFT_BLOCK_FP_CEILING_def by code_simp
  then show ?thesis
    by (simp add: may_demote_iff checked_gate_def new_necessity_gate_def SOFT_BLOCK_MIN_SAMPLES_def
        ng_fp_rate_def comp_def idiv_def case_prod_unfold)
qed

definition folded_demo :: idea_record where
  "folded_demo = demo_idea\<lparr>idea_status := ''folded''\<rparr>"

definition demo_golden :: golden_case where
  "demo_golden = \<lparr>gold_caseId = ''i1'', gold_skillBaseName = ''sk'', gold_org = ''acme'', gold_before = [],
     gold_after = ''Use the cache.'', gold_ideaBody = ''Use the cache.'', gold_createdAt = None\<rparr>"

definition golden_world :: lworld where
  "golden_world = \<lparr>w_store = snd (run_op (PutGoldenCase demo_golden) (snd (run_op (PutIdea folded_demo) empty_store))),
     w_tel = Some new_telemetry\<rparr>"

lemma golden_world_reads:
  "store_wf (w_store golden_world)" "get_idea ''acme'' ''sk'' ''i1'' (w_store golden_world) = Some folded_demo"
  "get_golden_case ''acme'' ''sk'' ''i1'' (w_store golden_world) = Some demo_golden"
  "idea_pk folded_demo = (''acme'', ''sk'', ''i1'')" "idea_invalidAt folded_demo = None" "\<not> is_authored folded_demo"
proof -
  show "store_wf (w_store golden_world)" unfolding golden_world_def
    by (simp del: run_op.simps) (intro store_wf_step store_wf_empty)
  show "get_idea ''acme'' ''sk'' ''i1'' (w_store golden_world) = Some folded_demo"
    "get_golden_case ''acme'' ''sk'' ''i1'' (w_store golden_world) = Some demo_golden"
    by (simp_all add: golden_world_def py_simps folded_demo_def demo_idea_def mk_idea_def demo_golden_def
        empty_store_def get_idea_def get_golden_case_def idea_pk_def gold_pk_def)
  show "idea_pk folded_demo = (''acme'', ''sk'', ''i1'')" "idea_invalidAt folded_demo = None" "\<not> is_authored folded_demo"
    by (simp_all add: folded_demo_def demo_idea_def mk_idea_def idea_pk_def is_authored_def authored_kind_def)
qed

lemma demo_golden_related: "\<not> is_misretrieval demo_golden folded_demo"
  unfolding is_misretrieval_def demo_golden_def folded_demo_def demo_idea_def mk_idea_def by code_simp

lemma judge_down: "ablation_diff (\<lambda>_. None) idea golden \<le> NECESSITY_SCORE_DIFF_THRESHOLD"
proof -
  have "fsub 0 0 \<le> NECESSITY_SCORE_DIFF_THRESHOLD" unfolding NECESSITY_SCORE_DIFF_THRESHOLD_def by code_simp
  then show ?thesis by (simp add: ablation_diff_def judge_satisfaction_def judge_golden_def)
qed

lemma demotable_golden_world:
  "demotable (\<lambda>_. None) (Some checked_gate) NECESSITY_SCORE_DIFF_THRESHOLD folded_demo (w_store golden_world)"
  using golden_world_reads demo_golden_related judge_down checked_gate_open
  by (simp add: demotable_def idea_pk_def)

section \<open>Properties of the scan\<close>

text \<open>C13: an assessment writes only behind every guard: when the state has changed, the idea is
  not authored, the gate had the minimum of spot checks and a false-positive rate below its
  ceiling, the golden case exists and is related, and the ablation did not separate the two
  bodies by more than the threshold.  Everything else is advice and writes nothing.\<close>

theorem necessity_writes_behind_guards:
  fixes w :: "'a lworld_scheme"
  assumes "assess_necessity run_judge gate threshold now env idea w = (r, w')" "w' \<noteq> w"
  shows "\<exists>g golden. gate = Some g \<and> ng_min_samples g \<le> int (length (ng_spot_checks g)) \<and>
    ng_fp_rate g < ng_fp_ceiling g \<and> \<not> is_authored idea \<and>
    get_golden_case (idea_org idea) (idea_skillBaseName idea) (idea_ideaId idea) (w_store w) = Some golden \<and>
    \<not> is_misretrieval golden idea \<and>
    fsub (judge_satisfaction run_judge (gold_ideaBody golden) (candidate_with idea golden))
         (judge_satisfaction run_judge (gold_ideaBody golden) (gold_after golden)) \<le> threshold"
proof -
  have "demotable run_judge gate threshold idea (w_store w)"
    using assess_stopped [of run_judge gate threshold idea w now env] assms by auto
  then show ?thesis
    by (auto simp: demotable_def may_demote_iff ablation_diff_def split: option.splits)
qed

text \<open>C22: a demotion retires without deleting: the idea is stamped with the time, leaves the
  listing of current ideas, keeps its body, status and fold, its version grows by one, no other
  idea changes, and the demotion is counted once.\<close>

theorem necessity_demotion_effect:
  fixes w :: "'a lworld_scheme"
  assumes "store_wf (w_store w)" "idea_pk idea = (g, sk, i)" "get_idea g sk i (w_store w) = Some c"
    and "idea_invalidAt c = None" "demotable run_judge gate threshold idea (w_store w)" "env 0 = (\<lambda>s. s)"
  shows "\<exists>v w'. assess_necessity run_judge gate threshold now env idea w = (Inr v, w') \<and> nv_demoted v \<and>
    get_idea g sk i (w_store w') = Some (c\<lparr>idea_invalidAt := Some now,
      idea_corroborationVersion := idea_corroborationVersion c + 1\<rparr>) \<and>
    i \<notin> idea_ideaId ` set (list_current_ideas g sk (w_store w')) \<and>
    (\<forall>g' sk' i'. (g', sk', i') = (g, sk, i) \<or> get_idea g' sk' i' (w_store w') = get_idea g' sk' i' (w_store w)) \<and>
    w_tel w' = map_option record_necessity_demotion (w_tel w) \<and> store_wf (w_store w')"
proof -
  note st = stored_idea [OF assms(1,3)]
  let ?s' = "demoted_store now c (w_store w)"
  have wf: "store_wf ?s'" by (rule store_wf_demoted_store [OF assms(1) st(2)])
  have at: "get_idea g sk i ?s' = Some (demoted_idea now c)" by (simp add: get_idea_demoted_store st(1))
  have "i \<notin> idea_ideaId ` set (list_current_ideas g sk ?s')"
  proof
    assume "i \<in> idea_ideaId ` set (list_current_ideas g sk ?s')"
    then obtain r j where r: "idea_ideaId r = i" "get_idea g sk j ?s' = Some r" "idea_invalidAt r = None"
      by (auto simp: list_current_ideas_iff [OF wf])
    have "j = i" using get_idea_key [OF wf r(2)] r(1) by simp
    then have "r = demoted_idea now c" using r(2) at by simp
    then show False using r(3) by simp
  qed
  moreover have "\<forall>g' sk' i'. (g', sk', i') = (g, sk, i) \<or> get_idea g' sk' i' ?s' = get_idea g' sk' i' (w_store w)"
    by (auto simp: get_idea_demoted_store st(1))
  moreover obtain v where "assess_necessity run_judge gate threshold now env idea w =
      (Inr v, w\<lparr>w_store := ?s', w_tel := map_option record_necessity_demotion (w_tel w)\<rparr>)" "nv_demoted v"
    using assess_goes_on [OF assms(5) demote_exact [where env = env and now = now, OF assms(1-4,6)]] by auto
  moreover have "demoted_idea now c = c\<lparr>idea_invalidAt := Some now,
      idea_corroborationVersion := idea_corroborationVersion c + 1\<rparr>" by (simp add: demoted_idea_def)
  ultimately show ?thesis using wf at
    by (intro exI [of _ v] exI [of _ "w\<lparr>w_store := ?s', w_tel := map_option record_necessity_demotion (w_tel w)\<rparr>"]) simp
qed

theorem necessity_demotion_effect_witness:
  "\<exists>v w'. assess_necessity (\<lambda>_. None) (Some checked_gate) NECESSITY_SCORE_DIFF_THRESHOLD 9 (\<lambda>_ s. s) folded_demo golden_world
       = (Inr v, w') \<and> nv_demoted v \<and> ''i1'' \<notin> idea_ideaId ` set (list_current_ideas ''acme'' ''sk'' (w_store w'))"
  using necessity_demotion_effect [OF golden_world_reads(1,4,2,5) demotable_golden_world, of "\<lambda>_ s. s" 9] by blast

text \<open>a demotion returns as soon as one of its three attempts meets no other write to the
  idea's version, and then the idea is retired, whoever retired it.\<close>

theorem demotion_progress:
  assumes "\<forall>n. keeps_ideas (env n)" "\<exists>n < DEMOTE_OCC_RETRIES. quiet (g, sk, i) (env n)"
    and "store_wf s" "idea_pk idea = (g, sk, i)" "get_idea g sk i s \<noteq> None"
  shows "\<exists>s'. demote_idea idea now env s = (Inr True, s') \<and>
    (\<exists>r. get_idea g sk i s' = Some r \<and> idea_invalidAt r \<noteq> None)"
  unfolding demote_idea_def by (rule demote_loop_progress) (use assms in auto)

theorem demotion_progress_witness:
  "\<exists>s'. demote_idea folded_demo 9 (\<lambda>_ s. s) (w_store golden_world) = (Inr True, s') \<and>
    (\<exists>r. get_idea ''acme'' ''sk'' ''i1'' s' = Some r \<and> idea_invalidAt r \<noteq> None)"
  by (rule demotion_progress)
     (simp_all add: keeps_ideas_def quiet_def golden_world_reads DEMOTE_OCC_RETRIES_def exI [of _ "0::nat"])

theorem necessity_writes_behind_guards_witness:
  "\<exists>golden. get_golden_case ''acme'' ''sk'' ''i1'' (w_store golden_world) = Some golden \<and> \<not> is_misretrieval golden folded_demo"
proof -
  obtain v w' where a: "assess_necessity (\<lambda>_. None) (Some checked_gate) NECESSITY_SCORE_DIFF_THRESHOLD 9 (\<lambda>_ s. s) folded_demo golden_world
       = (Inr v, w')" "get_idea ''acme'' ''sk'' ''i1'' (w_store w') = Some (folded_demo\<lparr>idea_invalidAt := Some 9,
      idea_corroborationVersion := idea_corroborationVersion folded_demo + 1\<rparr>)"
    using assess_goes_on [OF demotable_golden_world demote_exact [where env = "\<lambda>_ s. s" and now = 9, OF golden_world_reads(1,4,2,5) refl]]
    by (auto simp: get_idea_demoted_store golden_world_reads demoted_idea_def)
  have "idea_invalidAt (folded_demo\<lparr>idea_invalidAt := Some 9,
      idea_corroborationVersion := idea_corroborationVersion folded_demo + 1\<rparr>) = Some 9" by simp
  then have "w' \<noteq> golden_world" using a(2) golden_world_reads(2,5) by (metis option.inject option.distinct(1))
  from necessity_writes_behind_guards [OF a(1) this] show ?thesis
    using golden_world_reads(4) by (auto simp: idea_pk_def)
qed

text \<open>a judge that fails demotes: with the gate open, a judge whose calls all raise scores
  both bodies 0, the difference is below the threshold, and every inferred idea with a related
  golden case is retired as unnecessary.\<close>

theorem judge_outage_demotes:
  fixes w :: "'a lworld_scheme"
  assumes "store_wf (w_store w)" "get_idea (idea_org idea) (idea_skillBaseName idea) (idea_ideaId idea) (w_store w) = Some idea"
    and "idea_invalidAt idea = None" "\<not> is_authored idea" "may_demote g"
    and "get_golden_case (idea_org idea) (idea_skillBaseName idea) (idea_ideaId idea) (w_store w) = Some golden"
    and "\<not> is_misretrieval golden idea"
  shows "\<exists>v w'. assess_necessity (\<lambda>_. None) (Some g) NECESSITY_SCORE_DIFF_THRESHOLD now (\<lambda>_ s. s) idea w = (Inr v, w') \<and>
    nv_outcome v = ''unnecessary'' \<and> nv_demoted v \<and> nv_score_with v = Some 0 \<and> nv_score_without v = Some 0 \<and>
    get_idea (idea_org idea) (idea_skillBaseName idea) (idea_ideaId idea) (w_store w') = Some (demoted_idea now idea)"
proof -
  have "demotable (\<lambda>_. None) (Some g) NECESSITY_SCORE_DIFF_THRESHOLD idea (w_store w)"
    using assms(4-7) judge_down by (simp add: demotable_def)
  moreover have "demote_idea idea now (\<lambda>_ s. s) (w_store w) = (Inr True, demoted_store now idea (w_store w))"
    by (rule demote_exact [OF assms(1) _ assms(2,3)]) (simp_all add: idea_pk_def)
  moreover have "\<not> NECESSITY_SCORE_DIFF_THRESHOLD < fsub 0 0" unfolding NECESSITY_SCORE_DIFF_THRESHOLD_def by code_simp
  ultimately show ?thesis using assms(4-7)
    by (simp add: assess_necessity_def Let_def py_simps get_idea_demoted_store idea_pk_def judge_satisfaction_def judge_golden_def)
qed

theorem judge_outage_demotes_witness:
  "\<exists>v w'. assess_necessity (\<lambda>_. None) (Some checked_gate) NECESSITY_SCORE_DIFF_THRESHOLD 9 (\<lambda>_ s. s) folded_demo golden_world = (Inr v, w') \<and>
     nv_demoted v \<and> get_idea ''acme'' ''sk'' ''i1'' (w_store w') = Some (demoted_idea 9 folded_demo)"
proof -
  have "idea_org folded_demo = ''acme''" "idea_skillBaseName folded_demo = ''sk''" "idea_ideaId folded_demo = ''i1''"
    using golden_world_reads(4) by (simp_all add: idea_pk_def)
  then show ?thesis
    using judge_outage_demotes [of golden_world folded_demo checked_gate demo_golden 9] golden_world_reads
      checked_gate_open demo_golden_related by auto
qed

section \<open>The scheduled scan\<close>

text \<open>The counters of a scan agree with its verdicts.\<close>

definition outcomes :: "string \<Rightarrow> scan_result \<Rightarrow> nat" where
  "outcomes x r = length (filter (\<lambda>v. nv_outcome v = x) (sc_verdicts r))"

definition counts_ok :: "scan_result \<Rightarrow> bool" where
  "counts_ok r \<longleftrightarrow> sc_ideas_scanned r = length (sc_verdicts r) \<and>
     sc_ideas_demoted r = length (filter (\<lambda>v. nv_outcome v = ''unnecessary'' \<and> nv_demoted v) (sc_verdicts r)) \<and>
     sc_no_signal r = outcomes ''no_signal'' r \<and> sc_scope_miss r = outcomes ''scope_miss'' r \<and>
     sc_exempt r = outcomes ''exempt'' r"

lemma counts_ok_new [simp]: "counts_ok new_scan_result"
  by (simp add: counts_ok_def outcomes_def new_scan_result_def)

lemma counts_ok_count: "counts_ok r \<Longrightarrow> counts_ok (count_verdict v r)"
  by (auto simp: counts_ok_def outcomes_def count_verdict_def Let_def)

lemma counts_ok_add: "counts_ok a \<Longrightarrow> counts_ok p \<Longrightarrow> counts_ok (add_scan a p)"
  by (simp add: counts_ok_def outcomes_def add_scan_def)

definition nothing_demoted :: "scan_result \<Rightarrow> bool" where
  "nothing_demoted r \<longleftrightarrow> counts_ok r \<and> sc_ideas_demoted r = 0"

lemma gate_shut_stops: "gate = Some g \<Longrightarrow> \<not> may_demote g \<Longrightarrow> \<not> demotable run_judge gate th idea s"
  by (simp add: demotable_def)

lemma shut_scan_idea:
  fixes w :: "'a lworld_scheme"
  assumes "\<not> may_demote g" "nothing_demoted (snd acc)"
  shows "\<exists>acc'. scan_idea run_judge (Some g) rate th now dice env idea acc w = (Inr acc', w) \<and> nothing_demoted (snd acc')"
proof -
  obtain v where v: "assess_necessity run_judge (Some g) th now (env (idea_ideaId idea)) idea w = (Inr v, w)" "\<not> nv_demoted v"
    using assess_stopped [OF gate_shut_stops [OF refl assms(1)]] by blast
  have "nothing_demoted (count_verdict v (snd acc))"
    using assms(2) v(2) counts_ok_count [of "snd acc" v] unfolding nothing_demoted_def
    by (simp add: count_verdict_def [THEN arg_cong [of _ _ sc_ideas_demoted]] Let_def)
  then show ?thesis using v(1) assms(2) by (simp add: scan_idea_def Let_def py_simps)
qed

text \<open>A loop whose iterations leave the state alone and keep a fact about the accumulator.\<close>

lemma pfor_readonly:
  assumes "\<And>x acc. x \<in> set xs \<Longrightarrow> P acc \<Longrightarrow> \<exists>acc'. body x acc s = (Inr acc', s) \<and> P acc'" and "P acc"
  shows "\<exists>acc'. pfor body xs acc s = (Inr acc', s) \<and> P acc'"
  using assms
proof (induction xs arbitrary: acc)
  case Nil
  then show ?case by (simp add: py_simps)
next
  case (Cons x xs)
  obtain acc1 where "body x acc s = (Inr acc1, s)" "P acc1" using Cons.prems by fastforce
  moreover have "\<exists>acc'. pfor body xs acc1 s = (Inr acc', s) \<and> P acc'"
    by (rule Cons.IH) (use Cons.prems \<open>P acc1\<close> in auto)
  ultimately show ?case by (simp add: py_simps)
qed

lemma shut_scan:
  fixes w :: "'a lworld_scheme"
  assumes "\<not> may_demote g"
  shows "\<exists>r. run_necessity_scan org sk run_judge (Some g) rate th now dice env w = (Inr r, w) \<and> nothing_demoted r"
proof -
  have n: "nothing_demoted (snd (0, new_scan_result))" by (simp add: nothing_demoted_def) (simp add: new_scan_result_def)
  have "\<exists>acc'. pfor (scan_idea run_judge (Some g) rate th now dice env) xs (0, new_scan_result) w = (Inr acc', w) \<and>
      nothing_demoted (snd acc')" for xs
    by (rule pfor_readonly [where P = "\<lambda>acc. nothing_demoted (snd acc)", OF _ n]) (rule shut_scan_idea [OF assms])
  from this [of "filter (\<lambda>i. idea_status i = ''folded'') (list_current_ideas org sk (w_store w))"]
  show ?thesis by (auto simp: run_necessity_scan_def py_simps)
qed

text \<open>the scheduled scan never demotes anything: the handler builds its own calibration gate
  with no spot checks, so the gate is shut, and whatever the judge answers and whatever the
  store holds, the run leaves the world unchanged and reports no demotion.  Its counters agree
  with its verdicts.\<close>

theorem scheduled_scan_never_demotes:
  fixes w :: "'a lworld_scheme"
  shows "\<exists>r. scheduled_scan_handler org sk rate run_judge now dice env w = (Inr r, w) \<and> sc_ideas_demoted r = 0 \<and>
    sc_ideas_scanned r = length (sc_verdicts r) \<and> sc_no_signal r = outcomes ''no_signal'' r \<and>
    sc_scope_miss r = outcomes ''scope_miss'' r \<and> sc_exempt r = outcomes ''exempt'' r"
proof -
  have target: "\<exists>acc'. scan_target rate run_judge now dice env tg acc w = (Inr acc', w) \<and> nothing_demoted (snd acc')"
    if nd: "nothing_demoted (snd acc)" for tg acc
  proof -
    obtain r where "run_necessity_scan (fst tg) (snd tg) run_judge (Some new_necessity_gate) rate
        NECESSITY_SCORE_DIFF_THRESHOLD (now (fst acc)) (dice (fst acc)) env w = (Inr r, w)" "nothing_demoted r"
      using shut_scan [OF fresh_gate_shut] by blast
    then show ?thesis using nd counts_ok_add
      by (auto simp: scan_target_def py_simps nothing_demoted_def) (simp add: add_scan_def)
  qed
  have n: "nothing_demoted (snd (0, new_scan_result))" by (simp add: nothing_demoted_def) (simp add: new_scan_result_def)
  have "\<exists>r. scheduled_scan_handler org sk rate run_judge now dice env w = (Inr r, w) \<and> nothing_demoted r"
  proof (cases "org \<noteq> [] \<and> sk \<noteq> []")
    case True
    then show ?thesis using shut_scan [OF fresh_gate_shut] by (simp add: scheduled_scan_handler_def)
  next
    case False
    have "\<exists>acc'. pfor (scan_target rate run_judge now dice env) xs (0, new_scan_result) w = (Inr acc', w) \<and>
        nothing_demoted (snd acc')" for xs
      by (rule pfor_readonly [where P = "\<lambda>acc. nothing_demoted (snd acc)", OF _ n]) (rule target)
    from this [of "list_skills_with_folded_non_authored_ideas (w_store w)"] False
    show ?thesis by (auto simp: scheduled_scan_handler_def py_simps)
  qed
  then show ?thesis by (auto simp: nothing_demoted_def counts_ok_def)
qed

section \<open>The fold-time filter\<close>

lemma find_near_duplicate_None:
  "find_near_duplicate idea th lives = None \<longleftrightarrow>
    (\<forall>l \<in> set lives. idea_ideaId l = idea_ideaId idea \<or> word_jaccard (idea_body idea) (idea_body l) < th)"
  by (induction lives) (auto simp: not_le)

lemma find_near_duplicate_Some:
  "find_near_duplicate idea th lives = Some j \<Longrightarrow>
    \<exists>l \<in> set lives. idea_ideaId l = j \<and> j \<noteq> idea_ideaId idea \<and> th \<le> word_jaccard (idea_body idea) (idea_body l)"
  by (induction lives) (auto split: if_splits)

text \<open>the fold-time filter lets an idea through exactly when its body is not blank, it is
  authored or anchored, and no other live idea is at least as similar as the threshold; the
  near duplicate it names is such an idea and never the idea itself.\<close>

theorem triviality_filter_exact:
  "(tr_passed (triviality_dedup_filter idea anchors lives th) \<longleftrightarrow>
     \<not> blank (idea_body idea) \<and> (is_authored idea \<or> anchors \<noteq> []) \<and>
     (\<forall>l \<in> set lives. idea_ideaId l = idea_ideaId idea \<or> word_jaccard (idea_body idea) (idea_body l) < th)) \<and>
   (tr_near_duplicate_of (triviality_dedup_filter idea anchors lives th) = Some j \<longrightarrow>
     (\<exists>l \<in> set lives. idea_ideaId l = j \<and> j \<noteq> idea_ideaId idea \<and> th \<le> word_jaccard (idea_body idea) (idea_body l)))"
proof
  show "tr_passed (triviality_dedup_filter idea anchors lives th) \<longleftrightarrow>
     \<not> blank (idea_body idea) \<and> (is_authored idea \<or> anchors \<noteq> []) \<and>
     (\<forall>l \<in> set lives. idea_ideaId l = idea_ideaId idea \<or> word_jaccard (idea_body idea) (idea_body l) < th)"
    unfolding find_near_duplicate_None [symmetric] by (simp add: triviality_dedup_filter_def split: option.split)
  have "find_near_duplicate idea th lives = Some j" if "tr_near_duplicate_of (triviality_dedup_filter idea anchors lives th) = Some j"
    using that by (auto simp: triviality_dedup_filter_def split: option.splits if_splits)
  then show "tr_near_duplicate_of (triviality_dedup_filter idea anchors lives th) = Some j \<longrightarrow>
     (\<exists>l \<in> set lives. idea_ideaId l = j \<and> j \<noteq> idea_ideaId idea \<and> th \<le> word_jaccard (idea_body idea) (idea_body l))"
    using find_near_duplicate_Some by blast
qed

theorem triviality_filter_exact_witness:
  "tr_near_duplicate_of (triviality_dedup_filter (folded_demo\<lparr>idea_ideaId := ''i2'', idea_authored := Some True\<rparr>) [] [folded_demo]
     NEAR_DUPLICATE_THRESHOLD) = Some ''i1'' \<and>
   (\<exists>l \<in> set [folded_demo]. idea_ideaId l = ''i1'')"
proof -
  have "tr_near_duplicate_of (triviality_dedup_filter (folded_demo\<lparr>idea_ideaId := ''i2'', idea_authored := Some True\<rparr>) [] [folded_demo]
     NEAR_DUPLICATE_THRESHOLD) = Some ''i1''"
    unfolding folded_demo_def demo_idea_def mk_idea_def NEAR_DUPLICATE_THRESHOLD_def by code_simp
  then show ?thesis
    using triviality_filter_exact [of "folded_demo\<lparr>idea_ideaId := ''i2'', idea_authored := Some True\<rparr>" "[]" "[folded_demo]"
      NEAR_DUPLICATE_THRESHOLD "''i1''"] by blast
qed

end
