(* ===== verification/Regex.thy ===== *)
theory Regex
  imports PyStr
begin

text \<open>
  The part of Python's \<open>re\<close> module the service uses: patterns without capture groups, matched
  by backtracking.  A position in a text is the text before it, reversed, and the text after
  it; \<open>ends r c\<close> lists the positions at which a match of \<open>r\<close> that starts at \<open>c\<close> can end, in the
  order in which Python tries them, so the match is the head of the list.  Quantifiers are
  greedy; \<open>^\<close> and \<open>$\<close> are those of \<open>re.MULTILINE\<close>.
\<close>

section \<open>Patterns\<close>

type_synonym ctx = "string \<times> string"

datatype rx =
    RSet "char \<Rightarrow> bool"
  | REps
  | RSeq rx rx
  | RAlt rx rx
  | RStar rx
  | RBol
  | REol
  | RStart
  | RWordB

definition rx_seq :: "rx list \<Rightarrow> rx" where
  "rx_seq rs = foldr RSeq rs REps"

fun rx_alt :: "rx list \<Rightarrow> rx" where
  "rx_alt [] = RSet (\<lambda>_. False)"
| "rx_alt [r] = r"
| "rx_alt (r # r' # rs) = RAlt r (rx_alt (r' # rs))"

definition rx_times :: "nat \<Rightarrow> rx \<Rightarrow> rx" where
  "rx_times n r = rx_seq (replicate n r)"

definition rx_opt :: "rx \<Rightarrow> rx" where
  "rx_opt r = RAlt r REps"

definition rx_plus :: "rx \<Rightarrow> rx" where
  "rx_plus r = RSeq r (RStar r)"

definition rx_at_least :: "nat \<Rightarrow> rx \<Rightarrow> rx" where
  "rx_at_least n r = RSeq (rx_times n r) (RStar r)"

definition rx_lit :: "string \<Rightarrow> rx" where
  "rx_lit s = rx_seq (map (\<lambda>c. RSet (\<lambda>x. x = c)) s)"

text \<open>A literal under \<open>re.IGNORECASE\<close>.\<close>

definition rx_ilit :: "string \<Rightarrow> rx" where
  "rx_ilit s = rx_seq (map (\<lambda>c. RSet (\<lambda>x. lower_char x = lower_char c)) s)"

section \<open>Matching\<close>

definition word_before :: "ctx \<Rightarrow> bool" where
  "word_before c = (case fst c of [] \<Rightarrow> False | x # _ \<Rightarrow> is_word_char x)"

definition word_after :: "ctx \<Rightarrow> bool" where
  "word_after c = (case snd c of [] \<Rightarrow> False | x # _ \<Rightarrow> is_word_char x)"

text \<open>
  The iterations of a star: one more iteration is tried first, an iteration that consumes
  nothing is not repeated.  The number bounds the iterations; the length of the remaining
  text is enough, since every iteration counted consumes a character.
\<close>

fun star_ends :: "(ctx \<Rightarrow> ctx list) \<Rightarrow> nat \<Rightarrow> ctx \<Rightarrow> ctx list" where
  "star_ends f 0 c = [c]"
| "star_ends f (Suc n) c =
     concat (map (\<lambda>d. if length (snd d) < length (snd c) then star_ends f n d else []) (f c)) @ [c]"

primrec ends :: "rx \<Rightarrow> ctx \<Rightarrow> ctx list" where
  "ends (RSet p) c = (case snd c of [] \<Rightarrow> [] | x # xs \<Rightarrow> if p x then [(x # fst c, xs)] else [])"
| "ends REps c = [c]"
| "ends (RSeq a b) c = concat (map (ends b) (ends a c))"
| "ends (RAlt a b) c = ends a c @ ends b c"
| "ends (RStar a) c = star_ends (ends a) (length (snd c)) c"
| "ends RBol c = (if fst c = [] \<or> hd (fst c) = nl then [c] else [])"
| "ends REol c = (if snd c = [] \<or> hd (snd c) = nl then [c] else [])"
| "ends RStart c = (if fst c = [] then [c] else [])"
| "ends RWordB c = (if word_before c \<noteq> word_after c then [c] else [])"

text \<open>\<open>re.match\<close> and \<open>re.search\<close>, as the truth value of their result.\<close>

definition re_match :: "rx \<Rightarrow> string \<Rightarrow> bool" where
  "re_match r s \<longleftrightarrow> ends r ([], s) \<noteq> []"

fun search_from :: "rx \<Rightarrow> string \<Rightarrow> string \<Rightarrow> bool" where
  "search_from r l [] \<longleftrightarrow> ends r (l, []) \<noteq> []"
| "search_from r l (x # xs) \<longleftrightarrow> ends r (l, x # xs) \<noteq> [] \<or> search_from r (x # l) xs"

definition re_search :: "rx \<Rightarrow> string \<Rightarrow> bool" where
  "re_search r s = search_from r [] s"

text \<open>
  \<open>re.sub\<close> for a constant replacement and a pattern that matches no empty text (\<open>consuming\<close>,
  below): the leftmost matches are replaced from left to right.
\<close>

function sub_from :: "rx \<Rightarrow> string \<Rightarrow> string \<Rightarrow> string \<Rightarrow> string" where
  "sub_from r repl l s = (case ends r (l, s) of
     d # _ \<Rightarrow>
       if length (snd d) < length s then repl @ sub_from r repl (fst d) (snd d)
       else (case s of [] \<Rightarrow> [] | x # xs \<Rightarrow> x # sub_from r repl (x # l) xs)
   | [] \<Rightarrow> (case s of [] \<Rightarrow> [] | x # xs \<Rightarrow> x # sub_from r repl (x # l) xs))"
  by pat_completeness auto

termination
  by (relation "measure (\<lambda>(_, _, _, s). length s)") auto

declare sub_from.simps [simp del]

definition re_sub :: "rx \<Rightarrow> string \<Rightarrow> string \<Rightarrow> string" where
  "re_sub r repl s = sub_from r repl [] s"

section \<open>Matches are pieces of the text\<close>

text \<open>A position reached from another one by reading a piece of the text.\<close>

definition reads :: "ctx \<Rightarrow> ctx \<Rightarrow> bool" where
  "reads c d \<longleftrightarrow> (\<exists>k. snd c = k @ snd d \<and> fst d = rev k @ fst c)"

lemma reads_refl [simp]: "reads c c"
  by (simp add: reads_def)

lemma reads_trans: "reads c d \<Longrightarrow> reads d e \<Longrightarrow> reads c e"
  by (force simp: reads_def)

lemma star_ends_reads:
  assumes "\<And>c d. d \<in> set (f c) \<Longrightarrow> reads c d"
  shows "d \<in> set (star_ends f n c) \<Longrightarrow> reads c d"
proof (induction n arbitrary: c)
  case 0
  then show ?case by simp
next
  case (Suc n)
  show ?case
  proof (cases "d = c")
    case False
    then obtain e where "e \<in> set (f c)" "d \<in> set (star_ends f n e)"
      using Suc.prems by (auto split: if_splits)
    then show ?thesis using Suc.IH assms reads_trans by metis
  qed simp
qed

lemma ends_reads: "d \<in> set (ends r c) \<Longrightarrow> reads c d"
proof (induction r arbitrary: c d)
  case (RSet p)
  then show ?case by (cases c) (auto simp: reads_def split: list.splits if_splits)
next
  case (RSeq a b)
  then obtain e where "e \<in> set (ends a c)" "d \<in> set (ends b e)" by auto
  then show ?case using RSeq.IH reads_trans by metis
next
  case (RStar a)
  then show ?case using star_ends_reads [of "ends a"] by auto
qed (auto split: if_splits)

lemma reads_length: "reads c d \<Longrightarrow> length (snd d) \<le> length (snd c)"
  by (auto simp: reads_def)

text \<open>Patterns every match of which reads at least one character.\<close>

primrec consuming :: "rx \<Rightarrow> bool" where
  "consuming (RSet p) = True"
| "consuming REps = False"
| "consuming (RSeq a b) = (consuming a \<or> consuming b)"
| "consuming (RAlt a b) = (consuming a \<and> consuming b)"
| "consuming (RStar a) = False"
| "consuming RBol = False"
| "consuming REol = False"
| "consuming RStart = False"
| "consuming RWordB = False"

lemma consuming_ends: "consuming r \<Longrightarrow> d \<in> set (ends r c) \<Longrightarrow> length (snd d) < length (snd c)"
proof (induction r arbitrary: c d)
  case (RSet p)
  then show ?case by (cases "snd c") (auto split: if_splits)
next
  case (RSeq a b)
  then obtain e where e: "e \<in> set (ends a c)" "d \<in> set (ends b e)" by auto
  then have "length (snd e) \<le> length (snd c)" "length (snd d) \<le> length (snd e)"
    by (auto dest!: ends_reads reads_length)
  then show ?case using RSeq.IH(1) [of e c] RSeq.IH(2) [of d e] RSeq.prems(1) e by auto
qed auto

text \<open>A literal and a run of characters of a class match exactly there.\<close>

lemma ends_lit [simp]: "ends (rx_lit w) (l, w @ s) = [(rev w @ l, s)]"
  by (induction w arbitrary: l) (simp_all add: rx_lit_def rx_seq_def)

lemma ends_times [simp]: "list_all p v \<Longrightarrow> ends (rx_times (length v) (RSet p)) (l, v @ s) = [(rev v @ l, s)]"
  by (induction v arbitrary: l) (simp_all add: rx_times_def rx_seq_def)

lemma consuming_rx_seq [simp]: "consuming (rx_seq rs) \<longleftrightarrow> (\<exists>r \<in> set rs. consuming r)"
  by (induction rs) (auto simp: rx_seq_def)

lemma consuming_lit [simp]: "consuming (rx_lit w) \<longleftrightarrow> w \<noteq> []"
  by (cases w) (auto simp: rx_lit_def)

section \<open>Substitution unfolded\<close>

lemma sub_from_Nil [simp]: "consuming r \<Longrightarrow> sub_from r repl l [] = []"
  using consuming_ends [of r _ "(l, [])"] by (subst sub_from.simps) (auto split: list.split)

lemma sub_from_skip: "ends r (l, x # xs) = [] \<Longrightarrow> sub_from r repl l (x # xs) = x # sub_from r repl (x # l) xs"
  by (subst sub_from.simps) simp

lemma sub_from_hit:
  assumes "consuming r" "ends r (l, s) = (l', s') # ds"
  shows "sub_from r repl l s = repl @ sub_from r repl l' s'"
  using consuming_ends [OF assms(1), of "(l', s')" "(l, s)"] assms(2) by (subst sub_from.simps) simp

text \<open>Induction along a substitution: the text is used up, skipped or hit.\<close>

lemma sub_from_induct [consumes 1, case_names Nil Skip Hit]:
  assumes "consuming r"
    and "\<And>l. P l []"
    and "\<And>l x xs. ends r (l, x # xs) = [] \<Longrightarrow> P (x # l) xs \<Longrightarrow> P l (x # xs)"
    and "\<And>l s k s' ds. ends r (l, k @ s') = (rev k @ l, s') # ds \<Longrightarrow> s = k @ s' \<Longrightarrow> k \<noteq> [] \<Longrightarrow> P (rev k @ l) s' \<Longrightarrow> P l s"
  shows "P l s"
proof (induction "length s" arbitrary: l s rule: less_induct)
  case less
  show ?case
  proof (cases "ends r (l, s)")
    case Nil
    then show ?thesis using assms(2,3) less by (cases s) auto
  next
    case (Cons d ds)
    then have lt: "length (snd d) < length s" using consuming_ends [OF assms(1), of d "(l, s)"] by simp
    have "reads (l, s) d" by (rule ends_reads [of _ r]) (simp add: Cons)
    then obtain k where k: "s = k @ snd d" "fst d = rev k @ l" by (auto simp: reads_def)
    then have d: "d = (rev k @ l, snd d)" by (metis prod.collapse)
    show ?thesis
    proof (rule assms(4))
      show "ends r (l, k @ snd d) = (rev k @ l, snd d) # ds" using Cons k(1) d by metis
      show "k \<noteq> []" using lt k(1) by auto
      show "P (rev k @ l) (snd d)" by (rule less) (rule lt)
    qed (rule k(1))
  qed
qed

text \<open>Text outside a placeholder \<open><...>\<close> is text of the input.\<close>

lemma prefix_of_sub:
  assumes "consuming r" "CHR ''<'' \<notin> set k" "prefix k (sub_from r (CHR ''<'' # b) l s)"
  shows "prefix k s"
  using assms(1,3,2)
proof (induction l s arbitrary: k rule: sub_from_induct)
  case (Nil l)
  then show ?case using assms(1) by simp
next
  case (Skip l x xs)
  then show ?case by (cases k) (auto simp: sub_from_skip)
next
  case (Hit l s k' s' ds)
  then show ?case using assms(1) by (cases k) (auto simp: sub_from_hit)
qed

text \<open>
  \<open>free W s\<close>: no word of \<open>W\<close> occurs in \<open>s\<close>.  A substitution by a placeholder \<open><b>\<close> keeps the text
  free of words without angle brackets that do not occur in \<open>b\<close>, and makes it free of the
  words the pattern matches.
\<close>

definition free :: "(string \<Rightarrow> bool) \<Rightarrow> string \<Rightarrow> bool" where
  "free W s \<longleftrightarrow> (\<forall>k. W k \<longrightarrow> \<not> sublist k s)"

definition bracketless :: "(string \<Rightarrow> bool) \<Rightarrow> bool" where
  "bracketless W \<longleftrightarrow> (\<forall>k. W k \<longrightarrow> k \<noteq> [] \<and> CHR ''<'' \<notin> set k \<and> CHR ''>'' \<notin> set k)"

lemma sublist_split_at:
  assumes "sublist k (xs @ z # ys)" "z \<notin> set k"
  shows "sublist k xs \<or> sublist k ys"
proof -
  obtain ps ss where k: "xs @ z # ys = ps @ k @ ss" using assms(1) by (auto simp: sublist_def)
  then consider us where "xs = ps @ us" "us @ z # ys = k @ ss" | us where "ps = xs @ us" "z # ys = us @ k @ ss"
    by (auto simp: append_eq_append_conv2)
  then show ?thesis
  proof cases
    case 1
    then obtain vs where "us = k @ vs" using assms(2) by (auto simp: append_eq_append_conv2 Cons_eq_append_conv)
    then show ?thesis using 1 by (auto simp: sublist_def)
  next
    case 2
    show ?thesis
    proof (cases us)
      case Nil
      then have "k = []" using 2 assms(2) by (cases k) auto
      then show ?thesis by simp
    next
      case (Cons y vs)
      then have "sublist k ys" using 2 by (auto simp: sublist_def)
      then show ?thesis by simp
    qed
  qed
qed

lemma free_placeholder:
  assumes "bracketless W" "free W b" "free W t"
  shows "free W ((CHR ''<'' # b @ ''>'') @ t)"
  unfolding free_def
proof (intro allI impI notI)
  fix k assume w: "W k" and "sublist k ((CHR ''<'' # b @ ''>'') @ t)"
  then have "sublist k ([] @ CHR ''<'' # (b @ CHR ''>'' # t))" by simp
  then have "sublist k [] \<or> sublist k (b @ CHR ''>'' # t)"
    by (rule sublist_split_at) (use assms(1) w in \<open>auto simp: bracketless_def\<close>)
  moreover have "k \<noteq> []" using assms(1) w by (auto simp: bracketless_def)
  ultimately have "sublist k (b @ CHR ''>'' # t)" by (auto simp: sublist_def)
  then have "sublist k b \<or> sublist k t"
    by (rule sublist_split_at) (use assms(1) w in \<open>auto simp: bracketless_def\<close>)
  then show False using assms(2,3) w by (auto simp: free_def)
qed

lemma free_Cons: "free W xs \<Longrightarrow> (\<And>k. W k \<Longrightarrow> \<not> prefix k (x # xs)) \<Longrightarrow> free W (x # xs)"
  by (auto simp: free_def sublist_Cons_right)

lemma free_tail: "free W (xs @ ys) \<Longrightarrow> free W ys"
  by (auto simp: free_def sublist_def) (metis append_assoc)

lemma free_sub:
  assumes "consuming r" "bracketless W" "free W b"
    and "free W s \<or> (\<forall>k l' s'. W k \<longrightarrow> ends r (l', k @ s') \<noteq> [])"
  shows "free W (sub_from r (CHR ''<'' # b @ ''>'') l s)"
  using assms(1,4)
proof (induction l s rule: sub_from_induct)
  case (Nil l)
  then show ?case using assms(1,2) by (auto simp: free_def bracketless_def)
next
  case (Skip l x xs)
  have "free W xs \<or> (\<forall>k l' s'. W k \<longrightarrow> ends r (l', k @ s') \<noteq> [])"
    using Skip.prems free_tail [of W "[x]" xs] by auto
  note rest = Skip.IH [OF this]
  show ?case unfolding sub_from_skip [OF Skip.hyps]
  proof (rule free_Cons [OF rest])
    fix k assume k: "W k"
    show "\<not> prefix k (x # sub_from r (CHR ''<'' # b @ ''>'') (x # l) xs)"
    proof
      assume pre: "prefix k (x # sub_from r (CHR ''<'' # b @ ''>'') (x # l) xs)"
      obtain k' where k': "k = x # k'" using pre k assms(2) by (cases k) (auto simp: bracketless_def)
      have "prefix k' (sub_from r (CHR ''<'' # (b @ ''>'')) (x # l) xs)" using pre k' by simp
      then have "prefix k' xs" by (rule prefix_of_sub [OF assms(1), rotated]) (use assms(2) k k' in \<open>auto simp: bracketless_def\<close>)
      then obtain s' where xs: "x # xs = k @ s'" using k' by (auto simp: prefix_def)
      then show False using Skip.prems Skip.hyps k by (metis free_def sublist_def append_Nil)
    qed
  qed
next
  case (Hit l s k s' ds)
  have "free W s' \<or> (\<forall>k l' s'. W k \<longrightarrow> ends r (l', k @ s') \<noteq> [])"
    using Hit.prems Hit.hyps(2) free_tail [of W k s'] by auto
  then have "free W (sub_from r (CHR ''<'' # b @ ''>'') (rev k @ l) s')" by (rule Hit.IH)
  then show ?case using free_placeholder [OF assms(2,3)] sub_from_hit [OF assms(1) Hit.hyps(1)] Hit.hyps(2) by simp
qed

section \<open>Searching\<close>

lemma search_from_iff: "search_from r l s \<longleftrightarrow> (\<exists>u v. s = u @ v \<and> ends r (rev u @ l, v) \<noteq> [])"
proof (induction r l s rule: search_from.induct)
  case (1 r l)
  then show ?case by auto
next
  case (2 r l x xs)
  show ?case
  proof
    assume "search_from r l (x # xs)"
    then consider "ends r (l, x # xs) \<noteq> []" | u v where "xs = u @ v" "ends r (rev u @ x # l, v) \<noteq> []"
      using 2 by auto
    then show "\<exists>u v. x # xs = u @ v \<and> ends r (rev u @ l, v) \<noteq> []"
    proof cases
      case 1
      then show ?thesis by (intro exI [of _ "[]"] exI [of _ "x # xs"]) simp
    next
      case 2
      then show ?thesis by (intro exI [of _ "x # u"] exI [of _ v]) simp
    qed
  next
    assume "\<exists>u v. x # xs = u @ v \<and> ends r (rev u @ l, v) \<noteq> []"
    then obtain u v where uv: "x # xs = u @ v" "ends r (rev u @ l, v) \<noteq> []" by blast
    show "search_from r l (x # xs)"
    proof (cases u)
      case Nil
      then have "v = x # xs" "ends r (l, v) \<noteq> []" using uv by auto
      then show ?thesis by simp
    next
      case (Cons y ys)
      then have "xs = ys @ v" "ends r (rev ys @ x # l, v) \<noteq> []" using uv by auto
      then show ?thesis using 2 by auto
    qed
  qed
qed

lemma re_search_iff: "re_search r s \<longleftrightarrow> (\<exists>u v. s = u @ v \<and> ends r (rev u, v) \<noteq> [])"
  by (simp add: re_search_def search_from_iff)

end
