(* ===== verification/Github.thy ===== *)
theory Github
  imports Regex Anchors
begin

text \<open>
  \<open>github.py\<close>: the pull request, the two passes that keep secrets and repository names out of
  an insight, the inference of the verification rung, the curriculum filter, the distillation
  of a pull request, the listing of pull requests page by page, and the token check of the App
  client.  The language model is the argument \<open>run_judge\<close>, the decoded answers of GitHub are the
  argument \<open>pages\<close>.
\<close>

section \<open>Pull requests\<close>

record pull_request =
  pq_number :: int
  pq_title :: string
  pq_body :: string
  pq_base_branch :: string
  pq_merged :: bool
  pq_merged_at :: "string option"
  pq_author_login :: string
  pq_diff :: string
  pq_review_comments :: "string list"
  pq_linked_issues :: "string list"
  pq_labels :: "string list"
  pq_owner_repo :: string

section \<open>Character classes of the patterns\<close>

definition in_range :: "char \<Rightarrow> char \<Rightarrow> char \<Rightarrow> bool" where
  "in_range a b c \<longleftrightarrow> cp a \<le> cp c \<and> cp c \<le> cp b"

definition upper_digit :: "char \<Rightarrow> bool" where
  "upper_digit c \<longleftrightarrow> in_range (CHR ''0'') (CHR ''9'') c \<or> in_range (CHR ''A'') (CHR ''Z'') c"

definition alnum :: "char \<Rightarrow> bool" where
  "alnum c \<longleftrightarrow> upper_digit c \<or> in_range (CHR ''a'') (CHR ''z'') c"

definition alnum_or :: "string \<Rightarrow> char \<Rightarrow> bool" where
  "alnum_or cs c \<longleftrightarrow> alnum c \<or> c \<in> set cs"

definition word_or :: "string \<Rightarrow> char \<Rightarrow> bool" where
  "word_or cs c \<longleftrightarrow> is_word_char c \<or> c \<in> set cs"

definition lower_digit_or :: "string \<Rightarrow> char \<Rightarrow> bool" where
  "lower_digit_or cs c \<longleftrightarrow> in_range (CHR ''0'') (CHR ''9'') c \<or> in_range (CHR ''a'') (CHR ''z'') c \<or> c \<in> set cs"

abbreviation rx_space :: rx where "rx_space \<equiv> RSet is_space"
abbreviation rx_spaces :: rx where "rx_spaces \<equiv> RStar rx_space"
abbreviation rx_spaces1 :: rx where "rx_spaces1 \<equiv> rx_plus rx_space"
abbreviation rx_char :: "char \<Rightarrow> rx" where "rx_char a \<equiv> RSet (\<lambda>x. x = a)"
abbreviation rx_quote :: rx where "rx_quote \<equiv> rx_opt (RSet (\<lambda>x. x = CHR 0x22 \<or> x = CHR 0x27))"

section \<open>Scrubbing of secrets\<close>

definition AWS_KEY_RE :: rx where
  "AWS_KEY_RE = RSeq (rx_lit ''AKIA'') (rx_times 16 (RSet upper_digit))"

definition JWT_RE :: rx where
  "JWT_RE = rx_seq [rx_lit ''eyJ'', rx_plus (RSet (alnum_or ''-_'')), rx_lit ''.'',
     rx_plus (RSet (alnum_or ''-_'')), rx_lit ''.'', rx_plus (RSet (alnum_or ''-_''))]"

definition BEARER_RE :: rx where
  "BEARER_RE = rx_seq [rx_ilit ''Bearer'', rx_spaces1, rx_at_least 8 (RSet (alnum_or ''-_.=+/''))]"

definition GITHUB_PAT_RE :: rx where
  "GITHUB_PAT_RE = RAlt (RSeq (rx_lit ''ghp_'') (rx_times 36 (RSet alnum)))
     (RSeq (rx_lit ''github_pat_'') (rx_times 82 (RSet (alnum_or ''_''))))"

definition PEM_RE :: rx where
  "PEM_RE = rx_seq [rx_lit ''-----BEGIN '', rx_plus (RSet (\<lambda>c. in_range (CHR ''A'') (CHR ''Z'') c \<or> c = CHR '' '')),
     rx_lit ''PRIVATE KEY-----'']"

definition CREDENTIAL_RE :: rx where
  "CREDENTIAL_RE = rx_seq [rx_alt (map rx_ilit [''key'', ''secret'', ''token'', ''password'', ''passwd'', ''pwd'']),
     rx_spaces, RSet (\<lambda>c. c = CHR ''='' \<or> c = CHR '':''), rx_spaces, rx_quote,
     rx_at_least 8 (RSet (alnum_or ''+/=_-.'')), rx_quote]"

definition SECRET_PATTERNS :: "(rx \<times> string) list" where
  "SECRET_PATTERNS = [(AWS_KEY_RE, ''<AWS_KEY>''), (JWT_RE, ''<JWT>''), (BEARER_RE, ''Bearer <TOKEN>''),
     (GITHUB_PAT_RE, ''<GITHUB_PAT>''), (PEM_RE, ''<PEM_HEADER>''), (CREDENTIAL_RE, ''<CREDENTIAL>'')]"

definition sub_all :: "(rx \<times> string) list \<Rightarrow> string \<Rightarrow> string" where
  "sub_all ps text = foldl (\<lambda>t (r, repl). re_sub r repl t) text ps"

definition scrub_secrets :: "string \<Rightarrow> string" where
  "scrub_secrets text = sub_all SECRET_PATTERNS text"

section \<open>Generalisation of repository names\<close>

definition REPO_URL_RE :: rx where
  "REPO_URL_RE = rx_seq [rx_lit ''http'', rx_opt (rx_lit ''s''), rx_lit ''://github.com/'',
     rx_plus (RSet (word_or ''-.'')), rx_lit ''/'', rx_plus (RSet (word_or ''-.''))]"

definition OWNER_REPO_RE :: rx where
  "OWNER_REPO_RE = rx_seq [RWordB, rx_plus (RSet (word_or ''-'')), rx_lit ''/'', rx_plus (RSet (word_or ''-'')),
     rx_opt (RSeq (rx_lit ''#'') (rx_plus (RSet is_digit))), RWordB]"

definition HOST_RE :: rx where
  "HOST_RE = rx_seq [RWordB, rx_plus (RSeq (rx_plus (RSet (lower_digit_or ''-''))) (rx_lit ''.'')),
     rx_alt (map rx_lit [''com'', ''io'', ''net'', ''org'', ''dev'', ''app'', ''ai'', ''co'']), RWordB]"

definition PACKAGE_RE :: rx where
  "PACKAGE_RE = rx_seq [rx_lit ''@'', rx_plus (RSet (word_or ''-'')), rx_lit ''/'', rx_plus (RSet (word_or ''-''))]"

definition GENERALIZE_PATTERNS :: "(rx \<times> string) list" where
  "GENERALIZE_PATTERNS = [(REPO_URL_RE, ''<REPO>''), (OWNER_REPO_RE, ''<REPO>''), (HOST_RE, ''<HOST>''),
     (PACKAGE_RE, ''<PKG>'')]"

definition generalize_repo_specifics :: "string \<Rightarrow> string \<Rightarrow> string" where
  "generalize_repo_specifics text owner_repo =
     sub_all GENERALIZE_PATTERNS (if owner_repo \<noteq> [] then re_sub (rx_lit owner_repo) ''<REPO>'' text else text)"

section \<open>Verification rungs\<close>

abbreviation rx_slash :: rx where "rx_slash \<equiv> RSet (\<lambda>c. c = CHR ''/'' \<or> c = CHR 0x5C)"

definition TEST_FILE_RE :: rx where
  "TEST_FILE_RE = rx_seq [RAlt RBol (rx_lit ''+++ b/''), rx_opt (RSeq (RStar (RSet (\<lambda>c. c \<noteq> nl))) rx_slash),
     rx_alt [rx_seq [rx_lit ''test'', rx_opt (rx_lit ''s''), rx_slash], rx_seq [rx_lit ''spec'', rx_opt (rx_lit ''s''), rx_slash],
       RSeq (rx_lit ''__tests__'') rx_slash,
       rx_seq [rx_plus (RSet (alnum_or ''_-'')), rx_lit ''.'', RAlt (rx_lit ''test'') (rx_lit ''spec''), rx_lit ''.'',
         rx_plus (RSet (in_range (CHR ''a'') (CHR ''z'')))]]]"

definition whole_words :: "rx list \<Rightarrow> rx" where
  "whole_words rs = rx_seq [RWordB, rx_alt rs, RWordB]"

definition BUGFIX_TITLE_RE :: rx where
  "BUGFIX_TITLE_RE = whole_words (map rx_ilit [''fix'', ''bug'', ''hotfix'', ''patch'', ''bugfix''] @
     [RSeq (rx_ilit ''close'') (rx_opt (rx_ilit ''s'')), RSeq (rx_ilit ''resolve'') (rx_opt (rx_ilit ''s''))])"

definition BUGFIX_LABEL_RE :: rx where
  "BUGFIX_LABEL_RE = whole_words (map rx_ilit [''bug'', ''bugfix'', ''fix'', ''hotfix''])"

definition TRIVIAL_TITLE_RE :: rx where
  "TRIVIAL_TITLE_RE = whole_words ([rx_ilit ''typo'', RSeq (rx_ilit ''doc'') (rx_opt (rx_ilit ''s''))] @
     map rx_ilit [''readme'', ''changelog'', ''nit'', ''style'', ''format'', ''lint'', ''whitespace'', ''comment''] @
     [RSeq (rx_ilit ''doc'') (rx_opt (rx_ilit ''umentation''))] @
     map rx_ilit [''bump'', ''upgrade'', ''update dep'', ''chore''])"

definition BUGFIX_SMALL_DIFF_LINES :: nat where
  "BUGFIX_SMALL_DIFF_LINES = 60"

definition starts_with :: "string \<Rightarrow> string \<Rightarrow> bool" where
  "starts_with p s \<longleftrightarrow> take (length p) s = p"

definition diff_changed_lines :: "string \<Rightarrow> nat" where
  "diff_changed_lines d = length (filter (\<lambda>line.
     (starts_with ''+'' line \<or> starts_with ''-'' line) \<and> \<not> (starts_with ''+++'' line \<or> starts_with ''---'' line))
     (split_lines_from [] d))"

definition is_targeted_bugfix :: "pull_request \<Rightarrow> bool" where
  "is_targeted_bugfix pr \<longleftrightarrow>
     (re_search BUGFIX_TITLE_RE (pq_title pr) \<or> list_ex (re_search BUGFIX_LABEL_RE) (pq_labels pr)) \<and>
     diff_changed_lines (pq_diff pr) \<le> BUGFIX_SMALL_DIFF_LINES"

definition infer_verification_rung :: "pull_request \<Rightarrow> string" where
  "infer_verification_rung pr =
     (if re_search TEST_FILE_RE (pq_diff pr) then ''test''
      else if re_search TRIVIAL_TITLE_RE (pq_title pr) then ''bare''
      else if is_targeted_bugfix pr then ''test''
      else ''normal'')"

section \<open>The curriculum filter\<close>

definition NOISE_TITLE_RE :: rx where
  "NOISE_TITLE_RE = RSeq RStart (rx_alt [
     RSeq (rx_ilit ''bump'') rx_spaces1,
     RSeq (rx_ilit ''chore'') (rx_alt [
       rx_seq [rx_spaces, rx_lit ''('', rx_ilit ''dep'', rx_opt (rx_ilit ''s''), rx_lit '')''],
       rx_seq [rx_lit '':'', rx_spaces, rx_ilit ''dep'', rx_opt (rx_ilit ''s''), rx_space]]),
     rx_seq [rx_ilit ''update'', rx_spaces1, rx_alt [
       RSeq (rx_ilit ''dep'') (rx_opt (RSeq (rx_ilit ''endenc'') (rx_alt [rx_ilit ''y'', rx_ilit ''ies'']))),
       RSeq (rx_ilit ''lock'') (rx_opt (rx_ilit ''file'')), rx_ilit ''package'']],
     rx_seq [rx_ilit ''update'', rx_spaces1, rx_plus (RSet (\<lambda>c. \<not> is_space c)), rx_spaces1, rx_ilit ''to'', rx_spaces1],
     rx_seq [rx_ilit ''update'', rx_spaces1, rx_ilit ''dependency'', rx_spaces1],
     rx_seq [rx_opt (rx_ilit ''lock''), rx_ilit ''file'', rx_spaces1, rx_ilit ''update''],
     rx_seq [rx_ilit ''release'', rx_spaces1, rx_opt (rx_ilit ''v''), RSet is_digit],
     rx_seq [rx_ilit ''version'', rx_spaces1, rx_ilit ''bump''],
     rx_seq [rx_opt (rx_ilit ''auto''), rx_alt [rx_ilit ''generate'', rx_ilit ''gen''], rx_opt (rx_ilit ''d''), rx_space]])"

definition NOISE_FILE_ONLY_RE :: rx where
  "NOISE_FILE_ONLY_RE = rx_seq [RBol, rx_lit ''+++ b/'', rx_alt (
     map rx_lit [''package-lock.json'', ''yarn.lock'', ''pnpm-lock.yaml'', ''Pipfile.lock'', ''poetry.lock'', ''go.sum'', ''Cargo.lock''] @
     [RSeq (RStar (RSet (\<lambda>c. c \<noteq> nl))) (rx_lit ''.snap''),
      rx_seq [RStar (RSet (\<lambda>c. c \<noteq> nl)), rx_lit ''_generated.'', rx_plus (RSet (in_range (CHR ''a'') (CHR ''z'')))]]), REol]"

definition NOISE_BOT_LOGINS :: "string list" where
  "NOISE_BOT_LOGINS = [''renovate'', ''renovate[bot]'', ''dependabot'', ''dependabot[bot]'']"

text \<open>\<open>s.split("\n")\<close>: the lines \<open>^\<close> and \<open>$\<close> see; \<open>findall\<close> then takes the file names.\<close>

fun split_nl :: "string \<Rightarrow> string list" where
  "split_nl [] = [[]]"
| "split_nl (c # cs) = (if c = nl then [] # split_nl cs
     else case split_nl cs of [] \<Rightarrow> [[c]] | x # xs \<Rightarrow> (c # x) # xs)"

definition diff_files :: "string \<Rightarrow> string list" where
  "diff_files d = List.map_filter match_b_file (split_nl d)"

definition is_curriculum_noise :: "pull_request \<Rightarrow> bool \<times> string" where
  "is_curriculum_noise pr =
     (if re_match NOISE_TITLE_RE (pq_title pr)
      then (True, ''curriculum_noise: title matches noise pattern: '' @ py_repr (pq_title pr))
      else if lower (pq_author_login pr) \<in> set NOISE_BOT_LOGINS
      then (True, ''curriculum_noise: bot author '' @ py_repr (pq_author_login pr))
      else if diff_files (pq_diff pr) \<noteq> [] \<and>
        list_all (\<lambda>f. re_match NOISE_FILE_ONLY_RE (''+++ b/'' @ f)) (diff_files (pq_diff pr))
      then (True, ''curriculum_noise: diff only touches lockfiles/generated files'')
      else (False, []))"

section \<open>Distillation\<close>

record distillation_result =
  di_pr_number :: int
  di_owner_repo :: string
  di_author_login :: string
  di_title :: string
  di_body :: string
  di_rung :: string
  di_is_bugfix :: bool
  di_kind :: string
  di_session_context :: "string option"
  di_raw_anchors :: string

definition insight_parts :: "pull_request \<Rightarrow> bool \<Rightarrow> string option \<Rightarrow> string list" where
  "insight_parts pr is_bugfix session_ctx =
     (if is_bugfix then
        [''Failure-mode: '' @ pq_title pr @ ''.''] @
        (if pq_body pr \<noteq> [] then [''Root cause / guard: '' @ strip (pq_body pr)] else []) @
        (if pq_review_comments pr \<noteq> [] then [''Review notes: '' @ join ''; '' (take 3 (pq_review_comments pr))] else []) @
        (if pq_linked_issues pr \<noteq> [] then [''Related: '' @ join ''; '' (take 2 (pq_linked_issues pr))] else [])
      else
        [pq_title pr] @
        (if pq_body pr \<noteq> [] then [strip (pq_body pr)] else []) @
        (if pq_review_comments pr \<noteq> [] then [''Review: '' @ join ''; '' (take 3 (pq_review_comments pr))] else []) @
        (if pq_linked_issues pr \<noteq> [] then [''See: '' @ join ''; '' (take 2 (pq_linked_issues pr))] else [])) @
     (case session_ctx of Some c \<Rightarrow> if c \<noteq> [] then [''Session context: '' @ c] else [] | None \<Rightarrow> [])"

definition build_insight_body :: "pull_request \<Rightarrow> bool \<Rightarrow> string option \<Rightarrow> string" where
  "build_insight_body pr is_bugfix session_ctx =
     generalize_repo_specifics
       (scrub_secrets (join [nl, nl] (filter (\<lambda>p. p \<noteq> []) (insight_parts pr is_bugfix session_ctx)))) (pq_owner_repo pr)"

text \<open>The structured answer of the language model; \<open>None\<close> for a key that is missing.\<close>

record llm_output =
  lo_insight :: string
  lo_rung :: "string option"
  lo_kind :: "string option"

definition DIFF_PREVIEW_CHARS :: nat where
  "DIFF_PREVIEW_CHARS = 3000"

definition safe_text :: "pull_request \<Rightarrow> string \<Rightarrow> string" where
  "safe_text pr t = generalize_repo_specifics (scrub_secrets t) (pq_owner_repo pr)"

text \<open>The prompt up to the line with the session context.\<close>

definition prompt_head :: "pull_request \<Rightarrow> bool \<Rightarrow> string" where
  "prompt_head pr is_bugfix =
     (let diff_preview = take DIFF_PREVIEW_CHARS (pq_diff pr) @
            (if DIFF_PREVIEW_CHARS < length (pq_diff pr) then nl # ''... [diff truncated]'' else []);
          safe_title = safe_text pr (pq_title pr);
          safe_body = safe_text pr (pq_body pr);
          safe_diff = safe_text pr diff_preview;
          bugfix_hint = (if is_bugfix then '' (this is a targeted bug-fix PR)'' else [])
      in ''You are a senior engineer reviewing a merged pull request'' @ bugfix_hint @ ''.'' @ [nl] @
         ''Extract a single, transferable engineering insight from it.'' @ [nl, nl] @
         ''PR title: '' @ safe_title @ [nl] @
         ''PR description:'' @ [nl] @ (if safe_body \<noteq> [] then safe_body else ''(none)'') @ [nl, nl] @
         ''Unified diff (may be truncated):'' @ [nl] @ ''```diff'' @ [nl] @ safe_diff @ [nl] @ ''```'')"

definition distill_prompt :: "pull_request \<Rightarrow> string option \<Rightarrow> bool \<Rightarrow> string" where
  "distill_prompt pr session_ctx is_bugfix =
     (let session_line = (case session_ctx of Some c \<Rightarrow> if c \<noteq> [] then nl # ''Session context: '' @ c else [] | None \<Rightarrow> [])
      in prompt_head pr is_bugfix @ session_line @ [nl, nl] @ ''Respond with a JSON object matching the required schema.'')"

text \<open>\<open>run_judge\<close> is \<open>None\<close> for a prompt on which the call raises \<open>JudgeError\<close>.\<close>

definition distill_via_llm :: "(string \<Rightarrow> llm_output option) \<Rightarrow> pull_request \<Rightarrow> string option \<Rightarrow> bool \<Rightarrow> llm_output option" where
  "distill_via_llm run_judge pr session_ctx is_bugfix = run_judge (distill_prompt pr session_ctx is_bugfix)"

definition distill_pr :: "(string \<Rightarrow> llm_output option) \<Rightarrow> pull_request \<Rightarrow> string option \<Rightarrow> distillation_result" where
  "distill_pr run_judge pr session_context =
     (let is_bugfix = is_targeted_bugfix pr;
          rung = infer_verification_rung pr;
          result = (\<lambda>body rung is_bugfix kind. \<lparr>di_pr_number = pq_number pr, di_owner_repo = pq_owner_repo pr,
            di_author_login = pq_author_login pr, di_title = pq_title pr, di_body = body, di_rung = rung,
            di_is_bugfix = is_bugfix, di_kind = kind, di_session_context = session_context,
            di_raw_anchors = pq_diff pr\<rparr>)
      in case distill_via_llm run_judge pr session_context is_bugfix of
          Some out \<Rightarrow>
            (let body = (case session_context of
                   Some c \<Rightarrow> if c \<noteq> [] then lo_insight out @ [nl, nl] @ ''Session context: '' @ c else lo_insight out
                 | None \<Rightarrow> lo_insight out);
                 kind_raw = (case lo_kind out of Some k \<Rightarrow> k | None \<Rightarrow> ''normal'');
                 kind = (if kind_raw \<in> {''normal'', ''bugfix-failure-mode''} then kind_raw else ''normal'')
             in result body (case lo_rung out of Some r \<Rightarrow> r | None \<Rightarrow> rung) (kind = ''bugfix-failure-mode'') kind)
        | None \<Rightarrow>
            result (build_insight_body pr is_bugfix session_context) rung is_bugfix
              (if is_bugfix then ''bugfix-failure-mode'' else ''normal''))"

section \<open>Listing the pull requests of a repository\<close>

text \<open>One decoded item of the list endpoint, absent keys at the defaults of \<open>_parse_pr\<close>.\<close>

record pr_item =
  it_base_ref :: string
  it_number :: int
  it_title :: string
  it_body :: string
  it_merged_at :: "string option"
  it_login :: string
  it_labels :: "string list"

definition PER_PAGE :: nat where
  "PER_PAGE = 100"

definition parse_pr :: "string \<Rightarrow> string \<Rightarrow> pr_item \<Rightarrow> pull_request option" where
  "parse_pr owner_repo default_branch item =
     (if it_base_ref item \<noteq> default_branch then None
      else Some \<lparr>pq_number = it_number item, pq_title = it_title item, pq_body = it_body item,
        pq_base_branch = it_base_ref item, pq_merged = (it_merged_at item \<noteq> None), pq_merged_at = it_merged_at item,
        pq_author_login = it_login item, pq_diff = [], pq_review_comments = [], pq_linked_issues = [],
        pq_labels = it_labels item, pq_owner_repo = owner_repo\<rparr>)"

record list_options =
  lp_default_branch :: string
  lp_since_pr :: "int option"
  lp_max_prs :: "int option"
  lp_max_pages :: nat
  lp_skip_noise :: bool

text \<open>The items of one page; the flag says that the cap on collected requests is reached.\<close>

fun take_items :: "string \<Rightarrow> list_options \<Rightarrow> pr_item list \<Rightarrow> pull_request list \<Rightarrow> pull_request list \<times> bool" where
  "take_items owner_repo lp [] prs = (prs, False)"
| "take_items owner_repo lp (item # items) prs = (case parse_pr owner_repo (lp_default_branch lp) item of
     None \<Rightarrow> take_items owner_repo lp items prs
   | Some pr \<Rightarrow>
       if (case lp_since_pr lp of Some n \<Rightarrow> pq_number pr \<le> n | None \<Rightarrow> False) then take_items owner_repo lp items prs
       else if lp_skip_noise lp \<and> fst (is_curriculum_noise pr) then take_items owner_repo lp items prs
       else if (case lp_max_prs lp of Some m \<Rightarrow> m \<le> int (length (prs @ [pr])) | None \<Rightarrow> False) then (prs @ [pr], True)
       else take_items owner_repo lp items (prs @ [pr]))"

text \<open>
  The loop over pages, numbered from 1; the first argument bounds the iterations and the
  result is \<open>None\<close> when it is used up.
\<close>

fun list_pages ::
    "nat \<Rightarrow> (nat \<Rightarrow> pr_item list) \<Rightarrow> string \<Rightarrow> list_options \<Rightarrow> nat \<Rightarrow> pull_request list \<Rightarrow> pull_request list option" where
  "list_pages 0 pages owner_repo lp page prs = None"
| "list_pages (Suc fuel) pages owner_repo lp page prs =
     (if lp_max_prs lp \<noteq> None \<and> lp_max_pages lp < page then Some (sort_key pq_number prs)
      else if pages page = [] then Some (sort_key pq_number prs)
      else case take_items owner_repo lp (pages page) prs of
          (prs', True) \<Rightarrow> Some (sort_key pq_number prs')
        | (prs', False) \<Rightarrow>
            if length (pages page) < PER_PAGE then Some (sort_key pq_number prs')
            else list_pages fuel pages owner_repo lp (page + 1) prs')"

definition list_merged_pull_requests ::
    "nat \<Rightarrow> (nat \<Rightarrow> pr_item list) \<Rightarrow> string \<Rightarrow> list_options \<Rightarrow> pull_request list option" where
  "list_merged_pull_requests fuel pages owner_repo lp = list_pages fuel pages owner_repo lp 1 []"

section \<open>The token of the App client\<close>

record app_client =
  ac_token :: "string option"
  ac_token_expires_at :: pyfloat

definition new_app_client :: "string option \<Rightarrow> app_client" where
  "new_app_client token = \<lparr>ac_token = token, ac_token_expires_at = 0\<rparr>"

text \<open>\<open>now\<close> is the answer of \<open>time.time()\<close>.\<close>

definition ensure_token :: "pyfloat \<Rightarrow> (app_client, unit) py" where
  "ensure_token now = (\<lambda>c.
     if ac_token c \<noteq> None \<and> now < ac_token_expires_at c then (Inr (), c)
     else (Inl NotImplementedError, c))"

end
