(* ===== verification/GithubProps.thy ===== *)
theory GithubProps
  imports Github
begin

text \<open>
  Properties of the pull request reader: what the two leak guards keep out of an insight and
  what passes them, what counts as a test, and the bounds of the page loop.
\<close>

section \<open>Tokens and repository names\<close>

text \<open>A GitHub token, classic or fine-grained, as the scrubber's pattern describes it.\<close>

definition is_github_pat :: "string \<Rightarrow> bool" where
  "is_github_pat k \<longleftrightarrow>
     (take 4 k = ''ghp_'' \<and> length k = 40 \<and> list_all alnum (drop 4 k)) \<or>
     (take 11 k = ''github_pat_'' \<and> length k = 93 \<and> list_all (alnum_or ''_'') (drop 11 k))"

lemma github_pat_cases:
  assumes "is_github_pat k"
  obtains v where "k = ''ghp_'' @ v" "length v = 36" "list_all alnum v"
    | v where "k = ''github_pat_'' @ v" "length v = 82" "list_all (alnum_or ''_'') v"
proof -
  have split: "take n k = w \<Longrightarrow> k = w @ drop n k" for n w by (metis append_take_drop_id)
  from assms consider "take 4 k = ''ghp_'' \<and> length k = 40 \<and> list_all alnum (drop 4 k)"
    | "take 11 k = ''github_pat_'' \<and> length k = 93 \<and> list_all (alnum_or ''_'') (drop 11 k)"
    by (auto simp: is_github_pat_def)
  then show thesis
  proof cases
    case 1
    then show ?thesis using that(1) [OF split [of 4]] by simp
  next
    case 2
    then show ?thesis using that(2) [OF split [of 11]] by simp
  qed
qed

lemma github_pat_matches: "is_github_pat k \<Longrightarrow> ends GITHUB_PAT_RE (l, k @ s) \<noteq> []"
proof (elim github_pat_cases)
  fix v assume "k = ''ghp_'' @ v" "length v = 36" "list_all alnum v"
  then show ?thesis
    using ends_lit [of "''ghp_''" l "v @ s"] ends_times [of alnum v _ s] by (simp add: GITHUB_PAT_RE_def)
next
  fix v assume "k = ''github_pat_'' @ v" "length v = 82" "list_all (alnum_or ''_'') v"
  then show ?thesis
    using ends_lit [of "''github_pat_''" l "v @ s"] ends_times [of "alnum_or ''_''" v _ s] by (simp add: GITHUB_PAT_RE_def)
qed

lemma alnum_bracketless: "\<not> alnum_or ''_'' (CHR ''<'')" "\<not> alnum_or ''_'' (CHR ''>'')"
  "\<not> alnum (CHR ''<'')" "\<not> alnum (CHR ''>'')"
  by code_simp+

lemma github_pat_bracketless: "bracketless is_github_pat"
  unfolding bracketless_def
proof (intro allI impI)
  fix k assume "is_github_pat k"
  then show "k \<noteq> [] \<and> CHR ''<'' \<notin> set k \<and> CHR ''>'' \<notin> set k"
    by (elim github_pat_cases) (use alnum_bracketless in \<open>auto simp: list_all_iff\<close>)
qed

lemma free_short: "(\<And>k. W k \<Longrightarrow> length b < length k) \<Longrightarrow> free W b"
  by (auto simp: free_def dest!: sublist_length_le) (metis leD)

lemma free_pat_short: "length b < 40 \<Longrightarrow> free is_github_pat b"
  by (rule free_short) (auto simp: is_github_pat_def)

text \<open>One pass with a placeholder \<open><b>\<close>.\<close>

lemma free_re_sub:
  assumes "consuming r" "bracketless W" "free W b" "free W t" "repl = CHR ''<'' # b @ ''>''"
  shows "free W (re_sub r repl t)"
  unfolding re_sub_def assms(5) by (rule free_sub) (use assms in auto)

lemmas scrub_pattern_defs = AWS_KEY_RE_def JWT_RE_def BEARER_RE_def GITHUB_PAT_RE_def PEM_RE_def CREDENTIAL_RE_def
lemmas generalize_pattern_defs = REPO_URL_RE_def OWNER_REPO_RE_def HOST_RE_def PACKAGE_RE_def
lemmas rx_shape_defs = rx_plus_def rx_opt_def rx_at_least_def rx_times_def

lemma consuming_scrub: "consuming GITHUB_PAT_RE" "consuming PEM_RE" "consuming CREDENTIAL_RE"
  by (simp_all add: scrub_pattern_defs rx_shape_defs)

lemma consuming_generalize: "consuming REPO_URL_RE" "consuming OWNER_REPO_RE" "consuming HOST_RE" "consuming PACKAGE_RE"
  by (simp_all add: generalize_pattern_defs rx_shape_defs)

lemma scrubbed_free_of_tokens: "free is_github_pat (scrub_secrets t)"
proof -
  let ?t3 = "re_sub BEARER_RE ''Bearer <TOKEN>'' (re_sub JWT_RE ''<JWT>'' (re_sub AWS_KEY_RE ''<AWS_KEY>'' t))"
  let ?t4 = "re_sub GITHUB_PAT_RE ''<GITHUB_PAT>'' ?t3"
  have "free is_github_pat (sub_from GITHUB_PAT_RE (CHR ''<'' # ''GITHUB_PAT'' @ ''>'') [] ?t3)"
    by (rule free_sub) (auto simp: consuming_scrub github_pat_bracketless free_pat_short github_pat_matches)
  then have "free is_github_pat ?t4" by (simp add: re_sub_def)
  then have "free is_github_pat (re_sub PEM_RE ''<PEM_HEADER>'' ?t4)"
    by (rule free_re_sub [OF consuming_scrub(2) github_pat_bracketless, where b = "''PEM_HEADER''", rotated])
       (simp_all add: free_pat_short)
  then have "free is_github_pat (re_sub CREDENTIAL_RE ''<CREDENTIAL>'' (re_sub PEM_RE ''<PEM_HEADER>'' ?t4))"
    by (rule free_re_sub [OF consuming_scrub(3) github_pat_bracketless, where b = "''CREDENTIAL''", rotated])
       (simp_all add: free_pat_short)
  then show ?thesis by (simp add: scrub_secrets_def sub_all_def SECRET_PATTERNS_def)
qed

text \<open>The generalising passes keep a text free of words that cannot overlap a placeholder.\<close>

lemma generalize_keeps_free:
  assumes "bracketless W" "free W ''REPO''" "free W ''HOST''" "free W ''PKG''"
    and "free W (if o' \<noteq> [] then re_sub (rx_lit o') ''<REPO>'' t else t)"
  shows "free W (generalize_repo_specifics t o')"
proof -
  have repo: "free W (re_sub r ''<REPO>'' u)" if "consuming r" "free W u" for r u
    by (rule free_re_sub [OF that(1) assms(1,2) that(2)]) simp
  have host: "free W (re_sub r ''<HOST>'' u)" if "consuming r" "free W u" for r u
    by (rule free_re_sub [OF that(1) assms(1,3) that(2)]) simp
  have pkg: "free W (re_sub r ''<PKG>'' u)" if "consuming r" "free W u" for r u
    by (rule free_re_sub [OF that(1) assms(1,4) that(2)]) simp
  show ?thesis unfolding generalize_repo_specifics_def sub_all_def GENERALIZE_PATTERNS_def
    by (simp only: foldl.simps prod.case) (intro repo host pkg consuming_generalize assms(5))
qed

lemma template_free_of_tokens: "free is_github_pat (build_insight_body pr b ctx)"
  unfolding build_insight_body_def
proof (rule generalize_keeps_free [OF github_pat_bracketless])
  let ?t = "scrub_secrets (join [nl, nl] (filter (\<lambda>p. p \<noteq> []) (insight_parts pr b ctx)))"
  show "free is_github_pat (if pq_owner_repo pr \<noteq> [] then re_sub (rx_lit (pq_owner_repo pr)) ''<REPO>'' ?t else ?t)"
    using free_re_sub [OF _ github_pat_bracketless free_pat_short scrubbed_free_of_tokens, of "rx_lit (pq_owner_repo pr)" "''REPO''"]
    by (simp add: scrubbed_free_of_tokens)
qed (simp_all add: free_pat_short)

lemma template_free_of_repo:
  assumes "CHR ''/'' \<in> set (pq_owner_repo pr)" "CHR ''<'' \<notin> set (pq_owner_repo pr)" "CHR ''>'' \<notin> set (pq_owner_repo pr)"
  shows "free (\<lambda>k. k = pq_owner_repo pr) (generalize_repo_specifics t (pq_owner_repo pr))"
proof (rule generalize_keeps_free)
  let ?o = "pq_owner_repo pr"
  have ne: "?o \<noteq> []" using assms(1) by auto
  show br: "bracketless (\<lambda>k. k = ?o)" using assms ne by (auto simp: bracketless_def)
  have slash: "CHR ''/'' \<notin> set b \<Longrightarrow> free (\<lambda>k. k = ?o) b" for b
    using assms(1) by (auto simp: free_def dest!: set_mono_sublist)
  show "free (\<lambda>k. k = ?o) ''REPO''" "free (\<lambda>k. k = ?o) ''HOST''" "free (\<lambda>k. k = ?o) ''PKG''"
    by (simp_all add: slash)
  have "free (\<lambda>k. k = ?o) (sub_from (rx_lit ?o) (CHR ''<'' # ''REPO'' @ ''>'') [] t)"
    by (rule free_sub [OF _ br slash]) (use ne in auto)
  then show "free (\<lambda>k. k = ?o) (if ?o \<noteq> [] then re_sub (rx_lit ?o) ''<REPO>'' t else t)"
    using ne by (simp add: re_sub_def)
qed

text \<open>the two leak guards hold on the template path: when the language model gives no answer,
  the insight contains no GitHub token, whatever the pull request and the session context
  contain, and it does not name the repository.\<close>

theorem template_insight_leaks_nothing:
  assumes "run_judge (distill_prompt pr ctx (is_targeted_bugfix pr)) = None"
    and "CHR ''/'' \<in> set (pq_owner_repo pr)" "CHR ''<'' \<notin> set (pq_owner_repo pr)" "CHR ''>'' \<notin> set (pq_owner_repo pr)"
  shows "\<not> contains_str (pq_owner_repo pr) (di_body (distill_pr run_judge pr ctx)) \<and>
    (is_github_pat k \<longrightarrow> \<not> contains_str k (di_body (distill_pr run_judge pr ctx)))"
proof -
  have body: "di_body (distill_pr run_judge pr ctx) = build_insight_body pr (is_targeted_bugfix pr) ctx"
    using assms(1) by (simp add: distill_pr_def distill_via_llm_def Let_def)
  have "free (\<lambda>k. k = pq_owner_repo pr) (build_insight_body pr (is_targeted_bugfix pr) ctx)"
    unfolding build_insight_body_def by (rule template_free_of_repo [OF assms(2-4)])
  then show ?thesis
    using template_free_of_tokens [of pr "is_targeted_bugfix pr" ctx] by (simp add: body free_def contains_str_def)
qed

definition demo_pr :: pull_request where
  "demo_pr = \<lparr>pq_number = 7, pq_title = ''Cache reads'', pq_body = [], pq_base_branch = ''main'', pq_merged = True,
     pq_merged_at = None, pq_author_login = ''ann'', pq_diff = [], pq_review_comments = [], pq_linked_issues = [],
     pq_labels = [], pq_owner_repo = ''acme/app''\<rparr>"

definition demo_token :: string where
  "demo_token = ''ghp_'' @ replicate 36 (CHR ''a'')"

lemma demo_token_pat: "is_github_pat demo_token"
  by code_simp

theorem template_insight_leaks_nothing_witness:
  "\<not> contains_str demo_token (di_body (distill_pr (\<lambda>_. None) demo_pr (Some demo_token)))"
  using template_insight_leaks_nothing [of "\<lambda>_. None" demo_pr "Some demo_token" demo_token] demo_token_pat
  by (simp add: demo_pr_def)

text \<open>with an answer of the language model neither guard runs on the session context: it
  reaches both the prompt and the stored insight verbatim, and so does the model's own text.\<close>

theorem session_context_passes_unscrubbed:
  assumes "run_judge (distill_prompt pr (Some c) (is_targeted_bugfix pr)) = Some out" "c \<noteq> []"
  shows "contains_str c (distill_prompt pr (Some c) (is_targeted_bugfix pr)) \<and>
    contains_str c (di_body (distill_pr run_judge pr (Some c))) \<and>
    contains_str (lo_insight out) (di_body (distill_pr run_judge pr (Some c)))"
proof (intro conjI)
  have "di_body (distill_pr run_judge pr (Some c)) = lo_insight out @ ([nl, nl] @ ''Session context: '') @ c @ []"
    using assms by (simp add: distill_pr_def distill_via_llm_def Let_def)
  note body = this
  show "contains_str c (di_body (distill_pr run_judge pr (Some c)))"
    unfolding contains_str_def sublist_def body by (metis append_assoc)
  show "contains_str (lo_insight out) (di_body (distill_pr run_judge pr (Some c)))"
    unfolding contains_str_def sublist_def body by (metis append_Nil)
  show "contains_str c (distill_prompt pr (Some c) (is_targeted_bugfix pr))"
  proof -
    have "distill_prompt pr (Some c) (is_targeted_bugfix pr) = (prompt_head pr (is_targeted_bugfix pr) @ nl # ''Session context: '') @
        c @ [nl, nl] @ ''Respond with a JSON object matching the required schema.''"
      using assms(2) by (simp add: distill_prompt_def)
    then show ?thesis unfolding contains_str_def sublist_def by blast
  qed
qed

definition demo_output :: llm_output where
  "demo_output = \<lparr>lo_insight = ''Use the cache.'', lo_rung = None, lo_kind = None\<rparr>"

theorem session_context_passes_unscrubbed_witness:
  "is_github_pat demo_token \<and> contains_str demo_token (di_body (distill_pr (\<lambda>_. Some demo_output) demo_pr (Some demo_token)))"
  using session_context_passes_unscrubbed [of "\<lambda>_. Some demo_output" demo_pr demo_token demo_output] demo_token_pat
  by (simp add: demo_token_def)

section \<open>What counts as a test\<close>

lemma star_ends_set:
  assumes "\<And>l x xs. p x \<Longrightarrow> f (l, x # xs) = [(x # l, xs)]"
  shows "list_all p v \<Longrightarrow> length v \<le> n \<Longrightarrow> (rev v @ l, s) \<in> set (star_ends f n (l, v @ s))"
proof (induction v arbitrary: l n)
  case Nil
  then show ?case by (cases n) auto
next
  case (Cons x v)
  then obtain m where n: "n = Suc m" by (cases n) auto
  have "(rev v @ x # l, s) \<in> set (star_ends f m (x # l, v @ s))" using Cons n by simp
  then show ?case using Cons.prems n assms by simp
qed

lemma ends_star_set: "list_all p v \<Longrightarrow> (rev v @ l, s) \<in> set (ends (RStar (RSet p)) (l, v @ s))"
  using star_ends_set [of p "ends (RSet p)" v "length (v @ s)" l s] by simp

lemma ends_RSeqI: "e \<in> set (ends a c) \<Longrightarrow> d \<in> set (ends b e) \<Longrightarrow> d \<in> set (ends (RSeq a b) c)"
  by auto

text \<open>any mention of a test directory in a diff, in a context line, a removed line or the
  text of a string, makes the pull request count as one that adds a test, with the full weight.\<close>

theorem any_mention_counts_as_test:
  assumes "contains_str ''/test/'' (pq_diff pr)"
  shows "infer_verification_rung pr = ''test''"
proof -
  obtain u v where uv: "pq_diff pr = u @ ''/test/'' @ v" using assms by (auto simp: contains_str_def sublist_def)
  define w where "w = rev (takeWhile (\<lambda>c. c \<noteq> nl) (rev u))"
  define u1 where "u1 = rev (dropWhile (\<lambda>c. c \<noteq> nl) (rev u))"
  have u: "u = u1 @ w" unfolding w_def u1_def by (metis rev_append rev_rev_ident takeWhile_dropWhile_id)
  have w: "list_all (\<lambda>c. c \<noteq> nl) w" by (auto simp: w_def list_all_iff dest: set_takeWhileD)
  have bol: "rev u1 = [] \<or> hd (rev u1) = nl" using hd_dropWhile [of "\<lambda>c. c \<noteq> nl" "rev u"] by (auto simp: u1_def)
  let ?c = "(rev u1, w @ ''/test/'' @ v)"
  let ?d = "(''/'' @ rev w @ rev u1, ''test/'' @ v)"
  have 1: "?c \<in> set (ends (RAlt RBol (rx_lit ''+++ b/'')) ?c)" using bol by simp
  have "?d \<in> set (ends (RSeq (RStar (RSet (\<lambda>c. c \<noteq> nl))) rx_slash) ?c)"
    by (rule ends_RSeqI [OF ends_star_set [OF w]]) simp
  then have 2: "?d \<in> set (ends (rx_opt (RSeq (RStar (RSet (\<lambda>c. c \<noteq> nl))) rx_slash)) ?c)"
    by (simp add: rx_opt_def del: ends.simps(3))
  have rx3: "rx_seq [x, y, z] = RSeq x (RSeq y (RSeq z REps))" for x y z by (simp add: rx_seq_def)
  have "(rev ''test/'' @ fst ?d, v) \<in> set (ends (RSeq (rx_lit ''test'') (RSeq (rx_opt (rx_lit ''s'')) (RSeq rx_slash REps))) ?d)"
    using ends_lit [of "''test''" "fst ?d" "''/'' @ v"] by (simp add: rx_opt_def)
  then have 3: "(rev ''test/'' @ fst ?d, v) \<in> set (ends (rx_alt (rx_seq [rx_lit ''test'', rx_opt (rx_lit ''s''), rx_slash] # r # rs)) ?d)" for r rs
    unfolding rx3 rx_alt.simps ends.simps(4) by simp
  have "(rev ''test/'' @ fst ?d, v) \<in> set (ends TEST_FILE_RE ?c)"
    unfolding TEST_FILE_RE_def rx3 [of "RAlt _ _"] by (intro ends_RSeqI [OF 1] ends_RSeqI [OF 2] ends_RSeqI [OF 3]) simp
  then have "re_search TEST_FILE_RE (pq_diff pr)"
    unfolding re_search_iff uv u by (intro exI [of _ u1] exI [of _ "w @ ''/test/'' @ v"]) force
  then show ?thesis by (simp add: infer_verification_rung_def)
qed

theorem any_mention_counts_as_test_witness:
  "infer_verification_rung (demo_pr\<lparr>pq_title := ''docs: typo'', pq_diff := ''-see a/test/b''\<rparr>) = ''test''"
proof (rule any_mention_counts_as_test)
  show "contains_str ''/test/'' (pq_diff (demo_pr\<lparr>pq_title := ''docs: typo'', pq_diff := ''-see a/test/b''\<rparr>))"
    by (simp add: contains_str_def demo_pr_def) code_simp
qed

section \<open>The page loop\<close>

definition wanted :: "list_options \<Rightarrow> pull_request \<Rightarrow> bool" where
  "wanted lp pr \<longleftrightarrow> pq_base_branch pr = lp_default_branch lp \<and>
     (case lp_since_pr lp of Some n \<Rightarrow> n < pq_number pr | None \<Rightarrow> True) \<and>
     (lp_skip_noise lp \<longrightarrow> \<not> fst (is_curriculum_noise pr))"

lemma parse_pr_base: "parse_pr o' b item = Some pr \<Longrightarrow> pq_base_branch pr = b"
  by (auto simp: parse_pr_def split: if_splits)

text \<open>One page keeps to the cap: below it unless the flag says it is reached.\<close>

lemma take_items_bounded:
  assumes "lp_max_prs lp = Some m" "int (length prs) < max 1 m" "\<forall>pr \<in> set prs. wanted lp pr"
  shows "case take_items o' lp items prs of (prs', full) \<Rightarrow>
    (\<forall>pr \<in> set prs'. wanted lp pr) \<and> int (length prs') \<le> max 1 m \<and> (\<not> full \<longrightarrow> int (length prs') < max 1 m)"
  using assms(2,3)
proof (induction items arbitrary: prs)
  case Nil
  then show ?case by simp
next
  case (Cons item items)
  show ?case
  proof (cases "parse_pr o' (lp_default_branch lp) item")
    case None
    then show ?thesis using Cons by simp
  next
    case (Some pr)
    have w: "wanted lp pr \<longleftrightarrow> \<not> ((case lp_since_pr lp of Some n \<Rightarrow> pq_number pr \<le> n | None \<Rightarrow> False) \<or>
        lp_skip_noise lp \<and> fst (is_curriculum_noise pr))"
      using parse_pr_base [OF Some] by (cases "lp_since_pr lp") (auto simp: wanted_def not_le)
    consider (skip) "(case lp_since_pr lp of Some n \<Rightarrow> pq_number pr \<le> n | None \<Rightarrow> False) \<or>
        lp_skip_noise lp \<and> fst (is_curriculum_noise pr)" | (full) "wanted lp pr" "m \<le> int (length (prs @ [pr]))"
      | (add) "wanted lp pr" "int (length (prs @ [pr])) < m"
      unfolding w by linarith
    then show ?thesis
    proof cases
      case skip
      then show ?thesis using Some Cons by auto
    next
      case full
      then show ?thesis using Some Cons.prems assms(1) by (auto simp: wanted_def split: option.splits)
    next
      case add
      then have "case take_items o' lp items (prs @ [pr]) of (prs', full) \<Rightarrow> (\<forall>pr \<in> set prs'. wanted lp pr) \<and>
          int (length prs') \<le> max 1 m \<and> (\<not> full \<longrightarrow> int (length prs') < max 1 m)"
        using Cons.prems by (intro Cons.IH) auto
      then show ?thesis using Some assms(1) add by (auto simp: wanted_def split: option.splits)
    qed
  qed
qed

lemma list_pages_bounded:
  assumes "lp_max_prs lp = Some m" "lp_max_pages lp < page + n"
    and "int (length prs) < max 1 m" "\<forall>pr \<in> set prs. wanted lp pr"
  shows "\<exists>res. list_pages (Suc n) pages o' lp page prs = Some res \<and> (\<forall>pr \<in> set res. wanted lp pr) \<and>
    sorted (map pq_number res) \<and> int (length res) \<le> max 1 m"
  using assms(2-4)
proof (induction n arbitrary: page prs)
  case 0
  then show ?case using assms(1) by auto
next
  case (Suc n)
  obtain prs' full where t: "take_items o' lp (pages page) prs = (prs', full)" by fastforce
  have b: "\<forall>pr \<in> set prs'. wanted lp pr" "int (length prs') \<le> max 1 m" "\<not> full \<Longrightarrow> int (length prs') < max 1 m"
    using take_items_bounded [OF assms(1) Suc.prems(2,3), of o' "pages page"] t by auto
  have next_page: "\<exists>res. list_pages (Suc n) pages o' lp (page + 1) prs' = Some res \<and> (\<forall>pr \<in> set res. wanted lp pr) \<and>
      sorted (map pq_number res) \<and> int (length res) \<le> max 1 m" if "\<not> full"
    using Suc.prems(1) b that by (intro Suc.IH) auto
  show ?case
  proof (cases "lp_max_pages lp < page \<or> pages page = []")
    case True
    then show ?thesis using assms(1) Suc.prems by auto
  next
    case False
    show ?thesis
    proof (cases "full \<or> length (pages page) < PER_PAGE")
      case True
      then show ?thesis using False b t by (cases full) auto
    next
      case go: False
      then show ?thesis using False next_page t by (simp add: list_pages.simps(2) [of "Suc n"])
    qed
  qed
qed

text \<open>C17: with a cap the listing ends after at most \<open>max_pages\<close> requests for pages, whatever the
  server answers; it returns at most as many pull requests as the cap allows, ordered by number,
  all of the default branch, beyond the cursor and, when asked, without noise.\<close>

theorem capped_listing_returns:
  assumes "lp_max_prs lp = Some m" "1 \<le> m"
  shows "\<exists>prs. list_merged_pull_requests (lp_max_pages lp + 1) pages owner_repo lp = Some prs \<and>
    int (length prs) \<le> m \<and> sorted (map pq_number prs) \<and>
    (\<forall>pr \<in> set prs. pq_base_branch pr = lp_default_branch lp \<and>
       (case lp_since_pr lp of Some n \<Rightarrow> n < pq_number pr | None \<Rightarrow> True) \<and>
       (lp_skip_noise lp \<longrightarrow> \<not> fst (is_curriculum_noise pr)))"
  using list_pages_bounded [OF assms(1), of 1 "lp_max_pages lp" "[]" pages owner_repo] assms(2)
  by (auto simp: list_merged_pull_requests_def wanted_def)

definition demo_item :: pr_item where
  "demo_item = \<lparr>it_base_ref = ''main'', it_number = 4, it_title = ''Cache reads'', it_body = [], it_merged_at = None,
     it_login = ''ann'', it_labels = []\<rparr>"

definition demo_options :: list_options where
  "demo_options = \<lparr>lp_default_branch = ''main'', lp_since_pr = None, lp_max_prs = Some 2, lp_max_pages = 5, lp_skip_noise = False\<rparr>"

theorem capped_listing_returns_witness:
  "\<exists>prs. list_merged_pull_requests 6 (\<lambda>_. replicate 100 demo_item) ''acme/app'' demo_options = Some prs \<and> length prs \<le> 2"
  using capped_listing_returns [of demo_options 2 "\<lambda>_. replicate 100 demo_item" "''acme/app''"]
  by (auto simp: demo_options_def)

text \<open>Closed pull requests that were not merged are listed, and counted, too.\<close>

lemma unmerged_listed:
  "\<exists>pr. list_merged_pull_requests 1 (\<lambda>_. [demo_item]) ''acme/app'' demo_options = Some [pr] \<and> \<not> pq_merged pr"
  by (simp add: list_merged_pull_requests_def demo_options_def demo_item_def parse_pr_def PER_PAGE_def)

section \<open>Dead branches\<close>

text \<open>A package identifier is taken for a repository before its own pattern is tried.\<close>

lemma package_taken_for_repository: "generalize_repo_specifics ''use @scope/pkg now'' [] = ''use @<REPO> now''"
  by code_simp

text \<open>A token handed to the App client counts as expired from the start.\<close>

lemma preset_token_refused: "0 \<le> now \<Longrightarrow> ensure_token now (new_app_client t) = (Inl NotImplementedError, new_app_client t)"
  by (simp add: ensure_token_def new_app_client_def)

end
