(* ===== verification/MergeHandler.thy ===== *)
theory MergeHandler
  imports World Corroboration Github
begin

text \<open>
  \<open>merge_handler.py\<close>: what one pull request leads to, and the cursor that makes the service
  process it once.  \<open>now\<close> is the answer of the clock, \<open>run_judge\<close> the language model of the
  distillation.
\<close>

record merge_result =
  mr_action :: string
  mr_pr_number :: int
  mr_owner_repo :: string
  mr_reason :: string
  mr_distillation :: "distillation_result option"
  mr_rung :: string
  mr_rung_weight :: pyfloat
  mr_is_bugfix :: bool
  mr_kind :: string
  mr_anchors_diff :: string

text \<open>A result with the fields after \<open>reason\<close> at their defaults.\<close>

definition no_insight :: "pull_request \<Rightarrow> string \<Rightarrow> string \<Rightarrow> merge_result" where
  "no_insight pr action reason = \<lparr>mr_action = action, mr_pr_number = pq_number pr, mr_owner_repo = pq_owner_repo pr,
     mr_reason = reason, mr_distillation = None, mr_rung = ''bare'', mr_rung_weight = flit (4/10), mr_is_bugfix = False,
     mr_kind = ''normal'', mr_anchors_diff = []\<rparr>"

definition GITHUB_RUNG_WEIGHTS :: "(string, pyfloat) dict" where
  "GITHUB_RUNG_WEIGHTS = [(''test'', 1), (''normal'', flit (6/10)), (''bare'', flit (4/10))]"

definition branch_for_pr :: "pull_request \<Rightarrow> string" where
  "branch_for_pr pr = ''pr-'' @ show_int (pq_number pr)"

text \<open>\<open>if mode == "enforce": store.mark_pr_processed(...)\<close>\<close>

definition mark_if_enforced :: "string \<Rightarrow> string \<Rightarrow> pull_request \<Rightarrow> int \<Rightarrow> (learning_store, unit) py" where
  "mark_if_enforced mode org pr now =
     (if mode = ''enforce''
      then mark_pr_processed \<lparr>pr_org = org, pr_owner_repo = pq_owner_repo pr, pr_pr_number = pq_number pr,
             pr_processed_at = now\<rparr>
      else pret ())"

definition session_context_of :: "string \<Rightarrow> pull_request \<Rightarrow> learning_store \<Rightarrow> string option" where
  "session_context_of org pr s =
     (case get_branch_session_link org (pq_owner_repo pr) (branch_for_pr pr) s of
        None \<Rightarrow> None
      | Some link \<Rightarrow> (case bs_distilledContext link of
          Some c \<Rightarrow> if c \<noteq> [] then Some c else None
        | None \<Rightarrow> None))"

definition handle_merged_pr ::
    "(string \<Rightarrow> llm_output option) \<Rightarrow> pull_request \<Rightarrow> string \<Rightarrow> string \<Rightarrow> string \<Rightarrow> int \<Rightarrow> (learning_store, merge_result) py" where
  "handle_merged_pr run_judge pr org default_branch mode now =
     (if pq_base_branch pr \<noteq> default_branch
      then pret (no_insight pr ''skipped_non_default_base''
        (''base branch '' @ py_repr (pq_base_branch pr) @ '' != default '' @ py_repr default_branch))
      else pbind (pget (is_pr_processed org (pq_owner_repo pr) (pq_number pr))) (\<lambda>processed.
        if processed then pret (no_insight pr ''skipped_idempotent'' ''already processed (PROCESSED# cursor)'')
        else if \<not> pq_merged pr
        then pbind (mark_if_enforced mode org pr now) (\<lambda>_.
               pret (no_insight pr ''negative'' ''closed without merge (negative signal)''))
        else (case is_curriculum_noise pr of
          (True, noise_reason) \<Rightarrow> pbind (mark_if_enforced mode org pr now) (\<lambda>_.
             pret (no_insight pr ''skipped_noise'' noise_reason))
        | (False, _) \<Rightarrow>
            pbind (pget (session_context_of org pr)) (\<lambda>session_ctx.
              let result = distill_pr run_judge pr session_ctx;
                  rung_weight = (case dget GITHUB_RUNG_WEIGHTS (di_rung result) of Some x \<Rightarrow> x | None \<Rightarrow> flit (4/10))
              in pbind (mark_if_enforced mode org pr now) (\<lambda>_.
                 pret \<lparr>mr_action = ''distilled'', mr_pr_number = pq_number pr, mr_owner_repo = pq_owner_repo pr,
                   mr_reason = [], mr_distillation = Some result, mr_rung = di_rung result,
                   mr_rung_weight = rung_weight, mr_is_bugfix = di_is_bugfix result, mr_kind = di_kind result,
                   mr_anchors_diff = pq_diff pr\<rparr>)))))"

end
