(* ===== verification/Uuid5.thy ===== *)
theory Uuid5
  imports PyStr "HOL-Library.Word"
begin

text \<open>
  \<open>str(uuid.uuid5(NAMESPACE_URL, name))\<close> of the Python standard library, from which
  \<open>pipeline.py\<close> derives the identifier of an idea: SHA-1 on 32-bit words over the bytes of the
  name space and the UTF-8 encoded name, the version and variant bits, and the hexadecimal
  rendering.
\<close>

unbundle bit_operations_syntax

section \<open>SHA-1\<close>

definition be32 :: "nat list \<Rightarrow> 32 word" where
  "be32 bs = of_nat (foldl (\<lambda>a b. a * 256 + b) 0 bs)"

fun words_of :: "nat list \<Rightarrow> 32 word list" where
  "words_of (a # b # c # d # rest) = be32 [a, b, c, d] # words_of rest"
| "words_of _ = []"

definition bytes_of_word :: "32 word \<Rightarrow> nat list" where
  "bytes_of_word w = map (\<lambda>k. unat (drop_bit k w AND 255)) [24, 16, 8, 0]"

definition length_bytes :: "nat \<Rightarrow> nat list" where
  "length_bytes n = map (\<lambda>k. (n div 2 ^ k) mod 256) [56, 48, 40, 32, 24, 16, 8, 0]"

text \<open>The message, a bit 1, zeros up to 56 bytes modulo 64, the length in bits.\<close>

definition sha1_pad :: "nat list \<Rightarrow> nat list" where
  "sha1_pad bs = bs @ [128] @ replicate ((119 - length bs mod 64) mod 64) 0 @ length_bytes (8 * length bs)"

text \<open>The message schedule, kept in reverse.\<close>

fun sha1_extend :: "nat \<Rightarrow> 32 word list \<Rightarrow> 32 word list" where
  "sha1_extend 0 ws = ws"
| "sha1_extend (Suc n) ws =
     sha1_extend n (word_rotl 1 ((ws ! 2) XOR (ws ! 7) XOR (ws ! 13) XOR (ws ! 15)) # ws)"

type_synonym sha1_state = "32 word \<times> 32 word \<times> 32 word \<times> 32 word \<times> 32 word"

definition sha1_fk :: "nat \<Rightarrow> 32 word \<Rightarrow> 32 word \<Rightarrow> 32 word \<Rightarrow> 32 word" where
  "sha1_fk t b c d =
     (if t < 20 then ((b AND c) OR (NOT b AND d)) + 0x5A827999
      else if t < 40 then (b XOR c XOR d) + 0x6ED9EBA1
      else if t < 60 then ((b AND c) OR (b AND d) OR (c AND d)) + 0x8F1BBCDC
      else (b XOR c XOR d) + 0xCA62C1D6)"

fun sha1_rounds :: "nat \<Rightarrow> 32 word list \<Rightarrow> sha1_state \<Rightarrow> sha1_state" where
  "sha1_rounds t [] st = st"
| "sha1_rounds t (w # ws) (a, b, c, d, e) =
     sha1_rounds (Suc t) ws (word_rotl 5 a + sha1_fk t b c d + e + w, a, word_rotl 30 b, c, d)"

definition sha1_block :: "sha1_state \<Rightarrow> 32 word list \<Rightarrow> sha1_state" where
  "sha1_block h ws = (case h of (h0, h1, h2, h3, h4) \<Rightarrow>
     (case sha1_rounds 0 (rev (sha1_extend 64 (rev ws))) h of (a, b, c, d, e) \<Rightarrow>
        (h0 + a, h1 + b, h2 + c, h3 + d, h4 + e)))"

fun sha1_blocks :: "nat \<Rightarrow> 32 word list \<Rightarrow> sha1_state \<Rightarrow> sha1_state" where
  "sha1_blocks 0 ws h = h"
| "sha1_blocks (Suc n) ws h = sha1_blocks n (drop 16 ws) (sha1_block h (take 16 ws))"

definition sha1 :: "nat list \<Rightarrow> nat list" where
  "sha1 bs = (let ws = words_of (sha1_pad bs) in
     case sha1_blocks (length ws div 16) ws (0x67452301, 0xEFCDAB89, 0x98BADCFE, 0x10325476, 0xC3D2E1F0) of
       (a, b, c, d, e) \<Rightarrow> concat (map bytes_of_word [a, b, c, d, e]))"

section \<open>Version 5 identifiers\<close>

definition utf8 :: "string \<Rightarrow> nat list" where
  "utf8 s = concat (map (\<lambda>c. if cp c < 128 then [cp c] else [192 + cp c div 64, 128 + cp c mod 64]) s)"

definition NAMESPACE_URL :: "nat list" where
  "NAMESPACE_URL = [0x6b, 0xa7, 0xb8, 0x10, 0x9d, 0xad, 0x11, 0xd1, 0x80, 0xb4, 0x00, 0xc0, 0x4f, 0xd4, 0x30, 0xc8]"

definition hex_byte :: "nat \<Rightarrow> string" where
  "hex_byte n = [hex_digit (n div 16 mod 16), hex_digit (n mod 16)]"

definition hex_bytes :: "nat list \<Rightarrow> string" where
  "hex_bytes bs = concat (map hex_byte bs)"

definition uuid5 :: "string \<Rightarrow> string" where
  "uuid5 name =
     (let h = take 16 (sha1 (NAMESPACE_URL @ utf8 name));
          b = h[6 := h ! 6 mod 16 + 80, 8 := h ! 8 mod 64 + 128]
      in hex_bytes (take 4 b) @ ''-'' @ hex_bytes (take 2 (drop 4 b)) @ ''-'' @ hex_bytes (take 2 (drop 6 b)) @ ''-'' @
         hex_bytes (take 2 (drop 8 b)) @ ''-'' @ hex_bytes (drop 10 b))"

lemma uuid5_not_Nil [simp]: "uuid5 name \<noteq> []"
  by (simp add: uuid5_def Let_def)

end
