(* ===== verification/Pipeline.thy ===== *)
theory Pipeline
  imports MergeHandler Supersession Classifier Necessity Uuid5
begin

text \<open>
  \<open>pipeline.py\<close> and the replay driver of \<open>merge_handler.py\<close>: the composition of the modelled
  components for one distilled pull request and for a log of them.  Parameters: \<open>nli\<close>, the model
  call behind the classifier, \<open>None\<close> where it raises; \<open>parse\<close>, the syntax tree of a file; the
  clock; and the interference of other writers with each conditional write.
\<close>

section \<open>Results and parameters\<close>

record supersede_decision =
  sd_incumbent_idea_id :: string
  sd_verdict :: string
  sd_unfold_rev :: "int option"

record pipeline_result =
  pp_pr_number :: int
  pp_owner_repo :: string
  pp_org :: string
  pp_anchors_extracted :: nat
  pp_anchor_resolutions :: "string list"
  pp_incumbents_found :: "string list"
  pp_supersede_decisions :: "supersede_decision list"
  pp_idea_action :: string
  pp_idea_id :: string
  pp_corroboration_weight :: pyfloat
  pp_folded :: bool
  pp_new_rev :: "int option"
  pp_golden_case_id :: "string option"
  pp_triviality_passed :: bool
  pp_triviality_reason :: string

definition new_pipeline_result :: "int \<Rightarrow> string \<Rightarrow> string \<Rightarrow> pipeline_result" where
  "new_pipeline_result pr_number owner_repo org = \<lparr>pp_pr_number = pr_number, pp_owner_repo = owner_repo, pp_org = org,
     pp_anchors_extracted = 0, pp_anchor_resolutions = [], pp_incumbents_found = [], pp_supersede_decisions = [],
     pp_idea_action = [], pp_idea_id = [], pp_corroboration_weight = 0, pp_folded = False, pp_new_rev = None,
     pp_golden_case_id = None, pp_triviality_passed = True, pp_triviality_reason = []\<rparr>"

text \<open>What other writers do before each conditional write of a run.\<close>

record interference =
  if_store :: "string \<Rightarrow> learning_store \<Rightarrow> learning_store"
  if_corroborate :: "nat \<Rightarrow> learning_store \<Rightarrow> learning_store"
  if_skills :: "nat \<Rightarrow> skill_store \<Rightarrow> skill_store"

definition alone :: interference where
  "alone = \<lparr>if_store = (\<lambda>_ s. s), if_corroborate = (\<lambda>_ s. s), if_skills = (\<lambda>_ s. s)\<rparr>"

text \<open>The arguments of a run that stay the same for all pull requests.\<close>

record pipeline_config =
  pc_org :: string
  pc_classifier :: nli_classifier
  pc_nli :: "string \<Rightarrow> string \<Rightarrow> nli_result option"
  pc_parse :: "string \<Rightarrow> string \<Rightarrow> node option"
  pc_credibility :: cred_store
  pc_skill_base_name :: string
  pc_verified_k :: pyfloat
  pc_mode :: string
  pc_unfold_mode :: string
  pc_fp_gate :: "fp_gate option"
  pc_file_contents :: "(string, string) dict"

text \<open>\<open>classifier.classify\<close> without telemetry; \<open>None\<close> where the call raises.\<close>

definition classify_pair_of :: "pipeline_config \<Rightarrow> string \<Rightarrow> string \<Rightarrow> classifier_result option" where
  "classify_pair_of pc premise hypothesis =
     map_option (\<lambda>r. judged (pc_classifier pc) (\<lambda>_ _. r) premise hypothesis) (pc_nli pc premise hypothesis)"

definition generate_idea_id :: "int \<Rightarrow> string \<Rightarrow> string" where
  "generate_idea_id pr_number owner_repo = uuid5 (owner_repo @ ''#pr'' @ show_int pr_number)"

section \<open>Semantic join\<close>

definition SEMANTIC_JOIN_FLOOR :: pyfloat where
  "SEMANTIC_JOIN_FLOOR = flit (15/100)"

text \<open>The scan for the idea with the highest score; the first of equals wins.\<close>

definition best_match :: "string set \<Rightarrow> idea_record list \<Rightarrow> string option \<times> pyfloat" where
  "best_match challenger_words ideas = foldl (\<lambda>(best_id, best_score) idea.
       if words (idea_body idea) = {} then (best_id, best_score)
       else let score = jaccard challenger_words (words (idea_body idea)) in
         if best_score < score then (Some (idea_ideaId idea), score) else (best_id, best_score))
     (None, 0) ideas"

definition semantic_join_fallback :: "pipeline_config \<Rightarrow> string \<Rightarrow> pyfloat \<Rightarrow> learning_store \<Rightarrow> string option" where
  "semantic_join_fallback pc challenger_body jaccard_floor s =
     (let current_ideas = list_current_ideas (pc_org pc) (pc_skill_base_name pc) s;
          challenger_words = words challenger_body
      in if current_ideas = [] \<or> challenger_words = {} then None
         else case best_match challenger_words current_ideas of
             (None, _) \<Rightarrow> None
           | (Some best_id, best_score) \<Rightarrow>
               if best_score < jaccard_floor then None
               else case get_idea (pc_org pc) (pc_skill_base_name pc) best_id s of
                   None \<Rightarrow> None
                 | Some best \<Rightarrow> (case classify_pair_of pc (idea_body best) challenger_body of
                     None \<Rightarrow> None
                   | Some c \<Rightarrow> if cl_verdict c = CORROBORATE then Some best_id else None))"

section \<open>The incumbents\<close>

text \<open>
  One incumbent.  The accumulator is the result under way and the candidate for corroboration.
\<close>

definition judge_incumbent ::
    "pipeline_config \<Rightarrow> merge_result \<Rightarrow> distillation_result \<Rightarrow> interference \<Rightarrow> int \<Rightarrow> string \<Rightarrow>
     pipeline_result \<times> string option \<Rightarrow> ('a sworld_scheme, pipeline_result \<times> string option) py" where
  "judge_incumbent pc mr di ifs now incumbent_id acc = (\<lambda>w.
     let res = fst acc; candidate = snd acc in
     case get_idea (pc_org pc) (pc_skill_base_name pc) incumbent_id (w_store w) of
       None \<Rightarrow> (Inr acc, w)
     | Some incumbent \<Rightarrow> (case classify_pair_of pc (idea_body incumbent) (di_body di) of
         None \<Rightarrow> (Inr acc, w)
       | Some clf \<Rightarrow>
         if idea_invalidAt incumbent \<noteq> None then
           (if cl_verdict clf = CORROBORATE then
              (if pc_mode pc = ''enforce'' then
                 pbind (revive \<lparr>rv_org = pc_org pc, rv_idea_id = incumbent_id, rv_skill_base_name = pc_skill_base_name pc,
                     rv_new_pr_number = mr_pr_number mr, rv_new_pr_owner_repo = mr_owner_repo mr\<rparr> (if_store ifs incumbent_id) now)
                   (\<lambda>rv. pret (res\<lparr>pp_idea_action := rvr_action rv, pp_idea_id := incumbent_id\<rparr>, Some incumbent_id)) w
               else (Inr (res\<lparr>pp_idea_action := ''shadow_revive'', pp_idea_id := incumbent_id\<rparr>, Some incumbent_id), w))
            else (Inr acc, w))
         else (case cl_verdict clf of
             SUPERSEDE \<Rightarrow>
               pbind (supersede \<lparr>sr_org = pc_org pc, sr_incumbent_idea_id = incumbent_id,
                   sr_incumbent_skill_base_name = pc_skill_base_name pc, sr_challenger_idea_id = None,
                   sr_challenger_skill_base_name = Some (pc_skill_base_name pc), sr_challenger_pr_number = mr_pr_number mr,
                   sr_challenger_owner_repo = mr_owner_repo mr, sr_challenger_authority_kind = ''merged'',
                   sr_idea_body_to_remove = Some (idea_body incumbent)\<rparr>
                   (pc_unfold_mode pc) (pc_fp_gate pc) default_delta (if_store ifs incumbent_id) (if_skills ifs) now)
                 (\<lambda>sup. pret (res\<lparr>pp_supersede_decisions := pp_supersede_decisions res @
                    [\<lparr>sd_incumbent_idea_id = incumbent_id, sd_verdict = sres_action sup, sd_unfold_rev = sres_unfold_rev sup\<rparr>]\<rparr>,
                    candidate)) w
           | CORROBORATE \<Rightarrow> (Inr (res, case candidate of None \<Rightarrow> Some incumbent_id | Some c \<Rightarrow> Some c), w)
           | REFINE \<Rightarrow> (Inr acc, w)
           | NEUTRAL \<Rightarrow> (Inr acc, w))))"

section \<open>The fold\<close>

definition fold_description :: "idea_record \<Rightarrow> int \<Rightarrow> string" where
  "fold_description idea pr_number =
     ''fold: idea '' @ py_repr (idea_ideaId idea) @ '' verified by PR #'' @ show_int pr_number"

text \<open>The bodies before and after the fold.\<close>

definition fold_bodies :: "idea_record \<Rightarrow> string \<Rightarrow> string \<Rightarrow> skill_store \<Rightarrow> string \<times> string" where
  "fold_bodies idea org skill_base_name sk =
     (let before = (case get_true_pointer org skill_base_name sk of
            None \<Rightarrow> []
          | Some p \<Rightarrow> (case get_revision_body org [] (ptr_rev p) sk of None \<Rightarrow> [] | Some b \<Rightarrow> b))
      in (before, if before \<noteq> [] then strip (before @ [nl, nl] @ idea_body idea) else idea_body idea))"

definition fold_request :: "idea_record \<Rightarrow> string \<Rightarrow> string \<Rightarrow> int \<Rightarrow> skill_store \<Rightarrow> revision_request" where
  "fold_request idea org skill_base_name pr_number sk =
     (case fold_bodies idea org skill_base_name sk of (before, after) \<Rightarrow>
       \<lparr>rr_org = org, rr_base_name = skill_base_name, rr_variant_id = [], rr_body = after, rr_author_user_id = None,
        rr_description = Some (fold_description idea pr_number),
        rr_golden_case = Some \<lparr>gp_case_id = idea_ideaId idea, gp_before = before, gp_after = after, gp_idea_body = idea_body idea\<rparr>,
        rr_idea_id = Some (idea_ideaId idea)\<rparr>)"

text \<open>Every exception of \<open>write_revision\<close> is caught and ends the fold, the writes it made stay.\<close>

definition execute_fold ::
    "idea_record \<Rightarrow> pipeline_config \<Rightarrow> skill_store \<Rightarrow> anchor list \<Rightarrow> string \<Rightarrow> interference \<Rightarrow> int \<Rightarrow> pipeline_result \<Rightarrow>
     ('a sworld_scheme, pipeline_result) py" where
  "execute_fold idea pc sk anchors owner_repo ifs now res = (\<lambda>w.
     case fold_bodies idea (pc_org pc) (pc_skill_base_name pc) sk of (before, after) \<Rightarrow>
     (case write_revision (fold_request idea (pc_org pc) (pc_skill_base_name pc) (pp_pr_number res) sk)
         default_delta (\<lambda>_. now) MAX_CAS_RETRIES (if_skills ifs) sk of
       (Inl _, sk') \<Rightarrow> (Inr res, w\<lparr>w_skills := Some sk'\<rparr>)
     | (Inr wr, sk') \<Rightarrow>
         pbind (if anchors \<noteq> [] then write_anchors_on_fold (pc_org pc) owner_repo (idea_ideaId idea) anchors else pret ()) (\<lambda>_.
         pbind (on_store (put_golden_case \<lparr>gold_caseId = idea_ideaId idea, gold_skillBaseName = pc_skill_base_name pc,
             gold_org = pc_org pc, gold_before = before, gold_after = after, gold_ideaBody = idea_body idea,
             gold_createdAt = None\<rparr>)) (\<lambda>_.
         pret (res\<lparr>pp_new_rev := Some (wr_rev wr), pp_golden_case_id := Some (idea_ideaId idea)\<rparr>)))
           (w\<lparr>w_skills := Some sk'\<rparr>)))"

section \<open>One pull request\<close>

text \<open>Step 5: the vote for the candidate, or the first vote of a new idea.\<close>

definition vote_or_create ::
    "pipeline_config \<Rightarrow> merge_result \<Rightarrow> distillation_result \<Rightarrow> interference \<Rightarrow> string option \<Rightarrow> pipeline_result \<Rightarrow>
     ('a sworld_scheme, pipeline_result) py" where
  "vote_or_create pc mr di ifs candidate res =
     (let outcome = (\<lambda>r. res\<lparr>pp_idea_action := res_action r, pp_idea_id := res_idea_id r,
            pp_corroboration_weight := res_weight r, pp_folded := res_folded r\<rparr>);
          shadow = (\<lambda>action idea_id. pret (res\<lparr>pp_idea_action := action, pp_idea_id := idea_id\<rparr>))
      in case candidate of
          Some idea_id \<Rightarrow>
            if pc_mode pc = ''enforce''
            then pbind (corroborate \<lparr>cr_org = pc_org pc, cr_idea_id = idea_id, cr_skill_base_name = pc_skill_base_name pc,
                   cr_pr_number = mr_pr_number mr, cr_owner_repo = mr_owner_repo mr, cr_rung = mr_rung mr,
                   cr_author_id = di_author_login di, cr_challenger_body = di_body di, cr_authority_kind = ''merged'',
                   cr_has_reviewer = False\<rparr> (pc_credibility pc) (pc_verified_k pc) MAX_OCC_RETRIES (if_corroborate ifs))
                 (\<lambda>r. pret (outcome r))
            else shadow ''shadow_corroborate'' idea_id
        | None \<Rightarrow>
            (let idea_id = generate_idea_id (mr_pr_number mr) (mr_owner_repo mr) in
             if pc_mode pc = ''enforce''
             then pbind (create_idea_from_pr (pc_org pc) idea_id (pc_skill_base_name pc) (mr_pr_number mr)
                    (mr_owner_repo mr) (mr_rung mr) (di_author_login di) (di_body di) (pc_credibility pc)
                    ''merged'' False (pc_verified_k pc))
                  (\<lambda>r. pret (outcome r))
             else shadow ''shadow_create'' idea_id))"

text \<open>Steps 6 and 7: the triviality filter and the fold of an idea that is folded by now.\<close>

definition fold_stage ::
    "pipeline_config \<Rightarrow> merge_result \<Rightarrow> anchor list \<Rightarrow> interference \<Rightarrow> int \<Rightarrow> pipeline_result \<Rightarrow>
     ('a sworld_scheme, pipeline_result) py" where
  "fold_stage pc mr anchors ifs now res =
     (if \<not> (pp_folded res \<and> pc_mode pc = ''enforce'') then pret res
      else (\<lambda>w. case get_idea (pc_org pc) (pc_skill_base_name pc) (pp_idea_id res) (w_store w) of
          None \<Rightarrow> (Inr res, w)
        | Some idea \<Rightarrow>
            (let anchor_records = map (\<lambda>a. \<lparr>anchor_ideaId = idea_ideaId idea, anchor_ownerRepo = mr_owner_repo mr,
                   anchor_file = an_file a, anchor_symbol = an_symbol a, anchor_org = pc_org pc, anchor_active = True\<rparr>) anchors;
                 live_ideas = list_current_ideas (pc_org pc) (pc_skill_base_name pc) (w_store w);
                 triviality = triviality_dedup_filter idea anchor_records
                   (filter (\<lambda>i. idea_ideaId i \<noteq> idea_ideaId idea) live_ideas) NEAR_DUPLICATE_THRESHOLD;
                 res = res\<lparr>pp_triviality_passed := tr_passed triviality, pp_triviality_reason := tr_reason triviality\<rparr>
             in if \<not> tr_passed triviality then (Inr res, w)
                else case w_skills w of
                    None \<Rightarrow> (Inr res, w)
                  | Some sk \<Rightarrow> execute_fold idea pc sk anchors (mr_owner_repo mr) ifs now res w)))"

text \<open>Step 1: \<open>result.anchors_diff or distillation.raw_anchors_from_diff or ""\<close>.\<close>

definition pipeline_anchors :: "pipeline_config \<Rightarrow> merge_result \<Rightarrow> distillation_result \<Rightarrow> anchor list" where
  "pipeline_anchors pc mr di =
     (let diff_text = (if mr_anchors_diff mr \<noteq> [] then mr_anchors_diff mr else di_raw_anchors di);
          hunks = (if diff_text \<noteq> [] then parse_unified_diff diff_text (pc_file_contents pc) else [])
      in extract_anchors_from_diff (pc_parse pc) hunks)"

definition run_pipeline ::
    "pipeline_config \<Rightarrow> merge_result \<Rightarrow> interference \<Rightarrow> int \<Rightarrow> ('a sworld_scheme, pipeline_result) py" where
  "run_pipeline pc mr ifs now =
     (let res = new_pipeline_result (mr_pr_number mr) (mr_owner_repo mr) (pc_org pc) in
      case mr_distillation mr of
        None \<Rightarrow> pret (res\<lparr>pp_idea_action := ''skipped_'' @ mr_action mr\<rparr>)
      | Some di \<Rightarrow>
          if mr_action mr \<noteq> ''distilled'' then pret (res\<lparr>pp_idea_action := ''skipped_'' @ mr_action mr\<rparr>)
          else
            (let anchors = pipeline_anchors pc mr di in
             pbind (pget (\<lambda>w. if anchors \<noteq> [] then get_incumbent_ideas (pc_org pc) (mr_owner_repo mr) anchors (w_store w) else []))
             (\<lambda>incumbents.
             pbind (pfor (judge_incumbent pc mr di ifs now) incumbents
                (res\<lparr>pp_anchors_extracted := length anchors, pp_anchor_resolutions := map an_resolution anchors,
                     pp_incumbents_found := incumbents\<rparr>, None)) (\<lambda>(res, candidate).
             pbind (pget (\<lambda>w. case candidate of Some c \<Rightarrow> Some c
                 | None \<Rightarrow> semantic_join_fallback pc (di_body di) SEMANTIC_JOIN_FLOOR (w_store w))) (\<lambda>candidate.
             pbind (vote_or_create pc mr di ifs candidate res) (\<lambda>res.
             fold_stage pc mr anchors ifs now res))))))"

section \<open>The replay driver\<close>

text \<open>The driver passes neither a calibration gate nor an anti-thrash tracker to the pipeline.\<close>

definition without_tracker :: "('a sworld_scheme, 'b) py \<Rightarrow> ('a sworld_scheme, 'b) py" where
  "without_tracker m w = (case m (w\<lparr>w_thrash := None\<rparr>) of (r, w') \<Rightarrow> (r, w'\<lparr>w_thrash := w_thrash w\<rparr>))"

definition replay_config :: "string \<Rightarrow> string \<Rightarrow> pipeline_config \<Rightarrow> pipeline_config" where
  "replay_config org mode pc = pc\<lparr>pc_org := org, pc_mode := mode, pc_fp_gate := None\<rparr>"

text \<open>
  One pull request of the log: the handler, then the pipeline when the classifier and the
  credibility store are given.  The clock is read once by each of the two.
\<close>

definition replay_one ::
    "(string \<Rightarrow> llm_output option) \<Rightarrow> string \<Rightarrow> string \<Rightarrow> string \<Rightarrow> pipeline_config option \<Rightarrow> (nat \<Rightarrow> interference) \<Rightarrow>
     (nat \<Rightarrow> int) \<Rightarrow> pull_request \<Rightarrow> (merge_result \<times> pipeline_result option) list \<Rightarrow>
     ('a sworld_scheme, (merge_result \<times> pipeline_result option) list) py" where
  "replay_one run_judge org default_branch mode components ifs clock pr results =
     (let k = length results in
      pbind (on_store (handle_merged_pr run_judge pr org default_branch mode (clock (2 * k)))) (\<lambda>r.
      case components of
        Some pc \<Rightarrow>
          if mr_action r = ''distilled''
          then pbind (without_tracker (run_pipeline (replay_config org mode pc) r (ifs k) (clock (2 * k + 1)))) (\<lambda>p.
                 pret (results @ [(r, Some p)]))
          else pret (results @ [(r, None)])
      | None \<Rightarrow> pret (results @ [(r, None)])))"

definition replay_merge_log ::
    "(string \<Rightarrow> llm_output option) \<Rightarrow> pull_request list \<Rightarrow> string \<Rightarrow> string \<Rightarrow> string \<Rightarrow> pipeline_config option \<Rightarrow>
     (nat \<Rightarrow> interference) \<Rightarrow> (nat \<Rightarrow> int) \<Rightarrow> ('a sworld_scheme, (merge_result \<times> pipeline_result option) list) py" where
  "replay_merge_log run_judge pull_requests org default_branch mode components ifs clock =
     pfor (replay_one run_judge org default_branch mode components ifs clock) pull_requests []"

end
