(* ===== verification/PipelineInv.thy ===== *)
theory PipelineInv
  imports Pipeline SupersessionProps
begin

text \<open>
  Invariants of the composed service.  \<open>keeps Q m\<close> says that the operation \<open>m\<close> keeps the
  predicate \<open>Q\<close> of the state, whether it returns or raises.  The locale \<open>pipeline_invariant\<close>
  states what a predicate of the store must satisfy with respect to the single writes, and
  derives that every operation of the service, up to the replay driver, keeps it.
\<close>

section \<open>Operations that keep a predicate\<close>

named_theorems keeps_intros \<open>composition of operations that keep a predicate\<close>

definition keeps :: "('w \<Rightarrow> bool) \<Rightarrow> ('w, 'b) py \<Rightarrow> bool" where
  "keeps Q m \<longleftrightarrow> (\<forall>w. Q w \<longrightarrow> Q (snd (m w)))"

definition in_store :: "(learning_store \<Rightarrow> bool) \<Rightarrow> 'a lworld_scheme \<Rightarrow> bool" where
  "in_store P w \<longleftrightarrow> P (w_store w)"

lemma keepsD: "keeps Q m \<Longrightarrow> Q w \<Longrightarrow> Q (snd (m w))"
  by (simp add: keeps_def)

lemma keeps_pret [keeps_intros]: "keeps Q (pret x)"
  by (simp add: keeps_def py_simps)

lemma keeps_praise [keeps_intros]: "keeps Q (praise e)"
  by (simp add: keeps_def py_simps)

lemma keeps_pget [keeps_intros]: "keeps Q (pget f)"
  by (simp add: keeps_def py_simps)

lemma keeps_pbind [keeps_intros]:
  assumes "keeps Q m" "\<And>x. keeps Q (f x)"
  shows "keeps Q (pbind m f)"
  unfolding keeps_def
proof (intro allI impI)
  fix w assume "Q w"
  then have "Q (snd (m w))" using assms(1) by (rule keepsD [rotated])
  then show "Q (snd (pbind m f w))" using assms(2)
    by (cases "m w"; cases "fst (m w)") (auto simp: py_simps keeps_def)
qed

lemma keepsI: "(\<And>w. Q w \<Longrightarrow> Q (snd (m w))) \<Longrightarrow> keeps Q m"
  by (simp add: keeps_def)

lemma keeps_if [keeps_intros]: "keeps Q a \<Longrightarrow> keeps Q b \<Longrightarrow> keeps Q (if c then a else b)"
  by simp

lemma keeps_flag [keeps_intros]:
  "(\<And>x. keeps Q (A x)) \<Longrightarrow> (\<And>y. keeps Q (B y)) \<Longrightarrow> keeps Q (case p of (True, x) \<Rightarrow> A x | (False, y) \<Rightarrow> B y)"
  by (auto split: prod.split bool.split)

lemma keeps_pfor [keeps_intros]: "(\<And>x acc. keeps Q (body x acc)) \<Longrightarrow> keeps Q (pfor body xs acc)"
  by (simp add: keeps_def pfor_invariant)

lemma keeps_org_guard [keeps_intros]: "keeps Q (org_guard g t)"
  by (simp add: keeps_def py_simps)

lemma keeps_on_store [keeps_intros]:
  "(\<And>s. P s \<Longrightarrow> P (snd (m s))) \<Longrightarrow> keeps (in_store P) (on_store m)"
  by (simp add: keeps_def in_store_def py_simps)

lemma keeps_on_tel [keeps_intros]: "keeps (in_store P) (on_tel f)"
  by (simp add: keeps_def in_store_def py_simps)

lemma keeps_on_thrash [keeps_intros]: "keeps (in_store P) (on_thrash f)"
  by (simp add: keeps_def in_store_def on_thrash_def)

lemma keeps_execute_unfold [keeps_intros]: "keeps (in_store P) (execute_unfold inc fr rq delta senv now)"
  unfolding keeps_def execute_unfold_def in_store_def
  by (auto simp: Let_def split: option.splits prod.splits)

lemma keeps_without_tracker [keeps_intros]:
  assumes "keeps (in_store P) m"
  shows "keeps (in_store P) (without_tracker m)"
  unfolding keeps_def
proof (intro allI impI)
  fix w :: "'a sworld_scheme" assume w: "in_store P w"
  obtain r w' where m: "m (w\<lparr>w_thrash := None\<rparr>) = (r, w')" by fastforce
  have "in_store P (w\<lparr>w_thrash := None\<rparr>)" using w by (simp add: in_store_def)
  then have "in_store P w'" using keepsD [OF assms, of "w\<lparr>w_thrash := None\<rparr>"] m by simp
  then show "in_store P (snd (without_tracker m w))" by (simp add: without_tracker_def m in_store_def)
qed

text \<open>The other writers keep the predicate.\<close>

definition fair :: "(learning_store \<Rightarrow> bool) \<Rightarrow> interference \<Rightarrow> bool" where
  "fair P ifs \<longleftrightarrow> (\<forall>i s. P s \<longrightarrow> P (if_store ifs i s)) \<and> (\<forall>n s. P s \<longrightarrow> P (if_corroborate ifs n s))"

section \<open>Predicates every write of the service keeps\<close>

text \<open>
  \<open>iok\<close> is what the predicate says of a single idea record; the assumptions follow the ways in
  which the service makes a record: a new one, and one derived from a stored one by a vote, a
  retirement or a revival.
\<close>

locale pipeline_invariant =
  fixes P :: "learning_store \<Rightarrow> bool" and iok :: "idea_record \<Rightarrow> bool" and G :: string
  assumes stored: "P s \<Longrightarrow> get_idea G sk i s = Some r \<Longrightarrow> iok r"
    and cond: "P s \<Longrightarrow> iok r \<Longrightarrow> P (snd (put_idea_conditional r v s))"
    and vote: "P s \<Longrightarrow> P (snd (put_idea_source (vote_source G i n rp ak rg au) s))"
    and anchor: "P s \<Longrightarrow> anchor_org a = G \<Longrightarrow> P (snd (put_anchor a s))"
    and event: "P s \<Longrightarrow> ev_org e = G \<Longrightarrow> P (snd (append_verify_event e s))"
    and mark: "P s \<Longrightarrow> pr_org c = G \<Longrightarrow> P (snd (mark_pr_processed c s))"
    and golden: "P s \<Longrightarrow> gold_org gc = G \<Longrightarrow> P (snd (put_golden_case gc s))"
    and iok_new: "iok ((mk_idea i sk G b st 0)\<lparr>idea_authorityKind := Some ak\<rparr>)"
    and iok_voted: "iok r \<Longrightarrow> iok (voted_idea rq k wt wr r)"
    and iok_retired: "iok r \<Longrightarrow> iok (retired_idea now by r)"
    and iok_revived: "iok r \<Longrightarrow> iok (revived_idea now r)"
begin

lemma keeps_append_event: "keeps (in_store P) (append_next_event G i verdict pr auth now)"
  unfolding append_next_event_def by (intro keeps_intros event) simp_all

lemma keeps_retire_anchors:
  "keeps (in_store P) (retire_anchors_on_unfold G rp i :: ('a lworld_scheme, unit) py)"
proof (rule keepsI)
  fix w :: "'a lworld_scheme" assume w: "in_store P w"
  have one: "in_store P (snd (on_store (put_anchor (retired_anchor a)) u))"
    if "in_store P u" "a \<in> set (get_anchors_for_idea G rp i (w_store w))" for a and u :: "'a lworld_scheme"
  proof -
    have "anchor_org (retired_anchor a) = G" using that(2) by (simp add: get_anchors_for_idea_def retired_anchor_def)
    then show ?thesis using that(1) anchor by (simp add: in_store_def on_store_apply)
  qed
  show "in_store P (snd (retire_anchors_on_unfold G rp i w))"
    unfolding retire_anchors_on_unfold_def
    by (simp add: w pbind_apply org_guard_apply pget_apply pfor_invariant [where P = "in_store P", OF one])
qed

lemma keeps_write_anchors: "keeps (in_store P) (write_anchors_on_fold G rp i anchors)"
  unfolding write_anchors_on_fold_def by (intro keeps_intros) (simp, intro conjI impI keeps_intros anchor; simp)

lemma keeps_count_vote:
  assumes "cr_org rq = G"
  shows "keeps (in_store P) (count_vote rq wrote :: ('a lworld_scheme, bool \<times> bool) py)"
proof (cases wrote)
  case None
  have put: "keeps (in_store P) (pbind (on_store (put_idea_source
      (vote_source (cr_org rq) (cr_idea_id rq) (cr_pr_number rq) (cr_owner_repo rq) (cr_authority_kind rq) (cr_rung rq)
        (cr_author_id rq)))) (\<lambda>_. pret (False, True)) :: ('a lworld_scheme, bool \<times> bool) py)"
    unfolding assms by (intro keeps_intros vote)
  show ?thesis unfolding count_vote_def None option.case
    by (rule keepsI) (use keepsD [OF put] in \<open>simp add: Let_def\<close>)
next
  case (Some wr)
  then show ?thesis by (simp add: count_vote_def keeps_pret)
qed

lemma keeps_create: "keeps (in_store P) (create_idea_from_pr G i sk n rp rg au b cs ak hr k)"
  unfolding create_idea_from_pr_def Let_def by (intro keeps_intros cond vote iok_new)

lemma keeps_mark: "keeps P (mark_if_enforced mode G pr now)"
  unfolding mark_if_enforced_def by (intro keeps_intros keepsI mark) simp_all

lemma keeps_handle: "keeps P (handle_merged_pr run_judge pr G b mode now)"
  unfolding handle_merged_pr_def Let_def by (intro keeps_intros keeps_mark)

text \<open>A conditional write of a record derived from a stored one, and what follows it.\<close>

lemma after_conditional:
  fixes w :: "'a lworld_scheme"
  assumes "in_store P w" "iok r" "\<And>s. P s \<Longrightarrow> P (env s)"
    and "\<And>w1. in_store P w1 \<Longrightarrow> in_store P (snd (ok w1))"
    and "\<And>e w1. in_store P w1 \<Longrightarrow> in_store P (snd (bad e w1))"
  shows "in_store P (snd (case on_store (\<lambda>s. put_idea_conditional r v (env s)) w of
     (Inl e, w1) \<Rightarrow> bad e w1 | (Inr _, w1) \<Rightarrow> ok w1))"
proof -
  have "in_store P (snd (on_store (\<lambda>s. put_idea_conditional r v (env s)) w))"
    using assms(1-3) cond by (simp add: in_store_def py_simps)
  then show ?thesis using assms(4,5)
    by (cases "on_store (\<lambda>s. put_idea_conditional r v (env s)) w")
       (auto split: sum.split)
qed

lemma keeps_after_retirement:
  assumes "sr_org rq = G"
  shows "keeps (in_store P) (after_retirement rq inc delta senv now)"
  unfolding after_retirement_def assms
  by (intro keeps_intros keeps_append_event keeps_retire_anchors)
     (simp split: option.split add: keeps_execute_unfold keeps_pret)

lemma keeps_supersede:
  assumes "sr_org rq = G" "\<And>s. P s \<Longrightarrow> P (env s)"
  shows "keeps (in_store P) (supersede rq m gate delta env senv now)"
  unfolding keeps_def
proof (intro allI impI)
  fix w :: "'a sworld_scheme" assume w: "in_store P w"
  show "in_store P (snd (supersede rq m gate delta env senv now w))"
  proof (cases "blank (sr_org rq)")
    case True
    then show ?thesis using w by (simp add: supersede_def pbind_apply org_guard_apply)
  next
    case nb: False
    show ?thesis
    proof (cases "supersede_stop rq m gate now w")
      case (Some a)
      then show ?thesis using w supersede_stopped [OF nb Some, of delta env senv] by simp
    next
      case None
      obtain inc where inc: "get_idea (sr_org rq) (sr_incumbent_skill_base_name rq) (sr_incumbent_idea_id rq) (w_store w) = Some inc"
        using supersede_stop_found [OF None] by blast
      then have "iok (retired_idea now (sr_challenger_idea_id rq) inc)"
        using stored w iok_retired assms(1) by (auto simp: in_store_def)
      note ac = after_conditional [OF w this assms(2) keepsD [OF keeps_after_retirement [OF assms(1)]]]
      show ?thesis unfolding supersede_goes_on [OF nb None inc] by (rule ac) (auto split: py_exn.split)
    qed
  qed
qed

lemma keeps_revive:
  assumes "rv_org rq = G" "\<And>s. P s \<Longrightarrow> P (env s)"
  shows "keeps (in_store P) (revive rq env now)"
  unfolding keeps_def
proof (intro allI impI)
  fix w :: "'a sworld_scheme" assume w: "in_store P w"
  show "in_store P (snd (revive rq env now w))"
  proof (cases "get_idea (rv_org rq) (rv_skill_base_name rq) (rv_idea_id rq) (w_store w)")
    case None
    then show ?thesis using w by (simp add: revive_def pbind_apply org_guard_apply Let_def)
  next
    case (Some idea)
    let ?go = "pbind (append_next_event (rv_org rq) (idea_ideaId idea) ''revive''
         (Some (pr_ref_str (rv_new_pr_owner_repo rq) (rv_new_pr_number rq))) (Some ''merged'') now) (\<lambda>_.
       pbind (on_thrash (record_flip (rv_idea_id rq) now)) (\<lambda>_.
       pbind (on_tel record_revive) (\<lambda>_.
       pret \<lparr>rvr_action = ''revived'', rvr_idea_id = rv_idea_id rq, rvr_revived_at = Some now\<rparr>)))
      :: ('a sworld_scheme, revive_result) py"
    have go: "keeps (in_store P) ?go" unfolding assms(1) by (intro keeps_intros keeps_append_event)
    have "iok (revived_idea now idea)" using stored w iok_revived Some assms(1) by (auto simp: in_store_def)
    note ac = after_conditional [OF w this assms(2) keepsD [OF go]]
    show ?thesis using Some w
      by (auto simp: revive_def pbind_apply [of "org_guard _ _"] org_guard_apply Let_def intro!: ac split: py_exn.split)
  qed
qed

lemma keeps_corroborate_loop:
  assumes "cr_org rq = G" "\<And>i s. P s \<Longrightarrow> P (env i s)"
  shows "keeps (in_store P) (corroborate_loop rq cs k env left attempt wrote :: ('a lworld_scheme, corr_result) py)"
proof (induction left arbitrary: attempt wrote)
  case 0
  then show ?case by (simp add: keeps_praise)
next
  case (Suc left)
  show ?case unfolding keeps_def
  proof (intro allI impI)
    fix w :: "'a lworld_scheme" assume w: "in_store P w"
    show "in_store P (snd (corroborate_loop rq cs k env (Suc left) attempt wrote w))"
    proof (cases "get_idea (cr_org rq) (cr_skill_base_name rq) (cr_idea_id rq) (w_store w)")
      case None
      then show ?thesis using w by simp
    next
      case (Some idea)
      have iok: "iok idea" using stored w Some assms(1) by (auto simp: in_store_def)
      obtain cv w1 where cv: "count_vote rq wrote w = (cv, w1)" by fastforce
      have w1: "in_store P w1" using keepsD [OF keeps_count_vote [OF assms(1)] w, of wrote] cv by simp
      show ?thesis
      proof (cases cv)
        case (Inl e)
        then show ?thesis using Some cv w1 by (simp add: pbind_apply)
      next
        case (Inr p)
        obtain ac wr where p: "p = (ac, wr)" by fastforce
        let ?wt = "corroboration_weight (list_idea_sources (cr_org rq) (cr_idea_id rq) (w_store w1)) cs"
        let ?bad = "\<lambda>e w2. case e of
            VersionConflictError i ex cu \<Rightarrow> if left = 0 then (Inl e, w2)
              else corroborate_loop rq cs k env left (Suc attempt) (Some wr) w2
          | _ \<Rightarrow> (Inl e, w2)"
        obtain ok where eq: "corroborate_loop rq cs k env (Suc left) attempt wrote w =
          (case on_store (\<lambda>s. put_idea_conditional (voted_idea rq k ?wt wr idea) (idea_corroborationVersion idea) (env attempt s)) w1 of
             (Inl e, w2) \<Rightarrow> ?bad e w2 | (Inr _, w2) \<Rightarrow> ok w2)" and ok: "keeps (in_store P) ok"
        proof
          show "corroborate_loop rq cs k env (Suc left) attempt wrote w =
            (case on_store (\<lambda>s. put_idea_conditional (voted_idea rq k ?wt wr idea) (idea_corroborationVersion idea) (env attempt s)) w1 of
             (Inl e, w2) \<Rightarrow> ?bad e w2 | (Inr _, w2) \<Rightarrow>
               pbind (if wr then on_tel (vote_telemetry rq cs ?wt (list_idea_sources (cr_org rq) (cr_idea_id rq) (w_store w1))) else pret ())
                    (\<lambda>_. pret
                       \<lparr>res_action = (if ac then ''already_counted''
                          else if k \<le> ?wt \<and> idea_status idea \<noteq> ''folded'' then ''folded''
                          else ''candidate''),
                        res_idea_id = cr_idea_id rq, res_weight = ?wt,
                        res_folded = (idea_status (voted_idea rq k ?wt wr idea) = ''folded''),
                        res_body = idea_body (voted_idea rq k ?wt wr idea), res_new_source_written = wr,
                        res_version = idea_corroborationVersion (voted_idea rq k ?wt wr idea)\<rparr>) w2)"
            unfolding corroborate_loop.simps Some option.case pbind_apply [of "count_vote rq wrote"] cv Inr p prod.case sum.case Let_def ..
        qed (intro keeps_intros)
        have bad: "in_store P (snd (?bad e w2))" if "in_store P w2" for e and w2 :: "'a lworld_scheme"
          using that keepsD [OF Suc.IH that] by (simp split: py_exn.split)
        show ?thesis unfolding eq
          by (rule after_conditional [OF w1 iok_voted [OF iok] assms(2)]) (use bad keepsD [OF ok] in blast)+
      qed
    qed
  qed
qed

lemma keeps_corroborate:
  "cr_org rq = G \<Longrightarrow> (\<And>i s. P s \<Longrightarrow> P (env i s)) \<Longrightarrow> keeps (in_store P) (corroborate rq cs k n env)"
  unfolding corroborate_def by (intro keeps_intros keeps_corroborate_loop)

lemma keeps_execute_fold:
  assumes "pc_org pc = G"
  shows "keeps (in_store P) (execute_fold idea pc sk anchors rp ifs now res :: ('a sworld_scheme, pipeline_result) py)"
  unfolding keeps_def
proof (intro allI impI)
  fix w :: "'a sworld_scheme" assume w: "in_store P w"
  obtain before after where fb: "fold_bodies idea (pc_org pc) (pc_skill_base_name pc) sk = (before, after)" by fastforce
  obtain r sk' where wr: "write_revision (fold_request idea (pc_org pc) (pc_skill_base_name pc) (pp_pr_number res) sk)
      default_delta (\<lambda>_. now) MAX_CAS_RETRIES (if_skills ifs) sk = (r, sk')" by fastforce
  have w': "in_store P (w\<lparr>w_skills := Some sk'\<rparr>)" using w by (simp add: in_store_def)
  have rest: "keeps (in_store P) (pbind (if anchors \<noteq> [] then write_anchors_on_fold (pc_org pc) rp (idea_ideaId idea) anchors else pret ())
      (\<lambda>_. pbind (on_store (put_golden_case gc)) (\<lambda>_. pret res')) :: ('a sworld_scheme, pipeline_result) py)"
    if "gold_org gc = G" for gc res'
    unfolding assms by (intro keeps_intros keeps_write_anchors golden that)
  show "in_store P (snd (execute_fold idea pc sk anchors rp ifs now res w))"
    unfolding execute_fold_def fb prod.case wr
    by (cases r) (use w' keepsD [OF rest w'] assms in simp_all)
qed

lemma keeps_fold_stage:
  assumes "pc_org pc = G"
  shows "keeps (in_store P) (fold_stage pc mr anchors ifs now res :: ('a sworld_scheme, pipeline_result) py)"
proof -
  have fold: "in_store P w \<Longrightarrow> in_store P (snd (execute_fold idea pc sk anchors (mr_owner_repo mr) ifs now r w))"
    for idea sk r and w :: "'a sworld_scheme"
    by (rule keepsD [OF keeps_execute_fold [OF assms]])
  show ?thesis unfolding keeps_def fold_stage_def Let_def
    by (auto split: option.split simp: pret_apply fold)
qed

lemma keeps_vote_or_create:
  assumes "pc_org pc = G" "fair P ifs"
  shows "keeps (in_store P) (vote_or_create pc mr di ifs candidate res :: ('a sworld_scheme, pipeline_result) py)"
proof -
  have env: "P s \<Longrightarrow> P (if_corroborate ifs n s)" for n s using assms(2) by (simp add: fair_def)
  show ?thesis unfolding vote_or_create_def Let_def assms(1)
    by (cases candidate) (simp_all, (intro conjI impI keeps_intros keeps_corroborate keeps_create env; simp)+)
qed

lemma keeps_judge_incumbent:
  assumes "pc_org pc = G" "fair P ifs"
  shows "keeps (in_store P) (judge_incumbent pc mr di ifs now x acc
     :: ('a sworld_scheme, pipeline_result \<times> string option) py)"
  unfolding keeps_def
proof (intro allI impI)
  fix w :: "'a sworld_scheme" assume w: "in_store P w"
  have env: "P s \<Longrightarrow> P (if_store ifs i s)" for i s using assms(2) by (simp add: fair_def)
  have rv: "in_store P (snd (pbind (revive rq (if_store ifs x) now) (\<lambda>r. pret (f r)) w))" if "rv_org rq = G" for rq f
    by (rule keepsD [where Q = "in_store P"]) (intro keeps_intros keeps_revive env w that; assumption?)+
  have sup: "in_store P (snd (pbind (supersede rq m gate delta (if_store ifs x) senv now) (\<lambda>r. pret (f r)) w))"
    if "sr_org rq = G" for rq m gate delta senv f
    by (rule keepsD [where Q = "in_store P"]) (intro keeps_intros keeps_supersede env w that; assumption?)+
  show "in_store P (snd (judge_incumbent pc mr di ifs now x acc w))"
    unfolding judge_incumbent_def Let_def assms(1)
    by (simp add: w rv sup split: option.split verdict.split)
qed

lemma keeps_run_pipeline:
  assumes "pc_org pc = G" "fair P ifs"
  shows "keeps (in_store P) (run_pipeline pc mr ifs now :: ('a sworld_scheme, pipeline_result) py)"
proof -
  have "keeps (in_store P) (case a of (res, candidate) \<Rightarrow> f res candidate)"
    if "\<And>r c. keeps (in_store P) (f r c :: ('a sworld_scheme, pipeline_result) py)" for a f
    using that by (cases a) simp
  note flat = this
  show ?thesis unfolding run_pipeline_def Let_def
    by (cases "mr_distillation mr")
       (simp_all only: option.case, (intro keeps_intros keeps_judge_incumbent keeps_vote_or_create keeps_fold_stage flat assms)+)
qed

lemma keeps_replay_one:
  assumes "\<And>k. fair P (ifs k)"
  shows "keeps (in_store P) (replay_one run_judge G b mode components ifs clock pr results
     :: ('a sworld_scheme, (merge_result \<times> pipeline_result option) list) py)"
proof -
  have h: "P s \<Longrightarrow> P (snd (handle_merged_pr run_judge pr G b mode now s))" for s now
    by (rule keepsD [OF keeps_handle])
  show ?thesis unfolding replay_one_def Let_def
    by (cases components)
       (simp_all only: option.case, (intro keeps_intros keeps_run_pipeline assms h; simp add: replay_config_def)+)
qed

lemma keeps_replay:
  assumes "\<And>k. fair P (ifs k)"
  shows "keeps (in_store P) (replay_merge_log run_judge prs G b mode components ifs clock
     :: ('a sworld_scheme, (merge_result \<times> pipeline_result option) list) py)"
  unfolding replay_merge_log_def by (intro keeps_intros keeps_replay_one assms)

end

section \<open>The predicates of the learning store\<close>

text \<open>The store is one the service can reach.\<close>

interpretation service_inv: pipeline_invariant service_reach "\<lambda>_. True" G for G
  by unfold_locales
     (use service_step [of _ "PutAnchor _"] service_step [of _ "AppendVerifyEvent _"]
        service_step [of _ "MarkPrProcessed _"] service_step [of _ "PutGoldenCase _"]
      in \<open>auto intro: service_put_conditional service_put_source\<close>)

text \<open>No idea names the revision it was folded into.\<close>

definition no_folded_rev :: "learning_store \<Rightarrow> bool" where
  "no_folded_rev s \<longleftrightarrow> (\<forall>(k, r) \<in> set (ls_ideas s). idea_foldedIntoRev r = None)"

lemma set_dset_subset: "(k', v') \<in> set (dset k v d) \<Longrightarrow> v' = v \<or> (k', v') \<in> set d"
  by (induction d) (auto split: if_splits)

lemma no_folded_rev_put:
  "no_folded_rev s \<Longrightarrow> idea_foldedIntoRev r = None \<Longrightarrow> no_folded_rev (snd (put_idea_conditional r v s))"
  by (auto simp: no_folded_rev_def py_simps dest!: set_dset_subset)

lemma no_folded_rev_source: "no_folded_rev s \<Longrightarrow> no_folded_rev (snd (put_idea_source r s))"
  by (rule put_idea_source_cases [of r s]) (auto simp: no_folded_rev_def)

interpretation unfolded_inv: pipeline_invariant no_folded_rev "\<lambda>r. idea_foldedIntoRev r = None" G for G
proof unfold_locales
  show "no_folded_rev s \<Longrightarrow> get_idea G sk i s = Some r \<Longrightarrow> idea_foldedIntoRev r = None" for s sk i r
    by (auto simp: no_folded_rev_def get_idea_def dest: map_of_SomeD)
qed ((simp add: no_folded_rev_put no_folded_rev_source mk_idea_def voted_idea_def retired_idea_def revived_idea_def; fail)
   | (auto simp: no_folded_rev_def py_simps)[1])+

text \<open>The cursor names a pull request.\<close>

interpretation cursor_inv: pipeline_invariant "is_pr_processed g rp n" "\<lambda>_. True" G for g rp n G
proof unfold_locales
  show "is_pr_processed g rp n s \<Longrightarrow> is_pr_processed g rp n (snd (put_idea_source (vote_source G i m r ak rg au) s))"
    for s i m r ak rg au
    by (rule put_idea_source_cases [of "vote_source G i m r ak rg au" s]) (auto simp: is_pr_processed_def)
qed (auto simp: is_pr_processed_def py_simps dict_simps)

text \<open>The reads of another organisation are those of a fixed store.\<close>

definition tenant_kept :: "string \<Rightarrow> learning_store \<Rightarrow> string \<Rightarrow> learning_store \<Rightarrow> bool" where
  "tenant_kept g s0 G s \<longleftrightarrow> store_wf s \<and> (g \<noteq> G \<longrightarrow> same_reads g s0 s)"

lemma tenant_kept_step:
  "tenant_kept g s0 G s \<Longrightarrow> op_org p = G \<Longrightarrow> tenant_kept g s0 G (snd (run_op p s))"
  using same_reads_step [of p g s] by (auto simp: tenant_kept_def store_wf_step intro: same_reads_trans)

interpretation tenant_inv: pipeline_invariant "tenant_kept g s0 G" "\<lambda>r. idea_org r = G" G for g s0 G
proof unfold_locales
  show "tenant_kept g s0 G s \<Longrightarrow> get_idea G sk i s = Some r \<Longrightarrow> idea_org r = G" for s sk i r
    using get_idea_key by (auto simp: tenant_kept_def)
next
  show "tenant_kept g s0 G s \<Longrightarrow> idea_org r = G \<Longrightarrow> tenant_kept g s0 G (snd (put_idea_conditional r v s))" for s r v
    using tenant_kept_step [of g s0 G s "PutIdeaConditional r v"] by simp
next
  show "tenant_kept g s0 G s \<Longrightarrow> tenant_kept g s0 G (snd (put_idea_source (vote_source G i n rp ak rg au) s))"
    for s i n rp ak rg au
    using tenant_kept_step [of g s0 G s "PutIdeaSource (vote_source G i n rp ak rg au)"]
    by (simp add: vote_source_def mk_source_def)
next
  show "tenant_kept g s0 G s \<Longrightarrow> anchor_org a = G \<Longrightarrow> tenant_kept g s0 G (snd (put_anchor a s))" for s a
    using tenant_kept_step [of g s0 G s "PutAnchor a"] by simp
next
  show "tenant_kept g s0 G s \<Longrightarrow> ev_org e = G \<Longrightarrow> tenant_kept g s0 G (snd (append_verify_event e s))" for s e
    using tenant_kept_step [of g s0 G s "AppendVerifyEvent e"] by simp
next
  show "tenant_kept g s0 G s \<Longrightarrow> pr_org c = G \<Longrightarrow> tenant_kept g s0 G (snd (mark_pr_processed c s))" for s c
    using tenant_kept_step [of g s0 G s "MarkPrProcessed c"] by simp
next
  show "tenant_kept g s0 G s \<Longrightarrow> gold_org gc = G \<Longrightarrow> tenant_kept g s0 G (snd (put_golden_case gc s))" for s gc
    using tenant_kept_step [of g s0 G s "PutGoldenCase gc"] by simp
qed (simp_all add: mk_idea_def voted_idea_def retired_idea_def revived_idea_def)

end
