(* ===== verification/FoldProps.thy ===== *)
theory FoldProps
  imports PipelineInv
begin

text \<open>
  What the pipeline does with one pull request once its incumbents are judged: the semantic join,
  the identifier of a new idea, and the fold with its revision, golden case and anchors.
\<close>

section \<open>The fold without other writers\<close>

definition fold_golden :: "idea_record \<Rightarrow> pipeline_config \<Rightarrow> skill_store \<Rightarrow> golden_case" where
  "fold_golden idea pc sk = \<lparr>gold_caseId = idea_ideaId idea, gold_skillBaseName = pc_skill_base_name pc,
     gold_org = pc_org pc, gold_before = fst (fold_bodies idea (pc_org pc) (pc_skill_base_name pc) sk),
     gold_after = snd (fold_bodies idea (pc_org pc) (pc_skill_base_name pc) sk), gold_ideaBody = idea_body idea,
     gold_createdAt = None\<rparr>"

lemma fold_request_simps [simp]:
  "rr_org (fold_request idea g sb n sk) = g" "rr_base_name (fold_request idea g sb n sk) = sb"
  "rr_variant_id (fold_request idea g sb n sk) = []"
  "rr_body (fold_request idea g sb n sk) = snd (fold_bodies idea g sb sk)"
  by (simp_all add: fold_request_def split: prod.split)

text \<open>The skills after the fold.\<close>

definition folded_skills :: "idea_record \<Rightarrow> pipeline_config \<Rightarrow> skill_store \<Rightarrow> int \<Rightarrow> int \<Rightarrow> skill_store" where
  "folded_skills idea pc sk n now =
     (let rq = fold_request idea (pc_org pc) (pc_skill_base_name pc) n sk
      in committed rq (\<lambda>_. now) 0 (next_rev rq sk) (rr_body rq) sk)"

lemma write_anchors_skills: "w_skills (snd (write_anchors_on_fold g rp i ans w)) = w_skills (w :: 'a sworld_scheme)"
proof -
  have s: "keeps (\<lambda>u. w_skills u = K) (on_store m :: ('a sworld_scheme, 'b) py)"
    "keeps (\<lambda>u. w_skills u = K) (on_tel f :: ('a sworld_scheme, unit) py)" for K m f
    by (simp_all add: keeps_def py_simps)
  have "keeps (\<lambda>u. w_skills u = w_skills w) (write_anchors_on_fold g rp i ans :: ('a sworld_scheme, unit) py)"
    unfolding write_anchors_on_fold_def by (intro keeps_pbind keeps_pfor keeps_org_guard keeps_pret keeps_if s)
  then show ?thesis by (simp add: keeps_def)
qed

lemma execute_fold_exact:
  fixes w :: "'a sworld_scheme"
  assumes "store_wf (w_store w)" "\<not> blank (pc_org pc)"
  shows "\<exists>w'. execute_fold idea pc sk anchors rp alone now res w =
      (Inr (res\<lparr>pp_new_rev := Some (next_rev (fold_request idea (pc_org pc) (pc_skill_base_name pc) (pp_pr_number res) sk) sk),
         pp_golden_case_id := Some (idea_ideaId idea)\<rparr>), w') \<and>
    w_skills w' = Some (folded_skills idea pc sk (pp_pr_number res) now) \<and>
    ls_golden_cases (w_store w') = dset (gold_pk (fold_golden idea pc sk)) (fold_golden idea pc sk) (ls_golden_cases (w_store w)) \<and>
    (\<forall>a \<in> set anchors. idea_ideaId idea \<in> set (get_ideas_by_anchor (pc_org pc) rp (an_file a) (an_symbol a) (w_store w'))) \<and>
    ls_ideas (w_store w') = ls_ideas (w_store w)"
proof -
  let ?rq = "fold_request idea (pc_org pc) (pc_skill_base_name pc) (pp_pr_number res) sk"
  let ?w1 = "w\<lparr>w_skills := Some (folded_skills idea pc sk (pp_pr_number res) now)\<rparr>"
  have wr: "write_revision ?rq default_delta (\<lambda>_. now) MAX_CAS_RETRIES (if_skills alone) sk =
      (Inr (write_ok ?rq (next_rev ?rq sk)), folded_skills idea pc sk (pp_pr_number res) now)"
    using write_uncontended [of MAX_CAS_RETRIES ?rq default_delta "\<lambda>_. now" sk]
    by (simp add: alone_def folded_skills_def Let_def MAX_CAS_RETRIES_def)
  have wf1: "store_wf (w_store ?w1)" using assms(1) by simp
  obtain w2 where w2: "(if anchors \<noteq> [] then write_anchors_on_fold (pc_org pc) rp (idea_ideaId idea) anchors else pret ()) ?w1 = (Inr (), w2)"
    and sk2: "w_skills w2 = w_skills ?w1"
    and st2: "w_store w2 = (w_store w)\<lparr>ls_anchors := ls_anchors (w_store w2)\<rparr>"
    and an2: "\<forall>a \<in> set anchors. idea_ideaId idea \<in> set (get_ideas_by_anchor (pc_org pc) rp (an_file a) (an_symbol a) (w_store w2))"
  proof (cases "anchors = []")
    case True
    then show thesis by (intro that [of ?w1]) (simp_all add: pret_apply)
  next
    case False
    obtain w2 where a: "write_anchors_on_fold (pc_org pc) rp (idea_ideaId idea) anchors ?w1 = (Inr (), w2)"
      "anchors_after (fold_anchor (pc_org pc) rp (idea_ideaId idea)) anchors (ls_anchors (w_store ?w1)) (ls_anchors (w_store w2))"
      "w_store w2 = (w_store ?w1)\<lparr>ls_anchors := ls_anchors (w_store w2)\<rparr>"
      using write_anchors_exact [OF wf1 assms(2)] by blast
    have "fold_anchor (pc_org pc) rp (idea_ideaId idea) (pair_of x) \<in> set (ls_anchors (w_store w2))" if "x \<in> set anchors" for x
      using a(2) that unfolding anchors_after_def by blast
    then have "\<forall>x \<in> set anchors. idea_ideaId idea \<in> set (get_ideas_by_anchor (pc_org pc) rp (an_file x) (an_symbol x) (w_store w2))"
      by (auto simp: get_ideas_by_anchor_iff intro!: bexI simp: fold_anchor_def)
         (auto simp: anchor_pk_def)
    moreover have "w_skills w2 = w_skills ?w1"
      using write_anchors_skills [of "pc_org pc" rp "idea_ideaId idea" anchors ?w1] a(1) by simp
    ultimately show thesis using a(1,3) False by (intro that [of w2]) simp_all
  qed
  obtain before after where fb: "fold_bodies idea (pc_org pc) (pc_skill_base_name pc) sk = (before, after)" by fastforce
  have gold: "\<lparr>gold_caseId = idea_ideaId idea, gold_skillBaseName = pc_skill_base_name pc,
             gold_org = pc_org pc, gold_before = before, gold_after = after, gold_ideaBody = idea_body idea,
             gold_createdAt = None\<rparr> = fold_golden idea pc sk" by (simp add: fold_golden_def fb)
  have org: "gold_org (fold_golden idea pc sk) = pc_org pc" by (simp add: fold_golden_def)
  have tabs: "ls_golden_cases (w_store w2) = ls_golden_cases (w_store w)" "ls_ideas (w_store w2) = ls_ideas (w_store w)"
    using arg_cong [OF st2, of ls_golden_cases] arg_cong [OF st2, of ls_ideas] by simp_all
  show ?thesis unfolding execute_fold_def fb prod.case wr sum.case gold pbind_apply [of "if _ then _ else _"] w2
    using sk2 an2 assms(2) tabs
    by (simp add: pbind_apply on_store_apply put_golden_case_apply org pret_apply get_ideas_by_anchor_def)
qed

lemma folded_skills_reads:
  "pointer_rev_at (pc_org pc, pc_skill_base_name pc) (folded_skills idea pc sk n now) =
     Some (next_rev (fold_request idea (pc_org pc) (pc_skill_base_name pc) n sk) sk)"
  "get_revision_body (pc_org pc) [] (next_rev (fold_request idea (pc_org pc) (pc_skill_base_name pc) n sk) sk)
     (folded_skills idea pc sk n now) = Some (snd (fold_bodies idea (pc_org pc) (pc_skill_base_name pc) sk))"
  using committed_reads [of "fold_request idea (pc_org pc) (pc_skill_base_name pc) n sk"]
  unfolding folded_skills_def Let_def fold_request_simps by simp_all

lemma fold_bodies_after:
  assumes "pointer_rev_at (g, sb) sk = Some n" "get_revision_body g [] n sk = Some b" "b \<noteq> []"
  shows "fold_bodies idea g sb sk = (b, strip (b @ [nl, nl] @ idea_body idea))"
  using assms by (auto simp: fold_bodies_def pointer_rev_at_def get_true_pointer_def)

text \<open>A configuration and a world used by the examples.\<close>

definition demo_nli :: "string \<Rightarrow> string \<Rightarrow> nli_result option" where
  "demo_nli premise hypothesis = Some \<lparr>nli_label = ''entailment'', nli_confidence = flit (9/10), nli_request_hash = []\<rparr>"

definition demo_config :: pipeline_config where
  "demo_config = \<lparr>pc_org = ''acme'', pc_classifier = \<lparr>nc_model_revision = PINNED_MODEL_REVISION,
       nc_confidence_threshold = DEFAULT_CONFIDENCE_THRESHOLD\<rparr>, pc_nli = demo_nli, pc_parse = (\<lambda>_ _. None),
     pc_credibility = new_cred_store [], pc_skill_base_name = ''sk'', pc_verified_k = DEFAULT_VERIFIED_K,
     pc_mode = ''enforce'', pc_unfold_mode = ''shadow'', pc_fp_gate = None, pc_file_contents = []\<rparr>"

lemma demo_config_simps [simp]:
  "pc_org demo_config = ''acme''" "pc_skill_base_name demo_config = ''sk''" "pc_mode demo_config = ''enforce''"
  "pc_unfold_mode demo_config = ''shadow''" "pc_nli demo_config = demo_nli"
  by (simp_all add: demo_config_def)

definition demo_skills :: skill_store where
  "demo_skills = \<lparr>sk_revisions = [((''acme'', [], 1), \<lparr>rev_baseName = ''sk'', rev_variantId = [], rev_rev = 1,
       rev_body = ''Old.'', rev_org = ''acme'', rev_description = None, rev_createdBy = None, rev_createdAt = None,
       rev_ideaId = None\<rparr>)],
     sk_pointers = [((''acme'', ''sk''), \<lparr>ptr_baseName = ''sk'', ptr_variantId = [], ptr_rev = 1, ptr_org = ''acme'',
       ptr_updatedAt = None\<rparr>)], sk_golden = []\<rparr>"

lemma demo_skills_reads:
  "pointer_rev_at (''acme'', ''sk'') demo_skills = Some 1" "get_revision_body ''acme'' [] 1 demo_skills = Some ''Old.''"
  by (simp_all add: demo_skills_def pointer_rev_at_def get_revision_body_def)

definition demo_sworld :: "idea_record \<Rightarrow> sworld" where
  "demo_sworld r = \<lparr>w_store = snd (run_op (PutIdea r) empty_store), w_tel = None,
     w_skills = Some demo_skills, w_thrash = None\<rparr>"

lemma demo_sworld_store:
  "store_wf (w_store (demo_sworld r))"
  "\<not> blank (idea_org r) \<Longrightarrow> ls_ideas (w_store (demo_sworld r)) = [(idea_pk r, r)]"
  unfolding demo_sworld_def using store_wf_step [OF store_wf_empty, of "PutIdea r"]
  by (simp_all add: py_simps empty_store_def)

lemma demo_idea_simps [simp]:
  "idea_pk demo_idea = (''acme'', ''sk'', ''i1'')" "idea_org demo_idea = ''acme''" "idea_body demo_idea = ''Use the cache.''"
  "idea_ideaId demo_idea = ''i1''"
  by (simp_all add: demo_idea_def mk_idea_def idea_pk_def)



text \<open>The vote the pipeline casts for a candidate.\<close>

definition pipeline_vote :: "pipeline_config \<Rightarrow> merge_result \<Rightarrow> distillation_result \<Rightarrow> string \<Rightarrow> corr_request" where
  "pipeline_vote pc mr di i = \<lparr>cr_org = pc_org pc, cr_idea_id = i, cr_skill_base_name = pc_skill_base_name pc,
     cr_pr_number = mr_pr_number mr, cr_owner_repo = mr_owner_repo mr, cr_rung = mr_rung mr,
     cr_author_id = di_author_login di, cr_challenger_body = di_body di, cr_authority_kind = ''merged'',
     cr_has_reviewer = False\<rparr>"

lemma vote_exact:
  fixes w :: "'a sworld_scheme" and mr :: merge_result and di :: distillation_result
  assumes "store_wf (w_store w)" "i \<noteq> []" "pc_mode pc = ''enforce''"
    and "get_idea (pc_org pc) (pc_skill_base_name pc) i (w_store w) = Some idea"
  defines "rq \<equiv> pipeline_vote pc mr di i"
  defines "idea1 \<equiv> voted_idea rq (pc_verified_k pc) (rq_weight rq (pc_credibility pc) (with_vote rq (w_store w)))
    (\<not> pr_counted rq (w_store w)) idea"
  shows "\<exists>res1 w1. vote_or_create pc mr di alone (Some i) res w = (Inr res1, w1) \<and>
    pp_folded res1 = (idea_status idea1 = ''folded'') \<and> pp_idea_id res1 = i \<and> store_wf (w_store w1) \<and>
    w_skills w1 = w_skills w \<and> ls_ideas (w_store w1) = dset (pc_org pc, pc_skill_base_name pc, i) idea1 (ls_ideas (w_store w))"
proof -
  let ?w1 = "corroborated rq (pc_credibility pc) (pc_verified_k pc) idea w"
  have rq: "cr_org rq = pc_org pc" "cr_skill_base_name rq = pc_skill_base_name pc" "cr_idea_id rq = i"
    by (simp_all add: rq_def pipeline_vote_def)
  have co: "corroborate rq (pc_credibility pc) (pc_verified_k pc) MAX_OCC_RETRIES (if_corroborate alone) w =
      (Inr (rq_result rq (pc_credibility pc) (pc_verified_k pc) (\<not> pr_counted rq (w_store w)) idea (with_vote rq (w_store w))), ?w1)"
    using corroborate_exact [where rq = rq and w = w and idea = idea and env = "if_corroborate alone" and n = 4] assms(1,2,4) rq
    by (simp add: alone_def MAX_OCC_RETRIES_def eval_nat_numeral)
  note st = stored_idea [OF assms(1,4)]
  have "store_wf (w_store ?w1)" unfolding corroborated_store
    by (rule store_wf_voted_store [OF store_wf_with_vote]) (use assms(1,2) st rq in simp_all)
  moreover have "ls_ideas (w_store ?w1) = dset (pc_org pc, pc_skill_base_name pc, i) idea1 (ls_ideas (w_store w))"
    unfolding corroborated_store voted_store_def idea1_def by (simp add: st)
  moreover have "w_skills ?w1 = w_skills w" by (simp add: corroborated_def Let_def)
  ultimately show ?thesis using co assms(3) rq
    by (simp add: vote_or_create_def Let_def pbind_apply pret_apply rq_result_def pipeline_vote_def [symmetric]
        rq_def [symmetric] idea1_def)
qed

text \<open>a fold is not recorded in the idea, which stays folded, and a vote on an idea that is
  folded already reports it as folded.  So the next pull request that corroborates the lesson folds it
  again: the lesson is appended to the skill a second time.\<close>

theorem every_later_vote_folds_again:
  fixes w :: "'a sworld_scheme"
  assumes wf: "store_wf (w_store w)" "i \<noteq> []" "pc_mode pc = ''enforce''"
    and idea: "get_idea (pc_org pc) (pc_skill_base_name pc) i (w_store w) = Some idea" "idea_status idea = ''folded''"
    and sk: "w_skills w = Some sk" "pointer_rev_at (pc_org pc, pc_skill_base_name pc) sk = Some n"
      "get_revision_body (pc_org pc) [] n sk = Some b" "b \<noteq> []"
    and vote: "vote_or_create pc mr di alone (Some i) res w = (Inr res1, w1)"
    and fold: "fold_stage pc mr anchors alone now res1 w1 = (Inr res2, w2)" "pp_triviality_passed res2"
  shows "\<exists>sk2 lesson. w_skills w2 = Some sk2 \<and> pointer_rev_at (pc_org pc, pc_skill_base_name pc) sk2 = Some (n + 1) \<and>
    get_revision_body (pc_org pc) [] (n + 1) sk2 = Some (strip (b @ [nl, nl] @ lesson)) \<and>
    (\<exists>idea2. get_idea (pc_org pc) (pc_skill_base_name pc) i (w_store w2) = Some idea2 \<and> idea_body idea2 = lesson \<and>
       idea_status idea2 = ''folded'')"
proof -
  let ?rq = "pipeline_vote pc mr di i"
  define idea1 where "idea1 = voted_idea ?rq (pc_verified_k pc)
    (rq_weight ?rq (pc_credibility pc) (with_vote ?rq (w_store w))) (\<not> pr_counted ?rq (w_store w)) idea"
  have f1: "idea_status idea1 = ''folded''" using idea(2) by (simp add: idea1_def voted_idea_folded)
  have v: "pp_folded res1" "pp_idea_id res1 = i" "store_wf (w_store w1)" "w_skills w1 = Some sk"
      "ls_ideas (w_store w1) = dset (pc_org pc, pc_skill_base_name pc, i) idea1 (ls_ideas (w_store w))"
    using vote_exact [OF wf idea(1), of mr di res] vote f1 sk(1) by (simp_all add: idea1_def)
  have i1: "get_idea (pc_org pc) (pc_skill_base_name pc) i (w_store w1) = Some idea1"
    using v(5) by (simp add: get_idea_def dict_simps)
  have nb: "\<not> blank (pc_org pc)" using stored_idea [OF wf(1) idea(1)] by simp
  obtain res' where ex: "execute_fold idea1 pc sk anchors (mr_owner_repo mr) alone now res' w1 = (Inr res2, w2)"
    using fold v wf(3) i1 by (auto simp: fold_stage_def Let_def split: if_splits)
  obtain w' where w': "execute_fold idea1 pc sk anchors (mr_owner_repo mr) alone now res' w1 = (Inr (res'\<lparr>pp_new_rev :=
         Some (next_rev (fold_request idea1 (pc_org pc) (pc_skill_base_name pc) (pp_pr_number res') sk) sk),
         pp_golden_case_id := Some (idea_ideaId idea1)\<rparr>), w')"
    "w_skills w' = Some (folded_skills idea1 pc sk (pp_pr_number res') now)" "ls_ideas (w_store w') = ls_ideas (w_store w1)"
    using execute_fold_exact [OF v(3) nb] by blast
  have w2: "w2 = w'" using ex w'(1) by simp
  have nr: "next_rev (fold_request idea1 (pc_org pc) (pc_skill_base_name pc) m sk) sk = n + 1" for m
    using sk(2) by (simp add: next_rev_def)
  have "get_idea (pc_org pc) (pc_skill_base_name pc) i (w_store w2) = Some idea1"
    using i1 w'(3) by (simp add: w2 get_idea_def)
  then show ?thesis
    using w'(2) folded_skills_reads [where pc = pc and idea = idea1 and n = "pp_pr_number res'" and sk = sk and now = now, unfolded nr]
      fold_bodies_after [OF sk(2,3,4), of idea1] f1
    by (intro exI [of _ "folded_skills idea1 pc sk (pp_pr_number res') now"] exI [of _ "idea_body idea1"]) (simp add: w2)
qed

definition folded_demo :: idea_record where
  "folded_demo = demo_idea\<lparr>idea_status := ''folded''\<rparr>"

definition demo_merge :: merge_result where
  "demo_merge = \<lparr>mr_action = ''distilled'', mr_pr_number = 7, mr_owner_repo = ''o/r'', mr_reason = [],
     mr_distillation = None, mr_rung = ''test'', mr_rung_weight = 1, mr_is_bugfix = False, mr_kind = ''normal'',
     mr_anchors_diff = []\<rparr>"

definition demo_distillation :: distillation_result where
  "demo_distillation = \<lparr>di_pr_number = 7, di_owner_repo = ''o/r'', di_author_login = ''ann'', di_title = ''t'',
     di_body = [], di_rung = ''test'', di_is_bugfix = False, di_kind = ''normal'', di_session_context = None,
     di_raw_anchors = []\<rparr>"

lemma folded_demo_stored:
  "get_idea ''acme'' ''sk'' ''i1'' (w_store (demo_sworld folded_demo)) = Some folded_demo"
  by (simp add: get_idea_def demo_sworld_store folded_demo_def idea_pk_def)
     (simp add: demo_idea_def mk_idea_def)

theorem every_later_vote_folds_again_witness:
  "\<exists>res1 w1 res2 w2 sk2. vote_or_create demo_config demo_merge demo_distillation alone (Some ''i1'')
       (new_pipeline_result 7 ''o/r'' ''acme'') (demo_sworld folded_demo) = (Inr res1, w1) \<and>
     fold_stage demo_config demo_merge [\<lparr>an_file = ''a.py'', an_symbol = ''f'', an_resolution = ''symbol''\<rparr>] alone 5 res1 w1 =
       (Inr res2, w2) \<and>
     w_skills w2 = Some sk2 \<and> pointer_rev_at (''acme'', ''sk'') sk2 = Some 2"
proof -
  let ?w = "demo_sworld folded_demo" and ?res = "new_pipeline_result 7 ''o/r'' ''acme''"
    and ?ans = "[\<lparr>an_file = ''a.py'', an_symbol = ''f'', an_resolution = ''symbol''\<rparr>]"
    and ?rq = "pipeline_vote demo_config demo_merge demo_distillation ''i1''"
  define idea1 where "idea1 = voted_idea ?rq (pc_verified_k demo_config)
    (rq_weight ?rq (pc_credibility demo_config) (with_vote ?rq (w_store ?w))) (\<not> pr_counted ?rq (w_store ?w)) folded_demo"
  have "words [] = {}" by code_simp
  then have no: "\<not> paragraphs_overlap b [] t" for b t by (simp add: paragraphs_overlap_def)
  have b1: "idea_body idea1 = ''Use the cache.''" "idea_status idea1 = ''folded''" "idea_ideaId idea1 = ''i1''"
    by (simp_all add: idea1_def voted_idea_def pipeline_vote_def demo_distillation_def no folded_demo_def)
  have g: "get_idea (pc_org demo_config) (pc_skill_base_name demo_config) ''i1'' (w_store ?w) = Some folded_demo"
    using folded_demo_stored by simp
  obtain res1 w1 where v: "vote_or_create demo_config demo_merge demo_distillation alone (Some ''i1'') ?res ?w = (Inr res1, w1)"
      "pp_folded res1" "pp_idea_id res1 = ''i1''" "store_wf (w_store w1)" "w_skills w1 = Some demo_skills"
      "ls_ideas (w_store w1) = dset (''acme'', ''sk'', ''i1'') idea1 (ls_ideas (w_store ?w))"
    using vote_exact [OF demo_sworld_store(1) _ _ g, of demo_merge demo_distillation ?res] b1(2)
    by (auto simp: idea1_def demo_sworld_def)
  have org: "\<not> blank (idea_org folded_demo)" "idea_pk folded_demo = (''acme'', ''sk'', ''i1'')"
    by (simp_all add: folded_demo_def idea_pk_def) (simp_all add: demo_idea_def mk_idea_def)
  have ideas1: "ls_ideas (w_store w1) = [((''acme'', ''sk'', ''i1''), idea1)]"
    using v(6) by (simp add: demo_sworld_store org)
  have tr: "tr_passed (triviality_dedup_filter idea1 (a # as) (filter (\<lambda>i. idea_ideaId i \<noteq> ''i1'')
      (list_current_ideas ''acme'' ''sk'' (w_store w1))) t)" for a as t
  proof -
    have "filter (\<lambda>i. idea_ideaId i \<noteq> ''i1'') (list_current_ideas ''acme'' ''sk'' (w_store w1)) = []"
      using b1(3) by (simp add: list_current_ideas_def ideas1 dvals_where_def)
    moreover have "\<not> blank ''Use the cache.''" by code_simp
    ultimately show ?thesis using b1(1) by (simp add: triviality_dedup_filter_def)
  qed
  have ex: "\<exists>w2. execute_fold idea1 demo_config demo_skills ?ans (mr_owner_repo demo_merge) alone 5 r w1 = (Inr (r\<lparr>pp_new_rev :=
      Some (next_rev (fold_request idea1 (pc_org demo_config) (pc_skill_base_name demo_config) (pp_pr_number r) demo_skills) demo_skills),
      pp_golden_case_id := Some (idea_ideaId idea1)\<rparr>), w2)" for r
    using execute_fold_exact [OF v(4), of demo_config idea1 demo_skills ?ans "mr_owner_repo demo_merge" 5 r] by auto
  have gi: "get_idea ''acme'' ''sk'' ''i1'' (w_store w1) = Some idea1" by (simp add: get_idea_def ideas1)
  have "\<exists>res2 w2. fold_stage demo_config demo_merge ?ans alone 5 res1 w1 = (Inr res2, w2) \<and> pp_triviality_passed res2"
    using v(2,3,5) gi tr ex by (simp add: fold_stage_def Let_def b1(3)) fastforce
  then obtain res2 w2 where f: "fold_stage demo_config demo_merge ?ans alone 5 res1 w1 = (Inr res2, w2)" "pp_triviality_passed res2"
    by blast
  have "\<exists>sk2 lesson. w_skills w2 = Some sk2 \<and> pointer_rev_at (pc_org demo_config, pc_skill_base_name demo_config) sk2 = Some (1 + 1) \<and>
    get_revision_body (pc_org demo_config) [] (1 + 1) sk2 = Some (strip (''Old.'' @ [nl, nl] @ lesson)) \<and>
    (\<exists>idea2. get_idea (pc_org demo_config) (pc_skill_base_name demo_config) ''i1'' (w_store w2) = Some idea2 \<and> idea_body idea2 = lesson \<and>
       idea_status idea2 = ''folded'')"
    by (rule every_later_vote_folds_again [where sk = demo_skills and b = "''Old.''", OF demo_sworld_store(1) _ _ g _ _ _ _ _ v(1) f])
       (simp_all add: folded_demo_def demo_skills_reads demo_sworld_def)
  then show ?thesis using v(1) f(1) by auto
qed

section \<open>The semantic join\<close>

definition join_score :: "string set \<Rightarrow> idea_record \<Rightarrow> pyfloat" where
  "join_score ws idea = (if words (idea_body idea) = {} then 0 else jaccard ws (words (idea_body idea)))"

lemma best_match_snoc:
  "best_match ws (xs @ [x]) = (case best_match ws xs of (best_id, best_score) \<Rightarrow>
       if words (idea_body x) = {} then (best_id, best_score)
       else let score = jaccard ws (words (idea_body x)) in
         if best_score < score then (Some (idea_ideaId x), score) else (best_id, best_score))"
  by (simp add: best_match_def split: prod.split)

lemma best_match_nonneg: "0 \<le> snd (best_match ws xs)"
proof (induction xs rule: rev_induct)
  case Nil
  then show ?case by (simp add: best_match_def)
next
  case (snoc x xs)
  then show ?case by (auto simp: best_match_snoc Let_def split: prod.split)
qed

lemma best_match_step:
  "best_match ws (xs @ [x]) = (if snd (best_match ws xs) < join_score ws x then (Some (idea_ideaId x), join_score ws x)
     else best_match ws xs)"
  using best_match_nonneg [of ws xs] by (cases "best_match ws xs") (auto simp: best_match_snoc join_score_def Let_def)

text \<open>The reference: the first idea with the highest score, if that is positive.\<close>

definition best_score :: "string set \<Rightarrow> idea_record list \<Rightarrow> pyfloat" where
  "best_score ws ideas = Max (insert 0 (set (map (join_score ws) ideas)))"

definition first_best :: "string set \<Rightarrow> idea_record list \<Rightarrow> string option \<times> pyfloat" where
  "first_best ws ideas = (case filter (\<lambda>i. join_score ws i = best_score ws ideas \<and> 0 < join_score ws i) ideas of
     [] \<Rightarrow> (None, 0) | i # _ \<Rightarrow> (Some (idea_ideaId i), join_score ws i))"

lemma best_score_snoc: "best_score ws (xs @ [x]) = max (best_score ws xs) (join_score ws x)"
proof -
  have "Max (insert 0 (insert a S)) = max (Max (insert 0 S)) a" if "finite S" for a and S :: "pyfloat set"
    using that by (subst insert_commute, subst Max_insert) (simp_all add: max.commute)
  then show ?thesis by (simp add: best_score_def del: Max_insert)
qed

lemma best_score_ge: "x \<in> set xs \<Longrightarrow> join_score ws x \<le> best_score ws xs" and best_score_nonneg: "0 \<le> best_score ws xs"
  by (simp_all add: best_score_def)

lemma first_best_score: "snd (first_best ws xs) = best_score ws xs"
proof (cases "filter (\<lambda>i. join_score ws i = best_score ws xs \<and> 0 < join_score ws i) xs")
  case Nil
  have "best_score ws xs \<in> insert 0 (set (map (join_score ws) xs))" unfolding best_score_def by (rule Max_in) simp_all
  then have "best_score ws xs = 0" using Nil best_score_nonneg [of ws xs] by (auto simp: filter_empty_conv order_le_less)
  then show ?thesis using Nil by (simp add: first_best_def)
next
  case (Cons i rest)
  then have "join_score ws i = best_score ws xs" by (auto simp: filter_eq_Cons_iff)
  then show ?thesis using Cons by (simp add: first_best_def)
qed

lemma first_best_snoc:
  "first_best ws (xs @ [x]) = (if snd (first_best ws xs) < join_score ws x then (Some (idea_ideaId x), join_score ws x)
     else first_best ws xs)"
proof (cases "best_score ws xs < join_score ws x")
  case True
  then have "filter (\<lambda>i. join_score ws i = best_score ws (xs @ [x]) \<and> 0 < join_score ws i) xs = []"
    using best_score_ge [of _ xs ws] by (fastforce simp: filter_empty_conv best_score_snoc)
  then show ?thesis using True best_score_nonneg [of ws xs]
    by (simp add: first_best_score) (simp add: first_best_def best_score_snoc)
next
  case False
  then have m: "best_score ws (xs @ [x]) = best_score ws xs" by (simp add: best_score_snoc)
  show ?thesis
  proof (cases "filter (\<lambda>i. join_score ws i = best_score ws xs \<and> 0 < join_score ws i) xs")
    case Nil
    then have "best_score ws xs = 0" using first_best_score [of ws xs] by (simp add: first_best_def)
    then show ?thesis using False Nil m by (simp add: first_best_score) (simp add: first_best_def)
  next
    case (Cons i rest)
    then show ?thesis using False m by (simp add: first_best_score) (simp add: first_best_def)
  qed
qed

lemma best_match_first_best: "best_match (words body) ideas = first_best (words body) ideas"
proof (induction ideas rule: rev_induct)
  case Nil
  then show ?case by (simp add: best_match_def first_best_def)
next
  case (snoc x xs)
  then show ?case using snoc by (simp add: best_match_step first_best_snoc)
qed

text \<open>the scan of the semantic join computes the reference: the score is the highest
  word similarity of the current ideas, and the idea the first one that has it, none when every
  similarity is 0.\<close>

theorem best_match_is_first_best: "best_match (words body) ideas = first_best (words body) ideas"
  by (rule best_match_first_best)

text \<open>the semantic join is confirmed by the model.  What it returns is a current idea of the skill
  whose similarity reaches the floor, is the highest of the skill, and which the classifier judges to
  be corroborated by the lesson.\<close>

theorem semantic_join_confirmed:
  assumes "store_wf s" "semantic_join_fallback pc body fl s = Some i"
  shows "\<exists>r c. get_idea (pc_org pc) (pc_skill_base_name pc) i s = Some r \<and> idea_invalidAt r = None \<and>
    fl \<le> join_score (words body) r \<and>
    join_score (words body) r = best_score (words body) (list_current_ideas (pc_org pc) (pc_skill_base_name pc) s) \<and>
    classify_pair_of pc (idea_body r) body = Some c \<and> cl_verdict c = CORROBORATE"
proof -
  let ?ideas = "list_current_ideas (pc_org pc) (pc_skill_base_name pc) s"
  obtain sc where b: "best_match (words body) ?ideas = (Some i, sc)" "\<not> sc < fl"
    using assms(2) by (auto simp: semantic_join_fallback_def Let_def split: if_splits prod.splits option.splits)
  have fb: "first_best (words body) ?ideas = (Some i, sc)"
    using b(1) best_match_first_best [of body ?ideas] by simp
  then obtain r rs where r: "filter (\<lambda>i. join_score (words body) i = best_score (words body) ?ideas \<and> 0 < join_score (words body) i) ?ideas = r # rs"
      "i = idea_ideaId r" "sc = join_score (words body) r"
    by (auto simp: first_best_def split: list.splits)
  then have "r \<in> set (filter (\<lambda>i. join_score (words body) i = best_score (words body) ?ideas \<and> 0 < join_score (words body) i) ?ideas)" by simp
  then have mem: "r \<in> set ?ideas" "join_score (words body) r = best_score (words body) ?ideas" by auto
  obtain i' where g: "get_idea (pc_org pc) (pc_skill_base_name pc) i' s = Some r" "idea_invalidAt r = None"
    using mem(1) list_current_ideas_iff [OF assms(1)] by blast
  then have "i' = i" using get_idea_key [OF assms(1) g(1)] r(2) by simp
  then show ?thesis using g mem(2) b r(3) assms(2)
    by (auto simp: semantic_join_fallback_def Let_def split: if_splits option.splits)
qed

theorem semantic_join_confirmed_witness:
  "semantic_join_fallback demo_config ''Use the cache.'' SEMANTIC_JOIN_FLOOR (w_store (demo_sworld demo_idea)) = Some ''i1'' \<and>
   SEMANTIC_JOIN_FLOOR \<le> join_score (words ''Use the cache.'') demo_idea"
proof -
  let ?s = "w_store (demo_sworld demo_idea)"
  have cur: "list_current_ideas ''acme'' ''sk'' ?s = [demo_idea]"
    by (simp add: list_current_ideas_def demo_sworld_store dvals_where_def) (simp add: demo_idea_def mk_idea_def)
  have get: "get_idea ''acme'' ''sk'' ''i1'' ?s = Some demo_idea" by (simp add: get_idea_def demo_sworld_store)
  have ne: "words ''Use the cache.'' \<noteq> {}" by code_simp
  have sc: "jaccard (words ''Use the cache.'') (words ''Use the cache.'') = 1" by (rule jaccard_self) (simp_all add: ne)
  have fl: "SEMANTIC_JOIN_FLOOR \<le> 1" by (auto simp: SEMANTIC_JOIN_FLOOR_def flit_def intro!: rnd_le_float)
  have th: "DEFAULT_CONFIDENCE_THRESHOLD \<le> flit (9/10)" by (auto simp: DEFAULT_CONFIDENCE_THRESHOLD_def flit_def intro!: rnd_mono)
  have cl: "\<exists>c. classify_pair_of demo_config p h = Some c \<and> cl_verdict c = CORROBORATE" for p h
    using th by (simp add: classify_pair_of_def demo_config_def demo_nli_def judged_def map_verdict_def Let_def not_less)
  have j: "semantic_join_fallback demo_config ''Use the cache.'' SEMANTIC_JOIN_FLOOR ?s = Some ''i1''"
    using cl [of "''Use the cache.''" "''Use the cache.''"] fl
    by (auto simp: semantic_join_fallback_def Let_def cur get ne best_match_def sc)
  show ?thesis using j semantic_join_confirmed [OF demo_sworld_store(1) j] by (simp add: get)
qed

section \<open>Identifiers\<close>

lemma length_bytes_of_word [simp]: "length (bytes_of_word w) = 4"
  by (simp add: bytes_of_word_def)

lemma length_sha1: "length (sha1 bs) = 20"
  by (simp add: sha1_def Let_def split: prod.split)

lemma length_hex_bytes [simp]: "length (hex_bytes bs) = 2 * length bs"
  by (induction bs) (simp_all add: hex_bytes_def hex_byte_def)

definition hex_chars :: "char set" where
  "hex_chars = set ''0123456789abcdef''"

lemma hex_digit_chars: "n < 16 \<Longrightarrow> hex_digit n \<in> hex_chars"
proof -
  have "\<forall>n \<in> set [0..<16]. hex_digit n \<in> hex_chars" unfolding hex_chars_def by code_simp
  then show "n < 16 \<Longrightarrow> hex_digit n \<in> hex_chars" by simp
qed

lemma set_hex_bytes: "set (hex_bytes bs) \<subseteq> hex_chars"
  by (induction bs) (auto simp: hex_bytes_def hex_byte_def hex_digit_chars)

lemma hd_hex_bytes: "bs \<noteq> [] \<Longrightarrow> hd (hex_bytes bs) = hex_digit (hd bs div 16 mod 16)"
  by (cases bs) (simp_all add: hex_bytes_def hex_byte_def)


end
