(* ===== verification/PipelineProps.thy ===== *)
theory PipelineProps
  imports FoldProps GithubProps NecessityProps
begin

text \<open>
  Properties of the merge handler, of the pipeline and of the replay driver.  The invariants
  come from the interpretations of \<open>pipeline_invariant\<close> in \<open>PipelineInv\<close>.
\<close>

section \<open>The merge handler\<close>

lemma handle_other_base:
  "pq_base_branch pr \<noteq> b \<Longrightarrow> \<exists>m. handle_merged_pr run_judge pr g b mode now s = (Inr m, s) \<and> mr_action m \<noteq> ''distilled''"
  by (simp add: handle_merged_pr_def py_simps no_insight_def)

lemma handle_processed:
  "is_pr_processed g (pq_owner_repo pr) (pq_number pr) s \<Longrightarrow>
   \<exists>m. handle_merged_pr run_judge pr g b mode now s = (Inr m, s) \<and> mr_action m \<noteq> ''distilled''"
  by (simp add: handle_merged_pr_def py_simps no_insight_def)

lemma mark_enforced:
  "mark_if_enforced ''enforce'' g pr now s = (r, s') \<Longrightarrow>
   r = Inl (OrgGuardError ''mark_pr_processed'') \<and> s' = s \<and> blank g \<or>
   r = Inr () \<and> is_pr_processed g (pq_owner_repo pr) (pq_number pr) s'"
  by (auto simp: mark_if_enforced_def py_simps is_pr_processed_def dict_simps split: if_splits)

text \<open>A call in enforce mode that returned has settled its pull request.\<close>

definition settled :: "string \<Rightarrow> string \<Rightarrow> pull_request \<Rightarrow> learning_store \<Rightarrow> bool" where
  "settled g b pr s \<longleftrightarrow> pq_base_branch pr \<noteq> b \<or> is_pr_processed g (pq_owner_repo pr) (pq_number pr) s"

lemma handle_settles:
  assumes "handle_merged_pr run_judge pr g b ''enforce'' now s = (Inr r, s')"
  shows "settled g b pr s'"
proof (cases "pq_base_branch pr \<noteq> b \<or> is_pr_processed g (pq_owner_repo pr) (pq_number pr) s")
  case True
  then have "s' = s" using assms handle_other_base handle_processed by (metis prod.inject)
  then show ?thesis using True by (simp add: settled_def)
next
  case False
  obtain m s1 where m: "mark_if_enforced ''enforce'' g pr now s = (m, s1)" by fastforce
  have "m = Inr () \<and> s1 = s'"
    using assms False m mark_enforced [OF m]
    by (auto simp: handle_merged_pr_def py_simps Let_def split: if_splits bool.splits prod.splits)
  then show ?thesis using mark_enforced [OF m] by (simp add: settled_def)
qed

lemma handle_settled:
  "settled g b pr s \<Longrightarrow>
   \<exists>m. handle_merged_pr run_judge pr g b mode now s = (Inr m, s) \<and> mr_action m \<noteq> ''distilled''"
  unfolding settled_def using handle_other_base handle_processed by metis

lemma mark_returns: "\<not> blank g \<Longrightarrow> \<exists>s'. mark_if_enforced mode g pr now s = (Inr (), s')"
  by (simp add: mark_if_enforced_def py_simps)

lemma handle_returns:
  assumes "\<not> blank g"
  shows "\<exists>r s'. handle_merged_pr run_judge pr g b mode now s = (Inr r, s')"
proof -
  obtain s' where "mark_if_enforced mode g pr now s = (Inr (), s')" using mark_returns [OF assms] by blast
  then show ?thesis
    by (cases "is_curriculum_noise pr"; cases "fst (is_curriculum_noise pr)")
       (simp_all add: handle_merged_pr_def pbind_apply pret_apply pget_apply Let_def)
qed

lemma settled_kept:
  assumes "settled G b pr s" "\<And>n rp. is_pr_processed G rp n s \<Longrightarrow> is_pr_processed G rp n t"
  shows "settled G b pr t"
  using assms by (auto simp: settled_def)

lemma handle_exact:
  "((\<exists>r. fst (handle_merged_pr run_judge pr g b mode now s) = Inr r \<and> mr_action r = ''distilled'') \<longleftrightarrow>
      pq_base_branch pr = b \<and> \<not> is_pr_processed g (pq_owner_repo pr) (pq_number pr) s \<and> pq_merged pr \<and>
      \<not> fst (is_curriculum_noise pr) \<and> \<not> (mode = ''enforce'' \<and> blank g)) \<and>
   snd (handle_merged_pr run_judge pr g b mode now s) =
     (if mode = ''enforce'' \<and> \<not> blank g \<and> \<not> settled g b pr s
      then s\<lparr>ls_processed_prs := dset (g, pq_owner_repo pr, pq_number pr)
        \<lparr>pr_org = g, pr_owner_repo = pq_owner_repo pr, pr_pr_number = pq_number pr, pr_processed_at = now\<rparr>
        (ls_processed_prs s)\<rparr>
      else s)"
  by (cases "is_curriculum_noise pr")
     (auto simp: handle_merged_pr_def mark_if_enforced_def py_simps Let_def no_insight_def settled_def
        split: if_splits bool.splits)

text \<open>C9: the decision and the effect of the merge handler.  A pull request is distilled exactly
  when it targets the default branch, is not yet on the cursor, was merged and is not noise (and,
  in enforce mode, the organisation is not blank).  In enforce mode every pull request of the
  default branch, distilled or not, is put on the cursor; nothing else in the store changes, and in
  other modes nothing at all.\<close>

theorem handler_exact:
  "((\<exists>r. fst (handle_merged_pr run_judge pr g b mode now s) = Inr r \<and> mr_action r = ''distilled'') \<longleftrightarrow>
      pq_base_branch pr = b \<and> \<not> is_pr_processed g (pq_owner_repo pr) (pq_number pr) s \<and> pq_merged pr \<and>
      \<not> fst (is_curriculum_noise pr) \<and> \<not> (mode = ''enforce'' \<and> blank g)) \<and>
   snd (handle_merged_pr run_judge pr g b mode now s) =
     (if mode = ''enforce'' \<and> \<not> blank g \<and> \<not> settled g b pr s
      then s\<lparr>ls_processed_prs := dset (g, pq_owner_repo pr, pq_number pr)
        \<lparr>pr_org = g, pr_owner_repo = pq_owner_repo pr, pr_pr_number = pq_number pr, pr_processed_at = now\<rparr>
        (ls_processed_prs s)\<rparr>
      else s)"
  by (rule handle_exact)

section \<open>Invariants of a replay\<close>

lemma alone_fair [simp]: "fair P alone"
  by (simp add: fair_def alone_def)

text \<open>C3: whatever log is replayed, in whatever mode and with whatever models, against other
  writers that respect the service's contract, the learning store stays well formed and every pull
  request has at most one vote for every idea.\<close>

theorem replay_keeps_one_vote_per_pr:
  fixes w :: "'a sworld_scheme"
  assumes "service_reach (w_store w)" "\<And>k. fair service_reach (ifs k)"
  shows "store_wf (w_store (snd (replay_merge_log run_judge prs g b mode components ifs clock w))) \<and>
    distinct (List.map_filter vote_pr
      (list_idea_sources org i (w_store (snd (replay_merge_log run_judge prs g b mode components ifs clock w)))))"
proof -
  have "service_reach (w_store (snd (replay_merge_log run_judge prs g b mode components ifs clock w)))"
    using keepsD [OF service_inv.keeps_replay [OF assms(2)], of w] assms(1) by (simp add: in_store_def)
  then show ?thesis by (simp add: service_reach_wf service_votes_distinct)
qed

lemma demo_sworld_service: "service_reach (w_store (demo_sworld r))"
  unfolding demo_sworld_def using service_step [OF service_empty, of "PutIdea r"] by simp

theorem replay_keeps_one_vote_per_pr_witness:
  "store_wf (w_store (snd (replay_merge_log (\<lambda>_. None) [demo_pr] ''acme'' ''main'' ''enforce'' (Some demo_config) (\<lambda>_. alone) int (demo_sworld demo_idea)))) \<and>
   distinct (List.map_filter vote_pr (list_idea_sources ''acme'' ''i1''
     (w_store (snd (replay_merge_log (\<lambda>_. None) [demo_pr] ''acme'' ''main'' ''enforce'' (Some demo_config) (\<lambda>_. alone) int (demo_sworld demo_idea))))))"
  by (rule replay_keeps_one_vote_per_pr) (simp_all add: demo_sworld_service)



section \<open>Replaying a log again\<close>

text \<open>The other writers take nothing off the cursor.\<close>

definition keeps_cursor :: "string \<Rightarrow> (nat \<Rightarrow> interference) \<Rightarrow> bool" where
  "keeps_cursor g ifs \<longleftrightarrow> (\<forall>k n rp. fair (is_pr_processed g rp n) (ifs k))"

lemma keeps_cursor_alone [simp]: "keeps_cursor g (\<lambda>_. alone)"
  by (simp add: keeps_cursor_def)

lemma keeps_cursorD: "keeps_cursor g ifs \<Longrightarrow> fair (is_pr_processed g rp n) (ifs k)"
  by (simp add: keeps_cursor_def)

lemma processed_kept_by_replay_one:
  fixes w :: "'a sworld_scheme"
  assumes "keeps_cursor g ifs" "is_pr_processed g rp n (w_store w)"
  shows "is_pr_processed g rp n (w_store (snd (replay_one run_judge g b mode components ifs clock pr results w)))"
  using keepsD [OF cursor_inv.keeps_replay_one [OF keeps_cursorD [OF assms(1)]], where w = w] assms(2) by (simp add: in_store_def)

lemma processed_kept_by_replay:
  fixes w :: "'a sworld_scheme"
  assumes "keeps_cursor g ifs" "is_pr_processed g rp n (w_store w)"
  shows "is_pr_processed g rp n (w_store (snd (pfor (replay_one run_judge g b mode components ifs clock) prs results w)))"
  by (rule pfor_invariant [where P = "\<lambda>w. is_pr_processed g rp n (w_store w)"])
     (simp_all add: processed_kept_by_replay_one assms)

text \<open>After the handler has returned in enforce mode, the pull request is settled, whatever the
  pipeline does then.\<close>

lemma replay_one_settles:
  fixes w :: "'a sworld_scheme"
  assumes "keeps_cursor g ifs"
    and "fst (handle_merged_pr run_judge pr g b ''enforce'' (clock (2 * length results)) (w_store w)) = Inr r"
  shows "settled g b pr (w_store (snd (replay_one run_judge g b ''enforce'' components ifs clock pr results w)))"
proof -
  obtain s1 where h: "handle_merged_pr run_judge pr g b ''enforce'' (clock (2 * length results)) (w_store w) = (Inr r, s1)"
    using assms(2) by (metis prod.collapse)
  have s1: "settled g b pr s1" by (rule handle_settles [OF h])
  have kept: "is_pr_processed g rp n (w_store (snd (without_tracker (run_pipeline (replay_config g mode pc) m (ifs k) now) u)))"
    if "is_pr_processed g rp n (w_store u)" for rp n mode pc m k now and u :: "'a sworld_scheme"
    using keepsD [OF keeps_without_tracker [OF cursor_inv.keeps_run_pipeline [OF _ keeps_cursorD [OF assms(1)]]], of "replay_config g mode pc" g rp n u] that
    by (simp add: in_store_def replay_config_def)
  show ?thesis
  proof (cases components)
    case None
    then show ?thesis using s1 h by (simp add: replay_one_def Let_def py_simps)
  next
    case (Some pc)
    let ?p = "without_tracker (run_pipeline (replay_config g ''enforce'' pc) r (ifs (length results))
      (clock (2 * length results + 1)))"
    have p: "settled g b pr (w_store (snd (?p (w\<lparr>w_store := s1\<rparr>))))"
      by (rule settled_kept [OF s1], rule kept) simp
    obtain x w2 where x: "?p (w\<lparr>w_store := s1\<rparr>) = (x, w2)" by fastforce
    show ?thesis using Some h s1 p x
      by (cases "mr_action r = ''distilled''"; cases x) (simp_all add: replay_one_def Let_def py_simps)
  qed
qed

lemma replay_settles:
  fixes w :: "'a sworld_scheme"
  assumes "keeps_cursor g ifs"
    and "pfor (replay_one run_judge g b ''enforce'' components ifs clock) prs results w = (Inr rs, w')"
  shows "\<forall>pr \<in> set prs. settled g b pr (w_store w')"
  using assms(2)
proof (induction prs arbitrary: results w)
  case Nil
  then show ?case by simp
next
  case (Cons pr prs)
  let ?one = "replay_one run_judge g b ''enforce'' components ifs clock"
  obtain results' w1 where one: "?one pr results w = (Inr results', w1)" and rest: "pfor ?one prs results' w1 = (Inr rs, w')"
    using Cons.prems by (auto elim: pbind_InrE)
  obtain r where r: "fst (handle_merged_pr run_judge pr g b ''enforce'' (clock (2 * length results)) (w_store w)) = Inr r"
    using one by (auto simp: replay_one_def Let_def py_simps split: prod.splits sum.splits)
  have "settled g b pr (w_store w1)"
    using replay_one_settles [where clock = clock and results = results, OF assms(1) r, of components] one by simp
  then have "settled g b pr (w_store (snd (pfor ?one prs results' w1)))"
    by (rule settled_kept) (rule processed_kept_by_replay [OF assms(1)])
  then show ?case using Cons.IH [OF rest] rest by simp
qed

lemma replay_of_settled:
  fixes w :: "'a sworld_scheme"
  assumes "\<forall>pr \<in> set prs. settled g b pr (w_store w)"
  shows "\<exists>rs. pfor (replay_one run_judge g b mode components ifs clock) prs results w = (Inr (results @ rs), w) \<and>
    map (\<lambda>(r, p). (mr_action r = ''distilled'', p)) rs = replicate (length prs) (False, None)"
  using assms
proof (induction prs arbitrary: results)
  case Nil
  then show ?case by (simp add: py_simps)
next
  case (Cons pr prs)
  obtain m where m: "handle_merged_pr run_judge pr g b mode (clock (2 * length results)) (w_store w) = (Inr m, w_store w)"
      "mr_action m \<noteq> ''distilled''"
    using handle_settled Cons.prems by (metis list.set_intros(1))
  have "replay_one run_judge g b mode components ifs clock pr results w = (Inr (results @ [(m, None)]), w)"
    using m by (simp add: replay_one_def Let_def py_simps split: option.split)
  moreover obtain rs where "pfor (replay_one run_judge g b mode components ifs clock) prs (results @ [(m, None)]) w =
      (Inr ((results @ [(m, None)]) @ rs), w)"
      "map (\<lambda>(r, p). (mr_action r = ''distilled'', p)) rs = replicate (length prs) (False, None)"
    using Cons.IH [of "results @ [(m, None)]"] Cons.prems by auto
  ultimately show ?case using m(2) by (intro exI [of _ "(m, None) # rs"]) (simp add: py_simps)
qed

text \<open>C2: replaying is idempotent.  Once a log has been replayed to its end in enforce mode, replaying
  it again, in any mode, with any models and pipeline, distils nothing, runs no pipeline and changes
  nothing: not the learning store, not the skills, not the telemetry.\<close>

theorem replay_idempotent:
  fixes w :: "'a sworld_scheme"
  assumes "replay_merge_log run_judge prs g b ''enforce'' components ifs clock w = (Inr rs, w')"
    and "keeps_cursor g ifs"
  shows "\<exists>rs'. replay_merge_log run_judge' prs g b mode components' ifs' clock' w' = (Inr rs', w') \<and>
    map (\<lambda>(r, p). (mr_action r = ''distilled'', p)) rs' = replicate (length prs) (False, None)"
  using replay_of_settled [OF replay_settles [OF assms(2) assms(1) [unfolded replay_merge_log_def]],
      of run_judge' mode components' ifs' clock' "[]"]
  by (simp add: replay_merge_log_def)

theorem replay_idempotent_witness:
  "\<exists>rs w' rs'. replay_merge_log (\<lambda>_. None) [demo_pr] ''acme'' ''main'' ''enforce'' None (\<lambda>_. alone) int (demo_sworld demo_idea) = (Inr rs, w') \<and>
     replay_merge_log (\<lambda>_. Some demo_output) [demo_pr] ''acme'' ''main'' ''enforce'' (Some demo_config) (\<lambda>_. alone) int w' = (Inr rs', w')"
proof -
  obtain r s' where "handle_merged_pr (\<lambda>_. None) demo_pr ''acme'' ''main'' ''enforce'' 0 (w_store (demo_sworld demo_idea)) = (Inr r, s')"
    using handle_returns [of "''acme''"] by (metis blank_acme)
  then have "replay_merge_log (\<lambda>_. None) [demo_pr] ''acme'' ''main'' ''enforce'' None (\<lambda>_. alone) int (demo_sworld demo_idea) =
      (Inr [(r, None)], (demo_sworld demo_idea)\<lparr>w_store := s'\<rparr>)"
    by (simp add: replay_merge_log_def replay_one_def Let_def py_simps)
  from replay_idempotent [OF this, of "\<lambda>_. Some demo_output" "''enforce''" "Some demo_config" "\<lambda>_. alone" int] this
  show ?thesis by auto
qed

text \<open>the cursor is written before the pipeline runs, so a pull request whose pipeline raised is on
  the cursor all the same: the next replay of the log skips it and its insight is lost.\<close>

theorem failed_pipeline_not_retried:
  fixes w :: "'a sworld_scheme"
  assumes "fst (replay_one run_judge g b ''enforce'' components ifs clock pr results w) = Inl e"
    and "\<not> blank g" "keeps_cursor g ifs"
  shows "\<exists>m. let w' = snd (replay_one run_judge g b ''enforce'' components ifs clock pr results w) in
    replay_one run_judge' g b mode components' ifs' clock' pr results' w' = (Inr (results' @ [(m, None)]), w')"
proof -
  let ?w' = "snd (replay_one run_judge g b ''enforce'' components ifs clock pr results w)"
  obtain r where r: "fst (handle_merged_pr run_judge pr g b ''enforce'' (clock (2 * length results)) (w_store w)) = Inr r"
    using handle_returns [OF assms(2)] by (metis fst_conv)
  have "settled g b pr (w_store ?w')" by (rule replay_one_settles [where clock = clock and results = results, OF assms(3) r])
  then obtain m where "handle_merged_pr run_judge' pr g b mode (clock' (2 * length results')) (w_store ?w') = (Inr m, w_store ?w')"
      "mr_action m \<noteq> ''distilled''"
    using handle_settled by metis
  then show ?thesis by (intro exI [of _ m]) (simp add: replay_one_def Let_def py_simps split: option.split)
qed

lemma demo_pr_handled:
  assumes "d = [] \<or> fst (is_curriculum_noise (demo_pr\<lparr>pq_diff := d\<rparr>)) = False" "ls_processed_prs s = []" "ls_branch_links s = []"
  shows "\<exists>r s'. handle_merged_pr (\<lambda>_. None) (demo_pr\<lparr>pq_diff := d\<rparr>) ''acme'' ''main'' mode now s = (Inr r, s') \<and>
    mr_action r = ''distilled'' \<and> mr_pr_number r = 7 \<and> mr_owner_repo r = ''acme/app'' \<and> mr_anchors_diff r = d \<and>
    (\<exists>di. mr_distillation r = Some di \<and> di_raw_anchors di = d) \<and> s' = s\<lparr>ls_processed_prs := ls_processed_prs s'\<rparr> \<and>
    (mode \<noteq> ''enforce'' \<longrightarrow> s' = s)"
proof -
  have "\<not> fst (is_curriculum_noise (demo_pr\<lparr>pq_diff := []\<rparr>))" by code_simp
  then have n: "fst (is_curriculum_noise (demo_pr\<lparr>pq_diff := d\<rparr>)) = False" using assms(1) by auto
  then obtain x where "is_curriculum_noise (demo_pr\<lparr>pq_diff := d\<rparr>) = (False, x)" by (metis prod.collapse)
  then show ?thesis using assms(2,3)
    by (auto simp: handle_merged_pr_def mark_if_enforced_def py_simps Let_def is_pr_processed_def demo_pr_def distill_pr_def
        distill_via_llm_def)
qed

lemma isl_pbind: "isl (fst (m w)) \<Longrightarrow> isl (fst (pbind m f w))"
  by (auto simp: pbind_apply isl_def split: prod.splits sum.splits)

definition clash_world :: sworld where
  "clash_world = demo_sworld ((mk_idea (generate_idea_id 7 ''acme/app'') ''sk'' ''acme'' ''b'' ''open'' 0)\<lparr>idea_invalidAt := Some 1\<rparr>)"

lemma clash_raises:
  "\<exists>e. fst (replay_one (\<lambda>_. None) ''acme'' ''main'' ''enforce'' (Some demo_config) (\<lambda>_. alone) int demo_pr [] clash_world) = Inl e"
proof -
  let ?i = "generate_idea_id 7 ''acme/app''"
  let ?r = "(mk_idea ?i ''sk'' ''acme'' ''b'' ''open'' 0)\<lparr>idea_invalidAt := Some 1\<rparr>"
  have org: "\<not> blank (idea_org ?r)" "idea_pk ?r = (''acme'', ''sk'', ?i)" "idea_corroborationVersion ?r = 0" "idea_invalidAt ?r = Some 1"
    by (simp_all add: mk_idea_def idea_pk_def)
  have tabs: "ls_processed_prs (w_store clash_world) = []" "ls_branch_links (w_store clash_world) = []"
    "ls_ideas (w_store clash_world) = [((''acme'', ''sk'', ?i), ?r)]"
    using demo_sworld_store(2) [OF org(1)] org by (simp_all add: clash_world_def)
       (simp_all add: demo_sworld_def py_simps org empty_store_def)
  obtain m s' where m: "handle_merged_pr (\<lambda>_. None) demo_pr ''acme'' ''main'' ''enforce'' (int 0) (w_store clash_world) = (Inr m, s')"
      "mr_action m = ''distilled''" "mr_pr_number m = 7" "mr_owner_repo m = ''acme/app''" "mr_anchors_diff m = []"
      "\<exists>di. mr_distillation m = Some di \<and> di_raw_anchors di = []" "s' = (w_store clash_world)\<lparr>ls_processed_prs := ls_processed_prs s'\<rparr>"
    using demo_pr_handled [of "[]" "w_store clash_world" "''enforce''" "int 0"] tabs
    by (fastforce simp: demo_pr_def)
  obtain di where di: "mr_distillation m = Some di" "di_raw_anchors di = []" using m(6) by blast
  have ideas: "ls_ideas s' = [((''acme'', ''sk'', ?i), ?r)]" using arg_cong [OF m(7), of ls_ideas] tabs(3) by simp
  have none: "semantic_join_fallback pc b fl s' = None" if "pc_org pc = ''acme''" "pc_skill_base_name pc = ''sk''" for pc b fl
    using that ideas org(4) by (simp add: semantic_join_fallback_def Let_def list_current_ideas_def dvals_where_def)
  have anchors: "pipeline_anchors (replay_config ''acme'' ''enforce'' demo_config) m di = []"
    using m(5) di(2) by (simp add: pipeline_anchors_def Let_def extract_anchors_from_diff_def)
  have create: "isl (fst (create_idea_from_pr ''acme'' ?i ''sk'' n rp rg au b cs ak hr k w))"
    if "ls_ideas (w_store w) = [((''acme'', ''sk'', ?i), ?r)]" for n rp rg au b cs ak hr k and w :: sworld
    using that org(3) by (simp add: create_idea_from_pr_def py_simps Let_def mk_idea_def idea_pk_def version_at_def)
  have vote: "isl (fst (vote_or_create (replay_config ''acme'' ''enforce'' demo_config) m di ifs None res w))"
    if "ls_ideas (w_store w) = [((''acme'', ''sk'', ?i), ?r)]" for ifs res and w :: sworld
    using create [OF that] m(3,4) by (simp add: vote_or_create_def Let_def replay_config_def isl_pbind)
  have run: "isl (fst (run_pipeline (replay_config ''acme'' ''enforce'' demo_config) m ifs now w))"
    if "w_store w = s'" for ifs now and w :: sworld
    using vote [of w] none [of "replay_config ''acme'' ''enforce'' demo_config"] that ideas m(2) di(1) anchors
    by (simp add: run_pipeline_def Let_def pbind_apply [of "pget _"] pbind_apply [of "pret _"] pget_apply pret_apply isl_pbind)
       (simp add: replay_config_def isl_pbind)
  have "isl (fst (without_tracker (run_pipeline (replay_config ''acme'' ''enforce'' demo_config) m alone (int 1)) (clash_world\<lparr>w_store := s'\<rparr>)))"
    using run [of "clash_world\<lparr>w_store := s', w_thrash := None\<rparr>" alone "int 1"] by (auto simp: without_tracker_def split: prod.split)
  then have "isl (fst (replay_one (\<lambda>_. None) ''acme'' ''main'' ''enforce'' (Some demo_config) (\<lambda>_. alone) int demo_pr [] clash_world))"
    using m(1,2) by (simp add: replay_one_def Let_def pbind_apply [of "on_store _"] on_store_apply isl_pbind)
  then show ?thesis by (auto simp: isl_def)
qed

theorem failed_pipeline_not_retried_witness:
  "\<exists>m. let w' = snd (replay_one (\<lambda>_. None) ''acme'' ''main'' ''enforce'' (Some demo_config) (\<lambda>_. alone) int demo_pr [] clash_world) in
    replay_one (\<lambda>_. None) ''acme'' ''main'' ''enforce'' (Some demo_config) (\<lambda>_. alone) int demo_pr [] w' = (Inr ([] @ [(m, None)]), w')"
proof -
  obtain e where e: "fst (replay_one (\<lambda>_. None) ''acme'' ''main'' ''enforce'' (Some demo_config) (\<lambda>_. alone) int demo_pr [] clash_world) = Inl e"
    using clash_raises by blast
  show ?thesis by (rule failed_pipeline_not_retried [OF e]) simp_all
qed

section \<open>Shadow mode\<close>

definition read_only :: "('w, 'b) py \<Rightarrow> bool" where
  "read_only m \<longleftrightarrow> (\<forall>w. keeps (\<lambda>u. u = w) m)"

lemma read_only_apply: "read_only m \<Longrightarrow> snd (m w) = w"
  by (simp add: read_only_def keeps_def)

lemma read_onlyI: "(\<And>w. snd (m w) = w) \<Longrightarrow> read_only m"
  by (simp add: read_only_def keeps_def)

lemma read_only_bind: "read_only m \<Longrightarrow> (\<And>x. read_only (f x)) \<Longrightarrow> read_only (pbind m f)"
  by (simp add: read_only_def keeps_pbind)

lemma read_only_pfor: "(\<And>x acc. read_only (body x acc)) \<Longrightarrow> read_only (pfor body xs acc)"
  by (simp add: read_only_def keeps_pfor)

lemma read_only_pret: "read_only (pret x)" and read_only_pget: "read_only (pget f)"
  by (simp_all add: read_only_def keeps_pret keeps_pget)

lemmas read_only_intros = read_only_bind read_only_pfor read_only_pret read_only_pget

lemma read_only_on_store:
  "(\<And>s. snd (m s) = s) \<Longrightarrow> read_only (on_store m :: ('a lworld_scheme, 'b) py)"
  by (rule read_onlyI) (simp add: on_store_apply)

lemma read_only_without_tracker:
  fixes m :: "('a sworld_scheme, 'b) py"
  assumes "read_only m"
  shows "read_only (without_tracker m)"
proof (rule read_onlyI)
  fix w :: "'a sworld_scheme"
  show "snd (without_tracker m w) = w" using read_only_apply [OF assms, of "w\<lparr>w_thrash := None\<rparr>"]
    by (cases "m (w\<lparr>w_thrash := None\<rparr>)") (simp add: without_tracker_def)
qed

lemma read_only_supersede:
  "read_only (supersede rq ''shadow'' gate delta env senv now :: ('a sworld_scheme, supersede_result) py)"
  by (rule read_onlyI) (simp add: supersede_def pbind_apply org_guard_apply split: option.split)

lemma read_only_handle: "mode \<noteq> ''enforce'' \<Longrightarrow> snd (handle_merged_pr run_judge pr g b mode now s) = s"
  using handle_exact [of run_judge pr g b mode now s] by simp

lemma read_only_judge_incumbent:
  assumes "pc_mode pc \<noteq> ''enforce''" "pc_unfold_mode pc = ''shadow''"
  shows "read_only (judge_incumbent pc mr di ifs now x acc :: ('a sworld_scheme, pipeline_result \<times> string option) py)"
proof (rule read_onlyI)
  fix w :: "'a sworld_scheme"
  have sup: "snd (pbind (supersede rq ''shadow'' gate delta env senv now) (\<lambda>r. pret (f r)) w) = w" for rq gate delta env senv f
    by (rule read_only_apply) (intro read_only_intros read_only_supersede)
  show "snd (judge_incumbent pc mr di ifs now x acc w) = w"
    by (simp add: judge_incumbent_def Let_def assms sup split: option.split verdict.split)
qed

lemma read_only_run_pipeline:
  assumes "pc_mode pc \<noteq> ''enforce''" "pc_unfold_mode pc = ''shadow''"
  shows "read_only (run_pipeline pc mr ifs now :: ('a sworld_scheme, pipeline_result) py)"
proof -
  have vote: "read_only (vote_or_create pc mr di ifs c res :: ('a sworld_scheme, pipeline_result) py)" for di c res
    by (simp add: vote_or_create_def Let_def assms(1) read_only_pret split: option.split)
  have fold: "read_only (fold_stage pc mr anchors ifs now res :: ('a sworld_scheme, pipeline_result) py)" for anchors res
    by (simp add: fold_stage_def assms(1) read_only_pret)
  have flat: "read_only (case a of (res, candidate) \<Rightarrow> f res candidate)"
    if "\<And>r c. read_only (f r c :: ('a sworld_scheme, pipeline_result) py)" for a f
    using that by (cases a) simp
  show ?thesis unfolding run_pipeline_def Let_def
    by (cases "mr_distillation mr")
       (simp_all only: option.case if_splits, (intro conjI impI read_only_intros read_only_judge_incumbent assms vote fold flat)+)
qed

text \<open>C5: a replay in shadow mode, with the un-fold mode at its default, shadow too, is read-only:
  it leaves the learning store, the skills, the telemetry and the tracker exactly as they were, even
  when it ends by an exception.\<close>

theorem shadow_replay_read_only:
  fixes w :: "'a sworld_scheme"
  assumes "mode \<noteq> ''enforce''" "\<forall>pc. components = Some pc \<longrightarrow> pc_unfold_mode pc = ''shadow''"
  shows "snd (replay_merge_log run_judge prs g b mode components ifs clock w) = w"
proof (rule read_only_apply)
  have "read_only (replay_one run_judge g b mode components ifs clock pr results :: ('a sworld_scheme, (merge_result \<times> pipeline_result option) list) py)"
    for pr results
  proof -
    have h: "read_only (on_store (handle_merged_pr run_judge pr g b mode now) :: ('a sworld_scheme, merge_result) py)" for now
      by (rule read_only_on_store) (rule read_only_handle [OF assms(1)])
    have p: "read_only (run_pipeline (replay_config g mode pc) r i now :: ('a sworld_scheme, pipeline_result) py)"
      if "components = Some pc" for pc r i now
      by (rule read_only_run_pipeline) (use assms that in \<open>simp_all add: replay_config_def\<close>)
    show ?thesis using p unfolding replay_one_def Let_def
      by (cases components) (simp_all only: option.case, (intro read_only_intros h, simp add: read_only_pret read_only_bind read_only_without_tracker)+)
  qed
  then show "read_only (replay_merge_log run_judge prs g b mode components ifs clock :: ('a sworld_scheme, (merge_result \<times> pipeline_result option) list) py)"
    unfolding replay_merge_log_def by (intro read_only_intros)
qed

theorem shadow_replay_read_only_witness:
  "snd (replay_merge_log (\<lambda>_. Some demo_output) [demo_pr] ''acme'' ''main'' ''shadow'' (Some demo_config) (\<lambda>_. alone) int
     (demo_sworld demo_idea)) = demo_sworld demo_idea"
  by (rule shadow_replay_read_only) simp_all

section \<open>What a replay can decide\<close>

text \<open>Started where \<open>Q\<close> holds, \<open>m\<close> only returns values that satisfy \<open>R\<close>.\<close>

definition gives :: "('w \<Rightarrow> bool) \<Rightarrow> ('w, 'b) py \<Rightarrow> ('b \<Rightarrow> bool) \<Rightarrow> bool" where
  "gives Q m R \<longleftrightarrow> (\<forall>w x w'. Q w \<longrightarrow> m w = (Inr x, w') \<longrightarrow> R x)"

lemma gives_bind:
  assumes "keeps Q m" "gives Q m R" "\<And>x. R x \<Longrightarrow> gives Q (f x) S"
  shows "gives Q (pbind m f) S"
  unfolding gives_def
proof (intro allI impI)
  fix w y w'' assume w: "Q w" and "pbind m f w = (Inr y, w'')"
  then obtain x w' where "m w = (Inr x, w')" "f x w' = (Inr y, w'')" by (auto elim: pbind_InrE)
  moreover have "Q w'" using keepsD [OF assms(1) w] calculation(1) by simp
  ultimately show "S y" using assms(2,3) w by (auto simp: gives_def)
qed

lemma gives_weaken: "gives Q m (\<lambda>_. True)"
  by (simp add: gives_def)

lemma gives_pret: "R x \<Longrightarrow> gives Q (pret x) R"
  by (simp add: gives_def py_simps)

lemma gives_pfor:
  assumes "\<And>x acc. keeps Q (body x acc)" "\<And>x acc. R acc \<Longrightarrow> gives Q (body x acc) R" "R acc"
  shows "gives Q (pfor body xs acc) R"
  using assms(3)
proof (induction xs arbitrary: acc)
  case Nil
  then show ?case by (simp add: gives_pret)
next
  case (Cons x xs)
  show ?case unfolding pfor.simps by (rule gives_bind [OF assms(1) assms(2) [OF Cons.prems] Cons.IH])
qed

lemma keeps_conj: "keeps Q m \<Longrightarrow> keeps Q' m \<Longrightarrow> keeps (\<lambda>w. Q w \<and> Q' w) m"
  by (simp add: keeps_def)

definition no_tracker :: "'a sworld_scheme \<Rightarrow> bool" where
  "no_tracker w \<longleftrightarrow> w_thrash w = None"

lemma keeps_no_tracker:
  "keeps no_tracker (on_store m)" "keeps no_tracker (on_tel f)" "keeps no_tracker (on_thrash g)"
  "keeps no_tracker (execute_unfold inc fr rq delta senv now)"
  by (auto simp: keeps_def no_tracker_def py_simps on_thrash_def execute_unfold_def Let_def split: option.splits prod.splits)

lemma keeps_no_tracker_event: "keeps no_tracker (append_next_event g i verdict pr auth now)"
  unfolding append_next_event_def by (intro keeps_pbind keeps_pget keeps_no_tracker)

lemma keeps_no_tracker_retired: "keeps no_tracker (after_retirement rq inc delta senv now)"
proof -
  have "keeps no_tracker (retire_anchors_on_unfold g rp i :: ('b sworld_scheme, unit) py)" for g rp i
    unfolding retire_anchors_on_unfold_def by (intro keeps_pbind keeps_pfor keeps_pget keeps_no_tracker keeps_org_guard)
  moreover have "keeps no_tracker (case fr of Some n \<Rightarrow> if c then execute_unfold inc n rq delta senv now else pret None | None \<Rightarrow> pret None)" for fr c
    by (simp add: keeps_no_tracker keeps_pret split: option.split)
  ultimately show ?thesis unfolding after_retirement_def
    by (intro keeps_pbind keeps_pret keeps_no_tracker keeps_no_tracker_event)
qed

lemma keeps_no_tracker_write:
  fixes w :: "'a sworld_scheme"
  assumes "no_tracker w" "keeps no_tracker ok" "\<And>e. keeps no_tracker (bad e)"
  shows "no_tracker (snd (case on_store m w of (Inl e, w1) \<Rightarrow> bad e w1 | (Inr _, w1) \<Rightarrow> ok w1))"
  using keepsD [OF keeps_no_tracker(1) assms(1), of m] assms(2,3)
  by (cases "on_store m w") (auto simp: keeps_def split: sum.split)

lemma keeps_no_tracker_supersede: "keeps no_tracker (supersede rq m gate delta env senv now)"
proof (rule keepsI)
  fix w :: "'a sworld_scheme" assume w: "no_tracker w"
  let ?bad = "\<lambda>e w1. case e of VersionConflictError i x c \<Rightarrow> (Inr (blocked rq ''shadow''), w1) | _ \<Rightarrow> (Inl e, w1)"
  have bad: "keeps no_tracker (?bad e)" for e by (simp add: keeps_def split: py_exn.split)
  note on_write = keeps_no_tracker_write [OF w keeps_no_tracker_retired bad]
  show "no_tracker (snd (supersede rq m gate delta env senv now w))"
  proof (cases "blank (sr_org rq)")
    case True
    then show ?thesis using w by (simp add: supersede_def pbind_apply org_guard_apply)
  next
    case False
    show ?thesis
    proof (cases "supersede_stop rq m gate now w")
      case None
      then show ?thesis using supersede_stop_found [OF None] supersede_goes_on [OF False None] on_write by fastforce
    next
      case (Some a)
      then show ?thesis using supersede_stopped [OF False Some, of delta env senv] w by simp
    qed
  qed
qed

lemma keeps_no_tracker_revive: "keeps no_tracker (revive rq env now)"
proof (rule keepsI)
  fix w :: "'a sworld_scheme" assume w: "no_tracker w"
  let ?bad = "\<lambda>dn e w1. case e of VersionConflictError i x c \<Rightarrow> (Inr (dn ''blocked_thrash''), w1) | _ \<Rightarrow> (Inl e, w1)"
  have bad: "keeps no_tracker (?bad dn e)" for dn e by (simp add: keeps_def split: py_exn.split)
  have go: "keeps no_tracker (pbind (append_next_event g i v pr au now) (\<lambda>_. pbind (on_thrash f) (\<lambda>_. pbind (on_tel h) (\<lambda>_. pret r))))"
    for g i v pr au f h r
    by (intro keeps_pbind keeps_pret keeps_no_tracker keeps_no_tracker_event)
  show "no_tracker (snd (revive rq env now w))"
    by (cases "get_idea (rv_org rq) (rv_skill_base_name rq) (rv_idea_id rq) (w_store w)")
       (auto simp: revive_def pbind_apply [of "org_guard _ _"] org_guard_apply Let_def w
          intro!: keeps_no_tracker_write [OF w go bad])
qed

text \<open>What the driver can report of an incumbent.\<close>

definition replay_decision :: "supersede_decision \<Rightarrow> bool" where
  "replay_decision d \<longleftrightarrow> sd_verdict d \<in> {''superseded'', ''blocked_authority'', ''shadow''} \<and> sd_unfold_rev d = None"

lemma gives_after_retirement:
  assumes "idea_foldedIntoRev inc = None" "after_retirement rq inc delta senv now w = (Inr r, w')"
  shows "sres_action r = ''superseded'' \<and> sres_unfold_rev r = None"
  using assms(2) unfolding after_retirement_def assms(1) option.case
  by (elim pbind_InrE) (auto simp: pret_apply)

lemma supersede_ungated:
  assumes "no_folded_rev (w_store w)" "no_tracker w"
    and "get_idea (sr_org rq) (sr_incumbent_skill_base_name rq) (sr_incumbent_idea_id rq) (w_store w) = Some inc"
    and "supersede rq m None delta env senv now w = (Inr r, w')"
  shows "sres_action r \<in> {''superseded'', ''blocked_authority'', ''shadow''} \<and> sres_unfold_rev r = None"
proof -
  have nb: "\<not> blank (sr_org rq)"
    using assms(4) by (auto simp: supersede_def pbind_apply org_guard_apply split: if_splits)
  show ?thesis
  proof (cases "supersede_stop rq m None now w")
    case (Some a)
    then have "a \<in> {''blocked_authority'', ''shadow''}"
      using assms(2,3) by (auto simp: supersede_stop_def no_tracker_def split: if_splits)
    then show ?thesis using supersede_stopped [OF nb Some, of delta env senv] assms(4) by (auto simp: blocked_def)
  next
    case None
    have "idea_foldedIntoRev inc = None"
      using assms(1,3) by (auto simp: no_folded_rev_def get_idea_def dest: map_of_SomeD)
    then show ?thesis using supersede_goes_on [OF nb None assms(3), of delta env senv] assms(4)
      by (auto simp: blocked_def split: prod.splits sum.splits py_exn.splits
          dest!: gives_after_retirement [where inc = inc, OF _ sym])
  qed
qed

definition ungated :: "'a sworld_scheme \<Rightarrow> bool" where
  "ungated w \<longleftrightarrow> in_store no_folded_rev w \<and> no_tracker w"

definition decided :: "pipeline_result \<Rightarrow> bool" where
  "decided p \<longleftrightarrow> (\<forall>d \<in> set (pp_supersede_decisions p). replay_decision d)"

lemma keeps_ungated: "keeps (in_store no_folded_rev) m \<Longrightarrow> keeps no_tracker m \<Longrightarrow> keeps ungated m"
  by (simp add: keeps_def ungated_def)

lemma keeps_judge_ungated:
  assumes "fair no_folded_rev ifs"
  shows "keeps ungated (judge_incumbent pc mr di ifs now x acc :: ('a sworld_scheme, pipeline_result \<times> string option) py)"
proof (rule keeps_ungated [OF unfolded_inv.keeps_judge_incumbent [OF refl assms]])
  have rv: "no_tracker w \<Longrightarrow> no_tracker (snd (pbind (revive rq env now) (\<lambda>r. pret (f r)) w))"
    and sup: "no_tracker w \<Longrightarrow> no_tracker (snd (pbind (supersede rq2 m gate delta env senv now) (\<lambda>r. pret (f2 r)) w))"
    for rq env f rq2 m gate delta senv f2 and w :: "'a sworld_scheme"
    by (rule keepsD [OF keeps_pbind [OF keeps_no_tracker_revive keeps_pret]]; assumption)
       (rule keepsD [OF keeps_pbind [OF keeps_no_tracker_supersede keeps_pret]]; assumption)
  show "keeps no_tracker (judge_incumbent pc mr di ifs now x acc :: ('a sworld_scheme, pipeline_result \<times> string option) py)"
    by (rule keepsI) (simp add: judge_incumbent_def Let_def rv sup split: option.split verdict.split)
qed

lemma gives_judge:
  assumes "pc_fp_gate pc = None" "decided (fst acc)"
  shows "gives ungated (judge_incumbent pc mr di ifs now x acc :: ('a sworld_scheme, pipeline_result \<times> string option) py)
    (\<lambda>acc'. decided (fst acc'))"
  unfolding gives_def
proof (intro allI impI)
  fix w w' :: "'a sworld_scheme" and acc'
  assume w: "ungated w" and r: "judge_incumbent pc mr di ifs now x acc w = (Inr acc', w')"
  have sup: "\<forall>i. replay_decision \<lparr>sd_incumbent_idea_id = i, sd_verdict = sres_action r, sd_unfold_rev = sres_unfold_rev r\<rparr>"
    if "supersede rq m None delta env senv now w = (Inr r, w2)"
      "get_idea (sr_org rq) (sr_incumbent_skill_base_name rq) (sr_incumbent_idea_id rq) (w_store w) \<noteq> None"
    for rq m delta env senv r and w2 :: "'a sworld_scheme"
    using that(2) supersede_ungated [OF _ _ _ that(1)] w by (auto simp: ungated_def in_store_def replay_decision_def)
  show "decided (fst acc')" using r assms
    by (auto simp: judge_incumbent_def Let_def decided_def pret_apply split: option.splits verdict.splits if_splits
        elim!: pbind_InrE dest!: sup)
qed

lemma gives_fold_stage:
  assumes "decided res"
  shows "gives Q (fold_stage pc mr anchors ifs now res :: ('a sworld_scheme, pipeline_result) py) decided"
proof -
  have ex: "decided r'" if "execute_fold idea pc sk anchors rp ifs now r w = (Inr r', w')" "decided r"
    for idea sk rp r r' and w w' :: "'a sworld_scheme"
    using that by (auto simp: execute_fold_def decided_def pret_apply split: prod.splits sum.splits elim!: pbind_InrE)
  show ?thesis using assms unfolding gives_def fold_stage_def Let_def
    by (auto simp: pret_apply decided_def [of "_\<lparr>pp_triviality_passed := _, pp_triviality_reason := _\<rparr>"]
        decided_def [of res] split: option.splits if_splits dest!: ex)
qed

lemma gives_vote_or_create:
  "decided res \<Longrightarrow> gives Q (vote_or_create pc mr di ifs candidate res :: ('a sworld_scheme, pipeline_result) py) decided"
  unfolding gives_def vote_or_create_def Let_def
  by (auto simp: pret_apply decided_def split: option.splits if_splits elim!: pbind_InrE)

lemma gives_run_pipeline:
  assumes "pc_fp_gate pc = None" "fair no_folded_rev ifs"
  shows "gives ungated (run_pipeline pc mr ifs now :: ('a sworld_scheme, pipeline_result) py) decided"
proof -
  have tail: "gives ungated ((case a of (res, candidate) \<Rightarrow>
      pbind (pget (f candidate)) (\<lambda>c. pbind (vote_or_create pc mr di ifs c res) (\<lambda>res. fold_stage pc mr anchors ifs now res)))
      :: ('a sworld_scheme, pipeline_result) py) decided"
    if "decided (fst a)" for a f di anchors
  proof -
    have "gives (\<lambda>_. True) ((case a of (res, candidate) \<Rightarrow>
        pbind (pget (f candidate)) (\<lambda>c. pbind (vote_or_create pc mr di ifs c res) (\<lambda>res. fold_stage pc mr anchors ifs now res)))
        :: ('a sworld_scheme, pipeline_result) py) decided"
      using that by (cases a)
        (simp, intro gives_bind [OF _ gives_weaken, of _ "pget _"] gives_bind [OF _ gives_vote_or_create] gives_fold_stage,
          simp_all add: keeps_def)
    then show ?thesis by (simp add: gives_def)
  qed
  have start: "decided (new_pipeline_result n rp g)" for n rp g by (simp add: decided_def new_pipeline_result_def)
  have "gives ungated (pfor (judge_incumbent pc mr di ifs now) xs acc :: ('a sworld_scheme, pipeline_result \<times> string option) py)
      (\<lambda>acc. decided (fst acc))" if "decided (fst acc)" for xs acc di
    using keeps_judge_ungated [OF assms(2)] gives_judge [OF assms(1)] that by (rule gives_pfor)
  moreover have "keeps ungated (pfor (judge_incumbent pc mr di ifs now) xs acc :: ('a sworld_scheme, pipeline_result \<times> string option) py)"
    for xs acc di
    by (rule keeps_pfor) (rule keeps_judge_ungated [OF assms(2)])
  ultimately show ?thesis unfolding run_pipeline_def Let_def
    by (cases "mr_distillation mr")
       (use start in \<open>auto simp: decided_def intro!: gives_pret gives_bind [OF keeps_pget gives_weaken] gives_bind [OF _ _ tail]\<close>)
qed

lemma gives_without_tracker:
  fixes m :: "('a sworld_scheme, 'b) py"
  assumes "gives ungated m R"
  shows "gives (in_store no_folded_rev) (without_tracker m) R"
  unfolding gives_def
proof (intro allI impI)
  fix w w' :: "'a sworld_scheme" and x assume w: "in_store no_folded_rev w" and r: "without_tracker m w = (Inr x, w')"
  have "ungated (w\<lparr>w_thrash := None\<rparr>)" using w by (simp add: ungated_def in_store_def no_tracker_def)
  then show "R x" using assms r by (auto simp: gives_def without_tracker_def split: prod.splits)
qed

definition all_decided :: "(merge_result \<times> pipeline_result option) list \<Rightarrow> bool" where
  "all_decided rs \<longleftrightarrow> (\<forall>(r, p) \<in> set rs. \<forall>q. p = Some q \<longrightarrow> decided q)"

lemma gives_replay_one:
  assumes "\<And>k. fair no_folded_rev (ifs k)" "all_decided results"
  shows "gives (in_store no_folded_rev) (replay_one run_judge g b mode components ifs clock pr results
    :: ('a sworld_scheme, (merge_result \<times> pipeline_result option) list) py) all_decided"
proof -
  have run: "gives (in_store no_folded_rev) (without_tracker (run_pipeline (replay_config g mode pc) r i now)
      :: ('a sworld_scheme, pipeline_result) py) decided" if "fair no_folded_rev i" for pc r i now
    by (rule gives_without_tracker [OF gives_run_pipeline]) (simp_all add: replay_config_def that)
  have kr: "keeps (in_store no_folded_rev) (without_tracker (run_pipeline (replay_config g mode pc) r i now)
      :: ('a sworld_scheme, pipeline_result) py)" if "fair no_folded_rev i" for pc r i now
    by (rule keeps_without_tracker [OF unfolded_inv.keeps_run_pipeline [OF refl that]])
  have kh: "keeps (in_store no_folded_rev) (on_store (handle_merged_pr run_judge pr g b mode now) :: ('a sworld_scheme, merge_result) py)" for now
    by (rule keeps_on_store) (rule keepsD [OF unfolded_inv.keeps_handle])
  have "all_decided (results @ [(r, None)])" "decided q \<Longrightarrow> all_decided (results @ [(r, Some q)])" for r q
    using assms(2) by (auto simp: all_decided_def)
  then show ?thesis unfolding replay_one_def Let_def
    by (intro gives_bind [OF kh gives_weaken])
       (auto split: option.split intro!: gives_pret gives_bind [OF kr run] assms(1))
qed

text \<open>what a replay decides about the incumbents it meets.  In stores where no idea names the
  revision it was folded into (the empty store, and everything a replay makes of it), every decision
  is to supersede, to defer to a higher authority or more votes, or the shadow of these: the
  calibration gate and the anti-thrash tracker, which the driver does not pass on, never block, and
  the un-fold of a superseded lesson never writes a revision, since no fold records where it went.\<close>

theorem replay_never_unfolds:
  fixes w :: "'a sworld_scheme"
  assumes "replay_merge_log run_judge prs g b mode components ifs clock w = (Inr rs, w')"
    and "no_folded_rev (w_store w)" "\<forall>k. fair no_folded_rev (ifs k)"
  shows "no_folded_rev (w_store w') \<and> (\<forall>(r, p) \<in> set rs. \<forall>q. p = Some q \<longrightarrow>
    (\<forall>d \<in> set (pp_supersede_decisions q).
       sd_verdict d \<in> {''superseded'', ''blocked_authority'', ''shadow''} \<and> sd_unfold_rev d = None))"
proof -
  have "keeps (in_store no_folded_rev) (replay_merge_log run_judge prs g b mode components ifs clock
    :: ('a sworld_scheme, (merge_result \<times> pipeline_result option) list) py)"
    by (rule unfolded_inv.keeps_replay) (use assms(3) in simp)
  then have "no_folded_rev (w_store w')" using keepsD assms(1,2) by (fastforce simp: in_store_def)
  moreover have "gives (in_store no_folded_rev) (replay_merge_log run_judge prs g b mode components ifs clock
    :: ('a sworld_scheme, (merge_result \<times> pipeline_result option) list) py) all_decided"
    unfolding replay_merge_log_def
    by (rule gives_pfor [OF unfolded_inv.keeps_replay_one gives_replay_one]) (use assms(3) in \<open>auto simp: all_decided_def\<close>)
  ultimately show ?thesis using assms(1,2)
    by (auto simp: gives_def in_store_def all_decided_def decided_def replay_decision_def)
qed

text \<open>A log of one pull request that contradicts the stored idea anchored in the file it changes.\<close>

definition one_hunk_diff :: string where
  "one_hunk_diff = ''+++ b/a.txt'' @ [nl] @ ''@@ -1,2 +1,3 @@'' @ [nl] @ '' x'' @ [nl] @ ''+y''"

definition contra_config :: pipeline_config where
  "contra_config = demo_config\<lparr>pc_unfold_mode := ''enforce'',
     pc_nli := (\<lambda>_ _. Some \<lparr>nli_label = ''contradiction'', nli_confidence = flit (9/10), nli_request_hash = []\<rparr>)\<rparr>"

definition anchored_world :: sworld where
  "anchored_world = (demo_sworld demo_idea)\<lparr>w_store := snd (run_op (PutAnchor \<lparr>anchor_ideaId = ''i1'', anchor_ownerRepo = ''acme/app'',
     anchor_file = ''a.txt'', anchor_symbol = FILE_LEVEL_SYMBOL, anchor_org = ''acme'', anchor_active = True\<rparr>)
     (w_store (demo_sworld demo_idea)))\<rparr>"

lemma anchored_world_wf: "store_wf (w_store anchored_world)"
  unfolding anchored_world_def using store_wf_step [OF demo_sworld_store(1), of "PutAnchor _"] by simp

lemma anchored_world_store: "w_store anchored_world = empty_store\<lparr>ls_ideas := [((''acme'', ''sk'', ''i1''), demo_idea)],
    ls_anchors := [\<lparr>anchor_ideaId = ''i1'', anchor_ownerRepo = ''acme/app'', anchor_file = ''a.txt'',
      anchor_symbol = FILE_LEVEL_SYMBOL, anchor_org = ''acme'', anchor_active = True\<rparr>]\<rparr>"
  by (simp add: anchored_world_def demo_sworld_def py_simps empty_store_def)

lemma one_hunk_diff_anchors:
  "extract_anchors_from_diff (\<lambda>_ _. None) (parse_unified_diff one_hunk_diff []) =
     [\<lparr>an_file = ''a.txt'', an_symbol = FILE_LEVEL_SYMBOL, an_resolution = ''file_fallback''\<rparr>]"
  by code_simp

lemma contra_classified:
  "\<exists>c. classify_pair_of (replay_config ''acme'' mode contra_config) p h = Some c \<and> cl_verdict c = SUPERSEDE"
proof -
  have th: "DEFAULT_CONFIDENCE_THRESHOLD \<le> flit (9/10)" by (auto simp: DEFAULT_CONFIDENCE_THRESHOLD_def flit_def intro!: rnd_mono)
  then show ?thesis
    by (simp add: classify_pair_of_def replay_config_def contra_config_def judged_def map_verdict_def Let_def)
       (simp add: demo_config_def not_less)
qed

lemma shadow_mode_still_supersedes:
  "\<exists>r p w'. replay_merge_log (\<lambda>_. None) [demo_pr\<lparr>pq_diff := one_hunk_diff\<rparr>] ''acme'' ''main'' ''shadow'' (Some contra_config)
       (\<lambda>_. alone) int anchored_world = (Inr [(r, Some p)], w') \<and>
     map sd_verdict (pp_supersede_decisions p) = [''superseded''] \<and>
     get_idea ''acme'' ''sk'' ''i1'' (w_store w') = Some (retired_idea 1 None demo_idea)"
proof -
  let ?pc = "replay_config ''acme'' ''shadow'' contra_config"
  have noise: "fst (is_curriculum_noise (demo_pr\<lparr>pq_diff := one_hunk_diff\<rparr>)) = False" by code_simp
  obtain m where m: "handle_merged_pr (\<lambda>_. None) (demo_pr\<lparr>pq_diff := one_hunk_diff\<rparr>) ''acme'' ''main'' ''shadow'' (int 0) (w_store anchored_world) =
        (Inr m, w_store anchored_world)"
      "mr_action m = ''distilled''" "mr_owner_repo m = ''acme/app''" "mr_anchors_diff m = one_hunk_diff" "\<exists>di. mr_distillation m = Some di"
    using demo_pr_handled [of one_hunk_diff "w_store anchored_world" "''shadow''" "int 0"] noise
    by (auto simp: anchored_world_store empty_store_def)
  obtain di where di: "mr_distillation m = Some di" using m(5) by blast
  have ne: "one_hunk_diff \<noteq> []" by code_simp
  have an: "pipeline_anchors ?pc m di = [\<lparr>an_file = ''a.txt'', an_symbol = FILE_LEVEL_SYMBOL, an_resolution = ''file_fallback''\<rparr>]"
    using m(4) ne one_hunk_diff_anchors by (simp add: pipeline_anchors_def Let_def replay_config_def contra_config_def) (simp add: demo_config_def)
  have cfg: "pc_org ?pc = ''acme''" "pc_skill_base_name ?pc = ''sk''" "pc_mode ?pc = ''shadow''" "pc_unfold_mode ?pc = ''enforce''"
      "pc_fp_gate ?pc = None"
    by (simp_all add: replay_config_def contra_config_def)
  let ?w = "anchored_world\<lparr>w_thrash := None\<rparr>"
  have get: "get_idea ''acme'' ''sk'' ''i1'' (w_store ?w) = Some demo_idea"
    by (simp add: anchored_world_store get_idea_def)
  have inc: "get_incumbent_ideas ''acme'' ''acme/app'' [\<lparr>an_file = ''a.txt'', an_symbol = FILE_LEVEL_SYMBOL, an_resolution = ''file_fallback''\<rparr>]
      (w_store ?w) = [''i1'']"
    by (simp add: get_incumbent_ideas_def get_ideas_by_anchor_def anchored_world_store)
  obtain c where c: "classify_pair_of ?pc (idea_body demo_idea) (di_body di) = Some c" "cl_verdict c = SUPERSEDE"
    using contra_classified by blast
  define rq where "rq = \<lparr>sr_org = ''acme'', sr_incumbent_idea_id = ''i1'', sr_incumbent_skill_base_name = ''sk'',
     sr_challenger_idea_id = None, sr_challenger_skill_base_name = Some ''sk'', sr_challenger_pr_number = mr_pr_number m,
     sr_challenger_owner_repo = ''acme/app'', sr_challenger_authority_kind = ''merged'',
     sr_idea_body_to_remove = Some (idea_body demo_idea)\<rparr>"
  have rq: "sr_org rq = ''acme''" "sr_incumbent_idea_id rq = ''i1''" "sr_incumbent_skill_base_name rq = ''sk''"
    "sr_challenger_idea_id rq = None" "sr_challenger_authority_kind rq = ''merged''" by (simp_all add: rq_def)
  have inv: "idea_invalidAt demo_idea = None" "idea_authorityKind demo_idea = None" by (simp_all add: demo_idea_def mk_idea_def)
  have src: "list_idea_sources ''acme'' ''i1'' (w_store ?w) = []"
    by (simp add: anchored_world_store list_idea_sources_def empty_store_def dvals_where_def)
  have stop: "supersede_stop rq ''enforce'' None 1 ?w = None"
    unfolding supersede_stop_def rq get option.case src
    by (simp add: inv decide_winner_def authority_rank_def str_or_def)
  obtain sr w1 where sup: "supersede rq ''enforce'' None default_delta (\<lambda>s. s) (\<lambda>_ s. s) 1 ?w = (Inr sr, w1)"
      "sres_action sr = ''superseded''" "w_store w1 = retired_store rq demo_idea 1 (stamped rq demo_idea 1 (w_store ?w))"
    using supersede_exact [where w = ?w and rq = rq and inc = demo_idea and m = "''enforce''" and gate = None and now = 1, OF _ stop]
      anchored_world_wf get rq by fastforce
  have g1: "get_idea ''acme'' ''sk'' ''i1'' (w_store w1) = Some (retired_idea 1 None demo_idea)"
    unfolding sup(3) retired_store_reads stamped_reads by (simp add: rq)
  define d where "d = \<lparr>sd_incumbent_idea_id = ''i1'', sd_verdict = ''superseded'', sd_unfold_rev = sres_unfold_rev sr\<rparr>"
  have judge: "judge_incumbent ?pc m di alone 1 ''i1'' (res, None) ?w =
      (Inr (res\<lparr>pp_supersede_decisions := pp_supersede_decisions res @ [d]\<rparr>, None), w1)" for res
    using sup(1) [unfolded rq_def] sup(2) c get inv m(3) by (simp add: judge_incumbent_def cfg Let_def alone_def pbind_apply pret_apply d_def)
  have vote: "\<exists>p. vote_or_create ?pc m di alone cand res w1 = (Inr p, w1) \<and> pp_supersede_decisions p = pp_supersede_decisions res"
    for cand res
    by (simp add: vote_or_create_def cfg Let_def pret_apply split: option.split)
  have stage: "fold_stage ?pc m an' alone 1 p w1 = (Inr p, w1)" for an' p by (simp add: fold_stage_def cfg pret_apply)
  have "\<exists>p. run_pipeline ?pc m alone 1 ?w = (Inr p, w1) \<and> pp_supersede_decisions p = [d]"
  proof -
    let ?res = "new_pipeline_result (mr_pr_number m) ''acme/app'' ''acme''\<lparr>pp_anchors_extracted := 1,
      pp_anchor_resolutions := [''file_fallback''], pp_incumbents_found := [''i1'']\<rparr>"
    let ?res1 = "?res\<lparr>pp_supersede_decisions := pp_supersede_decisions ?res @ [d]\<rparr>"
    obtain p where p: "vote_or_create ?pc m di alone (semantic_join_fallback ?pc (di_body di) SEMANTIC_JOIN_FLOOR (w_store w1)) ?res1 w1 = (Inr p, w1)"
      "pp_supersede_decisions p = pp_supersede_decisions ?res1" using vote by blast
    have "run_pipeline ?pc m alone 1 ?w = (Inr p, w1)"
      using di m(2,3) inc p(1) judge [of ?res]
      by (simp add: run_pipeline_def Let_def an cfg pbind_apply [of "pget _"] pget_apply pbind_apply pret_apply stage del: fold_stage_def)
    then show ?thesis using p(2) by (simp add: new_pipeline_result_def)
  qed
  then obtain p where p: "run_pipeline ?pc m alone 1 ?w = (Inr p, w1)" "pp_supersede_decisions p = [d]" by blast
  have "replay_merge_log (\<lambda>_. None) [demo_pr\<lparr>pq_diff := one_hunk_diff\<rparr>] ''acme'' ''main'' ''shadow'' (Some contra_config) (\<lambda>_. alone) int anchored_world =
      (Inr [(m, Some p)], w1\<lparr>w_thrash := w_thrash anchored_world\<rparr>)"
    using m(1,2) p(1) by (simp add: replay_merge_log_def replay_one_def Let_def py_simps without_tracker_def)
  then show ?thesis using p(2) g1 by (intro exI [of _ m] exI [of _ p] exI [of _ "w1\<lparr>w_thrash := w_thrash anchored_world\<rparr>"]) (simp add: d_def)
qed

theorem replay_never_unfolds_witness:
  "\<exists>r p w'. replay_merge_log (\<lambda>_. None) [demo_pr\<lparr>pq_diff := one_hunk_diff\<rparr>] ''acme'' ''main'' ''shadow'' (Some contra_config)
       (\<lambda>_. alone) int anchored_world = (Inr [(r, Some p)], w') \<and> no_folded_rev (w_store w') \<and>
     map (\<lambda>d. (sd_verdict d, sd_unfold_rev d)) (pp_supersede_decisions p) = [(''superseded'', None)]"
proof -
  obtain r p w' where r: "replay_merge_log (\<lambda>_. None) [demo_pr\<lparr>pq_diff := one_hunk_diff\<rparr>] ''acme'' ''main'' ''shadow'' (Some contra_config)
       (\<lambda>_. alone) int anchored_world = (Inr [(r, Some p)], w')" "map sd_verdict (pp_supersede_decisions p) = [''superseded'']"
    using shadow_mode_still_supersedes by (elim exE conjE) (rule that)
  have "no_folded_rev (w_store anchored_world)"
    by (simp add: no_folded_rev_def anchored_world_store demo_idea_def mk_idea_def)
  then show ?thesis using replay_never_unfolds [OF r(1)] r by auto
qed

end
