(* ===== verification/Dynamo.thy ===== *)
theory Dynamo
  imports Records Interfaces "HOL-Library.List_Lexorder" "HOL-Library.Char_ord"
begin

text \<open>
  The DynamoDB table \<open>db/store.py\<close> talks to through boto3.  An item is a dictionary of
  attributes; the calls the store makes are the fields of the record \<open>dynamo\<close>, a parameter of
  every operation, over an unknown type of tables.  The locale \<open>dynamo_table\<close> states the
  documented behaviour of these calls in terms of \<open>rows\<close>, the item under each primary key;
  \<open>mem_dynamo\<close> is a table with a page size that satisfies it.
\<close>

section \<open>Items and condition expressions\<close>

datatype attr = AS string | AN int | AB bool | AL "string list"

type_synonym item = "(string, attr) dict"
type_synonym db_key = "string \<times> string"

text \<open>The conditions of \<open>boto3.dynamodb.conditions\<close> the store builds, and their meaning.\<close>

datatype cond =
    NotExists string
  | Eq string attr
  | BeginsWith string string
  | And cond cond

fun holds :: "cond \<Rightarrow> item \<Rightarrow> bool" where
  "holds (NotExists a) it \<longleftrightarrow> dget it a = None"
| "holds (Eq a v) it \<longleftrightarrow> dget it a = Some v"
| "holds (BeginsWith a p) it \<longleftrightarrow> (case dget it a of Some (AS s) \<Rightarrow> prefix p s | _ \<Rightarrow> False)"
| "holds (And c d) it \<longleftrightarrow> holds c it \<and> holds d it"

fun filtered :: "cond option \<Rightarrow> item list \<Rightarrow> item list" where
  "filtered None its = its"
| "filtered (Some c) its = filter (holds c) its"

text \<open>A condition of a write is evaluated on the item stored under the key, on no attributes
  when there is none.\<close>

definition cond_ok :: "cond option \<Rightarrow> item option \<Rightarrow> bool" where
  "cond_ok c old \<longleftrightarrow>
     (case c of None \<Rightarrow> True | Some c \<Rightarrow> holds c (case old of None \<Rightarrow> [] | Some it \<Rightarrow> it))"

definition project :: "string list \<Rightarrow> item \<Rightarrow> item" where
  "project names it = filter (\<lambda>(k, _). k \<in> set names) it"

definition item_key :: "item \<Rightarrow> db_key option" where
  "item_key it = (case (dget it ''PK'', dget it ''SK'') of
     (Some (AS p), Some (AS s)) \<Rightarrow> Some (p, s) | _ \<Rightarrow> None)"

lemma dget_project [dict_simps]:
  "dget (project names it) k = (if k \<in> set names then dget it k else None)"
  by (induction it) (auto simp: project_def)

section \<open>The table\<close>

text \<open>
  \<open>dy_put_item\<close> returns the error code of the \<open>ClientError\<close> raised, if any.  A page of a query
  or a scan comes with its \<open>LastEvaluatedKey\<close>, absent on the last page.
\<close>

definition CCF :: string where
  "CCF = ''ConditionalCheckFailedException''"

record 't dynamo =
  dy_put_item :: "item \<Rightarrow> cond option \<Rightarrow> 't \<Rightarrow> (string + unit) \<times> 't"
  dy_get_item :: "db_key \<Rightarrow> 't \<Rightarrow> item option"
  dy_query :: "string \<Rightarrow> string \<Rightarrow> cond option \<Rightarrow> 't \<Rightarrow> item list \<times> db_key option"
  dy_scan :: "cond \<Rightarrow> string list \<Rightarrow> db_key option \<Rightarrow> 't \<Rightarrow> item list \<times> db_key option"

text \<open>The keys from which a page starts: all of them, or those after the one the last page ended on.\<close>

definition resume :: "db_key option \<Rightarrow> db_key list \<Rightarrow> db_key list" where
  "resume start ks = (case start of None \<Rightarrow> ks | Some k \<Rightarrow> tl (dropWhile (\<lambda>k'. k' \<noteq> k) ks))"

text \<open>
  One page over the keys \<open>ks\<close>: the filter applies to the first \<open>n > 0\<close> items, and the
  page names the last key it looked at when keys are left.
\<close>

definition page_of ::
    "(db_key \<Rightarrow> item option) \<Rightarrow> cond option \<Rightarrow> nat \<Rightarrow> db_key list \<Rightarrow> item list \<times> db_key option" where
  "page_of rows c n ks =
     (filtered c (List.map_filter rows (take n ks)),
      if n < length ks then Some (last (take n ks)) else None)"

locale dynamo_table =
  fixes db :: "'t dynamo"
    and rows :: "'t \<Rightarrow> db_key \<Rightarrow> item option"
    and scan_order :: "'t \<Rightarrow> db_key list"
  assumes rows_keyed: "rows t k = Some it \<Longrightarrow> item_key it = Some k"
    and put_done: "dy_put_item db it c t = (Inr u, t') \<Longrightarrow> item_key it = Some k \<Longrightarrow>
      cond_ok c (rows t k) \<and> rows t' = (rows t)(k \<mapsto> it)"
    and put_failed: "dy_put_item db it c t = (Inl code, t') \<Longrightarrow> item_key it = Some k \<Longrightarrow>
      rows t' = rows t \<and> (code = CCF \<longrightarrow> \<not> cond_ok c (rows t k))"
    and get_item: "dy_get_item db k t = rows t k"
    and query: "\<exists>ks n. 0 < n \<and> dy_query db pk p c t = page_of (rows t) c n ks \<and>
      sorted_wrt (<) (map snd ks) \<and> set ks = {k. fst k = pk \<and> prefix p (snd k) \<and> rows t k \<noteq> None}"
    and scan_order: "distinct (scan_order t) \<and> set (scan_order t) = {k. rows t k \<noteq> None}"
    and scan: "\<exists>n > 0. dy_scan db f names start t =
      apfst (map (project names)) (page_of (rows t) (Some f) n (resume start (scan_order t)))"
begin

lemma put_cases:
  assumes "item_key it = Some k"
  obtains (stored) t' where "dy_put_item db it c t = (Inr (), t')" "cond_ok c (rows t k)"
      "rows t' = (rows t)(k \<mapsto> it)"
  | (refused) t' where "dy_put_item db it c t = (Inl CCF, t')" "\<not> cond_ok c (rows t k)" "rows t' = rows t"
  | (failed) code t' where "dy_put_item db it c t = (Inl code, t')" "code \<noteq> CCF" "rows t' = rows t"
proof -
  obtain r t' where p: "dy_put_item db it c t = (r, t')" by fastforce
  show thesis
  proof (cases r)
    case (Inr u)
    then show thesis using put_done [of it c t u t', OF _ assms] p by (intro stored) auto
  next
    case (Inl code)
    then show thesis using put_failed [of it c t code t', OF _ assms] p
      by (cases "code = CCF") (auto intro: refused failed)
  qed
qed

text \<open>A put without a condition is not refused.\<close>

lemma put_plain_cases:
  assumes "item_key it = Some k"
  obtains (stored) t' where "dy_put_item db it None t = (Inr (), t')" "rows t' = (rows t)(k \<mapsto> it)"
  | (failed) code t' where "dy_put_item db it None t = (Inl code, t')" "code \<noteq> CCF" "rows t' = rows t"
  by (rule put_cases [OF assms, of None t]) (auto simp: cond_ok_def intro: that)

end

section \<open>A table with a page size\<close>

text \<open>
  The items written, the newest first; an older item under the same key is hidden.  A page
  looks at \<open>mt_page + 1\<close> items.
\<close>

record mem_table =
  mt_items :: "item list"
  mt_page :: nat

definition mem_rows :: "mem_table \<Rightarrow> db_key \<Rightarrow> item option" where
  "mem_rows t k = find (\<lambda>it. item_key it = Some k) (mt_items t)"

definition mem_keys :: "mem_table \<Rightarrow> db_key list" where
  "mem_keys t = remdups (List.map_filter item_key (mt_items t))"

definition mem_put :: "item \<Rightarrow> cond option \<Rightarrow> mem_table \<Rightarrow> (string + unit) \<times> mem_table" where
  "mem_put it c t = (case item_key it of
     None \<Rightarrow> (Inl ''ValidationException'', t)
   | Some k \<Rightarrow> if cond_ok c (mem_rows t k) then (Inr (), t\<lparr>mt_items := it # mt_items t\<rparr>)
                else (Inl CCF, t))"

definition mem_query :: "string \<Rightarrow> string \<Rightarrow> cond option \<Rightarrow> mem_table \<Rightarrow> item list \<times> db_key option" where
  "mem_query pk p c t = page_of (mem_rows t) c (Suc (mt_page t))
     (sort_key snd (filter (\<lambda>k. fst k = pk \<and> prefix p (snd k)) (mem_keys t)))"

definition mem_scan ::
    "cond \<Rightarrow> string list \<Rightarrow> db_key option \<Rightarrow> mem_table \<Rightarrow> item list \<times> db_key option" where
  "mem_scan f names start t =
     apfst (map (project names)) (page_of (mem_rows t) (Some f) (Suc (mt_page t)) (resume start (mem_keys t)))"

definition mem_dynamo :: "mem_table dynamo" where
  "mem_dynamo = \<lparr>dy_put_item = mem_put, dy_get_item = \<lambda>k t. mem_rows t k, dy_query = mem_query,
     dy_scan = mem_scan\<rparr>"

lemma set_mem_keys: "set (mem_keys t) = {k. mem_rows t k \<noteq> None}"
  by (force simp: mem_keys_def mem_rows_def find_None_iff map_filter_def)

lemma distinct_snd_of: "distinct ks \<Longrightarrow> \<forall>k \<in> set ks. fst k = p \<Longrightarrow> distinct (map snd ks)"
  by (auto simp: distinct_map inj_on_def prod_eq_iff)

interpretation mem: dynamo_table mem_dynamo mem_rows mem_keys
proof (unfold_locales, goal_cases)
  case (1 t k it)
  then show ?case by (auto simp: mem_rows_def find_Some_iff)
next
  case (2 it c t u t' k)
  then show ?case by (auto simp: mem_dynamo_def mem_put_def mem_rows_def fun_eq_iff split: if_splits)
next
  case (3 it c t code t' k)
  then show ?case by (auto simp: mem_dynamo_def mem_put_def split: if_splits)
next
  case (4 k t)
  then show ?case by (simp add: mem_dynamo_def)
next
  case (5 pk p c t)
  let ?ks = "sort_key snd (filter (\<lambda>k. fst k = pk \<and> prefix p (snd k)) (mem_keys t))"
  have "distinct (map snd ?ks)"
    by (rule distinct_snd_of [of _ pk]) (auto simp: mem_keys_def)
  then have "sorted_wrt (<) (map snd ?ks)"
    by (simp add: strict_sorted_iff)
  then show ?case
    by (intro exI [of _ ?ks] exI [of _ "Suc (mt_page t)"])
       (auto simp: mem_dynamo_def mem_query_def set_mem_keys)
next
  case (6 t)
  then show ?case by (auto simp: set_mem_keys) (simp add: mem_keys_def)
next
  case (7 f names start t)
  then show ?case
    by (intro exI [of _ "Suc (mt_page t)"]) (simp add: mem_dynamo_def mem_scan_def)
qed

end
