(* ===== verification/DynamoStore.thy ===== *)
theory DynamoStore
  imports Dynamo LearningStore
begin

text \<open>
  \<open>DynamoLearningStore\<close> of \<open>db/store.py\<close>, the production store, and the serialisers it uses.
  Every operation takes the table calls \<open>db\<close> as its first argument; a \<open>ClientError\<close> of the
  service is the exception \<open>ClientError code\<close>.  A read either raises or returns a value; an
  attribute of another type than the record declares counts as absent, while Python would
  hand the value through (none of the serialisers writes one).  Reads see the last write:
  DynamoDB's eventually consistent reads are not modelled.
\<close>

section \<open>Serialisers\<close>

definition rbind :: "'e + 'a \<Rightarrow> ('a \<Rightarrow> 'e + 'b) \<Rightarrow> 'e + 'b" where
  "rbind m f = (case m of Inl e \<Rightarrow> Inl e | Inr x \<Rightarrow> f x)"

lemma rbind_simps [simp]: "rbind (Inl e) f = Inl e" "rbind (Inr x) f = f x"
  by (simp_all add: rbind_def)

fun map_res :: "('a \<Rightarrow> 'e + 'b) \<Rightarrow> 'a list \<Rightarrow> 'e + 'b list" where
  "map_res f [] = Inr []"
| "map_res f (x # xs) = rbind (f x) (\<lambda>y. rbind (map_res f xs) (\<lambda>ys. Inr (y # ys)))"

text \<open>\<open>item[k]\<close>, \<open>item.get(k)\<close> and \<open>int(item[k]) if k in item else None\<close>.\<close>

definition req_s :: "string \<Rightarrow> item \<Rightarrow> py_exn + string" where
  "req_s k it = (case dget it k of Some (AS v) \<Rightarrow> Inr v | _ \<Rightarrow> Inl (KeyError k))"

definition req_n :: "string \<Rightarrow> item \<Rightarrow> py_exn + int" where
  "req_n k it = (case dget it k of Some (AN v) \<Rightarrow> Inr v | _ \<Rightarrow> Inl (KeyError k))"

definition opt_s :: "string \<Rightarrow> item \<Rightarrow> string option" where
  "opt_s k it = (case dget it k of Some (AS v) \<Rightarrow> Some v | _ \<Rightarrow> None)"

definition opt_n :: "string \<Rightarrow> item \<Rightarrow> int option" where
  "opt_n k it = (case dget it k of Some (AN v) \<Rightarrow> Some v | _ \<Rightarrow> None)"

definition opt_b :: "string \<Rightarrow> item \<Rightarrow> bool option" where
  "opt_b k it = (case dget it k of Some (AB v) \<Rightarrow> Some v | _ \<Rightarrow> None)"

text \<open>\<open>if v is not None: item[k] = v\<close>.\<close>

definition set_opt :: "string \<Rightarrow> ('a \<Rightarrow> attr) \<Rightarrow> 'a option \<Rightarrow> item \<Rightarrow> item" where
  "set_opt k a v it = (case v of None \<Rightarrow> it | Some x \<Rightarrow> dset k (a x) it)"

definition key_attrs :: "db_key \<Rightarrow> item" where
  "key_attrs k = [(''PK'', AS (fst k)), (''SK'', AS (snd k))]"

definition idea_to_dynamo :: "idea_record \<Rightarrow> item" where
  "idea_to_dynamo r =
     (let item = key_attrs (idea_key (idea_org r) (idea_skillBaseName r) (idea_ideaId r)) @
        [(''ideaId'', AS (idea_ideaId r)), (''skillBaseName'', AS (idea_skillBaseName r)),
         (''org'', AS (idea_org r)), (''body'', AS (idea_body r)), (''status'', AS (idea_status r)),
         (''corroborationVersion'', AN (idea_corroborationVersion r)),
         (''supersedes'', AL (idea_supersedes r))];
        item = set_opt ''foldedIntoRev'' AN (idea_foldedIntoRev r) item;
        item = set_opt ''invalidAt'' AN (idea_invalidAt r) item;
        item = set_opt ''supersededBy'' AS (idea_supersededBy r) item;
        item = set_opt ''authored'' AB (idea_authored r) item;
        item = set_opt ''authorityKind'' AS (idea_authorityKind r) item;
        item = set_opt ''refines'' AS (idea_refines r) item;
        item = set_opt ''revivedAt'' AN (idea_revivedAt r) item;
        item = set_opt ''legacyRecurrenceFold'' AB (idea_legacyRecurrenceFold r) item;
        item = set_opt ''sourceRef'' AS (idea_sourceRef r) item;
        item = set_opt ''scopeTag'' AS (idea_scopeTag r) item;
        item = set_opt ''authorId'' AS (idea_authorId r) item
      in set_opt ''verificationRung'' AS (idea_verificationRung r) item)"

definition dynamo_to_idea :: "item \<Rightarrow> py_exn + idea_record" where
  "dynamo_to_idea item =
     rbind (req_s ''ideaId'' item) (\<lambda>ideaId.
     rbind (req_s ''skillBaseName'' item) (\<lambda>skillBaseName.
     rbind (req_s ''org'' item) (\<lambda>org.
     rbind (req_s ''body'' item) (\<lambda>body.
     rbind (req_s ''status'' item) (\<lambda>status.
     rbind (req_n ''corroborationVersion'' item) (\<lambda>version.
     Inr \<lparr>idea_ideaId = ideaId, idea_skillBaseName = skillBaseName, idea_org = org,
       idea_body = body, idea_status = status, idea_corroborationVersion = version,
       idea_foldedIntoRev = opt_n ''foldedIntoRev'' item,
       idea_invalidAt = opt_n ''invalidAt'' item,
       idea_supersededBy = opt_s ''supersededBy'' item,
       idea_supersedes = (case dget item ''supersedes'' of Some (AL xs) \<Rightarrow> xs | _ \<Rightarrow> []),
       idea_authored = opt_b ''authored'' item,
       idea_authorityKind = opt_s ''authorityKind'' item,
       idea_refines = opt_s ''refines'' item,
       idea_revivedAt = opt_n ''revivedAt'' item,
       idea_legacyRecurrenceFold = opt_b ''legacyRecurrenceFold'' item,
       idea_sourceRef = opt_s ''sourceRef'' item,
       idea_scopeTag = opt_s ''scopeTag'' item,
       idea_authorId = opt_s ''authorId'' item,
       idea_verificationRung = opt_s ''verificationRung'' item\<rparr>))))))"

text \<open>An f-string prints an absent value as \<open>None\<close>.\<close>

definition fmt_opt :: "string option \<Rightarrow> string" where
  "fmt_opt v = (case v of None \<Rightarrow> ''None'' | Some s \<Rightarrow> s)"

definition idea_source_to_dynamo :: "idea_source \<Rightarrow> item" where
  "idea_source_to_dynamo r =
     (let item = key_attrs (idea_source_key (fmt_opt (src_org r)) (fmt_opt (src_ideaId r)) (fmt_opt (src_sourceId r)));
        item = set_opt ''ideaId'' AS (src_ideaId r) item;
        item = set_opt ''sourceId'' AS (src_sourceId r) item;
        item = set_opt ''org'' AS (src_org r) item;
        item = set_opt ''sessionId'' AS (src_sessionId r) item;
        item = set_opt ''segmentId'' AS (src_segmentId r) item;
        item = set_opt ''seq'' AN (src_seq r) item;
        item = set_opt ''prRef'' AS (src_prRef r) item;
        item = set_opt ''anchors'' AS (src_anchors r) item;
        item = set_opt ''authorityKind'' AS (src_authorityKind r) item;
        item = set_opt ''verificationRung'' AS (src_verificationRung r) item
      in set_opt ''authorId'' AS (src_authorId r) item)"

definition dynamo_to_idea_source :: "item \<Rightarrow> py_exn + idea_source" where
  "dynamo_to_idea_source item = Inr
     \<lparr>src_ideaId = opt_s ''ideaId'' item, src_sourceId = opt_s ''sourceId'' item,
      src_org = opt_s ''org'' item, src_sessionId = opt_s ''sessionId'' item,
      src_segmentId = opt_s ''segmentId'' item, src_seq = opt_n ''seq'' item,
      src_prRef = opt_s ''prRef'' item, src_anchors = opt_s ''anchors'' item,
      src_authorityKind = opt_s ''authorityKind'' item,
      src_verificationRung = opt_s ''verificationRung'' item,
      src_authorId = opt_s ''authorId'' item\<rparr>"

definition golden_case_attrs :: "golden_case \<Rightarrow> item" where
  "golden_case_attrs r = set_opt ''createdAt'' AN (gold_createdAt r)
     [(''caseId'', AS (gold_caseId r)), (''skillBaseName'', AS (gold_skillBaseName r)),
      (''org'', AS (gold_org r)), (''before'', AS (gold_before r)), (''after'', AS (gold_after r)),
      (''ideaBody'', AS (gold_ideaBody r))]"

definition dynamo_to_golden_case :: "item \<Rightarrow> py_exn + golden_case" where
  "dynamo_to_golden_case item =
     rbind (req_s ''caseId'' item) (\<lambda>caseId.
     rbind (req_s ''skillBaseName'' item) (\<lambda>skillBaseName.
     rbind (req_s ''org'' item) (\<lambda>org.
     rbind (req_s ''before'' item) (\<lambda>before.
     rbind (req_s ''after'' item) (\<lambda>after.
     rbind (req_s ''ideaBody'' item) (\<lambda>ideaBody.
     Inr \<lparr>gold_caseId = caseId, gold_skillBaseName = skillBaseName, gold_org = org,
       gold_before = before, gold_after = after, gold_ideaBody = ideaBody,
       gold_createdAt = opt_n ''createdAt'' item\<rparr>))))))"

definition anchor_attrs :: "anchor_record \<Rightarrow> item" where
  "anchor_attrs r =
     [(''ideaId'', AS (anchor_ideaId r)), (''ownerRepo'', AS (anchor_ownerRepo r)),
      (''file'', AS (anchor_file r)), (''symbol'', AS (anchor_symbol r)),
      (''org'', AS (anchor_org r)), (''active'', AB (anchor_active r))]"

definition dynamo_to_anchor :: "item \<Rightarrow> py_exn + anchor_record" where
  "dynamo_to_anchor item =
     rbind (req_s ''ideaId'' item) (\<lambda>ideaId.
     rbind (req_s ''ownerRepo'' item) (\<lambda>ownerRepo.
     rbind (req_s ''file'' item) (\<lambda>file.
     rbind (req_s ''symbol'' item) (\<lambda>symbol.
     rbind (req_s ''org'' item) (\<lambda>org.
     Inr \<lparr>anchor_ideaId = ideaId, anchor_ownerRepo = ownerRepo, anchor_file = file,
       anchor_symbol = symbol, anchor_org = org,
       anchor_active = (case opt_b ''active'' item of None \<Rightarrow> True | Some b \<Rightarrow> b)\<rparr>)))))"

definition dynamo_to_verify_event :: "item \<Rightarrow> py_exn + verify_event" where
  "dynamo_to_verify_event item =
     rbind (req_s ''org'' item) (\<lambda>org.
     rbind (req_s ''ideaId'' item) (\<lambda>ideaId.
     rbind (req_n ''seq'' item) (\<lambda>seq.
     rbind (req_s ''verdict'' item) (\<lambda>verdict.
     rbind (req_n ''recordedAt'' item) (\<lambda>recordedAt.
     Inr \<lparr>ev_org = org, ev_idea_id = ideaId, ev_seq = seq, ev_verdict = verdict,
       ev_pr_ref = opt_s ''prRef'' item, ev_authority = opt_s ''authority'' item,
       ev_recorded_at = recordedAt\<rparr>)))))"

definition dynamo_to_branch_session :: "item \<Rightarrow> py_exn + branch_session" where
  "dynamo_to_branch_session item =
     rbind (req_s ''ownerRepo'' item) (\<lambda>ownerRepo.
     rbind (req_s ''branch'' item) (\<lambda>branch.
     rbind (req_s ''org'' item) (\<lambda>org.
     rbind (req_s ''sessionId'' item) (\<lambda>sessionId.
     Inr \<lparr>bs_ownerRepo = ownerRepo, bs_branch = branch, bs_org = org, bs_sessionId = sessionId,
       bs_turnStart = opt_n ''turnStart'' item, bs_turnEnd = opt_n ''turnEnd'' item,
       bs_distilledContext = opt_s ''distilledContext'' item,
       bs_pushedAt = opt_n ''pushedAt'' item, bs_ttlAt = opt_n ''ttlAt'' item\<rparr>))))"

section \<open>Ideas\<close>

text \<open>\<open>put_item\<close> without a condition; any \<open>ClientError\<close> is passed on.\<close>

definition table_put :: "'t dynamo \<Rightarrow> item \<Rightarrow> ('t, unit) py" where
  "table_put db it = (\<lambda>t. case dy_put_item db it None t of
     (Inr u, t') \<Rightarrow> (Inr (), t') | (Inl code, t') \<Rightarrow> (Inl (ClientError code), t'))"

text \<open>\<open>resp.get("Item")\<close>, deserialised when it is there and not empty.\<close>

definition get_row :: "'t dynamo \<Rightarrow> db_key \<Rightarrow> (item \<Rightarrow> py_exn + 'r) \<Rightarrow> 't \<Rightarrow> py_exn + 'r option" where
  "get_row db k parse t = (case dy_get_item db k t of
     None \<Rightarrow> Inr None
   | Some it \<Rightarrow> if it = [] then Inr None else rbind (parse it) (\<lambda>r. Inr (Some r)))"

text \<open>The first page of a query, deserialised.\<close>

definition query_rows ::
    "'t dynamo \<Rightarrow> string \<Rightarrow> string \<Rightarrow> cond option \<Rightarrow> (item \<Rightarrow> py_exn + 'r) \<Rightarrow> 't \<Rightarrow> py_exn + 'r list" where
  "query_rows db pk p c parse t = map_res parse (fst (dy_query db pk p c t))"

definition dyn_put_idea :: "'t dynamo \<Rightarrow> idea_record \<Rightarrow> ('t, unit) py" where
  "dyn_put_idea db r =
     pbind (org_guard (idea_org r) ''put_idea'') (\<lambda>_. table_put db (idea_to_dynamo r))"

definition dyn_get_idea ::
    "'t dynamo \<Rightarrow> string \<Rightarrow> string \<Rightarrow> string \<Rightarrow> 't \<Rightarrow> py_exn + idea_record option" where
  "dyn_get_idea db org skill_base_name idea_id t =
     get_row db (idea_key org skill_base_name idea_id) dynamo_to_idea t"

text \<open>
  \<open>others\<close> is what other writers do to the table between the refused write and the read of
  the version the error reports.
\<close>

definition dyn_put_idea_conditional ::
    "'t dynamo \<Rightarrow> ('t \<Rightarrow> 't) \<Rightarrow> idea_record \<Rightarrow> int \<Rightarrow> ('t, unit) py" where
  "dyn_put_idea_conditional db others r expected_version =
     pbind (org_guard (idea_org r) ''put_idea_conditional'') (\<lambda>_ t.
       let condition = (if expected_version < 0 then NotExists ''PK''
                        else Eq ''corroborationVersion'' (AN expected_version)) in
       case dy_put_item db (idea_to_dynamo r) (Some condition) t of
         (Inr u, t') \<Rightarrow> (Inr (), t')
       | (Inl code, t') \<Rightarrow>
           if code = CCF then
             (case dyn_get_idea db (idea_org r) (idea_skillBaseName r) (idea_ideaId r) (others t') of
                Inl e \<Rightarrow> (Inl e, others t')
              | Inr current \<Rightarrow>
                  (Inl (VersionConflictError (idea_ideaId r) expected_version
                     (case current of None \<Rightarrow> - 1 | Some c \<Rightarrow> idea_corroborationVersion c)), others t'))
           else (Inl (ClientError code), t'))"

definition idea_sk_prefix_for_skill :: "string \<Rightarrow> string" where
  "idea_sk_prefix_for_skill skill_base_name = ''IDEA#'' @ skill_base_name @ ''#''"

definition idea_sk_prefix_for_org :: string where
  "idea_sk_prefix_for_org = ''IDEA#''"

definition dyn_list_current_ideas ::
    "'t dynamo \<Rightarrow> string \<Rightarrow> string \<Rightarrow> 't \<Rightarrow> py_exn + idea_record list" where
  "dyn_list_current_ideas db org skill_base_name t =
     query_rows db (scope_pk org) (idea_sk_prefix_for_skill skill_base_name)
       (Some (NotExists ''invalidAt'')) dynamo_to_idea t"

definition dyn_list_all_ideas_for_org :: "'t dynamo \<Rightarrow> string \<Rightarrow> 't \<Rightarrow> py_exn + idea_record list" where
  "dyn_list_all_ideas_for_org db org t =
     query_rows db (scope_pk org) idea_sk_prefix_for_org None dynamo_to_idea t"

section \<open>The scan for folded ideas\<close>

definition folded_filter :: cond where
  "folded_filter = And (And (BeginsWith ''SK'' ''IDEA#'') (Eq ''status'' (AS ''folded''))) (NotExists ''invalidAt'')"

definition folded_projection :: "string list" where
  "folded_projection = [''PK'', ''SK'', ''org'', ''skillBaseName'', ''authorityKind'', ''authored'']"

text \<open>The local function \<open>_process\<close>, on the pairs found so far.\<close>

definition process_folded :: "item list \<Rightarrow> (string \<times> string) list \<Rightarrow> (string \<times> string) list" where
  "process_folded items results = foldl (\<lambda>results item.
     let org = (case opt_s ''org'' item of None \<Rightarrow> [] | Some s \<Rightarrow> s);
         sbn = (case opt_s ''skillBaseName'' item of None \<Rightarrow> [] | Some s \<Rightarrow> s) in
     if authored_kind (opt_s ''authorityKind'' item) \<or> opt_b ''authored'' item = Some True then results
     else if org = [] \<or> sbn = [] then results
     else if (org, sbn) \<in> set results then results
     else results @ [(org, sbn)]) results items"

text \<open>The pages after the first, as long as there is a \<open>LastEvaluatedKey\<close>; \<open>None\<close> when the fuel
  runs out.\<close>

fun scan_folded_from ::
    "nat \<Rightarrow> 't dynamo \<Rightarrow> 't \<Rightarrow> db_key option \<Rightarrow> (string \<times> string) list \<Rightarrow> (string \<times> string) list option" where
  "scan_folded_from fuel db t None results = Some results"
| "scan_folded_from 0 db t (Some k) results = None"
| "scan_folded_from (Suc fuel) db t (Some k) results =
     (let (items, more) = dy_scan db folded_filter folded_projection (Some k) t
      in scan_folded_from fuel db t more (process_folded items results))"

definition dyn_list_skills_with_folded_non_authored_ideas ::
    "nat \<Rightarrow> 't dynamo \<Rightarrow> 't \<Rightarrow> (string \<times> string) list option" where
  "dyn_list_skills_with_folded_non_authored_ideas fuel db t =
     (let (items, more) = dy_scan db folded_filter folded_projection None t
      in scan_folded_from fuel db t more (process_folded items []))"

section \<open>Idea sources, golden cases, anchors\<close>

definition dyn_put_idea_source :: "'t dynamo \<Rightarrow> idea_source \<Rightarrow> ('t, unit) py" where
  "dyn_put_idea_source db r =
     pbind (org_guard (case src_org r of Some g \<Rightarrow> g | None \<Rightarrow> []) ''put_idea_source'') (\<lambda>_.
       if src_ideaId r \<in> {None, Some []} \<or> src_sourceId r \<in> {None, Some []} then praise ValueError
       else table_put db (idea_source_to_dynamo r))"

definition dyn_get_idea_source ::
    "'t dynamo \<Rightarrow> string \<Rightarrow> string \<Rightarrow> string \<Rightarrow> 't \<Rightarrow> py_exn + idea_source option" where
  "dyn_get_idea_source db org idea_id source_id t =
     get_row db (idea_source_key org idea_id source_id) dynamo_to_idea_source t"

definition dyn_list_idea_sources ::
    "'t dynamo \<Rightarrow> string \<Rightarrow> string \<Rightarrow> 't \<Rightarrow> py_exn + idea_source list" where
  "dyn_list_idea_sources db org idea_id t =
     query_rows db (scope_pk org) (''IDEASRC#'' @ idea_id @ ''#'') None dynamo_to_idea_source t"

definition dyn_put_golden_case :: "'t dynamo \<Rightarrow> golden_case \<Rightarrow> ('t, unit) py" where
  "dyn_put_golden_case db r =
     pbind (org_guard (gold_org r) ''put_golden_case'') (\<lambda>_. table_put db
       (key_attrs (golden_case_key (gold_org r) (gold_skillBaseName r) (gold_caseId r)) @ golden_case_attrs r))"

definition dyn_get_golden_case ::
    "'t dynamo \<Rightarrow> string \<Rightarrow> string \<Rightarrow> string \<Rightarrow> 't \<Rightarrow> py_exn + golden_case option" where
  "dyn_get_golden_case db org skill_base_name case_id t =
     get_row db (golden_case_key org skill_base_name case_id) dynamo_to_golden_case t"

definition dyn_put_anchor :: "'t dynamo \<Rightarrow> anchor_record \<Rightarrow> ('t, unit) py" where
  "dyn_put_anchor db r =
     pbind (org_guard (anchor_org r) ''put_anchor'') (\<lambda>_. table_put db
       (key_attrs (anchor_key (anchor_org r) (anchor_ownerRepo r) (anchor_file r) (anchor_symbol r)
          (anchor_ideaId r)) @ anchor_attrs r))"

definition dyn_get_anchors_for_idea ::
    "'t dynamo \<Rightarrow> string \<Rightarrow> string \<Rightarrow> string \<Rightarrow> 't \<Rightarrow> py_exn + anchor_record list" where
  "dyn_get_anchors_for_idea db org owner_repo idea_id t =
     query_rows db (scope_pk org) (''ANCHOR#'' @ owner_repo @ ''#'') (Some (Eq ''ideaId'' (AS idea_id)))
       dynamo_to_anchor t"

definition dyn_get_ideas_by_anchor ::
    "'t dynamo \<Rightarrow> string \<Rightarrow> string \<Rightarrow> string \<Rightarrow> string \<Rightarrow> 't \<Rightarrow> py_exn + string list" where
  "dyn_get_ideas_by_anchor db org owner_repo file symbol t =
     query_rows db (scope_pk org) (''ANCHOR#'' @ owner_repo @ ''#'' @ file @ ''#'' @ symbol @ ''#'')
       (Some (Eq ''active'' (AB True))) (req_s ''ideaId'') t"

section \<open>Cursor, audit events, branch links\<close>

definition dyn_mark_pr_processed :: "'t dynamo \<Rightarrow> processed_pr \<Rightarrow> ('t, unit) py" where
  "dyn_mark_pr_processed db r =
     pbind (org_guard (pr_org r) ''mark_pr_processed'') (\<lambda>_. table_put db
       (key_attrs (processed_pr_key (pr_org r) (pr_owner_repo r) (pr_pr_number r)) @
        [(''org'', AS (pr_org r)), (''ownerRepo'', AS (pr_owner_repo r)),
         (''prNumber'', AN (pr_pr_number r)), (''processedAt'', AN (pr_processed_at r))]))"

definition dyn_is_pr_processed :: "'t dynamo \<Rightarrow> string \<Rightarrow> string \<Rightarrow> int \<Rightarrow> 't \<Rightarrow> bool" where
  "dyn_is_pr_processed db org owner_repo pr_number t \<longleftrightarrow>
     dy_get_item db (processed_pr_key org owner_repo pr_number) t \<noteq> None"

definition verify_event_item :: "verify_event \<Rightarrow> item" where
  "verify_event_item r =
     (let item = key_attrs (verify_event_key (ev_org r) (ev_idea_id r) (ev_seq r)) @
        [(''org'', AS (ev_org r)), (''ideaId'', AS (ev_idea_id r)), (''seq'', AN (ev_seq r)),
         (''verdict'', AS (ev_verdict r)), (''recordedAt'', AN (ev_recorded_at r))];
        item = set_opt ''prRef'' AS (ev_pr_ref r) item
      in set_opt ''authority'' AS (ev_authority r) item)"

definition dyn_append_verify_event :: "'t dynamo \<Rightarrow> verify_event \<Rightarrow> ('t, unit) py" where
  "dyn_append_verify_event db r =
     pbind (org_guard (ev_org r) ''append_verify_event'') (\<lambda>_. table_put db (verify_event_item r))"

definition dyn_list_verify_events ::
    "'t dynamo \<Rightarrow> string \<Rightarrow> string \<Rightarrow> 't \<Rightarrow> py_exn + verify_event list" where
  "dyn_list_verify_events db org idea_id t =
     query_rows db (scope_pk org) (''VERIFY#'' @ idea_id @ ''#'') None dynamo_to_verify_event t"

definition branch_session_item :: "branch_session \<Rightarrow> item" where
  "branch_session_item r =
     (let item = key_attrs (branch_session_key (bs_org r) (bs_ownerRepo r) (bs_branch r)) @
        [(''org'', AS (bs_org r)), (''ownerRepo'', AS (bs_ownerRepo r)),
         (''branch'', AS (bs_branch r)), (''sessionId'', AS (bs_sessionId r))];
        item = set_opt ''turnStart'' AN (bs_turnStart r) item;
        item = set_opt ''turnEnd'' AN (bs_turnEnd r) item;
        item = set_opt ''distilledContext'' AS (bs_distilledContext r) item;
        item = set_opt ''pushedAt'' AN (bs_pushedAt r) item
      in set_opt ''ttlAt'' AN (bs_ttlAt r) item)"

definition dyn_put_branch_session_link :: "'t dynamo \<Rightarrow> branch_session \<Rightarrow> ('t, unit) py" where
  "dyn_put_branch_session_link db r =
     pbind (org_guard (bs_org r) ''put_branch_session_link'') (\<lambda>_. table_put db (branch_session_item r))"

definition dyn_get_branch_session_link ::
    "'t dynamo \<Rightarrow> string \<Rightarrow> string \<Rightarrow> string \<Rightarrow> 't \<Rightarrow> py_exn + branch_session option" where
  "dyn_get_branch_session_link db org owner_repo branch t =
     get_row db (branch_session_key org owner_repo branch) dynamo_to_branch_session t"

fun dyn_run_op :: "'t dynamo \<Rightarrow> store_op \<Rightarrow> ('t, unit) py" where
  "dyn_run_op db (PutIdea r) = dyn_put_idea db r"
| "dyn_run_op db (PutIdeaConditional r v) = dyn_put_idea_conditional db (\<lambda>t. t) r v"
| "dyn_run_op db (PutIdeaSource r) = dyn_put_idea_source db r"
| "dyn_run_op db (PutGoldenCase r) = dyn_put_golden_case db r"
| "dyn_run_op db (PutAnchor r) = dyn_put_anchor db r"
| "dyn_run_op db (MarkPrProcessed r) = dyn_mark_pr_processed db r"
| "dyn_run_op db (AppendVerifyEvent r) = dyn_append_verify_event db r"
| "dyn_run_op db (PutBranchLink r) = dyn_put_branch_session_link db r"

end
