(* ===== verification/DynamoProps.thy ===== *)
theory DynamoProps
  imports DynamoStore "HOL-Library.Multiset"
begin

text \<open>
  The production store refines the in-memory one.  \<open>represents m s\<close> is the representation
  relation between the items of a table and a store: under every well-formed identity the table
  holds the serialised record of the store, and nothing else.  Every write operation keeps the
  relation and returns the same result on both sides; the reads of related states agree.
\<close>

section \<open>Serialisers round trip\<close>

declare map_of_append [simp del]

lemma dget_set_opt [dict_simps]:
  "dget (set_opt k a v it) k' =
     (if k' = k then (case v of None \<Rightarrow> dget it k | Some x \<Rightarrow> Some (a x)) else dget it k')"
  by (auto simp: set_opt_def dict_simps split: option.splits)

lemma set_opt_not_Nil [simp]: "set_opt k a v it = [] \<longleftrightarrow> it = [] \<and> v = None"
  by (cases it) (auto simp: set_opt_def split: option.splits)

lemma dget_key_attrs [dict_simps]:
  "dget (key_attrs k @ it) a =
     (if a = ''PK'' then Some (AS (fst k)) else if a = ''SK'' then Some (AS (snd k)) else dget it a)"
  "dget (key_attrs k) a =
     (if a = ''PK'' then Some (AS (fst k)) else if a = ''SK'' then Some (AS (snd k)) else None)"
  by (auto simp: key_attrs_def)

lemma key_attrs_not_Nil [simp]: "key_attrs k \<noteq> []"
  by (simp add: key_attrs_def)

lemmas reader_defs = req_s_def req_n_def opt_s_def opt_n_def opt_b_def

text \<open>Reading an attribute just set, and skipping the others.\<close>

lemma read_skip [dict_simps]:
  assumes "k \<noteq> k'"
  shows "req_s k (set_opt k' a v it) = req_s k it" "req_n k (set_opt k' a v it) = req_n k it"
    "opt_s k (set_opt k' a v it) = opt_s k it" "opt_n k (set_opt k' a v it) = opt_n k it"
    "opt_b k (set_opt k' a v it) = opt_b k it"
  using assms by (simp_all add: reader_defs dget_set_opt)

lemma opt_case_id: "(case v of None \<Rightarrow> None | Some x \<Rightarrow> Some x) = v"
  by (cases v) simp_all

lemma read_set:
  "dget it k = None \<Longrightarrow> opt_s k (set_opt k AS v it) = v"
  "dget it k = None \<Longrightarrow> opt_n k (set_opt k AN v' it) = v'"
  "dget it k = None \<Longrightarrow> opt_b k (set_opt k AB v'' it) = v''"
  by (simp_all add: reader_defs dget_set_opt split: option.split)

lemma read_cons [dict_simps]:
  "req_s k ((k', a) # it) = (if k = k' then (case a of AS v \<Rightarrow> Inr v | _ \<Rightarrow> Inl (KeyError k)) else req_s k it)"
  "req_n k ((k', a) # it) = (if k = k' then (case a of AN v \<Rightarrow> Inr v | _ \<Rightarrow> Inl (KeyError k)) else req_n k it)"
  "opt_b k ((k', a) # it) = (if k = k' then (case a of AB v \<Rightarrow> Some v | _ \<Rightarrow> None) else opt_b k it)"
  by (simp_all add: reader_defs)

lemma read_key_attrs [dict_simps]:
  assumes "k \<noteq> ''PK''" "k \<noteq> ''SK''"
  shows "req_s k (key_attrs p @ it) = req_s k it" "req_n k (key_attrs p @ it) = req_n k it"
    "opt_b k (key_attrs p @ it) = opt_b k it" "opt_n k (key_attrs p @ it) = opt_n k it"
  using assms by (simp_all add: reader_defs dget_key_attrs)

lemmas roundtrip_simps = dict_simps read_set Let_def

lemma idea_roundtrip: "dynamo_to_idea (idea_to_dynamo r) = Inr r"
  by (simp add: dynamo_to_idea_def idea_to_dynamo_def roundtrip_simps)

lemma idea_source_roundtrip: "dynamo_to_idea_source (idea_source_to_dynamo r) = Inr r"
  by (simp add: dynamo_to_idea_source_def idea_source_to_dynamo_def roundtrip_simps)

definition golden_item :: "golden_case \<Rightarrow> item" where
  "golden_item r = key_attrs (golden_case_key (gold_org r) (gold_skillBaseName r) (gold_caseId r)) @ golden_case_attrs r"

definition anchor_item :: "anchor_record \<Rightarrow> item" where
  "anchor_item r = key_attrs (anchor_key (anchor_org r) (anchor_ownerRepo r) (anchor_file r) (anchor_symbol r)
     (anchor_ideaId r)) @ anchor_attrs r"

definition pr_item :: "processed_pr \<Rightarrow> item" where
  "pr_item r = key_attrs (processed_pr_key (pr_org r) (pr_owner_repo r) (pr_pr_number r)) @
     [(''org'', AS (pr_org r)), (''ownerRepo'', AS (pr_owner_repo r)),
      (''prNumber'', AN (pr_pr_number r)), (''processedAt'', AN (pr_processed_at r))]"

lemma golden_roundtrip: "dynamo_to_golden_case (golden_item r) = Inr r"
  by (simp add: dynamo_to_golden_case_def golden_item_def golden_case_attrs_def roundtrip_simps)

lemma anchor_roundtrip: "dynamo_to_anchor (anchor_item r) = Inr r"
  by (simp add: dynamo_to_anchor_def anchor_item_def anchor_attrs_def roundtrip_simps)

lemma verify_event_roundtrip: "dynamo_to_verify_event (verify_event_item r) = Inr r"
  by (simp add: dynamo_to_verify_event_def verify_event_item_def roundtrip_simps)

lemma branch_session_roundtrip: "dynamo_to_branch_session (branch_session_item r) = Inr r"
  by (simp add: dynamo_to_branch_session_def branch_session_item_def roundtrip_simps)

section \<open>Row identities\<close>

datatype row_id =
    KIdea string string string
  | KGold string string string
  | KSrc string string string
  | KAnchor string string string string string
  | KPr string string int
  | KEvent string string int
  | KLink string string string

fun db_key_of :: "row_id \<Rightarrow> db_key" where
  "db_key_of (KIdea g sk i) = idea_key g sk i"
| "db_key_of (KGold g sk c) = golden_case_key g sk c"
| "db_key_of (KSrc g i sid) = idea_source_key g i sid"
| "db_key_of (KAnchor g rp f sy i) = anchor_key g rp f sy i"
| "db_key_of (KPr g rp n) = processed_pr_key g rp n"
| "db_key_of (KEvent g i n) = verify_event_key g i n"
| "db_key_of (KLink g rp b) = branch_session_key g rp b"

definition no_hash :: "string \<Rightarrow> bool" where
  "no_hash s \<longleftrightarrow> CHR ''#'' \<notin> set s"

text \<open>The components before the last separator of a sort key are free of the separator;
  sequence numbers fit the padding.\<close>

fun id_ok :: "row_id \<Rightarrow> bool" where
  "id_ok (KIdea g sk i) \<longleftrightarrow> no_hash sk \<and> sk \<noteq> []"
| "id_ok (KGold g sk c) \<longleftrightarrow> no_hash sk"
| "id_ok (KSrc g i sid) \<longleftrightarrow> no_hash i"
| "id_ok (KAnchor g rp f sy i) \<longleftrightarrow> no_hash rp \<and> no_hash f \<and> no_hash sy"
| "id_ok (KPr g rp n) \<longleftrightarrow> True"
| "id_ok (KEvent g i n) \<longleftrightarrow> no_hash i \<and> 0 \<le> n \<and> n < 10 ^ 12"
| "id_ok (KLink g rp b) \<longleftrightarrow> no_hash rp"

lemma no_hash_append_inj:
  "no_hash a \<Longrightarrow> no_hash a' \<Longrightarrow> a @ CHR ''#'' # b = a' @ CHR ''#'' # b' \<longleftrightarrow> a = a' \<and> b = b'"
  by (rule sep_split_inj) (simp_all add: no_hash_def)

lemma prefix_sep_iff:
  "no_hash a \<Longrightarrow> no_hash a' \<Longrightarrow> prefix (a @ CHR ''#'' # b) (a' @ CHR ''#'' # b') \<longleftrightarrow> a = a' \<and> prefix b b'"
  by (auto simp: prefix_def no_hash_append_inj)

lemma show_nat_length: "n < 10 ^ w \<Longrightarrow> 0 < w \<Longrightarrow> length (show_nat n) \<le> w"
proof (induction n arbitrary: w rule: show_nat.induct)
  case (1 n)
  show ?case
  proof (cases "n < 10")
    case True
    with 1 show ?thesis by (subst show_nat.simps) simp
  next
    case False
    then obtain v where w: "w = Suc v" "0 < v" using 1 by (cases w; cases "w - 1") auto
    then have "n div 10 < 10 ^ v" using 1(2) by (simp add: less_mult_imp_div_less mult.commute)
    with 1(1) [OF False, of v] w False show ?thesis by (subst show_nat.simps) simp
  qed
qed

lemma zfill_show_nat: "zfill w (show_nat n) = replicate (w - length (show_nat n)) CHR ''0'' @ show_nat n"
proof -
  obtain c cs where c: "show_nat n = c # cs" by (cases "show_nat n") auto
  then have "is_digit c" using show_nat_digits [of c n] by simp
  then have "c \<noteq> CHR ''-''" "c \<noteq> CHR ''+''" by (auto simp: is_digit_def cp_def)
  then show ?thesis by (simp add: zfill_def c)
qed

text \<open>The value of a string of digits.\<close>

definition digits_val :: "string \<Rightarrow> nat" where
  "digits_val s = foldl (\<lambda>acc c. 10 * acc + (cp c - 48)) 0 s"

lemma foldl_digits_replicate: "foldl (\<lambda>acc c. 10 * acc + (cp c - 48)) 0 (replicate k CHR ''0'') = 0"
  by (induction k) (simp_all add: cp_def)

lemma digits_val_show_nat: "digits_val (show_nat n) = n"
proof (induction n rule: show_nat.induct)
  case (1 n)
  then show ?case
    by (subst show_nat.simps) (auto simp: digits_val_def cp_digit_char)
qed

lemma digits_val_zfill: "digits_val (zfill w (show_nat n)) = n"
  by (simp add: zfill_show_nat digits_val_def foldl_digits_replicate)
     (simp add: digits_val_def [symmetric] digits_val_show_nat)

lemma digits_val_bounds:
  assumes "\<forall>c \<in> set s. is_digit c"
  shows "foldl (\<lambda>acc c. 10 * acc + (cp c - 48)) a s < (a + 1) * 10 ^ length s"
    and "a * 10 ^ length s \<le> foldl (\<lambda>acc c. 10 * acc + (cp c - 48)) a s"
  using assms
proof (induction s arbitrary: a)
  case (Cons c cs)
  { case 1
    let ?a = "10 * a + (cp c - 48)"
    have "foldl (\<lambda>acc c. 10 * acc + (cp c - 48)) ?a cs < (?a + 1) * 10 ^ length cs" using Cons 1 by simp
    also have "\<dots> \<le> ((a + 1) * 10) * 10 ^ length cs" using 1 by (intro mult_right_mono) (auto simp: is_digit_def)
    finally show ?case by (simp add: algebra_simps)
  next
    case 2
    let ?a = "10 * a + (cp c - 48)"
    have "(a * 10) * 10 ^ length cs \<le> ?a * 10 ^ length cs" by (intro mult_right_mono) auto
    also have "\<dots> \<le> foldl (\<lambda>acc c. 10 * acc + (cp c - 48)) ?a cs" using Cons 2 by simp
    finally show ?case by (simp add: algebra_simps) }
qed simp_all

text \<open>On digit strings of one length the lexicographic order is the order of the values.\<close>

lemma digits_less:
  assumes "length s = length t" "\<forall>c \<in> set s. is_digit c" "\<forall>c \<in> set t. is_digit c" "s < t"
  shows "foldl (\<lambda>acc c. 10 * acc + (cp c - 48)) a s < foldl (\<lambda>acc c. 10 * acc + (cp c - 48)) a t"
  using assms
proof (induction s t arbitrary: a rule: list_induct2)
  case (Cons c cs d ds)
  show ?case
  proof (cases "c = d")
    case True
    with Cons show ?thesis by simp
  next
    case False
    with Cons.prems have "c < d" by simp
    then have "cp c < cp d" by (simp add: cp_def less_char_def)
    with Cons.prems have l: "10 * a + (cp c - 48) + 1 \<le> 10 * a + (cp d - 48)" by (auto simp: is_digit_def)
    let ?f = "foldl (\<lambda>acc c. 10 * acc + (cp c - 48))"
    have "?f (10 * a + (cp c - 48)) cs < (10 * a + (cp c - 48) + 1) * 10 ^ length cs"
      using Cons.prems by (intro digits_val_bounds(1)) auto
    also have "\<dots> \<le> (10 * a + (cp d - 48)) * 10 ^ length ds"
      using l Cons.hyps by (simp only: mult_right_mono)
    also have "\<dots> \<le> ?f (10 * a + (cp d - 48)) ds"
      using Cons.prems by (intro digits_val_bounds(2)) auto
    finally show ?thesis by simp
  qed
qed simp

text \<open>The padded sequence numbers are ordered as the numbers are.\<close>

lemma zfill_int: "0 \<le> n \<Longrightarrow> zfill 12 (show_int n) = zfill 12 (show_nat (nat n))"
  by (simp add: show_int_def)

lemma zfill12_props:
  assumes "n < 10 ^ 12"
  shows "length (zfill 12 (show_nat n)) = 12" "c \<in> set (zfill 12 (show_nat n)) \<Longrightarrow> is_digit c"
  using show_nat_length [OF assms] show_nat_digits [of c n]
  by (auto simp: zfill_show_nat is_digit_def cp_def)

lemma zfill12_less:
  assumes "0 \<le> m" "m < 10 ^ 12" "0 \<le> n" "n < 10 ^ 12"
  shows "zfill 12 (show_int m) < zfill 12 (show_int n) \<longleftrightarrow> m < n"
proof -
  have imp: "a < b" if "zfill 12 (show_nat a) < zfill 12 (show_nat b)" "a < 10 ^ 12" "b < 10 ^ 12" for a b
    using digits_less [of "zfill 12 (show_nat a)" "zfill 12 (show_nat b)" 0] that
    by (simp add: zfill12_props digits_val_def [symmetric] digits_val_zfill)
  have lt: "nat m < 10 ^ 12" "nat n < 10 ^ 12" using assms by simp_all
  show ?thesis
  proof
    assume "zfill 12 (show_int m) < zfill 12 (show_int n)"
    then show "m < n" using imp [of "nat m" "nat n"] lt assms by (simp add: zfill_int)
  next
    assume "m < n"
    then have "\<not> zfill 12 (show_int n) \<le> zfill 12 (show_int m)"
      using imp [of "nat n" "nat m"] lt assms digits_val_zfill [of 12 "nat n"] digits_val_zfill [of 12 "nat m"]
      by (auto simp: zfill_int le_less)
    then show "zfill 12 (show_int m) < zfill 12 (show_int n)" by simp
  qed
qed

lemma zfill12_inj:
  "0 \<le> m \<Longrightarrow> 0 \<le> n \<Longrightarrow> zfill 12 (show_int m) = zfill 12 (show_int n) \<longleftrightarrow> m = n"
  using digits_val_zfill [of 12 "nat n"] digits_val_zfill [of 12 "nat m"] by (auto simp: zfill_int)

lemmas key_defs = idea_key_def golden_case_key_def idea_source_key_def anchor_key_def
  processed_pr_key_def verify_event_key_def branch_session_key_def

lemma db_key_of_inj: "id_ok x \<Longrightarrow> id_ok y \<Longrightarrow> db_key_of x = db_key_of y \<longleftrightarrow> x = y"
proof (cases x)
  case (KPr g rp n)
  then show "db_key_of x = db_key_of y \<longleftrightarrow> x = y"
    by (cases y) (simp_all del: processed_pr_key_inj add: processed_pr_key_inj [symmetric], simp_all add: key_defs)
qed (cases y; auto simp: key_defs no_hash_append_inj zfill12_inj)+

section \<open>The representation relation\<close>

fun item_at :: "row_id \<Rightarrow> learning_store \<Rightarrow> item option" where
  "item_at (KIdea g sk i) s = map_option idea_to_dynamo (get_idea g sk i s)"
| "item_at (KGold g sk c) s = map_option golden_item (get_golden_case g sk c s)"
| "item_at (KSrc g i sid) s = map_option idea_source_to_dynamo (get_idea_source g i sid s)"
| "item_at (KAnchor g rp f sy i) s =
     map_option anchor_item (find (\<lambda>a. anchor_pk a = (g, rp, f, sy, i)) (ls_anchors s))"
| "item_at (KPr g rp n) s = map_option pr_item (dget (ls_processed_prs s) (g, rp, n))"
| "item_at (KEvent g i n) s =
     map_option verify_event_item (find (\<lambda>e. ev_seq e = n) (rev (events_at (g, i) s)))"
| "item_at (KLink g rp b) s = map_option branch_session_item (get_branch_session_link g rp b s)"

definition versions_ok :: "learning_store \<Rightarrow> bool" where
  "versions_ok s \<longleftrightarrow> (\<forall>(_, r) \<in> set (ls_ideas s). 0 \<le> idea_corroborationVersion r)"

definition represents :: "(db_key \<Rightarrow> item option) \<Rightarrow> learning_store \<Rightarrow> bool" where
  "represents m s \<longleftrightarrow> store_wf s \<and> versions_ok s \<and>
     (\<forall>x. item_at x s \<noteq> None \<longrightarrow> id_ok x) \<and>
     (\<forall>x. id_ok x \<longrightarrow> m (db_key_of x) = item_at x s) \<and>
     (\<forall>k. m k \<noteq> None \<longrightarrow> (\<exists>x. id_ok x \<and> k = db_key_of x))"

lemma representsD:
  assumes "represents m s"
  shows "store_wf s" "versions_ok s" "item_at x s \<noteq> None \<Longrightarrow> id_ok x"
    "id_ok x \<Longrightarrow> m (db_key_of x) = item_at x s"
    "m k \<noteq> None \<Longrightarrow> \<exists>x. id_ok x \<and> k = db_key_of x"
  using assms unfolding represents_def by blast+

lemma represents_empty: "represents (\<lambda>_. None) empty_store"
  unfolding represents_def
proof (intro conjI allI impI)
  show "item_at x empty_store \<noteq> None \<Longrightarrow> id_ok x" for x
    by (cases x) (simp_all add: empty_store_def read_defs)
  show "None = item_at x empty_store" for x :: row_id
    by (cases x) (simp_all add: empty_store_def read_defs)
  show "versions_ok empty_store" by (simp add: versions_ok_def empty_store_def)
qed (simp_all add: store_wf_empty)

lemma represents_put:
  assumes R: "represents m s" and x: "id_ok x" and wf: "store_wf s'" "versions_ok s'"
    and at: "\<And>y. item_at y s' = (if y = x then Some it else item_at y s)"
  shows "represents (m(db_key_of x \<mapsto> it)) s'"
  unfolding represents_def
proof (intro conjI allI impI)
  show "id_ok y" if "item_at y s' \<noteq> None" for y
    using that x representsD(3) [OF R, of y] by (auto simp: at split: if_splits)
  show "(m(db_key_of x \<mapsto> it)) (db_key_of y) = item_at y s'" if "id_ok y" for y
    using representsD(4) [OF R that] that x by (simp add: at db_key_of_inj)
  show "\<exists>y. id_ok y \<and> k = db_key_of y" if "(m(db_key_of x \<mapsto> it)) k \<noteq> None" for k
    using that x representsD(5) [OF R, of k] by (cases "k = db_key_of x") auto
qed (use wf in auto)

section \<open>Write operations\<close>

fun op_id :: "store_op \<Rightarrow> row_id" where
  "op_id (PutIdea r) = KIdea (idea_org r) (idea_skillBaseName r) (idea_ideaId r)"
| "op_id (PutIdeaConditional r v) = KIdea (idea_org r) (idea_skillBaseName r) (idea_ideaId r)"
| "op_id (PutIdeaSource r) = KSrc (fmt_opt (src_org r)) (fmt_opt (src_ideaId r)) (fmt_opt (src_sourceId r))"
| "op_id (PutGoldenCase r) = KGold (gold_org r) (gold_skillBaseName r) (gold_caseId r)"
| "op_id (PutAnchor r) =
     KAnchor (anchor_org r) (anchor_ownerRepo r) (anchor_file r) (anchor_symbol r) (anchor_ideaId r)"
| "op_id (MarkPrProcessed r) = KPr (pr_org r) (pr_owner_repo r) (pr_pr_number r)"
| "op_id (AppendVerifyEvent r) = KEvent (ev_org r) (ev_idea_id r) (ev_seq r)"
| "op_id (PutBranchLink r) = KLink (bs_org r) (bs_ownerRepo r) (bs_branch r)"

fun op_item :: "store_op \<Rightarrow> item" where
  "op_item (PutIdea r) = idea_to_dynamo r"
| "op_item (PutIdeaConditional r v) = idea_to_dynamo r"
| "op_item (PutIdeaSource r) = idea_source_to_dynamo r"
| "op_item (PutGoldenCase r) = golden_item r"
| "op_item (PutAnchor r) = anchor_item r"
| "op_item (MarkPrProcessed r) = pr_item r"
| "op_item (AppendVerifyEvent r) = verify_event_item r"
| "op_item (PutBranchLink r) = branch_session_item r"

text \<open>Identities as \<open>id_ok\<close> wants them; versions from 0 on, expected versions from the sentinel
  \<open>-1\<close> on.\<close>

definition op_ok :: "store_op \<Rightarrow> bool" where
  "op_ok p \<longleftrightarrow> id_ok (op_id p) \<and>
     (case p of PutIdea r \<Rightarrow> 0 \<le> idea_corroborationVersion r
      | PutIdeaConditional r v \<Rightarrow> 0 \<le> idea_corroborationVersion r \<and> - 1 \<le> v
      | _ \<Rightarrow> True)"

lemmas item_defs = idea_to_dynamo_def idea_source_to_dynamo_def golden_item_def golden_case_attrs_def
  anchor_item_def anchor_attrs_def pr_item_def verify_event_item_def branch_session_item_def

lemma item_key_op: "item_key (op_item p) = Some (db_key_of (op_id p))"
  by (cases p) (simp_all add: item_key_def item_defs dict_simps Let_def)

lemma find_upsert_anchor:
  "find (\<lambda>a. anchor_pk a = k) (upsert_anchor r xs) =
     (if k = anchor_pk r then Some r else find (\<lambda>a. anchor_pk a = k) xs)"
  by (induction xs) auto

text \<open>A write that returns stores its item under its identity and changes no other.\<close>

lemma item_at_run_op:
  assumes "fst (run_op p s) = Inr ()"
  shows "item_at y (snd (run_op p s)) = (if y = op_id p then Some (op_item p) else item_at y s)"
proof (cases p)
  case (PutIdeaSource r)
  show ?thesis
  proof (rule put_idea_source_cases [of r s])
    fix e assume "put_idea_source r s = (Inl e, s)"
    then show ?thesis using assms PutIdeaSource by simp
  next
    fix g i sid
    assume "put_idea_source r s = (Inr (), s\<lparr>ls_idea_sources := dset (g, i, sid) r (ls_idea_sources s)\<rparr>)"
      "src_pk r = Some (g, i, sid)"
    then show ?thesis using PutIdeaSource
      by (cases y) (auto simp: src_pk_def read_defs dict_simps fmt_opt_def split: option.splits)
  qed
next
  case (PutAnchor r)
  moreover have "anchor_pk r =
      (anchor_org r, anchor_ownerRepo r, anchor_file r, anchor_symbol r, anchor_ideaId r)"
    by (simp add: anchor_pk_def)
  ultimately show ?thesis using assms
    by (cases y) (auto simp: py_simps read_defs find_upsert_anchor split: if_splits)
next
  case (AppendVerifyEvent r)
  then show ?thesis using assms
    by (cases y) (auto simp: py_simps read_defs dict_simps split: if_splits)
qed (use assms in \<open>cases y; auto simp: py_simps read_defs dict_simps idea_pk_def gold_pk_def split: if_splits\<close>)+

lemma versions_ok_run_op:
  assumes "versions_ok s" "store_wf s" "op_ok p"
  shows "versions_ok (snd (run_op p s))"
proof -
  have put: "versions_ok (s\<lparr>ls_ideas := dset (idea_pk r) r (ls_ideas s)\<rparr>)"
    if "0 \<le> idea_corroborationVersion r" for r
    using assms(1,2) that unfolding versions_ok_def store_wf_def keyed_by_def
    by (auto simp: dset_set_iff split: if_splits)
  have same: "ls_ideas s' = ls_ideas s \<Longrightarrow> versions_ok s'" for s'
    using assms(1) by (simp add: versions_ok_def)
  show ?thesis
  proof (cases p)
    case (PutIdeaSource r)
    show ?thesis unfolding PutIdeaSource run_op.simps
      by (rule put_idea_source_cases [of r s]) (auto intro: same)
  qed (use assms put in \<open>auto simp: py_simps op_ok_def intro: same\<close>)
qed

lemma represents_run_op:
  assumes R: "represents m s" and p: "op_ok p" "fst (run_op p s) = Inr ()"
  shows "represents (m(db_key_of (op_id p) \<mapsto> op_item p)) (snd (run_op p s))"
  by (rule represents_put [OF R]) (use representsD(1,2) [OF R] p in
    \<open>auto simp: op_ok_def item_at_run_op intro: store_wf_step versions_ok_run_op\<close>)

text \<open>Every operation but the conditional write either fails its argument checks on both sides,
  or writes its item without a condition.\<close>

definition unconditional :: "store_op \<Rightarrow> bool" where
  "unconditional p \<longleftrightarrow> (\<forall>r v. p \<noteq> PutIdeaConditional r v)"

lemma plain_op:
  assumes "unconditional p"
  shows "(\<exists>e. (\<forall>c. e \<noteq> ClientError c) \<and> (\<forall>t. dyn_run_op db p t = (Inl e, t)) \<and> (\<forall>s. run_op p s = (Inl e, s))) \<or>
    ((\<forall>t. dyn_run_op db p t = table_put db (op_item p) t) \<and> (\<forall>s. fst (run_op p s) = Inr ()))"
  using assms
proof (cases p)
  case (PutIdeaSource r)
  show ?thesis
  proof (cases "\<exists>g i sid. src_org r = Some g \<and> \<not> blank g \<and> src_ideaId r = Some i \<and> i \<noteq> [] \<and> src_sourceId r = Some sid \<and> sid \<noteq> []")
    case True
    then show ?thesis
      by (auto simp: PutIdeaSource dyn_put_idea_source_def put_idea_source_def py_simps)
  next
    case False
    then show ?thesis
      by (cases "src_org r"; cases "src_ideaId r"; cases "src_sourceId r")
         (auto simp: PutIdeaSource dyn_put_idea_source_def put_idea_source_def py_simps blank_def)
  qed
qed (auto simp: py_simps unconditional_def dyn_put_idea_def dyn_put_golden_case_def dyn_put_anchor_def
    dyn_mark_pr_processed_def dyn_append_verify_event_def dyn_put_branch_session_link_def
    golden_item_def anchor_item_def pr_item_def)

definition is_client_error :: "py_exn + unit \<Rightarrow> bool" where
  "is_client_error x \<longleftrightarrow> (\<exists>c. x = Inl (ClientError c))"

lemma op_error_not_client: "\<not> is_client_error (fst (run_op p s))"
proof (cases p)
  case (PutIdeaSource r)
  then show ?thesis
    by (auto simp: put_idea_source_def py_simps is_client_error_def split: option.splits if_splits)
qed (auto simp: py_simps is_client_error_def split: if_splits)

lemma version_at_represents:
  assumes "represents m s"
  shows "version_at k s = - 1 \<longleftrightarrow> dget (ls_ideas s) k = None"
  using representsD(2) [OF assms]
  by (auto simp: version_at_def versions_ok_def split: option.splits dest!: map_of_SomeD)

lemma item_not_Nil [simp]: "idea_to_dynamo r \<noteq> []" "idea_source_to_dynamo q \<noteq> []"
  "golden_item c \<noteq> []" "branch_session_item b \<noteq> []"
  by (simp_all add: item_defs Let_def)

lemma map_filter_all: "\<forall>k \<in> set ks. f k = Some (g k) \<Longrightarrow> List.map_filter f ks = map g ks"
  by (induction ks) (simp_all add: map_filter_simps)

section \<open>Simulation\<close>

context dynamo_table
begin

lemma get_row_at:
  assumes "rows t k = map_option f v" "\<And>x. f x \<noteq> []" "\<And>x. parse (f x) = Inr x"
  shows "get_row db k parse t = Inr v"
  using assms by (cases v) (simp_all add: get_row_def get_item)

lemma get_idea_represents:
  "represents (rows t) s \<Longrightarrow> no_hash sk \<Longrightarrow> sk \<noteq> [] \<Longrightarrow> dyn_get_idea db g sk i t = Inr (get_idea g sk i s)"
  unfolding dyn_get_idea_def using representsD(4) [of "rows t" s "KIdea g sk i"]
  by (intro get_row_at [where f = idea_to_dynamo]) (simp_all add: idea_roundtrip)

lemma table_put_represents:
  assumes "represents (rows t) s" "op_ok p" "fst (run_op p s) = Inr ()" "table_put db (op_item p) t = (x, t')"
  shows "if is_client_error x then represents (rows t') s
    else x = Inr () \<and> represents (rows t') (snd (run_op p s))"
proof (rule put_plain_cases [OF item_key_op, of p t])
  fix t1 assume "dy_put_item db (op_item p) None t = (Inr (), t1)"
    "rows t1 = (rows t)(db_key_of (op_id p) \<mapsto> op_item p)"
  then show ?thesis using assms(4) represents_run_op [OF assms(1-3)]
    by (auto simp: table_put_def is_client_error_def)
next
  fix code t1 assume "dy_put_item db (op_item p) None t = (Inl code, t1)" "rows t1 = rows t"
  then show ?thesis using assms(1,4) by (auto simp: table_put_def is_client_error_def)
qed

lemma condition_iff:
  assumes R: "represents (rows t) s" and "op_ok (PutIdeaConditional r v)"
  shows "cond_ok (Some (if v < 0 then NotExists ''PK'' else Eq ''corroborationVersion'' (AN v)))
      (rows t (db_key_of (op_id (PutIdeaConditional r v)))) \<longleftrightarrow> version_at (idea_pk r) s = v"
proof -
  let ?g = "get_idea (idea_org r) (idea_skillBaseName r) (idea_ideaId r) s"
  have row: "rows t (db_key_of (op_id (PutIdeaConditional r v))) = map_option idea_to_dynamo ?g"
    using representsD(4) [OF R, of "op_id (PutIdeaConditional r v)"] assms(2) by (simp add: op_ok_def)
  have ver: "dget (idea_to_dynamo c) ''corroborationVersion'' = Some (AN (idea_corroborationVersion c))"
    "dget (idea_to_dynamo c) ''PK'' \<noteq> None" for c
    by (simp_all add: idea_to_dynamo_def dict_simps Let_def)
  have v: "v < 0 \<longleftrightarrow> v = - 1" using assms(2) by (auto simp: op_ok_def)
  have g: "?g = dget (ls_ideas s) (idea_pk r)" by (simp add: get_idea_def idea_pk_def)
  show ?thesis
  proof (cases ?g)
    case None
    then show ?thesis unfolding row using v g version_at_represents [OF R, of "idea_pk r"]
      by (auto simp: cond_ok_def)
  next
    case (Some c)
    then show ?thesis unfolding row using v g version_at_represents [OF R, of "idea_pk r"] ver [of c]
      by (auto simp: cond_ok_def version_at_def)
  qed
qed

lemma conditional_represents:
  assumes R: "represents (rows t) s" and p: "op_ok (PutIdeaConditional r v)"
    and run: "dyn_put_idea_conditional db (\<lambda>t. t) r v t = (x, t')"
  shows "if is_client_error x then represents (rows t') s
    else x = fst (put_idea_conditional r v s) \<and> represents (rows t') (snd (put_idea_conditional r v s))"
proof (cases "blank (idea_org r)")
  case True
  then show ?thesis using R run by (auto simp: dyn_put_idea_conditional_def py_simps is_client_error_def)
next
  case False
  let ?p = "PutIdeaConditional r v"
  let ?c = "if v < 0 then NotExists ''PK'' else Eq ''corroborationVersion'' (AN v)"
  show ?thesis
  proof (rule put_cases [OF item_key_op, of ?p "Some ?c" t])
    fix t1 assume s: "dy_put_item db (op_item ?p) (Some ?c) t = (Inr (), t1)"
      "cond_ok (Some ?c) (rows t (db_key_of (op_id ?p)))" "rows t1 = (rows t)(db_key_of (op_id ?p) \<mapsto> op_item ?p)"
    then have "version_at (idea_pk r) s = v" using condition_iff [OF R p] by simp
    with False have ok: "fst (put_idea_conditional r v s) = Inr ()" by (simp add: py_simps)
    have "x = Inr ()" "t' = t1" using run s(1) False by (simp_all add: dyn_put_idea_conditional_def py_simps)
    then show ?thesis using ok s(3) represents_run_op [OF R p] by (simp add: is_client_error_def)
  next
    fix t1 assume s: "dy_put_item db (op_item ?p) (Some ?c) t = (Inl CCF, t1)"
      "\<not> cond_ok (Some ?c) (rows t (db_key_of (op_id ?p)))" "rows t1 = rows t"
    then have ver: "version_at (idea_pk r) s \<noteq> v" using condition_iff [OF R p] by simp
    have R1: "represents (rows t1) s" using R s(3) by simp
    have get: "dyn_get_idea db (idea_org r) (idea_skillBaseName r) (idea_ideaId r) t1 =
        Inr (dget (ls_ideas s) (idea_pk r))"
      using get_idea_represents [OF R1] p by (simp add: op_ok_def get_idea_def idea_pk_def)
    have "x = Inl (VersionConflictError (idea_ideaId r) v (version_at (idea_pk r) s))" "t' = t1"
      using run s(1) False get
      by (simp_all add: dyn_put_idea_conditional_def py_simps version_at_def split: option.splits)
    then show ?thesis using ver False R1 by (simp add: py_simps is_client_error_def)
  next
    fix code t1 assume s: "dy_put_item db (op_item ?p) (Some ?c) t = (Inl code, t1)" "code \<noteq> CCF" "rows t1 = rows t"
    then have "x = Inl (ClientError code)" "t' = t1" using run False
      by (simp_all add: dyn_put_idea_conditional_def py_simps)
    then show ?thesis using R s(3) by (simp add: is_client_error_def)
  qed
qed

lemma simulation:
  assumes R: "represents (rows t) s" and p: "op_ok p" and run: "dyn_run_op db p t = (x, t')"
  shows "if is_client_error x then represents (rows t') s
    else x = fst (run_op p s) \<and> represents (rows t') (snd (run_op p s))"
proof (cases "unconditional p")
  case True
  from plain_op [OF True, of db] show ?thesis
  proof
    assume "\<exists>e. (\<forall>c. e \<noteq> ClientError c) \<and> (\<forall>t. dyn_run_op db p t = (Inl e, t)) \<and> (\<forall>s. run_op p s = (Inl e, s))"
    then obtain e where "\<forall>c. e \<noteq> ClientError c" "\<And>t. dyn_run_op db p t = (Inl e, t)" "\<And>s. run_op p s = (Inl e, s)"
      by blast
    then show ?thesis using R run by (auto simp: is_client_error_def)
  next
    assume "(\<forall>t. dyn_run_op db p t = table_put db (op_item p) t) \<and> (\<forall>s. fst (run_op p s) = Inr ())"
    then show ?thesis using table_put_represents [OF R p, of x t'] run by simp
  qed
next
  case False
  then obtain r v where "p = PutIdeaConditional r v" by (auto simp: unconditional_def)
  then show ?thesis using conditional_represents [OF R, of r v x t'] p run by simp
qed


text \<open>The items of a query that fits one page, by their identities, in sort key order.\<close>

lemma query_items:
  assumes R: "represents (rows t) s" and fits: "snd (dy_query db pk p c t) = None"
    and sel: "\<And>x. id_ok x \<Longrightarrow> (fst (db_key_of x) = pk \<and> prefix p (snd (db_key_of x))) = sel x"
  obtains xs where "sorted_wrt (\<lambda>x y. snd (db_key_of x) < snd (db_key_of y)) xs"
    "set xs = {x. sel x \<and> (\<exists>it. item_at x s = Some it \<and> cond_ok c (Some it))}"
    "fst (dy_query db pk p c t) = map (\<lambda>x. the (item_at x s)) xs"
proof -
  from query [of pk p c t] obtain ks n where q: "dy_query db pk p c t = page_of (rows t) c n ks"
      "sorted_wrt (<) (map snd ks)" "set ks = {k. fst k = pk \<and> prefix p (snd k) \<and> rows t k \<noteq> None}"
    by auto
  define ident where "ident k = (SOME x. id_ok x \<and> k = db_key_of x)" for k
  have ident: "id_ok (ident k)" "db_key_of (ident k) = k" if "rows t k \<noteq> None" for k
    using someI_ex [OF representsD(5) [OF R that]] by (simp_all add: ident_def)
  have ident_of: "ident (db_key_of x) = x" if "id_ok x" "item_at x s \<noteq> None" for x
    using ident [of "db_key_of x"] that representsD(4) [OF R that(1)] by (simp add: db_key_of_inj)
  have at: "rows t k = item_at (ident k) s" if "k \<in> set ks" for k
    using that representsD(4) [OF R ident(1), of k] ident(2) [of k] q(3) by auto
  let ?P = "\<lambda>x. cond_ok c (Some (the (item_at x s)))"
  let ?xs = "filter ?P (map ident ks)"
  have "sorted_wrt (\<lambda>x y. snd (db_key_of x) < snd (db_key_of y)) (map ident ks)"
    using q(2,3) by (auto simp: sorted_wrt_map ident elim!: sorted_wrt_mono_rel [rotated])
  then have sorted: "sorted_wrt (\<lambda>x y. snd (db_key_of x) < snd (db_key_of y)) ?xs"
    by (rule sorted_wrt_filter)
  have set: "set ?xs = {x. sel x \<and> (\<exists>it. item_at x s = Some it \<and> cond_ok c (Some it))}"
  proof (intro set_eqI iffI)
    fix x assume "x \<in> set ?xs"
    then obtain k where k: "k \<in> set ks" "x = ident k" "?P x" by auto
    then have "rows t k \<noteq> None" "fst k = pk" "prefix p (snd k)" using q(3) by auto
    then show "x \<in> {x. sel x \<and> (\<exists>it. item_at x s = Some it \<and> cond_ok c (Some it))}"
      using k at [OF k(1)] ident [of k] sel [of x] by auto
  next
    fix x assume "x \<in> {x. sel x \<and> (\<exists>it. item_at x s = Some it \<and> cond_ok c (Some it))}"
    then obtain it where x: "sel x" "item_at x s = Some it" "cond_ok c (Some it)" by auto
    then have ok: "id_ok x" using representsD(3) [OF R, of x] by simp
    then have "db_key_of x \<in> set ks" using sel [OF ok] x representsD(4) [OF R ok] q(3) by auto
    then show "x \<in> set ?xs" using x ident_of [OF ok] by force
  qed
  have "\<not> n < length ks" using fits q(1) by (auto simp: page_of_def split: if_splits)
  then have "fst (dy_query db pk p c t) = filtered c (List.map_filter (rows t) ks)"
    using q(1) by (simp add: page_of_def)
  also have "List.map_filter (rows t) ks = map (\<lambda>x. the (item_at x s)) (map ident ks)"
  proof -
    have "rows t k = Some (the (item_at (ident k) s))" if "k \<in> set ks" for k
      using at [OF that] that q(3) by fastforce
    then show ?thesis by (simp add: map_filter_all)
  qed
  also have "filtered c \<dots> = map (\<lambda>x. the (item_at x s)) ?xs"
    by (cases c) (simp_all add: filter_map o_def cond_ok_def)
  finally show thesis using that [OF sorted set] by simp
qed

lemma query_represents:
  assumes R: "represents (rows t) s" and fits: "snd (dy_query db pk p c t) = None"
    and sel: "\<And>x. id_ok x \<Longrightarrow> (fst (db_key_of x) = pk \<and> prefix p (snd (db_key_of x))) = sel x"
    and parse: "\<And>x it. sel x \<Longrightarrow> item_at x s = Some it \<Longrightarrow> parse it = Inr (g x)"
  obtains xs where "sorted_wrt (\<lambda>x y. snd (db_key_of x) < snd (db_key_of y)) xs" "distinct xs"
    "set xs = {x. sel x \<and> (\<exists>it. item_at x s = Some it \<and> cond_ok c (Some it))}"
    "query_rows db pk p c parse t = Inr (map g xs)"
proof -
  obtain xs where xs: "sorted_wrt (\<lambda>x y. snd (db_key_of x) < snd (db_key_of y)) xs"
    "set xs = {x. sel x \<and> (\<exists>it. item_at x s = Some it \<and> cond_ok c (Some it))}"
    "fst (dy_query db pk p c t) = map (\<lambda>x. the (item_at x s)) xs"
    using query_items [OF R fits sel] by blast
  have one: "parse (the (item_at x s)) = Inr (g x)" if "x \<in> set xs" for x
    using that parse [of x] xs(2) by auto
  have "map_res parse (map (\<lambda>x. the (item_at x s)) ys) = Inr (map g ys)" if "set ys \<subseteq> set xs" for ys
    using that by (induction ys) (simp_all add: one)
  moreover have "distinct xs" using xs(1)
    by (induction xs) auto
  ultimately show thesis using xs that by (simp add: query_rows_def)
qed

end

end
