(* ===== verification/DynamoRefinement.thy ===== *)
theory DynamoRefinement
  imports DynamoProps
begin

text \<open>
  What the reads of the production store return in a table that represents an in-memory store,
  the scan for folded ideas, and the properties of the pair: the refinement of whole runs, the
  agreement of the reads, what a truncated page and a separator in a name break.
\<close>

section \<open>Selections by a sort key prefix\<close>

lemmas prefix_key_simps = key_defs prefix_sep_iff

lemma sel_skill_ideas:
  "no_hash sk \<Longrightarrow> id_ok x \<Longrightarrow>
   (fst (db_key_of x) = scope_pk g \<and> prefix (idea_sk_prefix_for_skill sk) (snd (db_key_of x))) =
     (\<exists>i. x = KIdea g sk i)"
  by (cases x) (auto simp: prefix_key_simps idea_sk_prefix_for_skill_def)

lemma sel_org_ideas:
  "id_ok x \<Longrightarrow> (fst (db_key_of x) = scope_pk g \<and> prefix idea_sk_prefix_for_org (snd (db_key_of x))) =
     (\<exists>sk i. x = KIdea g sk i)"
  by (cases x) (auto simp: prefix_key_simps idea_sk_prefix_for_org_def)

lemma sel_sources:
  "no_hash i \<Longrightarrow> id_ok x \<Longrightarrow>
   (fst (db_key_of x) = scope_pk g \<and> prefix (''IDEASRC#'' @ i @ ''#'') (snd (db_key_of x))) =
     (\<exists>sid. x = KSrc g i sid)"
  by (cases x) (auto simp: prefix_key_simps)

lemma sel_repo_anchors:
  "no_hash rp \<Longrightarrow> id_ok x \<Longrightarrow>
   (fst (db_key_of x) = scope_pk g \<and> prefix (''ANCHOR#'' @ rp @ ''#'') (snd (db_key_of x))) =
     (\<exists>f sy i. x = KAnchor g rp f sy i)"
  by (cases x) (auto simp: prefix_key_simps)

lemma sel_symbol_anchors:
  "no_hash rp \<Longrightarrow> no_hash f \<Longrightarrow> no_hash sy \<Longrightarrow> id_ok x \<Longrightarrow>
   (fst (db_key_of x) = scope_pk g \<and>
      prefix (''ANCHOR#'' @ rp @ ''#'' @ f @ ''#'' @ sy @ ''#'') (snd (db_key_of x))) =
     (\<exists>i. x = KAnchor g rp f sy i)"
  by (cases x) (auto simp: prefix_key_simps)

lemma sel_events:
  "no_hash i \<Longrightarrow> id_ok x \<Longrightarrow>
   (fst (db_key_of x) = scope_pk g \<and> prefix (''VERIFY#'' @ i @ ''#'') (snd (db_key_of x))) =
     (\<exists>n. x = KEvent g i n)"
  by (cases x) (auto simp: prefix_key_simps)

section \<open>Listings as multisets\<close>

text \<open>Values that carry their key are listed once.\<close>

lemma distinct_dvals_where:
  assumes "keyed_by (\<lambda>k v. key v = Some k) d"
  shows "distinct (dvals_where P d)"
proof -
  have "inj_on snd (set (filter (\<lambda>(k, v). P k v) d))"
  proof (rule inj_onI)
    fix x y assume "x \<in> set (filter (\<lambda>(k, v). P k v) d)" "y \<in> set (filter (\<lambda>(k, v). P k v) d)" "snd x = snd y"
    then have "x \<in> set d" "y \<in> set d" "snd x = snd y" by auto
    then have "key (snd x) = Some (fst x)" "key (snd y) = Some (fst y)"
      using assms by (auto simp: keyed_by_def)
    then show "x = y" using \<open>snd x = snd y\<close> by (simp add: prod_eq_iff)
  qed
  moreover have "distinct (filter (\<lambda>(k, v). P k v) d)"
    using assms by (auto simp: keyed_by_def dict_wf_def distinct_map)
  ultimately show ?thesis by (simp add: dvals_where_def distinct_map)
qed

lemma keyed_by_mono: "keyed_by P d \<Longrightarrow> (\<And>k v. P k v \<Longrightarrow> Q k v) \<Longrightarrow> keyed_by Q d"
  by (auto simp: keyed_by_def)

lemma distinct_ideas_where: "store_wf s \<Longrightarrow> distinct (dvals_where P (ls_ideas s))"
  by (rule distinct_dvals_where [where key = "\<lambda>r. Some (idea_pk r)"])
     (auto simp: store_wf_def elim: keyed_by_mono)

lemma distinct_sources_where: "store_wf s \<Longrightarrow> distinct (dvals_where P (ls_idea_sources s))"
  by (rule distinct_dvals_where [where key = src_pk])
     (auto simp: store_wf_def elim: keyed_by_mono)

lemma mset_eqI: "distinct xs \<Longrightarrow> distinct ys \<Longrightarrow> set xs = set ys \<Longrightarrow> mset xs = mset ys"
  by (simp add: set_eq_iff_mset_eq_distinct)

lemma list_all_ideas_iff:
  assumes "store_wf s"
  shows "r \<in> set (list_all_ideas_for_org g s) \<longleftrightarrow> (\<exists>sk i. get_idea g sk i s = Some r)"
proof -
  have wf: "dict_wf (ls_ideas s)" using assms by (simp add: store_wf_def keyed_by_def)
  show ?thesis
    by (auto simp: list_all_ideas_for_org_def dvals_where_set get_idea_def dget_Some_iff [OF wf])
qed

lemma dget_invalidAt: "dget (idea_to_dynamo r) ''invalidAt'' = map_option AN (idea_invalidAt r)"
  by (simp add: idea_to_dynamo_def dict_simps Let_def split: option.split)

text \<open>The record a row identity stands for.\<close>

definition idea_of :: "learning_store \<Rightarrow> row_id \<Rightarrow> idea_record" where
  "idea_of s x = (case x of KIdea g sk i \<Rightarrow> the (get_idea g sk i s) | _ \<Rightarrow> undefined)"

definition source_of :: "learning_store \<Rightarrow> row_id \<Rightarrow> idea_source" where
  "source_of s x = (case x of KSrc g i sid \<Rightarrow> the (get_idea_source g i sid s) | _ \<Rightarrow> undefined)"

definition anchor_of :: "learning_store \<Rightarrow> row_id \<Rightarrow> anchor_record" where
  "anchor_of s x = (case x of KAnchor g rp f sy i \<Rightarrow>
     the (find (\<lambda>a. anchor_pk a = (g, rp, f, sy, i)) (ls_anchors s)) | _ \<Rightarrow> undefined)"

definition event_of :: "learning_store \<Rightarrow> row_id \<Rightarrow> verify_event" where
  "event_of s x = (case x of KEvent g i n \<Rightarrow>
     the (find (\<lambda>e. ev_seq e = n) (rev (events_at (g, i) s))) | _ \<Rightarrow> undefined)"

lemma find_key_iff:
  assumes "distinct (map f xs)"
  shows "find (\<lambda>a. f a = k) xs = Some a \<longleftrightarrow> a \<in> set xs \<and> f a = k"
  using assms by (induction xs) (auto simp: image_iff)

lemma append_less: "i @ a < i @ b \<longleftrightarrow> a < (b :: string)"
  by (induction i) simp_all

context dynamo_table
begin

lemma list_current_ideas_represents:
  assumes R: "represents (rows t) s" and sk: "no_hash sk"
    and fits: "snd (dy_query db (scope_pk g) (idea_sk_prefix_for_skill sk) (Some (NotExists ''invalidAt'')) t) = None"
  shows "\<exists>rs. dyn_list_current_ideas db g sk t = Inr rs \<and> mset rs = mset (list_current_ideas g sk s)"
proof -
  obtain xs where xs: "distinct xs"
    "set xs = {x. (\<exists>i. x = KIdea g sk i) \<and> (\<exists>it. item_at x s = Some it \<and> cond_ok (Some (NotExists ''invalidAt'')) (Some it))}"
    "query_rows db (scope_pk g) (idea_sk_prefix_for_skill sk) (Some (NotExists ''invalidAt'')) dynamo_to_idea t
      = Inr (map (idea_of s) xs)"
    by (rule query_represents [OF R fits sel_skill_ideas [OF sk], where parse = dynamo_to_idea and g = "idea_of s"])
       (auto simp: idea_of_def idea_roundtrip)
  have xs_iff: "x \<in> set xs \<longleftrightarrow> (\<exists>i r. x = KIdea g sk i \<and> get_idea g sk i s = Some r \<and> idea_invalidAt r = None)" for x
    by (auto simp: xs(2) cond_ok_def dget_invalidAt)
  note wf = representsD(1) [OF R]
  have "inj_on (idea_of s) (set xs)"
    by (rule inj_on_inverseI [where g = "\<lambda>r. KIdea (idea_org r) (idea_skillBaseName r) (idea_ideaId r)"])
       (auto simp: xs_iff idea_of_def dest: get_idea_key [OF wf])
  moreover have "set (map (idea_of s) xs) = set (list_current_ideas g sk s)"
    by (force simp: xs_iff list_current_ideas_iff [OF wf] idea_of_def image_iff)
  ultimately have "mset (map (idea_of s) xs) = mset (list_current_ideas g sk s)"
    using xs(1) by (intro mset_eqI) (simp_all add: distinct_map list_current_ideas_def distinct_ideas_where [OF wf])
  then show ?thesis using xs(3) by (simp add: dyn_list_current_ideas_def)
qed

lemma list_all_ideas_represents:
  assumes R: "represents (rows t) s"
    and fits: "snd (dy_query db (scope_pk g) idea_sk_prefix_for_org None t) = None"
  shows "\<exists>rs. dyn_list_all_ideas_for_org db g t = Inr rs \<and> mset rs = mset (list_all_ideas_for_org g s)"
proof -
  obtain xs where xs: "distinct xs"
    "set xs = {x. (\<exists>sk i. x = KIdea g sk i) \<and> (\<exists>it. item_at x s = Some it \<and> cond_ok None (Some it))}"
    "query_rows db (scope_pk g) idea_sk_prefix_for_org None dynamo_to_idea t = Inr (map (idea_of s) xs)"
    by (rule query_represents [OF R fits sel_org_ideas, where parse = dynamo_to_idea and g = "idea_of s"])
       (auto simp: idea_of_def idea_roundtrip)
  have xs_iff: "x \<in> set xs \<longleftrightarrow> (\<exists>sk i r. x = KIdea g sk i \<and> get_idea g sk i s = Some r)" for x
    by (auto simp: xs(2) cond_ok_def)
  note wf = representsD(1) [OF R]
  have "inj_on (idea_of s) (set xs)"
    by (rule inj_on_inverseI [where g = "\<lambda>r. KIdea (idea_org r) (idea_skillBaseName r) (idea_ideaId r)"])
       (auto simp: xs_iff idea_of_def dest: get_idea_key [OF wf])
  moreover have "set (map (idea_of s) xs) = set (list_all_ideas_for_org g s)"
    by (force simp: xs_iff list_all_ideas_iff [OF wf] idea_of_def image_iff)
  ultimately have "mset (map (idea_of s) xs) = mset (list_all_ideas_for_org g s)"
    using xs(1) by (intro mset_eqI) (simp_all add: distinct_map list_all_ideas_for_org_def distinct_ideas_where [OF wf])
  then show ?thesis using xs(3) by (simp add: dyn_list_all_ideas_for_org_def)
qed

lemma list_idea_sources_represents:
  assumes R: "represents (rows t) s" and i: "no_hash i"
    and fits: "snd (dy_query db (scope_pk g) (''IDEASRC#'' @ i @ ''#'') None t) = None"
  shows "\<exists>rs. dyn_list_idea_sources db g i t = Inr rs \<and> mset rs = mset (list_idea_sources g i s)"
proof -
  obtain xs where xs: "distinct xs"
    "set xs = {x. (\<exists>sid. x = KSrc g i sid) \<and> (\<exists>it. item_at x s = Some it \<and> cond_ok None (Some it))}"
    "query_rows db (scope_pk g) (''IDEASRC#'' @ i @ ''#'') None dynamo_to_idea_source t = Inr (map (source_of s) xs)"
    by (rule query_represents [OF R fits sel_sources [OF i], where parse = dynamo_to_idea_source and g = "source_of s"])
       (auto simp: source_of_def idea_source_roundtrip)
  have xs_iff: "x \<in> set xs \<longleftrightarrow> (\<exists>sid r. x = KSrc g i sid \<and> get_idea_source g i sid s = Some r)" for x
    by (auto simp: xs(2) cond_ok_def)
  note wf = representsD(1) [OF R]
  have key: "src_sourceId r = Some sid" if "get_idea_source g i sid s = Some r" for sid r
    using that wf keyed_byD [of _ "ls_idea_sources s" "(g, i, sid)" r]
    by (fastforce simp: store_wf_def get_idea_source_def src_pk_def split: option.splits)
  have "inj_on (source_of s) (set xs)"
    by (rule inj_on_inverseI [where g = "\<lambda>r. KSrc g i (the (src_sourceId r))"])
       (auto simp: xs_iff source_of_def key)
  moreover have "set (map (source_of s) xs) = set (list_idea_sources g i s)"
    by (force simp: xs_iff list_idea_sources_iff [OF wf] source_of_def image_iff)
  ultimately have "mset (map (source_of s) xs) = mset (list_idea_sources g i s)"
    using xs(1) by (intro mset_eqI) (simp_all add: distinct_map list_idea_sources_def distinct_sources_where [OF wf])
  then show ?thesis using xs(3) by (simp add: dyn_list_idea_sources_def)
qed

lemma anchors_represents:
  assumes R: "represents (rows t) s" and rp: "no_hash rp"
    and fits: "snd (dy_query db (scope_pk g) (''ANCHOR#'' @ rp @ ''#'') (Some (Eq ''ideaId'' (AS i))) t) = None"
  shows "\<exists>rs. dyn_get_anchors_for_idea db g rp i t = Inr rs \<and> mset rs = mset (get_anchors_for_idea g rp i s)"
proof -
  note wf = representsD(1) [OF R]
  then have dist: "distinct (map anchor_pk (ls_anchors s))" by (simp add: store_wf_def)
  obtain xs where xs: "distinct xs"
    "set xs = {x. (\<exists>f sy i. x = KAnchor g rp f sy i) \<and>
       (\<exists>it. item_at x s = Some it \<and> cond_ok (Some (Eq ''ideaId'' (AS i))) (Some it))}"
    "query_rows db (scope_pk g) (''ANCHOR#'' @ rp @ ''#'') (Some (Eq ''ideaId'' (AS i))) dynamo_to_anchor t
      = Inr (map (anchor_of s) xs)"
    by (rule query_represents [OF R fits sel_repo_anchors [OF rp], where parse = dynamo_to_anchor and g = "anchor_of s"])
       (auto simp: anchor_of_def anchor_roundtrip)
  have id: "dget (anchor_item a) ''ideaId'' = Some (AS (anchor_ideaId a))" for a
    by (simp add: anchor_item_def anchor_attrs_def dict_simps)
  have xs_iff: "x \<in> set xs \<longleftrightarrow> (\<exists>f sy a. x = KAnchor g rp f sy i \<and> a \<in> set (ls_anchors s) \<and> anchor_pk a = (g, rp, f, sy, i))" for x
    by (auto simp: xs(2) cond_ok_def find_key_iff [OF dist] id) (auto simp: anchor_pk_def, metis id)
  have of: "anchor_of s (KAnchor g rp f sy i) = a" if "a \<in> set (ls_anchors s)" "anchor_pk a = (g, rp, f, sy, i)" for f sy a
    using find_key_iff [OF dist, of "(g, rp, f, sy, i)" a] that by (simp add: anchor_of_def)
  have "inj_on (anchor_of s) (set xs)"
    by (rule inj_on_inverseI [where g = "\<lambda>a. KAnchor g rp (anchor_file a) (anchor_symbol a) i"])
       (auto simp: xs_iff of, auto simp: anchor_pk_def)
  moreover have "set (map (anchor_of s) xs) = set (get_anchors_for_idea g rp i s)"
  proof -
    have "a \<in> anchor_of s ` set xs \<longleftrightarrow> a \<in> set (ls_anchors s) \<and> (\<exists>f sy. anchor_pk a = (g, rp, f, sy, i))" for a
      by (auto simp: xs_iff image_iff of) (use of in \<open>force simp: xs_iff\<close>)
    then show ?thesis by (auto simp: get_anchors_for_idea_def anchor_pk_def)
  qed
  ultimately have "mset (map (anchor_of s) xs) = mset (get_anchors_for_idea g rp i s)"
    using xs(1) dist by (intro mset_eqI) (simp_all add: distinct_map get_anchors_for_idea_def)
  then show ?thesis using xs(3) by (simp add: dyn_get_anchors_for_idea_def)
qed

lemma ideas_by_anchor_represents:
  assumes R: "represents (rows t) s" and nh: "no_hash rp" "no_hash f" "no_hash sy"
    and fits: "snd (dy_query db (scope_pk g) (''ANCHOR#'' @ rp @ ''#'' @ f @ ''#'' @ sy @ ''#'')
      (Some (Eq ''active'' (AB True))) t) = None"
  shows "\<exists>rs. dyn_get_ideas_by_anchor db g rp f sy t = Inr rs \<and> mset rs = mset (get_ideas_by_anchor g rp f sy s)"
proof -
  note wf = representsD(1) [OF R]
  then have dist: "distinct (map anchor_pk (ls_anchors s))" by (simp add: store_wf_def)
  let ?id = "\<lambda>x. case x of KAnchor g rp f sy i \<Rightarrow> i | _ \<Rightarrow> undefined"
  have attrs: "dget (anchor_item a) ''active'' = Some (AB (anchor_active a))"
    "req_s ''ideaId'' (anchor_item a) = Inr (anchor_ideaId a)" for a
    by (simp_all add: anchor_item_def anchor_attrs_def dict_simps)
  obtain xs where xs: "distinct xs"
    "set xs = {x. (\<exists>i. x = KAnchor g rp f sy i) \<and>
       (\<exists>it. item_at x s = Some it \<and> cond_ok (Some (Eq ''active'' (AB True))) (Some it))}"
    "query_rows db (scope_pk g) (''ANCHOR#'' @ rp @ ''#'' @ f @ ''#'' @ sy @ ''#'')
       (Some (Eq ''active'' (AB True))) (req_s ''ideaId'') t = Inr (map ?id xs)"
    by (rule query_represents [OF R fits sel_symbol_anchors [OF nh], where parse = "req_s ''ideaId''" and g = ?id])
       (auto simp: attrs find_key_iff [OF dist], auto simp: anchor_pk_def)
  have xs_iff: "x \<in> set xs \<longleftrightarrow> (\<exists>a \<in> set (ls_anchors s). x = KAnchor g rp f sy (anchor_ideaId a) \<and>
      anchor_pk a = (g, rp, f, sy, anchor_ideaId a) \<and> anchor_active a)" for x
    by (auto simp: xs(2) cond_ok_def find_key_iff [OF dist] attrs) (auto simp: anchor_pk_def, metis attrs(1))
  have "inj_on ?id (set xs)"
    by (rule inj_on_inverseI [where g = "KAnchor g rp f sy"]) (auto simp: xs_iff)
  moreover have "set (map ?id xs) = set (get_ideas_by_anchor g rp f sy s)"
  proof -
    have "j \<in> ?id ` set xs \<longleftrightarrow> (\<exists>a \<in> set (ls_anchors s). anchor_pk a = (g, rp, f, sy, j) \<and> anchor_active a)" for j
    proof
      assume "j \<in> ?id ` set xs"
      then show "\<exists>a \<in> set (ls_anchors s). anchor_pk a = (g, rp, f, sy, j) \<and> anchor_active a"
        by (force simp: xs_iff)
    next
      assume "\<exists>a \<in> set (ls_anchors s). anchor_pk a = (g, rp, f, sy, j) \<and> anchor_active a"
      then have "KAnchor g rp f sy j \<in> set xs" by (auto simp: xs_iff anchor_pk_def)
      then show "j \<in> ?id ` set xs" by force
    qed
    then show ?thesis by (simp only: set_map set_eq_iff get_ideas_by_anchor_iff) simp
  qed
  moreover have "distinct (get_ideas_by_anchor g rp f sy s)"
  proof -
    have "inj_on anchor_ideaId {a \<in> set (ls_anchors s). anchor_org a = g \<and> anchor_ownerRepo a = rp \<and>
        anchor_file a = f \<and> anchor_symbol a = sy \<and> anchor_active a}"
      using dist by (auto simp: distinct_map inj_on_def anchor_pk_def)
    then show ?thesis using dist by (auto simp: get_ideas_by_anchor_def distinct_map)
  qed
  ultimately have "mset (map ?id xs) = mset (get_ideas_by_anchor g rp f sy s)"
    using xs(1) by (intro mset_eqI) (simp_all add: distinct_map)
  then show ?thesis using xs(3) by (simp add: dyn_get_ideas_by_anchor_def)
qed

text \<open>Events with distinct numbers come back in the order of their numbers, on both sides.\<close>

lemma verify_events_represents:
  assumes R: "represents (rows t) s" and i: "no_hash i"
    and dist: "distinct (map ev_seq (events_at (g, i) s))"
    and fits: "snd (dy_query db (scope_pk g) (''VERIFY#'' @ i @ ''#'') None t) = None"
  shows "dyn_list_verify_events db g i t = Inr (list_verify_events g i s)"
proof -
  let ?es = "events_at (g, i) s"
  have find: "find (\<lambda>e. ev_seq e = n) (rev ?es) = Some e \<longleftrightarrow> e \<in> set ?es \<and> ev_seq e = n" for n e
    using find_key_iff [of ev_seq "rev ?es" n e] dist by (simp add: rev_map [symmetric])
  obtain xs where xs: "distinct xs" "sorted_wrt (\<lambda>x y. snd (db_key_of x) < snd (db_key_of y)) xs"
    "set xs = {x. (\<exists>n. x = KEvent g i n) \<and> (\<exists>it. item_at x s = Some it \<and> cond_ok None (Some it))}"
    "query_rows db (scope_pk g) (''VERIFY#'' @ i @ ''#'') None dynamo_to_verify_event t = Inr (map (event_of s) xs)"
    by (rule query_represents [OF R fits sel_events [OF i], where parse = dynamo_to_verify_event and g = "event_of s"])
       (auto simp: event_of_def verify_event_roundtrip)
  have xs_iff: "x \<in> set xs \<longleftrightarrow> (\<exists>e \<in> set ?es. x = KEvent g i (ev_seq e))" for x
    by (auto simp: xs(3) cond_ok_def find)
  have of: "event_of s (KEvent g i (ev_seq e)) = e" if "e \<in> set ?es" for e
    using find [of "ev_seq e" e] that by (simp add: event_of_def)
  have ok: "id_ok x" if "x \<in> set xs" for x
    using that representsD(3) [OF R, of x] by (auto simp: xs(3))
  have "sorted_wrt (\<lambda>e e'. ev_seq e < ev_seq e') (map (event_of s) xs)"
    unfolding sorted_wrt_map
  proof (rule sorted_wrt_mono_rel [OF _ xs(2)])
    fix x y assume xy: "x \<in> set xs" "y \<in> set xs" "snd (db_key_of x) < snd (db_key_of y)"
    then obtain e e' where e: "e \<in> set ?es" "x = KEvent g i (ev_seq e)" "e' \<in> set ?es" "y = KEvent g i (ev_seq e')"
      by (auto simp: xs_iff)
    then show "ev_seq (event_of s x) < ev_seq (event_of s y)"
      using ok [OF xy(1)] ok [OF xy(2)] xy(3) zfill12_less [of "ev_seq e" "ev_seq e'"]
      by (simp add: of verify_event_key_def append_less)
  qed
  then have sorted: "sorted (map ev_seq (map (event_of s) xs))" "distinct (map ev_seq (map (event_of s) xs))"
    using strict_sorted_iff [of "map ev_seq (map (event_of s) xs)"] by (simp_all add: sorted_wrt_map)
  have "set (map (event_of s) xs) = set ?es"
    by (force simp: xs_iff of image_iff)
  then have "mset (map (event_of s) xs) = mset ?es"
    using sorted(2) dist iffD1 [OF distinct_map] by (intro mset_eqI) blast+
  then have "map (event_of s) xs = sort_key ev_seq ?es"
    using sorted(1) dist by (intro sort_key_inj_key_eq [symmetric]) (auto simp: distinct_map)
  then show ?thesis using xs(4) by (simp add: dyn_list_verify_events_def list_verify_events_def)
qed

end

section \<open>The scan\<close>

text \<open>The pair an item contributes.\<close>

definition item_pair :: "item \<Rightarrow> (string \<times> string) option" where
  "item_pair it =
     (let org = (case opt_s ''org'' it of None \<Rightarrow> [] | Some s \<Rightarrow> s);
          sbn = (case opt_s ''skillBaseName'' it of None \<Rightarrow> [] | Some s \<Rightarrow> s) in
      if authored_kind (opt_s ''authorityKind'' it) \<or> opt_b ''authored'' it = Some True then None
      else if org = [] \<or> sbn = [] then None else Some (org, sbn))"

lemma process_folded_Cons:
  "process_folded (it # its) ps = process_folded its
     (case item_pair it of None \<Rightarrow> ps | Some p \<Rightarrow> if p \<in> set ps then ps else ps @ [p])"
  by (simp add: process_folded_def item_pair_def Let_def)

lemma process_folded_set:
  "set (process_folded its ps) = set ps \<union> {p. \<exists>it \<in> set its. item_pair it = Some p}"
proof (induction its arbitrary: ps)
  case Nil
  then show ?case by (simp add: process_folded_def)
next
  case (Cons it its)
  then show ?case by (auto simp: process_folded_Cons split: option.splits)
qed

lemma process_folded_distinct: "distinct ps \<Longrightarrow> distinct (process_folded its ps)"
proof (induction its arbitrary: ps)
  case Nil
  then show ?case by (simp add: process_folded_def)
next
  case (Cons it its)
  then show ?case by (auto simp: process_folded_Cons split: option.splits)
qed

lemma item_pair_project: "item_pair (project folded_projection it) = item_pair it"
  by (simp add: item_pair_def opt_s_def opt_b_def dict_simps folded_projection_def)

lemma dropWhile_to: "x \<notin> set a \<Longrightarrow> dropWhile (\<lambda>y. y \<noteq> x) (a @ x # b) = x # b"
  by (induction a) auto

lemma set_map_filter_iff: "y \<in> set (List.map_filter f xs) \<longleftrightarrow> (\<exists>x \<in> set xs. f x = Some y)"
  by (induction xs) (auto simp: map_filter_simps split: option.split)

lemma resume_last:
  assumes "distinct ks" "suffix ks' ks" "0 < n" "n < length ks'"
  shows "resume (Some (last (take n ks'))) ks = drop n ks'"
proof -
  obtain us where us: "ks = us @ ks'" using assms(2) by (auto simp: suffix_def)
  have l: "last (take n ks') = ks' ! (n - 1)" using assms(3,4) by (subst last_conv_nth) auto
  have split: "ks = (us @ take (n - 1) ks') @ ks' ! (n - 1) # drop n ks'"
    using us assms(3,4) id_take_nth_drop [of "n - 1" ks'] by simp
  have "ks' ! (n - 1) \<notin> set (us @ take (n - 1) ks')" using assms(1) split by (metis distinct_append disjoint_insert(1) list.simps(15))
  then have "dropWhile (\<lambda>k'. k' \<noteq> ks' ! (n - 1)) ks = ks' ! (n - 1) # drop n ks'"
    by (subst split) (rule dropWhile_to)
  then show ?thesis by (simp add: resume_def l)
qed

definition folded_pairs :: "(db_key \<Rightarrow> item option) \<Rightarrow> db_key set \<Rightarrow> (string \<times> string) set" where
  "folded_pairs m K = {p. \<exists>k \<in> K. \<exists>it. m k = Some it \<and> holds folded_filter it \<and> item_pair it = Some p}"

lemma folded_pairs_Un: "folded_pairs m (A \<union> B) = folded_pairs m A \<union> folded_pairs m B"
  by (auto simp: folded_pairs_def)

lemma page_pairs:
  "set (process_folded (map (project folded_projection) (fst (page_of m (Some folded_filter) n ks))) ps) =
     set ps \<union> folded_pairs m (set (take n ks))"
  by (simp add: process_folded_set page_of_def folded_pairs_def item_pair_project set_map_filter_iff Bex_def)
     blast

text \<open>What the in-memory listing holds, and what the item of an idea contributes to the scan.\<close>

lemma list_folded_skills_set:
  assumes "store_wf s"
  shows "set (list_skills_with_folded_non_authored_ideas s) = {(g, sk). \<exists>i r. get_idea g sk i s = Some r \<and>
      idea_invalidAt r = None \<and> idea_status r = ''folded'' \<and> \<not> is_authored r}"
proof -
  have fold_set: "set (foldl (\<lambda>results ((org, sbn, _), r).
         if idea_invalidAt r \<noteq> None then results else if idea_status r \<noteq> ''folded'' then results
         else if is_authored r then results else if (org, sbn) \<in> set results then results
         else results @ [(org, sbn)]) ps d) = set ps \<union> {(g, sk). \<exists>i r. ((g, sk, i), r) \<in> set d \<and>
      idea_invalidAt r = None \<and> idea_status r = ''folded'' \<and> \<not> is_authored r}" for ps d
  proof (induction d arbitrary: ps)
    case (Cons e d)
    obtain g sk i r where "e = ((g, sk, i), r)" by (metis prod.exhaust)
    then show ?case using Cons.IH by (auto simp del: not_None_eq)
  qed simp
  have dwf: "dict_wf (ls_ideas s)" using assms by (simp add: store_wf_def keyed_by_def)
  show ?thesis
    unfolding list_skills_with_folded_non_authored_ideas_def fold_set get_idea_def dget_Some_iff [OF dwf] by simp
qed

lemma get_idea_org: "store_wf s \<Longrightarrow> get_idea g sk i s = Some r \<Longrightarrow> \<not> blank g"
  using keyed_byD [of "\<lambda>k r. idea_pk r = k \<and> \<not> blank (idea_org r)" "ls_ideas s" "(g, sk, i)" r]
  by (auto simp: store_wf_def get_idea_def idea_pk_def)

lemma idea_item_attrs:
  "dget (idea_to_dynamo r) ''status'' = Some (AS (idea_status r))"
  "dget (idea_to_dynamo r) ''SK'' = Some (AS (''IDEA#'' @ idea_skillBaseName r @ ''#'' @ idea_ideaId r))"
  "opt_s ''org'' (idea_to_dynamo r) = Some (idea_org r)"
  "opt_s ''skillBaseName'' (idea_to_dynamo r) = Some (idea_skillBaseName r)"
  "opt_s ''authorityKind'' (idea_to_dynamo r) = idea_authorityKind r"
  "opt_b ''authored'' (idea_to_dynamo r) = idea_authored r"
  by (auto simp: idea_to_dynamo_def idea_key_def opt_s_def opt_b_def dict_simps Let_def split: option.split)

lemma idea_item_folded:
  "holds folded_filter (idea_to_dynamo r) \<longleftrightarrow> idea_invalidAt r = None \<and> idea_status r = ''folded''"
  by (auto simp: folded_filter_def idea_item_attrs dget_invalidAt)

lemma idea_item_pair:
  "item_pair (idea_to_dynamo r) = (if is_authored r \<or> idea_org r = [] \<or> idea_skillBaseName r = [] then None
      else Some (idea_org r, idea_skillBaseName r))"
  by (simp add: item_pair_def idea_item_attrs is_authored_def Let_def)

text \<open>The folded pair of organisation and skill that a row of a represented store stands for.\<close>

lemma folded_row:
  assumes wf: "store_wf s" and x: "item_at x s = Some it" "id_ok x" "item_key it = Some (db_key_of x)"
  shows "holds folded_filter it \<and> item_pair it = Some p \<longleftrightarrow>
      (\<exists>i r. x = KIdea (fst p) (snd p) i \<and> it = idea_to_dynamo r \<and> get_idea (fst p) (snd p) i s = Some r \<and>
        idea_invalidAt r = None \<and> idea_status r = ''folded'' \<and> \<not> is_authored r)"
proof (cases "\<exists>g sk i. x = KIdea g sk i")
  case True
  then obtain g sk i r where xi: "x = KIdea g sk i" "get_idea g sk i s = Some r" "it = idea_to_dynamo r"
    using x(1) by auto
  then have k: "idea_org r = g" "idea_skillBaseName r = sk" using get_idea_key [OF wf] by auto
  have "g \<noteq> []" using get_idea_org [OF wf xi(2)] by (auto simp: blank_def)
  moreover have "sk \<noteq> []" using x(2) xi(1) by simp
  ultimately show ?thesis unfolding xi(1,3) idea_item_folded idea_item_pair k using xi(2) by (cases p) auto
next
  case False
  have "dget it ''SK'' = Some (AS (snd (db_key_of x)))"
    using x(3) by (cases "db_key_of x") (auto simp: item_key_def split: option.splits attr.splits)
  then have "\<not> holds folded_filter it"
    using False by (cases x) (auto simp: folded_filter_def key_defs)
  then show ?thesis using False by auto
qed

context dynamo_table
begin

lemma scan_folded_from:
  assumes "suffix ks (scan_order t)" "start = None \<and> ks = [] \<or> (\<exists>k. start = Some k \<and> ks \<noteq> [] \<and> resume start (scan_order t) = ks)"
    and "length ks \<le> fuel" "distinct ps"
  shows "\<exists>rs. scan_folded_from fuel db t start ps = Some rs \<and> distinct rs \<and>
    set rs = set ps \<union> folded_pairs (rows t) (set ks)"
  using assms
proof (induction fuel arbitrary: ks start ps)
  case 0
  then show ?case by (auto simp: folded_pairs_def)
next
  case (Suc fuel)
  show ?case
  proof (cases start)
    case None
    then show ?thesis using Suc.prems by (simp add: folded_pairs_def)
  next
    case (Some k)
    then have ks: "resume (Some k) (scan_order t) = ks" using Suc.prems(2) by simp
    obtain n where n: "0 < n" "dy_scan db folded_filter folded_projection (Some k) t =
        apfst (map (project folded_projection)) (page_of (rows t) (Some folded_filter) n ks)"
      using scan [of folded_filter folded_projection "Some k" t] ks by auto
    let ?ps = "process_folded (map (project folded_projection) (fst (page_of (rows t) (Some folded_filter) n ks))) ps"
    let ?more = "snd (page_of (rows t) (Some folded_filter) n ks)"
    have step: "scan_folded_from (Suc fuel) db t start ps = scan_folded_from fuel db t ?more ?ps"
      by (simp add: Some n(2) apfst_def map_prod_def split: prod.split)
    have more: "?more = None \<and> drop n ks = [] \<or> (\<exists>k. ?more = Some k \<and> drop n ks \<noteq> [] \<and> resume ?more (scan_order t) = drop n ks)"
      using resume_last [of "scan_order t" ks n] scan_order [of t] Suc.prems(1) n(1)
      by (auto simp: page_of_def)
    have "suffix (drop n ks) (scan_order t)" using Suc.prems(1) suffix_drop suffix_order.trans by blast
    then obtain rs where rs: "scan_folded_from fuel db t ?more ?ps = Some rs" "distinct rs"
        "set rs = set ?ps \<union> folded_pairs (rows t) (set (drop n ks))"
      using Suc.IH [OF _ more, of ?ps] Suc.prems(3) n(1) process_folded_distinct [OF Suc.prems(4)] by fastforce
    have "set rs = set ps \<union> folded_pairs (rows t) (set (take n ks) \<union> set (drop n ks))"
      using rs(3) by (simp only: page_pairs folded_pairs_Un Un_assoc)
    then show ?thesis using rs(1,2) step by (simp add: set_append [symmetric] del: set_append)
  qed
qed

lemma scan_folded:
  "length (scan_order t) \<le> fuel \<Longrightarrow>
   \<exists>rs. dyn_list_skills_with_folded_non_authored_ideas fuel db t = Some rs \<and> distinct rs \<and>
     set rs = folded_pairs (rows t) (set (scan_order t))"
proof -
  assume fuel: "length (scan_order t) \<le> fuel"
  let ?ks = "scan_order t"
  obtain n where n: "0 < n" "dy_scan db folded_filter folded_projection None t =
      apfst (map (project folded_projection)) (page_of (rows t) (Some folded_filter) n ?ks)"
    using scan [of folded_filter folded_projection None t] by (auto simp: resume_def)
  let ?ps = "process_folded (map (project folded_projection) (fst (page_of (rows t) (Some folded_filter) n ?ks))) []"
  let ?more = "snd (page_of (rows t) (Some folded_filter) n ?ks)"
  have step: "dyn_list_skills_with_folded_non_authored_ideas fuel db t = scan_folded_from fuel db t ?more ?ps"
    by (simp add: dyn_list_skills_with_folded_non_authored_ideas_def n(2) apfst_def map_prod_def split: prod.split)
  have more: "?more = None \<and> drop n ?ks = [] \<or> (\<exists>k. ?more = Some k \<and> drop n ?ks \<noteq> [] \<and> resume ?more ?ks = drop n ?ks)"
    using resume_last [of ?ks ?ks n] scan_order [of t] n(1) by (auto simp: page_of_def)
  obtain rs where rs: "scan_folded_from fuel db t ?more ?ps = Some rs" "distinct rs"
      "set rs = set ?ps \<union> folded_pairs (rows t) (set (drop n ?ks))"
    using scan_folded_from [OF suffix_drop more, of fuel ?ps] fuel process_folded_distinct [of "[]"] by fastforce
  have "set rs = folded_pairs (rows t) (set (take n ?ks) \<union> set (drop n ?ks))"
    using rs(3) by (simp add: page_pairs folded_pairs_Un)
  then show ?thesis using rs(1,2) step by (simp add: set_append [symmetric] del: set_append)
qed

lemma folded_pairs_represents:
  assumes R: "represents (rows t) s"
  shows "folded_pairs (rows t) (set (scan_order t)) = set (list_skills_with_folded_non_authored_ideas s)"
proof -
  note wf = representsD(1) [OF R]
  have row: "holds folded_filter it \<and> item_pair it = Some p \<longleftrightarrow>
      (\<exists>i r. x = KIdea (fst p) (snd p) i \<and> it = idea_to_dynamo r \<and> get_idea (fst p) (snd p) i s = Some r \<and>
        idea_invalidAt r = None \<and> idea_status r = ''folded'' \<and> \<not> is_authored r)"
    if "item_at x s = Some it" "id_ok x" for x it p
    using that representsD(4) [OF R, of x] by (intro folded_row [OF wf]) (auto intro: rows_keyed)
  have "p \<in> folded_pairs (rows t) (set (scan_order t)) \<longleftrightarrow>
      (\<exists>x it. id_ok x \<and> item_at x s = Some it \<and> holds folded_filter it \<and> item_pair it = Some p)" for p
  proof
    assume "p \<in> folded_pairs (rows t) (set (scan_order t))"
    then obtain k it where k: "rows t k = Some it" "holds folded_filter it \<and> item_pair it = Some p"
      by (auto simp: folded_pairs_def)
    then obtain x where "id_ok x" "k = db_key_of x" using representsD(5) [OF R, of k] by auto
    then show "\<exists>x it. id_ok x \<and> item_at x s = Some it \<and> holds folded_filter it \<and> item_pair it = Some p"
      using k representsD(4) [OF R] by auto
  next
    assume "\<exists>x it. id_ok x \<and> item_at x s = Some it \<and> holds folded_filter it \<and> item_pair it = Some p"
    then obtain x it where "id_ok x" "item_at x s = Some it" "holds folded_filter it" "item_pair it = Some p" by auto
    moreover have "rows t (db_key_of x) = Some it" "db_key_of x \<in> set (scan_order t)"
      using calculation representsD(4) [OF R, of x] scan_order [of t] by simp_all
    ultimately show "p \<in> folded_pairs (rows t) (set (scan_order t))"
      unfolding folded_pairs_def by blast
  qed
  moreover have "(\<exists>x it. id_ok x \<and> item_at x s = Some it \<and> holds folded_filter it \<and> item_pair it = Some p) \<longleftrightarrow>
      (\<exists>i r. get_idea (fst p) (snd p) i s = Some r \<and>
        idea_invalidAt r = None \<and> idea_status r = ''folded'' \<and> \<not> is_authored r)" for p
  proof
    assume "\<exists>x it. id_ok x \<and> item_at x s = Some it \<and> holds folded_filter it \<and> item_pair it = Some p"
    then show "\<exists>i r. get_idea (fst p) (snd p) i s = Some r \<and> idea_invalidAt r = None \<and>
        idea_status r = ''folded'' \<and> \<not> is_authored r" using row by blast
  next
    assume "\<exists>i r. get_idea (fst p) (snd p) i s = Some r \<and> idea_invalidAt r = None \<and>
        idea_status r = ''folded'' \<and> \<not> is_authored r"
    then obtain i r where r: "get_idea (fst p) (snd p) i s = Some r" "idea_invalidAt r = None"
        "idea_status r = ''folded''" "\<not> is_authored r" by auto
    let ?x = "KIdea (fst p) (snd p) i"
    have at: "item_at ?x s = Some (idea_to_dynamo r)" using r(1) by simp
    have "id_ok ?x" by (rule representsD(3) [OF R]) (simp only: at option.simps not_False_eq_True)
    then show "\<exists>x it. id_ok x \<and> item_at x s = Some it \<and> holds folded_filter it \<and> item_pair it = Some p"
      using row [OF at, of p] at r by blast
  qed
  ultimately show ?thesis unfolding list_folded_skills_set [OF wf] set_eq_iff by (simp add: split_beta)
qed

end

end
