(* ===== verification/DynamoContract.thy ===== *)
theory DynamoContract
  imports DynamoRefinement
begin

text \<open>
  The contract between the production store and the in-memory one, for every table that behaves
  as DynamoDB documents: whole runs refine, reads agree, the scan ends and is complete.  Then
  what lies outside the contract: equal sequence numbers, listings longer than a page, and
  separators in names.
\<close>

section \<open>Runs\<close>

fun run_ops :: "('op \<Rightarrow> ('s, unit) py) \<Rightarrow> 'op list \<Rightarrow> 's \<Rightarrow> (py_exn + unit) list \<times> 's" where
  "run_ops f [] s = ([], s)"
| "run_ops f (p # ps) s = (let (x, s1) = f p s; (xs, s2) = run_ops f ps s1 in (x # xs, s2))"

lemma run_ops_Cons:
  "run_ops f (p # ps) s =
     (fst (f p s) # fst (run_ops f ps (snd (f p s))), snd (run_ops f ps (snd (f p s))))"
  by (simp split: prod.split)

declare run_ops.simps(2) [simp del]
declare run_ops_Cons [simp]

text \<open>The operations that did not fail with an error of the service.\<close>

fun served :: "'op list \<Rightarrow> (py_exn + unit) list \<Rightarrow> 'op list" where
  "served (p # ps) (x # xs) = (if is_client_error x then served ps xs else p # served ps xs)"
| "served _ _ = []"

lemma run_simulation:
  assumes db: "dynamo_table db rows so"
  shows "represents (rows t) s \<Longrightarrow> \<forall>p \<in> set ps. op_ok p \<Longrightarrow> run_ops (dyn_run_op db) ps t = (xs, t') \<Longrightarrow>
    fst (run_ops run_op (served ps xs) s) = filter (\<lambda>x. \<not> is_client_error x) xs \<and>
    represents (rows t') (snd (run_ops run_op (served ps xs) s))"
proof (induction ps arbitrary: t s xs)
  case Nil
  then show ?case by simp
next
  case (Cons p ps)
  obtain x t1 where step: "dyn_run_op db p t = (x, t1)" by fastforce
  obtain ys where ys: "run_ops (dyn_run_op db) ps t1 = (ys, t')" "xs = x # ys"
    using Cons.prems(3) step by (cases "run_ops (dyn_run_op db) ps t1") auto
  have sim: "if is_client_error x then represents (rows t1) s
      else x = fst (run_op p s) \<and> represents (rows t1) (snd (run_op p s))"
    using dynamo_table.simulation [OF db Cons.prems(1) _ step] Cons.prems(2) by simp
  then show ?case using Cons.IH [OF _ _ ys(1)] Cons.prems(2) ys(2)
    by (auto split: if_splits)
qed

section \<open>The listings fit\<close>

text \<open>Every query is answered in one page.\<close>

definition one_page :: "'t dynamo \<Rightarrow> 't \<Rightarrow> bool" where
  "one_page db t \<longleftrightarrow> (\<forall>pk p c. snd (dy_query db pk p c t) = None)"

lemma one_page_mem: "length (mt_items t) \<le> Suc (mt_page t) \<Longrightarrow> one_page mem_dynamo t"
proof -
  assume l: "length (mt_items t) \<le> Suc (mt_page t)"
  have "length (filter P (mem_keys t)) \<le> length (mt_items t)" for P
  proof -
    have "length (filter P (mem_keys t)) \<le> length (mem_keys t)" by (rule length_filter_le)
    also have "\<dots> \<le> length (List.map_filter item_key (mt_items t))"
      unfolding mem_keys_def by (rule length_remdups_leq)
    also have "\<dots> \<le> length (mt_items t)" by (simp add: map_filter_def)
    finally show ?thesis .
  qed
  then show ?thesis using l by (auto simp: one_page_def mem_dynamo_def mem_query_def page_of_def not_less intro: order_trans)
qed

lemma point_reads:
  assumes db: "dynamo_table db rows so" and R: "represents (rows t) s"
  shows "no_hash sk \<Longrightarrow> dyn_get_golden_case db g sk i t = Inr (get_golden_case g sk i s)"
    "no_hash i \<Longrightarrow> dyn_get_idea_source db g i sid t = Inr (get_idea_source g i sid s)"
    "no_hash rp \<Longrightarrow> dyn_get_branch_session_link db g rp b t = Inr (get_branch_session_link g rp b s)"
    "dyn_is_pr_processed db g rp n t = is_pr_processed g rp n s"
  using representsD(4) [OF R, of "KGold g sk i"] representsD(4) [OF R, of "KSrc g i sid"]
    representsD(4) [OF R, of "KLink g rp b"] representsD(4) [OF R, of "KPr g rp n"]
  by (auto simp: dyn_get_golden_case_def dyn_get_idea_source_def dyn_get_branch_session_link_def
      dyn_is_pr_processed_def is_pr_processed_def dynamo_table.get_item [OF db] golden_roundtrip
      idea_source_roundtrip branch_session_roundtrip
      intro!: dynamo_table.get_row_at [OF db, where f = golden_item]
        dynamo_table.get_row_at [OF db, where f = idea_source_to_dynamo]
        dynamo_table.get_row_at [OF db, where f = branch_session_item])

lemma distinct_single: "distinct xs \<Longrightarrow> set xs = {a} \<Longrightarrow> xs = [a]"
  by (cases xs; cases "tl xs") auto

section \<open>Example tables\<close>

definition no_rows :: "nat \<Rightarrow> mem_table" where
  "no_rows page = \<lparr>mt_items = [], mt_page = page\<rparr>"

lemma no_rows_represents: "represents (mem_rows (no_rows n)) empty_store"
proof -
  have "mem_rows (no_rows n) = (\<lambda>_. None)" by (simp add: fun_eq_iff mem_rows_def no_rows_def)
  then show ?thesis using represents_empty by simp
qed

definition sample_idea :: "string \<Rightarrow> string \<Rightarrow> idea_record" where
  "sample_idea sk i = mk_idea i sk ''acme'' ''Always pin the base image'' ''pending'' 0"

definition sample_event :: "int \<Rightarrow> string \<Rightarrow> verify_event" where
  "sample_event n v = \<lparr>ev_org = ''acme'', ev_idea_id = ''i1'', ev_seq = n, ev_verdict = v,
     ev_pr_ref = None, ev_authority = None, ev_recorded_at = 0\<rparr>"

section \<open>Properties\<close>

text \<open>C23: Each of the six record types read back from a table is the record
  that was written: no field is dropped, and an absent optional field stays absent.\<close>

theorem dynamo_roundtrips:
  "dynamo_to_idea (idea_to_dynamo r) = Inr r \<and>
   dynamo_to_idea_source (idea_source_to_dynamo q) = Inr q \<and>
   dynamo_to_golden_case
     (key_attrs (golden_case_key (gold_org g) (gold_skillBaseName g) (gold_caseId g)) @ golden_case_attrs g) = Inr g \<and>
   dynamo_to_anchor (key_attrs (anchor_key (anchor_org a) (anchor_ownerRepo a) (anchor_file a)
     (anchor_symbol a) (anchor_ideaId a)) @ anchor_attrs a) = Inr a \<and>
   dynamo_to_verify_event (verify_event_item e) = Inr e \<and>
   dynamo_to_branch_session (branch_session_item b) = Inr b"
  using golden_roundtrip [of g] anchor_roundtrip [of a]
  by (simp add: idea_roundtrip idea_source_roundtrip verify_event_roundtrip branch_session_roundtrip
      golden_item_def anchor_item_def)


definition sample_ops :: "store_op list" where
  "sample_ops = [PutIdeaConditional (sample_idea ''docker'' ''i1'') (- 1),
     PutIdeaConditional (sample_idea ''docker'' ''i1'') (- 1), AppendVerifyEvent (sample_event 0 ''pass'')]"

lemma sample_ops_ok: "\<forall>p \<in> set sample_ops. op_ok p"
  by (simp add: sample_ops_def op_ok_def sample_idea_def mk_idea_def sample_event_def no_hash_def)




text \<open>The daily scan for folded ideas follows the pages to their
  end: with as many requests as the table has items it ends, and it returns every organisation and
  skill with a folded, current idea that is not authored, each pair once, exactly as the in-memory
  store does.\<close>

theorem dynamo_scan_complete:
  assumes "dynamo_table db rows so" and "represents (rows t) s" and "length (so t) \<le> fuel"
  shows "\<exists>ps. dyn_list_skills_with_folded_non_authored_ideas fuel db t = Some ps \<and> distinct ps \<and>
    set ps = set (list_skills_with_folded_non_authored_ideas s)"
  using dynamo_table.scan_folded [OF assms(1,3)] dynamo_table.folded_pairs_represents [OF assms(1,2)] by auto

lemma dynamo_scan_complete_witness:
  "dyn_list_skills_with_folded_non_authored_ideas 1 mem_dynamo
     (snd (dyn_put_idea mem_dynamo (sample_idea ''docker'' ''i1'' \<lparr>idea_status := ''folded''\<rparr>) (no_rows 0)))
   = Some [(''acme'', ''docker'')]"
proof -
  let ?p = "PutIdea (sample_idea ''docker'' ''i1'' \<lparr>idea_status := ''folded''\<rparr>)"
  let ?t = "snd (dyn_run_op mem_dynamo ?p (no_rows 0))" and ?s = "snd (run_op ?p empty_store)"
  have ok: "op_ok ?p" by (simp add: op_ok_def sample_idea_def mk_idea_def no_hash_def)
  have run: "dyn_run_op mem_dynamo ?p (no_rows 0) = (Inr (), ?t)" by code_simp
  have R: "represents (mem_rows ?t) ?s"
    using mem.simulation [OF no_rows_represents ok run] by (simp add: is_client_error_def)
  have len: "length (mem_keys ?t) \<le> 1" by code_simp
  have "list_skills_with_folded_non_authored_ideas ?s = [(''acme'', ''docker'')]" by code_simp
  then obtain ps where ps: "dyn_list_skills_with_folded_non_authored_ideas 1 mem_dynamo ?t = Some ps"
      "distinct ps" "set ps = {(''acme'', ''docker'')}"
    using dynamo_scan_complete [where db = mem_dynamo and rows = mem_rows and so = mem_keys, OF mem.dynamo_table_axioms R len] by (elim exE conjE) (simp only: list.set)
  moreover from ps(2,3) have "ps = [(''acme'', ''docker'')]"
    by (rule distinct_single)
  ultimately show ?thesis by simp
qed

section \<open>Outside the contract\<close>

text \<open>The audit log is append-only in memory, but not in the
  table: the row of an event is named by its number, so a second event with the number of an
  earlier one replaces it, and a verdict is lost.\<close>

theorem dynamo_event_overwritten:
  "let ops = [AppendVerifyEvent (sample_event 0 ''superseded''), AppendVerifyEvent (sample_event 0 ''corroborated'')];
       s = snd (run_ops run_op ops empty_store);
       t = snd (run_ops (dyn_run_op mem_dynamo) ops (no_rows 9)) in
   list_verify_events ''acme'' ''i1'' s = [sample_event 0 ''superseded'', sample_event 0 ''corroborated''] \<and>
   dyn_list_verify_events mem_dynamo ''acme'' ''i1'' t = Inr [sample_event 0 ''corroborated'']"
  by code_simp

text \<open>The listings read the first page of a query only and ignore
  its \<open>LastEvaluatedKey\<close>: in a table whose page holds one item, the second idea of a skill is
  missing from the current ideas, although a read by key finds it.\<close>

theorem dynamo_listing_truncated:
  "let t = snd (run_ops (dyn_run_op mem_dynamo)
      [PutIdea (sample_idea ''docker'' ''i1''), PutIdea (sample_idea ''docker'' ''i2'')] (no_rows 0)) in
   dyn_list_current_ideas mem_dynamo ''acme'' ''docker'' t = Inr [sample_idea ''docker'' ''i1''] \<and>
   dyn_get_idea mem_dynamo ''acme'' ''docker'' ''i2'' t = Inr (Some (sample_idea ''docker'' ''i2''))"
  by code_simp

text \<open>Names are not checked for the separator of the sort keys.  The
  ideas of a skill named \<open>docker#build\<close> are listed among those of \<open>docker\<close>, and an idea can
  overwrite one of another skill; in memory the two stay apart.\<close>

theorem dynamo_separator_in_names:
  "let ops = [PutIdea (sample_idea ''docker#build'' ''i1''), PutIdea (sample_idea ''docker'' ''i2'')];
       s = snd (run_ops run_op ops empty_store);
       t = snd (run_ops (dyn_run_op mem_dynamo) ops (no_rows 9)) in
   list_current_ideas ''acme'' ''docker'' s = [sample_idea ''docker'' ''i2''] \<and>
   dyn_list_current_ideas mem_dynamo ''acme'' ''docker'' t =
     Inr [sample_idea ''docker#build'' ''i1'', sample_idea ''docker'' ''i2''] \<and>
   idea_key ''acme'' ''docker#build'' ''i1'' = idea_key ''acme'' ''docker'' ''build#i1''"
  by code_simp

end
