(* ===== verification/Migration.thy ===== *)
theory Migration
  imports LearningStore
begin

text \<open>
  \<open>migration.py\<close>: the backfill that protects folds made before votes were tied to pull requests
  (\<open>grandfather_legacy_folds\<close>), its reversal when a real vote arrives
  (\<open>confirm_grandfathered_fold\<close>), and the report that compares a replay with the live library
  (\<open>transfer_replay_shadow_diff\<close>).  Other writers act through \<open>env\<close>, before every conditional
  write; log lines and the unused clock of the backfill are left out.
\<close>

section \<open>Grandfathering\<close>

definition MIGRATION_OCC_RETRIES :: nat where
  "MIGRATION_OCC_RETRIES = 5"

record grandfather_result =
  gf_org :: string
  gf_tagged :: "string list"
  gf_already_tagged :: "string list"
  gf_skipped_no_prref :: "string list"
  gf_errors :: "string list"

definition has_pr_source :: "string \<Rightarrow> string \<Rightarrow> learning_store \<Rightarrow> bool" where
  "has_pr_source org idea_id s \<longleftrightarrow> (\<exists>r \<in> set (list_idea_sources org idea_id s). src_prRef r \<noteq> None)"

definition tagged_idea :: "idea_record \<Rightarrow> idea_record" where
  "tagged_idea r = r\<lparr>idea_corroborationVersion := idea_corroborationVersion r + 1,
     idea_legacyRecurrenceFold := Some True\<rparr>"

text \<open>\<open>left\<close> attempts are left, \<open>n\<close> have been made.\<close>

fun tag_loop ::
    "string \<Rightarrow> (nat \<Rightarrow> learning_store \<Rightarrow> learning_store) \<Rightarrow> nat \<Rightarrow> nat \<Rightarrow> idea_record \<Rightarrow> (learning_store, bool) py" where
  "tag_loop org env 0 n idea = pret False"
| "tag_loop org env (Suc left) n idea = (\<lambda>s.
     case put_idea_conditional (tagged_idea idea) (idea_corroborationVersion idea) (env n s) of
       (Inr _, s1) \<Rightarrow> (Inr True, s1)
     | (Inl e, s1) \<Rightarrow> (case e of
         VersionConflictError _ _ _ \<Rightarrow>
           (case get_idea org (idea_skillBaseName idea) (idea_ideaId idea) s1 of
              None \<Rightarrow> (Inr True, s1)
            | Some refreshed \<Rightarrow>
                if idea_legacyRecurrenceFold refreshed = Some True then (Inr True, s1)
                else if idea_invalidAt refreshed \<noteq> None then (Inr True, s1)
                else tag_loop org env left (Suc n) refreshed s1)
       | _ \<Rightarrow> (Inl e, s1)))"

definition grandfather_one ::
    "string \<Rightarrow> bool \<Rightarrow> (string \<Rightarrow> nat \<Rightarrow> learning_store \<Rightarrow> learning_store) \<Rightarrow> idea_record \<Rightarrow>
     grandfather_result \<Rightarrow> (learning_store, grandfather_result) py" where
  "grandfather_one org dry_run env idea result =
     (if idea_legacyRecurrenceFold idea = Some True
      then pret (result\<lparr>gf_already_tagged := gf_already_tagged result @ [idea_ideaId idea]\<rparr>)
      else pbind (pget (has_pr_source org (idea_ideaId idea))) (\<lambda>has_pr.
        if has_pr then pret (result\<lparr>gf_skipped_no_prref := gf_skipped_no_prref result @ [idea_ideaId idea]\<rparr>)
        else if dry_run then pret (result\<lparr>gf_tagged := gf_tagged result @ [idea_ideaId idea]\<rparr>)
        else pbind (tag_loop org (env (idea_ideaId idea)) MIGRATION_OCC_RETRIES 0 idea) (\<lambda>success.
          if success then pret (result\<lparr>gf_tagged := gf_tagged result @ [idea_ideaId idea]\<rparr>)
          else pret (result\<lparr>gf_errors := gf_errors result @ [idea_ideaId idea]\<rparr>))))"

definition grandfather_candidates :: "string \<Rightarrow> string option \<Rightarrow> learning_store \<Rightarrow> idea_record list" where
  "grandfather_candidates org skill_base_name s = (case skill_base_name of
     Some sk \<Rightarrow> filter (\<lambda>i. idea_status i = ''folded'') (list_current_ideas org sk s)
   | None \<Rightarrow> filter (\<lambda>i. idea_status i = ''folded'' \<and> idea_invalidAt i = None) (list_all_ideas_for_org org s))"

definition grandfather_legacy_folds ::
    "string \<Rightarrow> string option \<Rightarrow> bool \<Rightarrow> (string \<Rightarrow> nat \<Rightarrow> learning_store \<Rightarrow> learning_store) \<Rightarrow>
     (learning_store, grandfather_result) py" where
  "grandfather_legacy_folds org skill_base_name dry_run env =
     pbind (org_guard org ''grandfather_legacy_folds'') (\<lambda>_.
     pbind (pget (grandfather_candidates org skill_base_name)) (\<lambda>ideas.
     pfor (grandfather_one org dry_run env) ideas
       \<lparr>gf_org = org, gf_tagged = [], gf_already_tagged = [], gf_skipped_no_prref = [], gf_errors = []\<rparr>))"

section \<open>Confirmation\<close>

record confirm_result =
  cf_action :: string
  cf_idea_id :: string
  cf_cleared_at :: "int option"

definition confirmed_idea :: "idea_record \<Rightarrow> idea_record" where
  "confirmed_idea r = r\<lparr>idea_corroborationVersion := idea_corroborationVersion r + 1,
     idea_legacyRecurrenceFold := None\<rparr>"

definition confirm_grandfathered_fold ::
    "string \<Rightarrow> string \<Rightarrow> string \<Rightarrow> (learning_store \<Rightarrow> learning_store) \<Rightarrow> int \<Rightarrow>
     (learning_store, confirm_result) py" where
  "confirm_grandfathered_fold org idea_id skill_base_name env now =
     pbind (org_guard org ''confirm_grandfathered_fold'') (\<lambda>_ s.
     let result = (\<lambda>action cleared. \<lparr>cf_action = action, cf_idea_id = idea_id, cf_cleared_at = cleared\<rparr>) in
     case get_idea org skill_base_name idea_id s of
       None \<Rightarrow> (Inr (result ''not_found'' None), s)
     | Some idea \<Rightarrow>
         if idea_status idea \<noteq> ''folded'' then (Inr (result ''not_folded'' None), s)
         else if idea_legacyRecurrenceFold idea \<noteq> Some True then (Inr (result ''not_grandfathered'' None), s)
         else (case put_idea_conditional (confirmed_idea idea) (idea_corroborationVersion idea) (env s) of
             (Inr _, s1) \<Rightarrow> (Inr (result ''confirmed'' (Some now)), s1)
           | (Inl e, s1) \<Rightarrow> (case e of
               VersionConflictError _ _ _ \<Rightarrow> (Inr (result ''confirmed'' (Some now)), s1)
             | _ \<Rightarrow> (Inl e, s1))))"

section \<open>The shadow diff of a replay\<close>

text \<open>One entry of a merge log and its insights; an absent key is \<open>None\<close>.\<close>

record replay_insight =
  ri_body :: "string option"
  ri_skill :: "string option"
  ri_idea_id :: "string option"
  ri_would_supersede :: "bool option"
  ri_supersede_target :: "string option"

record replay_pr =
  rp_number :: "int option"
  rp_insights :: "replay_insight list"

record shadow_summary =
  ss_idea_id :: string
  ss_skill_base_name :: string
  ss_body_excerpt :: string
  ss_in_legacy :: bool
  ss_would_fold :: bool
  ss_would_supersede :: bool
  ss_supersede_target :: "string option"

record shadow_report =
  sd_org :: string
  sd_owner_repo :: string
  sd_prs_replayed :: int
  sd_new_under_verified :: "shadow_summary list"
  sd_only_in_legacy :: "shadow_summary list"
  sd_confirmed_by_replay :: "shadow_summary list"
  sd_would_supersede :: "(string \<times> shadow_summary) list"

text \<open>The first live idea whose words overlap enough.\<close>

definition bodies_match :: "string \<Rightarrow> string \<Rightarrow> bool" where
  "bodies_match live_body body \<longleftrightarrow> words live_body \<noteq> {} \<and> words body \<noteq> {} \<and>
     flit (1/2) \<le> jaccard (words live_body) (words body)"

definition match_live :: "string \<Rightarrow> (string, idea_record) dict \<Rightarrow> (string \<times> idea_record) option" where
  "match_live body live = find (\<lambda>(_, r). bodies_match (idea_body r) body) live"

text \<open>\<open>f"replay-{pr_number}-{hash(body) % 100000}"\<close>; the hash of a string differs from one
  process to the next and is a parameter.\<close>

definition replay_id :: "(string \<Rightarrow> int) \<Rightarrow> int \<Rightarrow> string \<Rightarrow> string" where
  "replay_id py_hash pr_number body =
     ''replay-'' @ show_int pr_number @ ''-'' @ show_int (py_hash body mod 100000)"

definition insight_summary ::
    "(string \<Rightarrow> int) \<Rightarrow> string option \<Rightarrow> int \<Rightarrow> bool \<Rightarrow> replay_insight \<Rightarrow> shadow_summary" where
  "insight_summary py_hash skill_base_name pr_number in_legacy ins =
     (let body = (case ri_body ins of None \<Rightarrow> [] | Some b \<Rightarrow> b) in
      \<lparr>ss_idea_id = (case ri_idea_id ins of None \<Rightarrow> replay_id py_hash pr_number body | Some i \<Rightarrow> i),
       ss_skill_base_name = (case ri_skill ins of Some k \<Rightarrow> k
         | None \<Rightarrow> (case skill_base_name of None \<Rightarrow> ''unknown-skill''
             | Some k \<Rightarrow> if k = [] then ''unknown-skill'' else k)),
       ss_body_excerpt = take 120 body, ss_in_legacy = in_legacy, ss_would_fold = True,
       ss_would_supersede = (case ri_would_supersede ins of None \<Rightarrow> False | Some b \<Rightarrow> b),
       ss_supersede_target = ri_supersede_target ins\<rparr>)"

text \<open>One insight: the report and the identifiers of the live ideas touched so far.\<close>

definition diff_insight ::
    "(string \<Rightarrow> int) \<Rightarrow> string option \<Rightarrow> (string, idea_record) dict \<Rightarrow> int \<Rightarrow> replay_insight \<Rightarrow>
     shadow_report \<times> string set \<Rightarrow> shadow_report \<times> string set" where
  "diff_insight py_hash skill_base_name live pr_number ins acc =
     (let (report, touched) = acc;
          matched = match_live (case ri_body ins of None \<Rightarrow> [] | Some b \<Rightarrow> b) live;
          summary = insight_summary py_hash skill_base_name pr_number (matched \<noteq> None) ins
      in if ss_would_supersede summary \<and> ss_supersede_target summary \<notin> {None, Some []}
         then (report\<lparr>sd_would_supersede := sd_would_supersede report @ [(the (ss_supersede_target summary), summary)]\<rparr>,
               insert (the (ss_supersede_target summary)) touched)
         else (case matched of
             Some (live_id, live_idea) \<Rightarrow>
               (if idea_legacyRecurrenceFold live_idea = Some True
                then report\<lparr>sd_confirmed_by_replay := sd_confirmed_by_replay report @ [summary]\<rparr> else report,
                insert live_id touched)
           | None \<Rightarrow> (report\<lparr>sd_new_under_verified := sd_new_under_verified report @ [summary]\<rparr>, touched)))"

definition diff_pr ::
    "(string \<Rightarrow> int) \<Rightarrow> string option \<Rightarrow> (string, idea_record) dict \<Rightarrow> replay_pr \<Rightarrow>
     shadow_report \<times> string set \<Rightarrow> shadow_report \<times> string set" where
  "diff_pr py_hash skill_base_name live pr acc =
     fold (diff_insight py_hash skill_base_name live (case rp_number pr of None \<Rightarrow> 0 | Some n \<Rightarrow> n)) (rp_insights pr)
       (apfst (\<lambda>report. report\<lparr>sd_prs_replayed := sd_prs_replayed report + 1\<rparr>) acc)"

definition live_library :: "string \<Rightarrow> string option \<Rightarrow> learning_store \<Rightarrow> idea_record list" where
  "live_library org skill_base_name s = (case skill_base_name of
     Some sk \<Rightarrow> list_current_ideas org sk s
   | None \<Rightarrow> filter (\<lambda>i. idea_invalidAt i = None \<and> idea_status i = ''folded'') (list_all_ideas_for_org org s))"

definition live_by_id :: "idea_record list \<Rightarrow> (string, idea_record) dict" where
  "live_by_id ideas = foldl (\<lambda>d i. dset (idea_ideaId i) i d) [] ideas"

definition legacy_summary :: "string \<Rightarrow> idea_record \<Rightarrow> shadow_summary" where
  "legacy_summary live_id r =
     \<lparr>ss_idea_id = live_id, ss_skill_base_name = idea_skillBaseName r, ss_body_excerpt = take 120 (idea_body r),
      ss_in_legacy = True, ss_would_fold = False, ss_would_supersede = False, ss_supersede_target = None\<rparr>"

definition transfer_replay_shadow_diff ::
    "(string \<Rightarrow> int) \<Rightarrow> string \<Rightarrow> string \<Rightarrow> replay_pr list \<Rightarrow> string option \<Rightarrow> (learning_store, shadow_report) py" where
  "transfer_replay_shadow_diff py_hash org owner_repo merged_prs skill_base_name =
     pbind (org_guard org ''transfer_replay_shadow_diff'') (\<lambda>_.
     pbind (pget (live_library org skill_base_name)) (\<lambda>live_ideas.
     let live = live_by_id live_ideas;
         (report, touched) = fold (diff_pr py_hash skill_base_name live) merged_prs
           (\<lparr>sd_org = org, sd_owner_repo = owner_repo, sd_prs_replayed = 0, sd_new_under_verified = [],
             sd_only_in_legacy = [], sd_confirmed_by_replay = [], sd_would_supersede = []\<rparr>, {})
     in pret (report\<lparr>sd_only_in_legacy :=
          map (\<lambda>(i, r). legacy_summary i r) (filter (\<lambda>(i, _). i \<notin> touched) live)\<rparr>)))"

end
