(* ===== verification/BulkUpdate.thy ===== *)
theory BulkUpdate
  imports World
begin

text \<open>
  Loops that rewrite a list of stored ideas one by one: the backfill of the migration, the
  retirement of earlier directives and the deletion of an authored source.  Each listed idea is
  stored under its own key and a rewrite keeps the key, so the loop is the pointwise update of
  the ideas that satisfy a condition.
\<close>

section \<open>The ideas listed by the store carry their keys\<close>

lemma map_pk_dvals_where:
  "keyed_by (\<lambda>k r. idea_pk r = k \<and> Q r) d \<Longrightarrow> distinct (map idea_pk (dvals_where P d))"
proof -
  assume k: "keyed_by (\<lambda>k r. idea_pk r = k \<and> Q r) d"
  have "map idea_pk (dvals_where P d) = map fst (filter (\<lambda>(k, v). P k v) d)"
    unfolding dvals_where_def map_map using k by (intro map_cong) (auto simp: keyed_by_def)
  then show ?thesis using k by (simp add: keyed_by_def dict_wf_def distinct_map_filter)
qed

lemma distinct_map_filter_pk: "distinct (map idea_pk xs) \<Longrightarrow> distinct (map idea_pk (filter P xs))"
  by (induction xs) auto

lemma get_idea_pk: "store_wf s \<Longrightarrow> get_idea org sk i s = Some r \<Longrightarrow> dget (ls_ideas s) (idea_pk r) = Some r"
  using get_idea_key [of s org sk i r] by (auto simp: get_idea_def idea_pk_def)

lemma all_ideas_distinct: "store_wf s \<Longrightarrow> distinct (map idea_pk (list_all_ideas_for_org org s))"
  by (auto simp: list_all_ideas_for_org_def store_wf_def intro!: map_pk_dvals_where)

lemma all_ideas_iff:
  assumes "store_wf s"
  shows "r \<in> set (list_all_ideas_for_org org s) \<longleftrightarrow> (\<exists>sk i. get_idea org sk i s = Some r)"
proof -
  have wf: "dict_wf (ls_ideas s)" using assms by (simp add: store_wf_def keyed_by_def)
  show ?thesis
    by (auto simp: list_all_ideas_for_org_def dvals_where_set get_idea_def dget_Some_iff [OF wf])
qed

section \<open>The update\<close>

definition set_idea :: "idea_record \<Rightarrow> learning_store \<Rightarrow> learning_store" where
  "set_idea r s = s\<lparr>ls_ideas := dset (idea_pk r) r (ls_ideas s)\<rparr>"

definition update_listed ::
    "(idea_record \<Rightarrow> bool) \<Rightarrow> (idea_record \<Rightarrow> idea_record) \<Rightarrow> idea_record list \<Rightarrow> learning_store \<Rightarrow> learning_store" where
  "update_listed P f xs s = fold (\<lambda>r s. if P r then set_idea (f r) s else s) xs s"

definition listed_in :: "idea_record list \<Rightarrow> learning_store \<Rightarrow> bool" where
  "listed_in xs s \<longleftrightarrow> distinct (map idea_pk xs) \<and> (\<forall>r \<in> set xs. dget (ls_ideas s) (idea_pk r) = Some r)"

lemma listed_in_all: "store_wf s \<Longrightarrow> listed_in (list_all_ideas_for_org org s) s"
  by (auto simp: listed_in_def all_ideas_distinct all_ideas_iff get_idea_pk)

lemma listed_in_filter: "listed_in xs s \<Longrightarrow> listed_in (filter P xs) s"
  by (simp add: listed_in_def distinct_map_filter_pk)

lemma listed_in_step:
  assumes "listed_in (x # xs) s" "\<And>r. idea_pk (f r) = idea_pk r"
  shows "listed_in xs (if P x then set_idea (f x) s else s)"
proof -
  have notin: "idea_pk x \<notin> idea_pk ` set xs" using assms(1) by (simp add: listed_in_def)
  have "dget (ls_ideas (set_idea (f x) s)) (idea_pk r) = Some r" if "r \<in> set xs" for r
  proof -
    have "idea_pk r \<noteq> idea_pk x" using notin that by (metis imageI)
    then show ?thesis using assms(1) that by (simp add: set_idea_def dict_simps assms(2) listed_in_def)
  qed
  then show ?thesis using assms(1) by (simp add: listed_in_def)
qed

lemma update_listed_lookup:
  assumes "listed_in xs s" and keep: "\<And>r. idea_pk (f r) = idea_pk r"
  shows "dget (ls_ideas (update_listed P f xs s)) k =
    map_option (\<lambda>r. if r \<in> set xs \<and> P r \<and> k = idea_pk r then f r else r) (dget (ls_ideas s) k)"
  using assms(1)
proof (induction xs arbitrary: s)
  case Nil
  then show ?case by (simp add: update_listed_def option.map_ident)
next
  case (Cons x xs)
  let ?s = "if P x then set_idea (f x) s else s"
  have notin: "idea_pk x \<notin> idea_pk ` set xs" and xk: "dget (ls_ideas s) (idea_pk x) = Some x"
    using Cons.prems by (simp_all add: listed_in_def)
  have other: "idea_pk r \<noteq> idea_pk x" if "r \<in> set xs" for r using notin that by (metis imageI)
  have "x \<notin> set xs" using notin by auto
  have step: "dget (ls_ideas (update_listed P f (x # xs) s)) k =
      map_option (\<lambda>r. if r \<in> set xs \<and> P r \<and> k = idea_pk r then f r else r) (dget (ls_ideas ?s) k)"
    using Cons.IH [OF listed_in_step [where f = f and P = P, OF Cons.prems keep]] by (simp add: update_listed_def)
  show ?case
  proof (cases "k = idea_pk x")
    case True
    have "f x \<notin> set xs" using other [of "f x"] keep by auto
    with True show ?thesis unfolding step using xk \<open>x \<notin> set xs\<close> keep by (simp add: set_idea_def dict_simps)
  next
    case False
    then have "dget (ls_ideas ?s) k = dget (ls_ideas s) k" by (simp add: set_idea_def dict_simps keep)
    with False show ?thesis unfolding step by (auto intro!: option.map_cong)
  qed
qed

lemma update_listed_get_idea:
  assumes "store_wf s" "listed_in xs s" "\<And>r. idea_pk (f r) = idea_pk r"
  shows "get_idea g sk i (update_listed P f xs s) =
    map_option (\<lambda>r. if r \<in> set xs \<and> P r then f r else r) (get_idea g sk i s)"
proof -
  have "(g, sk, i) = idea_pk r" if "dget (ls_ideas s) (g, sk, i) = Some r" for r
    using get_idea_key [OF assms(1), of g sk i r] that by (simp add: get_idea_def idea_pk_def)
  then show ?thesis unfolding get_idea_def update_listed_lookup [OF assms(2,3)]
    by (cases "dget (ls_ideas s) (g, sk, i)") auto
qed

lemma update_listed_frame_ex: "\<exists>d. update_listed P f xs s = s\<lparr>ls_ideas := d\<rparr>"
proof (induction xs arbitrary: s)
  case Nil
  then show ?case by (intro exI [of _ "ls_ideas s"]) (simp add: update_listed_def)
next
  case (Cons x xs)
  show ?case
  proof (cases "P x")
    case True
    obtain d where "update_listed P f xs (set_idea (f x) s) = set_idea (f x) s\<lparr>ls_ideas := d\<rparr>" using Cons.IH by blast
    then show ?thesis using True by (intro exI [of _ d]) (simp add: update_listed_def set_idea_def)
  next
    case False
    then show ?thesis using Cons.IH [of s] by (simp add: update_listed_def)
  qed
qed

lemma update_listed_frame: "update_listed P f xs s = s\<lparr>ls_ideas := ls_ideas (update_listed P f xs s)\<rparr>"
proof -
  obtain d where "update_listed P f xs s = s\<lparr>ls_ideas := d\<rparr>" using update_listed_frame_ex by blast
  then show ?thesis by simp
qed

lemma set_idea_wf: "store_wf s \<Longrightarrow> \<not> blank (idea_org r) \<Longrightarrow> store_wf (set_idea r s)"
  using store_wf_step [of s "PutIdea r"] by (simp add: py_simps set_idea_def)

lemma update_listed_wf:
  "store_wf s \<Longrightarrow> \<forall>r \<in> set xs. \<not> blank (idea_org (f r)) \<Longrightarrow> store_wf (update_listed P f xs s)"
proof (induction xs arbitrary: s)
  case Nil
  then show ?case by (simp add: update_listed_def)
next
  case (Cons x xs)
  then show ?case
    using Cons.IH [of "if P x then set_idea (f x) s else s"] set_idea_wf [of s "f x"]
    by (simp add: update_listed_def)
qed

text \<open>A loop whose body rewrites its idea, or leaves the store, is an update of the list.\<close>

lemma pfor_update_listed:
  assumes "listed_in xs s" and keep: "\<And>r. idea_pk (f r) = idea_pk r"
    and body: "\<And>r acc d. r \<in> set xs \<Longrightarrow> dget d (idea_pk r) = Some r \<Longrightarrow>
      body r acc (s\<lparr>ls_ideas := d\<rparr>) =
        (Inr (upd r acc), if P r then set_idea (f r) (s\<lparr>ls_ideas := d\<rparr>) else s\<lparr>ls_ideas := d\<rparr>)"
  shows "pfor body xs acc s = (Inr (fold upd xs acc), update_listed P f xs s)"
  using assms(1) body
proof (induction xs arbitrary: acc s)
  case Nil
  then show ?case by (simp add: py_simps update_listed_def)
next
  case (Cons x xs)
  let ?s = "if P x then set_idea (f x) s else s"
  have frame: "?s\<lparr>ls_ideas := d\<rparr> = s\<lparr>ls_ideas := d\<rparr>" for d by (simp add: set_idea_def)
  have first: "body x acc s = (Inr (upd x acc), ?s)"
    using Cons.prems(2) [of x "ls_ideas s" acc] Cons.prems(1) by (simp add: listed_in_def)
  have "pfor body xs (upd x acc) ?s = (Inr (fold upd xs (upd x acc)), update_listed P f xs ?s)"
  proof (rule Cons.IH)
    show "listed_in xs ?s" by (rule listed_in_step [where f = f and P = P, OF Cons.prems(1) keep])
    show "body r acc (?s\<lparr>ls_ideas := d\<rparr>) =
        (Inr (upd r acc), if P r then set_idea (f r) (?s\<lparr>ls_ideas := d\<rparr>) else ?s\<lparr>ls_ideas := d\<rparr>)"
      if "r \<in> set xs" "dget d (idea_pk r) = Some r" for r acc d
      unfolding frame by (rule Cons.prems(2)) (use that in simp_all)
  qed
  then show ?case by (simp add: pbind_apply first update_listed_def)
qed

end
