(* ===== verification/MigrationProps.thy ===== *)
theory MigrationProps
  imports Migration BulkUpdate
begin

text \<open>
  Properties of the migration: exactly which ideas the backfill tags and that it changes nothing
  else of them, that a second run changes nothing, that confirmation undoes the tag, what the
  retry loops miss, and what the shadow diff reports.
\<close>

section \<open>Candidates\<close>

lemma candidates_iff:
  assumes "store_wf s"
  shows "r \<in> set (grandfather_candidates org sko s) \<longleftrightarrow>
    (\<exists>sk i. get_idea org sk i s = Some r \<and> (sko = None \<or> sko = Some sk)) \<and>
    idea_status r = ''folded'' \<and> idea_invalidAt r = None"
proof -
  have wf: "dict_wf (ls_ideas s)" using assms by (simp add: store_wf_def keyed_by_def)
  show ?thesis
    by (auto simp: grandfather_candidates_def list_current_ideas_iff [OF assms] list_all_ideas_for_org_def
        dvals_where_set get_idea_def dget_Some_iff [OF wf] split: option.splits)
qed

lemma candidates_distinct: "store_wf s \<Longrightarrow> distinct (map idea_pk (grandfather_candidates org sko s))"
  by (auto simp: grandfather_candidates_def list_current_ideas_def list_all_ideas_for_org_def store_wf_def
      intro!: distinct_map_filter_pk map_pk_dvals_where split: option.splits)

lemma candidate_pk:
  assumes "store_wf s" "r \<in> set (grandfather_candidates org sko s)"
  shows "dget (ls_ideas s) (idea_pk r) = Some r" "idea_org r = org"
proof -
  obtain sk i where "get_idea org sk i s = Some r" using assms(2) by (auto simp: candidates_iff [OF assms(1)])
  then show "dget (ls_ideas s) (idea_pk r) = Some r" "idea_org r = org"
    using get_idea_pk [OF assms(1)] get_idea_key [OF assms(1)] by auto
qed

section \<open>The backfill without interference\<close>

definition must_tag :: "string \<Rightarrow> learning_store \<Rightarrow> idea_record \<Rightarrow> bool" where
  "must_tag org s r \<longleftrightarrow> idea_legacyRecurrenceFold r \<noteq> Some True \<and> \<not> has_pr_source org (idea_ideaId r) s"

lemma tagged_idea_simps [simp]:
  "idea_pk (tagged_idea r) = idea_pk r" "idea_org (tagged_idea r) = idea_org r"
  "idea_ideaId (tagged_idea r) = idea_ideaId r" "idea_legacyRecurrenceFold (tagged_idea r) = Some True"
  "idea_status (tagged_idea r) = idea_status r" "idea_invalidAt (tagged_idea r) = idea_invalidAt r"
  by (simp_all add: tagged_idea_def idea_pk_def)

lemma tag_loop_alone:
  "dget (ls_ideas s) (idea_pk r) = Some r \<Longrightarrow> \<not> blank (idea_org r) \<Longrightarrow>
   tag_loop org (\<lambda>_ s. s) (Suc left) n r s = (Inr True, set_idea (tagged_idea r) s)"
  by (simp add: py_simps version_at_def set_idea_def)

text \<open>The ideas after the tagging of a list.\<close>

abbreviation tag_listed :: "string \<Rightarrow> learning_store \<Rightarrow> idea_record list \<Rightarrow> learning_store \<Rightarrow> learning_store" where
  "tag_listed org s0 \<equiv> update_listed (must_tag org s0) tagged_idea"

lemma candidates_listed: "store_wf s \<Longrightarrow> listed_in (grandfather_candidates org sko s) s"
  using candidates_distinct candidate_pk(1) by (auto simp: listed_in_def)

definition count_in :: "string \<Rightarrow> learning_store \<Rightarrow> idea_record \<Rightarrow> grandfather_result \<Rightarrow> grandfather_result" where
  "count_in org s r res =
     (if idea_legacyRecurrenceFold r = Some True then res\<lparr>gf_already_tagged := gf_already_tagged res @ [idea_ideaId r]\<rparr>
      else if has_pr_source org (idea_ideaId r) s
      then res\<lparr>gf_skipped_no_prref := gf_skipped_no_prref res @ [idea_ideaId r]\<rparr>
      else res\<lparr>gf_tagged := gf_tagged res @ [idea_ideaId r]\<rparr>)"

lemma fold_count_in:
  "fold (count_in org s) xs res = res\<lparr>gf_tagged := gf_tagged res @ map idea_ideaId (filter (must_tag org s) xs),
     gf_already_tagged := gf_already_tagged res @ map idea_ideaId (filter (\<lambda>r. idea_legacyRecurrenceFold r = Some True) xs),
     gf_skipped_no_prref := gf_skipped_no_prref res @ map idea_ideaId
       (filter (\<lambda>r. idea_legacyRecurrenceFold r \<noteq> Some True \<and> has_pr_source org (idea_ideaId r) s) xs)\<rparr>"
  by (induction xs arbitrary: res) (simp_all add: count_in_def must_tag_def)

lemma grandfather_loop:
  assumes "listed_in xs s" "\<forall>r \<in> set xs. \<not> blank (idea_org r)"
  shows "pfor (grandfather_one org False (\<lambda>_ _ s. s)) xs res s =
    (Inr (fold (count_in org s) xs res), tag_listed org s xs s)"
proof (rule pfor_update_listed [OF assms(1)])
  fix r acc d
  assume r: "r \<in> set xs" "dget d (idea_pk r) = Some r"
  let ?s = "s\<lparr>ls_ideas := d\<rparr>"
  have has: "has_pr_source org i ?s = has_pr_source org i s" for i
    by (simp add: has_pr_source_def list_idea_sources_def)
  have "tag_loop org (\<lambda>_ s. s) MIGRATION_OCC_RETRIES 0 r ?s = (Inr True, set_idea (tagged_idea r) ?s)"
    using tag_loop_alone [of ?s r org 4 0] r assms(2) by (simp add: eval_nat_numeral MIGRATION_OCC_RETRIES_def)
  then show "grandfather_one org False (\<lambda>_ _ s. s) r acc ?s =
      (Inr (count_in org s r acc), if must_tag org s r then set_idea (tagged_idea r) ?s else ?s)"
    by (simp add: grandfather_one_def has must_tag_def count_in_def py_simps)
qed simp

lemma grandfather_alone:
  assumes wf: "store_wf s" and org: "\<not> blank org"
  shows "grandfather_legacy_folds org sko False (\<lambda>_ _ s. s) s =
    (let xs = grandfather_candidates org sko s in
     (Inr \<lparr>gf_org = org, gf_tagged = map idea_ideaId (filter (must_tag org s) xs),
        gf_already_tagged = map idea_ideaId (filter (\<lambda>r. idea_legacyRecurrenceFold r = Some True) xs),
        gf_skipped_no_prref = map idea_ideaId
          (filter (\<lambda>r. idea_legacyRecurrenceFold r \<noteq> Some True \<and> has_pr_source org (idea_ideaId r) s) xs),
        gf_errors = []\<rparr>, tag_listed org s xs s))"
proof -
  have "\<forall>r \<in> set (grandfather_candidates org sko s). \<not> blank (idea_org r)"
    using candidate_pk(2) [OF wf] org by blast
  then show ?thesis using grandfather_loop [OF candidates_listed [OF wf]] org
    by (simp add: grandfather_legacy_folds_def py_simps Let_def fold_count_in)
qed

lemma tag_candidates_lookup:
  "store_wf s \<Longrightarrow> get_idea g sk i (tag_listed org s (grandfather_candidates org sko s) s) =
    map_option (\<lambda>r. if r \<in> set (grandfather_candidates org sko s) \<and> must_tag org s r then tagged_idea r else r)
      (get_idea g sk i s)"
  by (rule update_listed_get_idea) (simp_all add: candidates_listed)

lemma tag_listed_wf: "store_wf s \<Longrightarrow> \<forall>r \<in> set xs. \<not> blank (idea_org r) \<Longrightarrow> store_wf (tag_listed org s0 xs s)"
  by (rule update_listed_wf) simp_all

lemma has_pr_source_tagged: "has_pr_source org i (tag_listed org s0 xs s) = has_pr_source org i s"
  by (subst update_listed_frame) (simp add: has_pr_source_def list_idea_sources_def)

text \<open>The ideas the backfill is meant for.\<close>

definition legacy_fold :: "string \<Rightarrow> string option \<Rightarrow> learning_store \<Rightarrow> idea_record \<Rightarrow> bool" where
  "legacy_fold org sko s r \<longleftrightarrow> idea_org r = org \<and> (sko = None \<or> sko = Some (idea_skillBaseName r)) \<and>
     idea_status r = ''folded'' \<and> idea_invalidAt r = None \<and> idea_legacyRecurrenceFold r \<noteq> Some True \<and>
     \<not> has_pr_source org (idea_ideaId r) s"

lemma legacy_fold_iff:
  assumes "store_wf s" "get_idea g sk i s = Some r"
  shows "legacy_fold org sko s r \<longleftrightarrow> r \<in> set (grandfather_candidates org sko s) \<and> must_tag org s r"
  using get_idea_key [OF assms] assms
  by (auto simp: legacy_fold_def candidates_iff [OF assms(1)] must_tag_def dest: get_idea_key)

section \<open>Properties\<close>

text \<open>C25: The backfill, with no other writer, tags exactly the current
  folded ideas of the organisation (or of the given skill) that have no vote tied to a pull
  request: each keeps its body, status and everything else but the flag and the version, no idea
  is un-folded or retired, no other idea changes, and nothing else of the store does.\<close>

theorem grandfather_effect:
  assumes "store_wf s" and "\<not> blank org"
  shows "\<exists>res s'. grandfather_legacy_folds org sko False (\<lambda>_ _ s. s) s = (Inr res, s') \<and> gf_errors res = [] \<and>
    (\<forall>g sk i. get_idea g sk i s' = map_option (\<lambda>r. if legacy_fold org sko s r
       then r\<lparr>idea_corroborationVersion := idea_corroborationVersion r + 1, idea_legacyRecurrenceFold := Some True\<rparr>
       else r) (get_idea g sk i s)) \<and>
    (\<forall>i. i \<in> set (gf_tagged res) \<longleftrightarrow> (\<exists>sk r. get_idea org sk i s = Some r \<and> legacy_fold org sko s r)) \<and>
    s' = s\<lparr>ls_ideas := ls_ideas s'\<rparr> \<and> store_wf s'"
proof -
  let ?xs = "grandfather_candidates org sko s"
  let ?s' = "tag_listed org s ?xs s"
  have ideas: "get_idea g sk i ?s' = map_option (\<lambda>r. if legacy_fold org sko s r
       then r\<lparr>idea_corroborationVersion := idea_corroborationVersion r + 1, idea_legacyRecurrenceFold := Some True\<rparr>
       else r) (get_idea g sk i s)" for g sk i
    unfolding tag_candidates_lookup [OF assms(1)]
    by (intro option.map_cong) (auto simp: legacy_fold_iff [OF assms(1)] tagged_idea_def)
  have tagged: "i \<in> idea_ideaId ` {r \<in> set ?xs. must_tag org s r} \<longleftrightarrow>
      (\<exists>sk r. get_idea org sk i s = Some r \<and> legacy_fold org sko s r)" for i
  proof
    assume "i \<in> idea_ideaId ` {r \<in> set ?xs. must_tag org s r}"
    then obtain r where r: "r \<in> set ?xs" "must_tag org s r" "i = idea_ideaId r" by auto
    then obtain sk j where g: "get_idea org sk j s = Some r" by (auto simp: candidates_iff [OF assms(1)])
    then have "j = i" using get_idea_key [OF assms(1) g] r(3) by simp
    then show "\<exists>sk r. get_idea org sk i s = Some r \<and> legacy_fold org sko s r"
      using g r legacy_fold_iff [OF assms(1) g] by blast
  next
    assume "\<exists>sk r. get_idea org sk i s = Some r \<and> legacy_fold org sko s r"
    then show "i \<in> idea_ideaId ` {r \<in> set ?xs. must_tag org s r}"
      using legacy_fold_iff [OF assms(1)] get_idea_key [OF assms(1)] by blast
  qed
  have "store_wf ?s'" by (rule tag_listed_wf [OF assms(1)]) (use candidate_pk(2) [OF assms(1)] assms(2) in blast)
  then show ?thesis using ideas tagged update_listed_frame [of "must_tag org s" tagged_idea ?xs s]
    by (simp add: grandfather_alone [OF assms] Let_def)
qed

definition folded_demo :: idea_record where
  "folded_demo = demo_idea\<lparr>idea_status := ''folded''\<rparr>"

definition folded_demo_store :: learning_store where
  "folded_demo_store = set_idea folded_demo empty_store"

lemma folded_demo_wf: "store_wf folded_demo_store"
  unfolding folded_demo_store_def by (rule set_idea_wf [OF store_wf_empty]) code_simp

lemma grandfather_effect_witness:
  "\<exists>res s'. grandfather_legacy_folds ''acme'' None False (\<lambda>_ _ s. s) folded_demo_store = (Inr res, s') \<and>
    get_idea ''acme'' ''sk'' ''i1'' s' =
      Some (folded_demo\<lparr>idea_corroborationVersion := 1, idea_legacyRecurrenceFold := Some True\<rparr>)"
proof -
  have g: "get_idea ''acme'' ''sk'' ''i1'' folded_demo_store = Some folded_demo" by code_simp
  have "legacy_fold ''acme'' None folded_demo_store folded_demo" by code_simp
  moreover have "idea_corroborationVersion folded_demo = 0" by code_simp
  ultimately show ?thesis
    using grandfather_effect [OF folded_demo_wf blank_acme, of None] g by fastforce
qed

text \<open>The backfill is safe to run again: a second run tags nothing
  and leaves the store as it is.\<close>

theorem grandfather_idempotent:
  assumes "store_wf s" and "\<not> blank org"
    and "grandfather_legacy_folds org sko False (\<lambda>_ _ s. s) s = (Inr res, s1)"
  shows "\<exists>res'. grandfather_legacy_folds org sko False (\<lambda>_ _ s. s) s1 = (Inr res', s1) \<and> gf_tagged res' = [] \<and>
    gf_errors res' = []"
proof -
  let ?xs = "grandfather_candidates org sko s"
  have s1: "s1 = tag_listed org s ?xs s" using assms(3) by (simp add: grandfather_alone [OF assms(1,2)] Let_def)
  have wf1: "store_wf s1" unfolding s1
    by (rule tag_listed_wf [OF assms(1)]) (use candidate_pk(2) [OF assms(1)] assms(2) in blast)
  have none: "\<not> must_tag org s1 r" if r: "r \<in> set (grandfather_candidates org sko s1)" for r
  proof
    assume m: "must_tag org s1 r"
    obtain sk i where g: "get_idea org sk i s1 = Some r" and in_scope: "sko = None \<or> sko = Some sk"
        "idea_status r = ''folded''" "idea_invalidAt r = None"
      using r candidates_iff [OF wf1, of r org sko] by blast
    then obtain r0 where r0: "get_idea org sk i s = Some r0"
        "r = (if r0 \<in> set ?xs \<and> must_tag org s r0 then tagged_idea r0 else r0)"
      unfolding s1 tag_candidates_lookup [OF assms(1)] by auto
    have "must_tag org s r" using m by (simp add: must_tag_def s1 has_pr_source_tagged)
    moreover have "idea_legacyRecurrenceFold r \<noteq> Some True" using m by (simp add: must_tag_def)
    ultimately have "r = r0" "\<not> (r0 \<in> set ?xs \<and> must_tag org s r0)" using r0(2) by (auto split: if_splits)
    then show False using \<open>must_tag org s r\<close> r0(1) in_scope by (auto simp: candidates_iff [OF assms(1)])
  qed
  have "tag_listed org s1 ys s1 = s1" if "set ys \<subseteq> set (grandfather_candidates org sko s1)" for ys
    using that none by (induction ys) (auto simp: update_listed_def)
  then show ?thesis using none
    by (simp add: grandfather_alone [OF wf1 assms(2)] Let_def filter_empty_conv)
qed

lemma grandfather_idempotent_witness:
  "\<exists>res s1 res'. grandfather_legacy_folds ''acme'' None False (\<lambda>_ _ s. s) folded_demo_store = (Inr res, s1) \<and>
    grandfather_legacy_folds ''acme'' None False (\<lambda>_ _ s. s) s1 = (Inr res', s1)"
  using grandfather_idempotent [OF folded_demo_wf blank_acme, of None]
    grandfather_alone [OF folded_demo_wf blank_acme, of None] by (auto simp: Let_def)

text \<open>A real vote confirms a grandfathered fold: with no other
  writer, confirmation clears the flag, so tagging and confirming bring an untagged idea back
  unchanged but for its version, which went up by two.\<close>

theorem grandfather_then_confirm:
  assumes "store_wf s" and "\<not> blank org" and "get_idea org sk i s = Some r" and "legacy_fold org sko s r"
    and "idea_legacyRecurrenceFold r = None"
    and "grandfather_legacy_folds org sko False (\<lambda>_ _ s. s) s = (Inr res, s1)"
  shows "\<exists>s2. confirm_grandfathered_fold org i sk (\<lambda>s. s) now s1 =
      (Inr \<lparr>cf_action = ''confirmed'', cf_idea_id = i, cf_cleared_at = Some now\<rparr>, s2) \<and>
    get_idea org sk i s2 = Some (r\<lparr>idea_corroborationVersion := idea_corroborationVersion r + 2\<rparr>)"
proof -
  have s1: "s1 = tag_listed org s (grandfather_candidates org sko s) s"
    using assms(6) by (simp add: grandfather_alone [OF assms(1,2)] Let_def)
  have g: "get_idea org sk i s1 = Some (tagged_idea r)"
    unfolding s1 tag_candidates_lookup [OF assms(1)] using assms(3,4) legacy_fold_iff [OF assms(1,3)] by simp
  have key: "idea_pk r = (org, sk, i)" using get_idea_key [OF assms(1,3)] by (simp add: idea_pk_def)
  have pk: "idea_pk (confirmed_idea (tagged_idea r)) = (org, sk, i)"
    using key by (simp add: confirmed_idea_def tagged_idea_def idea_pk_def)
  have ver: "version_at (org, sk, i) s1 = idea_corroborationVersion (tagged_idea r)"
    using g by (simp add: version_at_def get_idea_def)
  have org: "idea_org (confirmed_idea (tagged_idea r)) = org"
    using key by (simp add: confirmed_idea_def tagged_idea_def idea_pk_def)
  have eq: "confirmed_idea (tagged_idea r) = r\<lparr>idea_corroborationVersion := idea_corroborationVersion r + 2\<rparr>"
    using assms(5) by (simp add: confirmed_idea_def tagged_idea_def)
  have fld: "idea_status r = ''folded''" using assms(4) by (simp add: legacy_fold_def)
  show ?thesis using assms(2) fld
    by (simp add: confirm_grandfathered_fold_def py_simps g pk ver org eq [symmetric])
       (simp add: get_idea_def dict_simps)
qed

lemma grandfather_then_confirm_witness:
  "\<exists>s1 s2 res res'. grandfather_legacy_folds ''acme'' None False (\<lambda>_ _ s. s) folded_demo_store = (Inr res, s1) \<and>
    confirm_grandfathered_fold ''acme'' ''i1'' ''sk'' (\<lambda>s. s) 9 s1 = (Inr res', s2) \<and>
    get_idea ''acme'' ''sk'' ''i1'' s2 = Some (folded_demo\<lparr>idea_corroborationVersion := 2\<rparr>)"
proof -
  obtain res s1 where run: "grandfather_legacy_folds ''acme'' None False (\<lambda>_ _ s. s) folded_demo_store = (Inr res, s1)"
    using grandfather_alone [OF folded_demo_wf blank_acme, of None] by (auto simp: Let_def)
  have g: "get_idea ''acme'' ''sk'' ''i1'' folded_demo_store = Some folded_demo" by code_simp
  have l: "legacy_fold ''acme'' None folded_demo_store folded_demo" "idea_legacyRecurrenceFold folded_demo = None"
    by code_simp+
  have "idea_corroborationVersion folded_demo + 2 = 2" by code_simp
  then show ?thesis
    using grandfather_then_confirm [OF folded_demo_wf blank_acme g l run, of 9] run by auto
qed

text \<open>The retry loop of the backfill re-reads the idea but not its
  votes: when a vote of a pull request arrives between the scan and the write, the conflict is
  retried and the idea is tagged as a legacy fold although it now has a verified vote.\<close>

theorem backfill_race_tags_confirmed:
  "let vote = (\<lambda>s. snd (run_op (PutIdea (folded_demo\<lparr>idea_corroborationVersion := 1\<rparr>))
         (snd (run_op (PutIdeaSource ((mk_source ''i1'' ''pr#7'' ''acme'')\<lparr>src_prRef := Some ''o/r#7''\<rparr>)) s))));
       (res, s') = grandfather_legacy_folds ''acme'' None False (\<lambda>_ n s. if n = 0 then vote s else s) folded_demo_store
   in map_sum (\<lambda>_. ()) gf_tagged res = Inr [''i1''] \<and> has_pr_source ''acme'' ''i1'' s' \<and>
     map_option idea_legacyRecurrenceFold (get_idea ''acme'' ''sk'' ''i1'' s') = Some (Some True)"
  by code_simp

text \<open>A confirmation that loses its conditional write reports
  \<open>confirmed\<close> with a time all the same, although the flag is still set.\<close>

theorem confirm_conflict_reported_confirmed:
  "let s = set_idea (tagged_idea folded_demo) empty_store;
       other = (\<lambda>s. snd (run_op (PutIdea ((tagged_idea folded_demo)\<lparr>idea_corroborationVersion := 5\<rparr>)) s));
       (res, s') = confirm_grandfathered_fold ''acme'' ''i1'' ''sk'' other 9 s
   in res = Inr \<lparr>cf_action = ''confirmed'', cf_idea_id = ''i1'', cf_cleared_at = Some 9\<rparr> \<and>
     map_option idea_legacyRecurrenceFold (get_idea ''acme'' ''sk'' ''i1'' s') = Some (Some True)"
  by code_simp

section \<open>The shadow diff\<close>

text \<open>The live idea an insight touches: the one it would supersede, or else the first match.\<close>

definition insight_target :: "replay_insight \<Rightarrow> string option" where
  "insight_target ins = (case (ri_would_supersede ins, ri_supersede_target ins) of
     (Some True, Some t) \<Rightarrow> if t = [] then None else Some t | _ \<Rightarrow> None)"

definition insight_touches :: "(string, idea_record) dict \<Rightarrow> replay_insight \<Rightarrow> string option" where
  "insight_touches live ins = (case insight_target ins of
     Some t \<Rightarrow> Some t
   | None \<Rightarrow> map_option fst (match_live (case ri_body ins of None \<Rightarrow> [] | Some b \<Rightarrow> b) live))"

definition report_step ::
    "(string \<Rightarrow> int) \<Rightarrow> string option \<Rightarrow> (string, idea_record) dict \<Rightarrow> int \<Rightarrow> replay_insight list \<Rightarrow> shadow_summary list" where
  "report_step py_hash sko live n inss =
     map (insight_summary py_hash sko n False) (filter (\<lambda>ins. insight_touches live ins = None) inss)"

lemma diff_insight_cases:
  "diff_insight py_hash sko live n ins (rep, touched) =
     (let matched = match_live (case ri_body ins of None \<Rightarrow> [] | Some b \<Rightarrow> b) live;
          summary = insight_summary py_hash sko n (matched \<noteq> None) ins
      in case insight_target ins of
           Some t \<Rightarrow> (rep\<lparr>sd_would_supersede := sd_would_supersede rep @ [(t, summary)]\<rparr>, insert t touched)
         | None \<Rightarrow> (case matched of
             Some (i, r) \<Rightarrow> (if idea_legacyRecurrenceFold r = Some True
                then rep\<lparr>sd_confirmed_by_replay := sd_confirmed_by_replay rep @ [summary]\<rparr> else rep, insert i touched)
           | None \<Rightarrow> (rep\<lparr>sd_new_under_verified := sd_new_under_verified rep @ [summary]\<rparr>, touched)))"
proof -
  let ?sum = "\<lambda>m. insight_summary py_hash sko n m ins"
  have "ss_would_supersede (?sum m) \<and> ss_supersede_target (?sum m) \<notin> {None, Some []} \<longleftrightarrow> insight_target ins \<noteq> None" for m
    by (simp add: insight_summary_def insight_target_def Let_def split: option.split bool.split)
  moreover have "insight_target ins = Some t \<Longrightarrow> the (ss_supersede_target (?sum m)) = t" for m t
    by (simp add: insight_summary_def insight_target_def Let_def split: option.splits bool.splits if_splits)
  ultimately show ?thesis
    by (simp only: diff_insight_def Let_def prod.case) (simp split: option.split)
qed

lemma diff_insight_props:
  assumes "diff_insight py_hash sko live n ins (rep, touched) = (rep', touched')"
  shows "touched' = touched \<union> set_option (insight_touches live ins)"
    "sd_new_under_verified rep' = sd_new_under_verified rep @ report_step py_hash sko live n [ins]"
    "sd_prs_replayed rep' = sd_prs_replayed rep" "sd_org rep' = sd_org rep" "sd_owner_repo rep' = sd_owner_repo rep"
  using assms
  by (auto simp: diff_insight_cases Let_def insight_touches_def report_step_def split: option.splits)

lemma diff_insights_props:
  assumes "fold (diff_insight py_hash sko live n) inss (rep, touched) = (rep', touched')"
  shows "touched' = touched \<union> {i. \<exists>ins \<in> set inss. insight_touches live ins = Some i} \<and>
    sd_new_under_verified rep' = sd_new_under_verified rep @ report_step py_hash sko live n inss \<and>
    sd_prs_replayed rep' = sd_prs_replayed rep \<and> sd_org rep' = sd_org rep \<and> sd_owner_repo rep' = sd_owner_repo rep"
  using assms
proof (induction inss arbitrary: rep touched)
  case Nil
  then show ?case by (simp add: report_step_def)
next
  case (Cons ins inss)
  obtain rep1 t1 where step: "diff_insight py_hash sko live n ins (rep, touched) = (rep1, t1)" by fastforce
  note p = diff_insight_props [OF step]
  have "fold (diff_insight py_hash sko live n) inss (rep1, t1) = (rep', touched')"
    using Cons.prems step by simp
  from Cons.IH [OF this] show ?case by (auto simp: p report_step_def)
qed

definition pr_number_of :: "replay_pr \<Rightarrow> int" where
  "pr_number_of pr = (case rp_number pr of None \<Rightarrow> 0 | Some n \<Rightarrow> n)"

lemma diff_prs_props:
  assumes "fold (diff_pr py_hash sko live) prs (rep, touched) = (rep', touched')"
  shows "touched' = touched \<union> {i. \<exists>pr \<in> set prs. \<exists>ins \<in> set (rp_insights pr). insight_touches live ins = Some i} \<and>
    sd_new_under_verified rep' = sd_new_under_verified rep @
      concat (map (\<lambda>pr. report_step py_hash sko live (pr_number_of pr) (rp_insights pr)) prs) \<and>
    sd_prs_replayed rep' = sd_prs_replayed rep + int (length prs)"
  using assms
proof (induction prs arbitrary: rep touched)
  case Nil
  then show ?case by simp
next
  case (Cons pr prs)
  obtain rep1 t1 where step: "diff_pr py_hash sko live pr (rep, touched) = (rep1, t1)" by fastforce
  have p: "t1 = touched \<union> {i. \<exists>ins \<in> set (rp_insights pr). insight_touches live ins = Some i} \<and>
      sd_new_under_verified rep1 = sd_new_under_verified rep @ report_step py_hash sko live (pr_number_of pr) (rp_insights pr) \<and>
      sd_prs_replayed rep1 = sd_prs_replayed rep + 1"
    using diff_insights_props [of py_hash sko live "pr_number_of pr" "rp_insights pr"
        "rep\<lparr>sd_prs_replayed := sd_prs_replayed rep + 1\<rparr>" touched rep1 t1] step
    by (simp add: diff_pr_def pr_number_of_def)
  have "fold (diff_pr py_hash sko live) prs (rep1, t1) = (rep', touched')" using Cons.prems step by simp
  from Cons.IH [OF this] p show ?case by auto
qed

text \<open>The shadow diff reads the store and writes nothing.  It counts
  every pull request of the log; it lists as new exactly the insights that neither match a live
  idea nor name one to supersede, in the order of the log; and it lists as only in the legacy
  library exactly the live ideas no insight matched first or named.\<close>

theorem shadow_diff_exact:
  assumes "\<not> blank org"
  shows "\<exists>rep. transfer_replay_shadow_diff py_hash org repo prs sko s = (Inr rep, s) \<and>
    sd_prs_replayed rep = int (length prs) \<and>
    sd_new_under_verified rep = concat (map (\<lambda>pr. map (insight_summary py_hash sko (pr_number_of pr) False)
      (filter (\<lambda>ins. insight_touches (live_by_id (live_library org sko s)) ins = None) (rp_insights pr))) prs) \<and>
    sd_only_in_legacy rep = map (\<lambda>(i, r). legacy_summary i r)
      (filter (\<lambda>(i, _). \<forall>pr \<in> set prs. \<forall>ins \<in> set (rp_insights pr).
         insight_touches (live_by_id (live_library org sko s)) ins \<noteq> Some i) (live_by_id (live_library org sko s)))"
proof -
  let ?live = "live_by_id (live_library org sko s)"
  let ?rep0 = "\<lparr>sd_org = org, sd_owner_repo = repo, sd_prs_replayed = 0, sd_new_under_verified = [],
      sd_only_in_legacy = [], sd_confirmed_by_replay = [], sd_would_supersede = []\<rparr>"
  obtain rep touched where run: "fold (diff_pr py_hash sko ?live) prs (?rep0, {}) = (rep, touched)" by fastforce
  note p = diff_prs_props [OF run]
  have "filter (\<lambda>(i, _). i \<notin> touched) ?live = filter (\<lambda>(i, _). \<forall>pr \<in> set prs. \<forall>ins \<in> set (rp_insights pr).
      insight_touches ?live ins \<noteq> Some i) ?live"
    using p by (intro filter_cong) auto
  then show ?thesis using assms run p
    by (simp add: transfer_replay_shadow_diff_def py_simps Let_def report_step_def)
qed

lemma shadow_diff_exact_witness:
  "\<exists>rep. transfer_replay_shadow_diff (\<lambda>_. 0) ''acme'' ''o/r'' [\<lparr>rp_number = Some 7, rp_insights = []\<rparr>] None folded_demo_store =
     (Inr rep, folded_demo_store) \<and> sd_prs_replayed rep = 1 \<and> map ss_idea_id (sd_only_in_legacy rep) = [''i1'']"
proof -
  have "live_by_id (live_library ''acme'' None folded_demo_store) = [(''i1'', folded_demo)]" by code_simp
  then show ?thesis
    using shadow_diff_exact [OF blank_acme, of "\<lambda>_. 0" "''o/r''" "[\<lparr>rp_number = Some 7, rp_insights = []\<rparr>]" None folded_demo_store]
    by (auto simp: legacy_summary_def)
qed

text \<open>With a skill given, the library compared is not restricted to
  folded ideas: an open candidate that no replayed insight matches is reported as an idea of the
  legacy library to be retired, which the same run over the whole organisation does not do.\<close>

theorem scoped_diff_lists_open_ideas:
  "(let run = (\<lambda>sko. map_sum (\<lambda>_. ()) (\<lambda>rep. map ss_idea_id (sd_only_in_legacy rep))
      (fst (transfer_replay_shadow_diff (\<lambda>_. 0) ''acme'' ''o/r'' [] sko demo_store)))
    in run (Some ''sk'') = Inr [''i1''] \<and> run None = Inr [])"
  by code_simp

end
