(* ===== verification/Sha256.thy ===== *)
theory Sha256
  imports Uuid5
begin

text \<open>
  \<open>hashlib.sha256(text.encode("utf-8")).hexdigest()\<close> of the standard library, on 32-bit words;
  the padding is that of SHA-1.
\<close>

unbundle bit_operations_syntax

text \<open>
  The constants are the first 32 bits of the fractional parts of the cube roots of the first 64
  primes, those of the initial state the same for the square roots of the first 8: the integer
  root is found bit by bit, from the highest down.
\<close>

fun root_bits :: "nat \<Rightarrow> int \<Rightarrow> nat \<Rightarrow> int \<Rightarrow> int" where
  "root_bits e n 0 acc = acc"
| "root_bits e n (Suc k) acc =
     (let a = acc + 2 ^ k in root_bits e n k (if a ^ e \<le> n then a else acc))"

definition root_fraction :: "nat \<Rightarrow> int \<Rightarrow> 32 word" where
  "root_fraction e p = word_of_int (root_bits e (p * 2 ^ (32 * e)) 36 0)"

definition primes_below :: "int \<Rightarrow> int list" where
  "primes_below n = filter (\<lambda>p. list_all (\<lambda>d. p mod d \<noteq> 0) [2..p - 1]) [2..n - 1]"

definition sha256_K :: "32 word list" where
  "sha256_K = map (root_fraction 3) (primes_below 312)"

definition small_sigma0 :: "32 word \<Rightarrow> 32 word" where
  "small_sigma0 x = word_rotr 7 x XOR word_rotr 18 x XOR drop_bit 3 x"

definition small_sigma1 :: "32 word \<Rightarrow> 32 word" where
  "small_sigma1 x = word_rotr 17 x XOR word_rotr 19 x XOR drop_bit 10 x"

definition big_sigma0 :: "32 word \<Rightarrow> 32 word" where
  "big_sigma0 x = word_rotr 2 x XOR word_rotr 13 x XOR word_rotr 22 x"

definition big_sigma1 :: "32 word \<Rightarrow> 32 word" where
  "big_sigma1 x = word_rotr 6 x XOR word_rotr 11 x XOR word_rotr 25 x"

text \<open>The message schedule, kept in reverse.\<close>

fun sha256_extend :: "nat \<Rightarrow> 32 word list \<Rightarrow> 32 word list" where
  "sha256_extend 0 ws = ws"
| "sha256_extend (Suc n) ws =
     sha256_extend n ((small_sigma1 (ws ! 1) + ws ! 6 + small_sigma0 (ws ! 14) + ws ! 15) # ws)"

type_synonym sha256_state = "32 word list"

fun sha256_rounds :: "(32 word \<times> 32 word) list \<Rightarrow> sha256_state \<Rightarrow> sha256_state" where
  "sha256_rounds ((k, w) # kws) [a, b, c, d, e, f, g, h] =
     (let t1 = h + big_sigma1 e + ((e AND f) XOR (NOT e AND g)) + k + w;
          t2 = big_sigma0 a + ((a AND b) XOR (a AND c) XOR (b AND c))
      in sha256_rounds kws [t1 + t2, a, b, c, d + t1, e, f, g])"
| "sha256_rounds _ st = st"

definition sha256_block :: "sha256_state \<Rightarrow> 32 word list \<Rightarrow> sha256_state" where
  "sha256_block st ws = map2 (+) st (sha256_rounds (zip sha256_K (rev (sha256_extend 48 (rev ws)))) st)"

fun sha256_blocks :: "nat \<Rightarrow> 32 word list \<Rightarrow> sha256_state \<Rightarrow> sha256_state" where
  "sha256_blocks 0 ws st = st"
| "sha256_blocks (Suc n) ws st = sha256_blocks n (drop 16 ws) (sha256_block st (take 16 ws))"

definition sha256_init :: sha256_state where
  "sha256_init = map (root_fraction 2) (primes_below 20)"

definition sha256 :: "nat list \<Rightarrow> nat list" where
  "sha256 bs = (let ws = words_of (sha1_pad bs) in
     concat (map bytes_of_word (sha256_blocks (length ws div 16) ws sha256_init)))"

definition sha256_hexdigest :: "string \<Rightarrow> string" where
  "sha256_hexdigest s = hex_bytes (sha256 (utf8 s))"

end
