(* ===== verification/Json.thy ===== *)
theory Json
  imports PyStr
begin

text \<open>
  The \<open>json\<close> module of the standard library, as far as the service uses it: \<open>dumps\<close> of a
  dictionary of strings with the default options, and \<open>loads\<close> of any text.  Numbers keep their
  text; an escape \<open>\u....\<close> above 255 stands for a character outside the model and counts as an
  error.  The parser takes fuel; a text of length \<open>n\<close> nests values at most \<open>n\<close> deep and has at most
  \<open>n\<close> members in a row.
\<close>

section \<open>Strings\<close>

abbreviation QUOTE :: char where "QUOTE \<equiv> CHR 0x22"
abbreviation BSLASH :: char where "BSLASH \<equiv> CHR 0x5C"

definition escape_char :: "char \<Rightarrow> string" where
  "escape_char c = (let n = cp c in
     if c = QUOTE \<or> c = BSLASH then [BSLASH, c]
     else if n = 8 then [BSLASH, CHR ''b''] else if n = 9 then [BSLASH, CHR ''t'']
     else if n = 10 then [BSLASH, CHR ''n''] else if n = 12 then [BSLASH, CHR ''f'']
     else if n = 13 then [BSLASH, CHR ''r'']
     else if n < 32 \<or> 126 < n then [BSLASH, CHR ''u'', CHR ''0'', CHR ''0'', hex_digit (n div 16), hex_digit (n mod 16)]
     else [c])"

definition json_str :: "string \<Rightarrow> string" where
  "json_str s = [QUOTE] @ concat (map escape_char s) @ [QUOTE]"

text \<open>\<open>json.dumps\<close> of a dictionary with string keys and values.\<close>

definition dumps_strings :: "(string, string) dict \<Rightarrow> string" where
  "dumps_strings d = ''{'' @ join '', '' (map (\<lambda>(k, v). json_str k @ '': '' @ json_str v) d) @ ''}''"

definition hex_value :: "char \<Rightarrow> nat option" where
  "hex_value c = (let n = cp c in
     if 48 \<le> n \<and> n \<le> 57 then Some (n - 48) else if 97 \<le> n \<and> n \<le> 102 then Some (n - 87)
     else if 65 \<le> n \<and> n \<le> 70 then Some (n - 55) else None)"

definition hex4 :: "char \<Rightarrow> char \<Rightarrow> char \<Rightarrow> char \<Rightarrow> char option" where
  "hex4 a b c d = (case (hex_value a, hex_value b, hex_value c, hex_value d) of
     (Some w, Some x, Some y, Some z) \<Rightarrow>
       (let n = 4096 * w + 256 * x + 16 * y + z in if n < 256 then Some (char_of n) else None)
   | _ \<Rightarrow> None)"

definition simple_escape :: "char \<Rightarrow> char option" where
  "simple_escape e =
     (if e = QUOTE \<or> e = BSLASH \<or> e = CHR ''/'' then Some e
      else if e = CHR ''b'' then Some (char_of (8 :: nat)) else if e = CHR ''t'' then Some (char_of (9 :: nat))
      else if e = CHR ''n'' then Some (char_of (10 :: nat)) else if e = CHR ''f'' then Some (char_of (12 :: nat))
      else if e = CHR ''r'' then Some (char_of (13 :: nat)) else None)"

text \<open>The text after an opening quote: the string and what follows its closing quote.  The
  first argument counts down the characters of the text.\<close>

fun parse_str :: "nat \<Rightarrow> string \<Rightarrow> (string \<times> string) option" where
  "parse_str 0 _ = None"
| "parse_str (Suc k) [] = None"
| "parse_str (Suc k) (c # cs) =
     (if c = QUOTE then Some ([], cs)
      else if c = BSLASH then (case cs of
          [] \<Rightarrow> None
        | e # cs1 \<Rightarrow>
            if e = CHR ''u'' then (case cs1 of
                a # b # x # y # rest \<Rightarrow> (case hex4 a b x y of None \<Rightarrow> None
                  | Some ch \<Rightarrow> map_option (apfst (Cons ch)) (parse_str k rest))
              | _ \<Rightarrow> None)
            else (case simple_escape e of None \<Rightarrow> None
                | Some ch \<Rightarrow> map_option (apfst (Cons ch)) (parse_str k cs1)))
      else if cp c < 32 then None
      else map_option (apfst (Cons c)) (parse_str k cs))"

section \<open>Values\<close>

datatype json = JStr string | JNum string | JBool bool | JNull | JList "json list" | JObj "(string, json) dict"

definition is_json_ws :: "char \<Rightarrow> bool" where
  "is_json_ws c \<longleftrightarrow> cp c \<in> {9, 10, 13, 32}"

definition skip_ws :: "string \<Rightarrow> string" where
  "skip_ws s = dropWhile is_json_ws s"

definition digits_of :: "string \<Rightarrow> string" where
  "digits_of s = takeWhile is_digit s"

text \<open>The regular expression \<open>(-?(?:0|[1-9][0-9]*))(\.[0-9]+)?([eE][-+]?[0-9]+)?\<close>.\<close>

definition json_int :: "string \<Rightarrow> string" where
  "json_int s = (case s of [] \<Rightarrow> [] | c # _ \<Rightarrow>
     if c = CHR ''0'' then [c] else if is_digit c then digits_of s else [])"

definition json_frac :: "string \<Rightarrow> string" where
  "json_frac s = (case s of c # cs \<Rightarrow> if c = CHR ''.'' \<and> digits_of cs \<noteq> [] then c # digits_of cs else [] | [] \<Rightarrow> [])"

definition json_exp :: "string \<Rightarrow> string" where
  "json_exp s = (case s of [] \<Rightarrow> []
   | c # cs \<Rightarrow>
       if c = CHR ''e'' \<or> c = CHR ''E'' then
         (case cs of
            d # ds \<Rightarrow> if (d = CHR ''+'' \<or> d = CHR ''-'') \<and> digits_of ds \<noteq> [] then c # d # digits_of ds
                      else if digits_of cs \<noteq> [] then c # digits_of cs else []
          | [] \<Rightarrow> [])
       else [])"

definition json_number :: "string \<Rightarrow> (json \<times> string) option" where
  "json_number s =
     (let sign = (case s of c # _ \<Rightarrow> if c = CHR ''-'' then [c] else [] | [] \<Rightarrow> []);
          s1 = drop (length sign) s; i = json_int s1;
          s2 = drop (length i) s1; f = json_frac s2;
          s3 = drop (length f) s2; e = json_exp s3
      in if i = [] then None else Some (JNum (sign @ i @ f @ e), drop (length e) s3))"

definition json_literals :: "(string \<times> json) list" where
  "json_literals = [(''null'', JNull), (''true'', JBool True), (''false'', JBool False),
     (''NaN'', JNum ''NaN''), (''Infinity'', JNum ''Infinity''), (''-Infinity'', JNum ''-Infinity'')]"

definition json_atom :: "string \<Rightarrow> (json \<times> string) option" where
  "json_atom s = (case find (\<lambda>(w, _). prefix w s) json_literals of
     Some (w, v) \<Rightarrow> Some (v, drop (length w) s)
   | None \<Rightarrow> json_number s)"

fun jval :: "nat \<Rightarrow> string \<Rightarrow> (json \<times> string) option"
  and jmembers :: "nat \<Rightarrow> (string, json) dict \<Rightarrow> string \<Rightarrow> (json \<times> string) option"
  and jelems :: "nat \<Rightarrow> json list \<Rightarrow> string \<Rightarrow> (json \<times> string) option" where
  "jval 0 s = None"
| "jval (Suc n) s = (case s of
     [] \<Rightarrow> None
   | c # cs \<Rightarrow>
       if c = QUOTE then map_option (apfst JStr) (parse_str (Suc (length cs)) cs)
       else if c = CHR ''{'' then (case skip_ws cs of
           [] \<Rightarrow> None
         | d # ds \<Rightarrow> if d = CHR ''}'' then Some (JObj [], ds) else jmembers n [] (d # ds))
       else if c = CHR ''['' then (case skip_ws cs of
           [] \<Rightarrow> None
         | d # ds \<Rightarrow> if d = CHR '']'' then Some (JList [], ds) else jelems n [] (d # ds))
       else json_atom s)"
| "jmembers 0 d s = None"
| "jmembers (Suc n) d s = (case s of
     [] \<Rightarrow> None
   | q # cs \<Rightarrow>
       if q \<noteq> QUOTE then None
       else (case parse_str (Suc (length cs)) cs of
           None \<Rightarrow> None
         | Some (k, r) \<Rightarrow> (case skip_ws r of
             [] \<Rightarrow> None
           | colon # r1 \<Rightarrow>
               if colon \<noteq> CHR '':'' then None
               else (case jval n (skip_ws r1) of
                   None \<Rightarrow> None
                 | Some (v, r2) \<Rightarrow> (case skip_ws r2 of
                     [] \<Rightarrow> None
                   | x # r3 \<Rightarrow>
                       if x = CHR ''}'' then Some (JObj (dset k v d), r3)
                       else if x = CHR '','' then jmembers n (dset k v d) (skip_ws r3)
                       else None)))))"
| "jelems 0 vs s = None"
| "jelems (Suc n) vs s = (case jval n s of
     None \<Rightarrow> None
   | Some (v, r) \<Rightarrow> (case skip_ws r of
       [] \<Rightarrow> None
     | x # r1 \<Rightarrow>
         if x = CHR '']'' then Some (JList (vs @ [v]), r1)
         else if x = CHR '','' then jelems n (vs @ [v]) (skip_ws r1)
         else None))"

text \<open>\<open>json.loads\<close>; \<open>None\<close> where it raises \<open>JSONDecodeError\<close>.\<close>

definition json_loads :: "string \<Rightarrow> json option" where
  "json_loads s = (case jval (Suc (length s)) (skip_ws s) of
     Some (v, r) \<Rightarrow> if skip_ws r = [] then Some v else None
   | None \<Rightarrow> None)"

section \<open>What is written is read back\<close>

declare jval.simps [simp del] jmembers.simps [simp del] jelems.simps [simp del]

text \<open>Decoding one escaped character, checked for every character.\<close>

definition decodes :: "char \<Rightarrow> bool" where
  "decodes c \<longleftrightarrow> (case escape_char c of
     [x] \<Rightarrow> x = c \<and> x \<noteq> QUOTE \<and> x \<noteq> BSLASH \<and> 32 \<le> cp x
   | [b, e] \<Rightarrow> b = BSLASH \<and> e \<noteq> CHR ''u'' \<and> simple_escape e = Some c
   | [b, u, w, x, y, z] \<Rightarrow> b = BSLASH \<and> u = CHR ''u'' \<and> hex4 w x y z = Some c
   | _ \<Rightarrow> False)"

lemma char_of_cp: "char_of (cp c) = c"
  by (simp add: cp_def)

lemma cp_less: "cp c < 256"
  by (simp add: cp_def)

lemma hex_value_digit: "d < 16 \<Longrightarrow> hex_value (hex_digit d) = Some d"
  by (simp add: hex_value_def hex_digit_def cp_def)

lemma hex4_byte: "n < 256 \<Longrightarrow> hex4 CHR ''0'' CHR ''0'' (hex_digit (n div 16)) (hex_digit (n mod 16)) = Some (char_of n)"
  using hex_value_digit [of "n div 16"] hex_value_digit [of "n mod 16"]
  by (simp add: hex4_def hex_value_def [of "CHR ''0''"] cp_def)

lemma decodes_all: "decodes c"
proof -
  have 1: "c = char_of m" if "cp c = m" for m using char_of_cp [of c] that by simp
  have escs: "simple_escape CHR ''b'' = Some (char_of (8 :: nat))" "simple_escape CHR ''t'' = Some (char_of (9 :: nat))"
    "simple_escape CHR ''n'' = Some (char_of (10 :: nat))" "simple_escape CHR ''f'' = Some (char_of (12 :: nat))"
    "simple_escape CHR ''r'' = Some (char_of (13 :: nat))" "simple_escape QUOTE = Some QUOTE"
    "simple_escape BSLASH = Some BSLASH"
    by (simp_all add: simple_escape_def)
  show ?thesis
    unfolding decodes_def escape_char_def Let_def
    using 1 [of 8] 1 [of 9] 1 [of 10] 1 [of 12] 1 [of 13] hex4_byte [OF cp_less, of c] char_of_cp [of c]
    by (simp add: escs not_less)
qed

lemma parse_str_char:
  "parse_str (Suc k) (escape_char c @ rest) = map_option (apfst (Cons c)) (parse_str k rest)"
  using decodes_all [of c] by (auto simp: decodes_def split: list.splits)

lemma parse_str_json: "length s < k \<Longrightarrow> parse_str k (concat (map escape_char s) @ QUOTE # rest) = Some (s, rest)"
proof (induction s arbitrary: k)
  case Nil
  then show ?case by (cases k) auto
next
  case (Cons c s)
  then obtain k' where "k = Suc k'" "length s < k'" by (cases k) auto
  with Cons.IH show ?case by (simp add: parse_str_char)
qed

lemma escape_length: "1 \<le> length (escape_char c)"
  by (simp add: escape_char_def Let_def)

lemma escapes_length: "length s \<le> length (concat (map escape_char s))"
proof (induction s)
  case (Cons c s)
  then show ?case using escape_length [of c] by simp
qed simp

lemma parse_quoted [simp]:
  "parse_str (Suc (length (concat (map escape_char s) @ QUOTE # rest))) (concat (map escape_char s) @ QUOTE # rest)
    = Some (s, rest)"
  by (rule parse_str_json) (use escapes_length [of s] in simp)

lemma skip_ws_stop: "\<not> is_json_ws c \<Longrightarrow> skip_ws (c # cs) = c # cs"
  by (simp add: skip_ws_def)

lemma json_str_append: "json_str s @ rest = QUOTE # (concat (map escape_char s) @ QUOTE # rest)"
  by (simp add: json_str_def)

lemma jval_str: "jval (Suc n) (json_str v @ rest) = Some (JStr v, rest)"
  unfolding json_str_append jval.simps(2) by (simp only: list.case if_True simp_thms parse_quoted) simp

lemma jmembers_key:
  "jmembers (Suc n) d (json_str k @ r) = (case skip_ws r of
     [] \<Rightarrow> None
   | colon # r1 \<Rightarrow>
       if colon \<noteq> CHR '':'' then None
       else (case jval n (skip_ws r1) of
           None \<Rightarrow> None
         | Some (v, r2) \<Rightarrow> (case skip_ws r2 of
             [] \<Rightarrow> None
           | x # r3 \<Rightarrow>
               if x = CHR ''}'' then Some (JObj (dset k v d), r3)
               else if x = CHR '','' then jmembers n (dset k v d) (skip_ws r3)
               else None)))"
  unfolding json_str_append jmembers.simps(2) by (simp only: list.case if_False simp_thms parse_quoted option.case prod.case)

text \<open>The members of a written dictionary, with a fresh key each.\<close>

lemma jmembers_written:
  assumes "d \<noteq> []" "length d < n"
  shows "jmembers n acc (join '', '' (map (\<lambda>(k, v). json_str k @ '': '' @ json_str v) d) @ ''}'' @ rest) =
    Some (JObj (foldl (\<lambda>a (k, v). dset k (JStr v) a) acc d), rest)"
  using assms
proof (induction d arbitrary: acc n)
  case Nil
  then show ?case by simp
next
  case (Cons e d)
  obtain k v where e: "e = (k, v)" by fastforce
  obtain m where n: "n = Suc (Suc m)" "length d < Suc m" using Cons.prems(2) by (cases n; cases "n - 1") auto
  have ws: "\<not> is_json_ws CHR '':''" "\<not> is_json_ws CHR '',''" "\<not> is_json_ws CHR ''}''" "\<not> is_json_ws QUOTE"
      "is_json_ws CHR '' ''"
    by code_simp+
  have one: "jmembers (Suc (Suc m)) acc (json_str k @ '': '' @ json_str v @ tail) =
      (case skip_ws tail of [] \<Rightarrow> None
       | x # r3 \<Rightarrow> if x = CHR ''}'' then Some (JObj (dset k (JStr v) acc), r3)
                   else if x = CHR '','' then jmembers (Suc m) (dset k (JStr v) acc) (skip_ws r3) else None)" for tail
  proof -
    have "skip_ws ('' '' @ json_str v @ tail) = json_str v @ tail"
      by (simp add: skip_ws_def ws json_str_append)
    then show ?thesis unfolding jmembers_key
      by (simp add: skip_ws_stop ws jval_str)
  qed
  show ?case
  proof (cases d)
    case Nil
    then show ?thesis using one [of "''}'' @ rest"] e n(1) by (simp add: skip_ws_stop ws)
  next
    case (Cons f fs)
    let ?tail = "join '', '' (map (\<lambda>(k, v). json_str k @ '': '' @ json_str v) d) @ ''}'' @ rest"
    have "skip_ws (CHR '' '' # ?tail) = ?tail"
      using Cons by (cases f; cases fs) (simp_all add: skip_ws_def ws json_str_append)
    then show ?thesis
      using one [of "'', '' @ ?tail"] Cons.IH [of "Suc m" "dset k (JStr v) acc"] e n Cons
      by (simp add: skip_ws_stop ws)
  qed
qed

lemma foldl_dset_distinct:
  "distinct (map fst (acc @ d)) \<Longrightarrow>
   foldl (\<lambda>a (k, v). dset k (f v) a) (map (apsnd f) acc) d = map (apsnd f) (acc @ d)"
proof (induction d arbitrary: acc)
  case Nil
  then show ?case by simp
next
  case (Cons e d)
  obtain k v where e: "e = (k, v)" by fastforce
  have "k \<notin> set (map fst acc)" using Cons.prems e by auto
  then have "dset k (f v) (map (apsnd f) acc) = map (apsnd f) (acc @ [e])"
    by (subst dset_new) (auto simp: e map_of_eq_None_iff image_image)
  then show ?case using Cons.IH [of "acc @ [e]"] Cons.prems by (simp add: e)
qed

lemma dumps_length: "length d < length (dumps_strings d)"
proof -
  have "length d \<le> Suc (length (join '', '' (map (\<lambda>(k, v). json_str k @ '': '' @ json_str v) d)))"
  proof (induction d)
    case (Cons e d)
    then show ?case by (cases d; cases e) (auto simp: json_str_def)
  qed simp
  then show ?thesis by (simp add: dumps_strings_def)
qed

lemma loads_dumps: "dict_wf d \<Longrightarrow> json_loads (dumps_strings d) = Some (JObj (map (apsnd JStr) d))"
proof (cases "d = []")
  case True
  then show ?thesis by simp code_simp
next
  case False
  assume wf: "dict_wf d"
  let ?body = "join '', '' (map (\<lambda>(k, v). json_str k @ '': '' @ json_str v) d) @ ''}''"
  have ws: "\<not> is_json_ws CHR ''{''" "\<not> is_json_ws QUOTE" by code_simp+
  obtain cs where cs: "?body = QUOTE # cs"
    using False by (cases d; cases "tl d") (auto simp: json_str_def split: prod.splits)
  have s: "dumps_strings d = CHR ''{'' # ?body" by (simp add: dumps_strings_def)
  have "jmembers (length (dumps_strings d)) [] ?body = Some (JObj (map (apsnd JStr) d), [])"
    using jmembers_written [OF False, of "length (dumps_strings d)" "[]" "[]"] dumps_length [of d]
      foldl_dset_distinct [of "[]" d JStr] wf by (simp add: dict_wf_def)
  then have "jval (Suc (length (dumps_strings d))) (CHR ''{'' # ?body) = Some (JObj (map (apsnd JStr) d), [])"
    unfolding jval.simps(2) cs by (simp add: skip_ws_stop ws)
  then show ?thesis unfolding json_loads_def s by (simp add: skip_ws_stop ws) (simp add: skip_ws_def)
qed

end
