(* ===== verification/Authored.thy ===== *)
theory Authored
  imports Sha256 Json Supersession Github
begin

text \<open>
  \<open>authored.py\<close>: ideas people state directly (\<open>ingest_directive\<close>) or paste as prose
  (\<open>ingest_pasted_text\<close>), their removal (\<open>delete_authored_source\<close>), and the scan that lets an
  authored idea supersede inferred ones.  The state extends the one of the learning service by
  the in-memory \<open>MemKvStore\<close>.  The NLI model (a label, or none when the call raises), fresh
  identifiers and the clock are parameters; \<open>env\<close> is what other writers do before a conditional
  write.
\<close>

section \<open>The memory store\<close>

definition AUTHORED_TEXT_SIZE_CAP :: nat where
  "AUTHORED_TEXT_SIZE_CAP = 64000"

definition AUTHORITY_USER_DIRECTIVE :: string where
  "AUTHORITY_USER_DIRECTIVE = ''user_directive''"

definition AUTHORITY_AUTHORED_IMPORT :: string where
  "AUTHORITY_AUTHORED_IMPORT = ''authored_import''"

record mem_entry =
  me_user_id :: string
  me_project_id :: string
  me_name :: string
  me_content :: string
  me_kind :: string
  me_updated_at :: int

type_synonym mem_store = "(string \<times> string \<times> string, mem_entry) dict"

definition mem_put_entry :: "mem_entry \<Rightarrow> mem_store \<Rightarrow> mem_store" where
  "mem_put_entry e m = dset (me_project_id e, me_user_id e, me_name e) e m"

definition mem_get :: "string \<Rightarrow> string \<Rightarrow> string \<Rightarrow> mem_store \<Rightarrow> mem_entry option" where
  "mem_get project_id user_id name m = dget m (project_id, user_id, name)"

definition mem_delete :: "string \<Rightarrow> string \<Rightarrow> string \<Rightarrow> mem_store \<Rightarrow> bool \<times> mem_store" where
  "mem_delete project_id user_id name m =
     (dget m (project_id, user_id, name) \<noteq> None, dpop (project_id, user_id, name) m)"

definition mem_list_for_project :: "string \<Rightarrow> mem_store \<Rightarrow> mem_entry list" where
  "mem_list_for_project project_id m = dvals_where (\<lambda>(pid, _, _) _. pid = project_id) m"

definition mem_list_for_user :: "string \<Rightarrow> string \<Rightarrow> mem_store \<Rightarrow> mem_entry list" where
  "mem_list_for_user project_id user_id m =
     dvals_where (\<lambda>(pid, uid, _) _. pid = project_id \<and> uid = user_id) m"

record aworld = lworld +
  w_mem :: mem_store

definition on_mem :: "(mem_store \<Rightarrow> mem_store) \<Rightarrow> ('a aworld_scheme, unit) py" where
  "on_mem f = pmodify (\<lambda>w. w\<lparr>w_mem := f (w_mem w)\<rparr>)"

section \<open>Input hygiene\<close>

text \<open>\<open>re.sub\<close> of a pattern whose first part is group 1, by the group followed by a constant.\<close>

function sub_group_from :: "rx \<Rightarrow> rx \<Rightarrow> string \<Rightarrow> string \<Rightarrow> string \<Rightarrow> string" where
  "sub_group_from r1 r2 repl l s =
     (case concat (map (\<lambda>d. map (\<lambda>e. (d, e)) (ends r2 d)) (ends r1 (l, s))) of
        (d, e) # _ \<Rightarrow>
          if length (snd e) < length s
          then take (length s - length (snd d)) s @ repl @ sub_group_from r1 r2 repl (fst e) (snd e)
          else (case s of [] \<Rightarrow> [] | x # xs \<Rightarrow> x # sub_group_from r1 r2 repl (x # l) xs)
      | [] \<Rightarrow> (case s of [] \<Rightarrow> [] | x # xs \<Rightarrow> x # sub_group_from r1 r2 repl (x # l) xs))"
  by pat_completeness auto

termination
  by (relation "measure (\<lambda>(_, _, _, _, s). length s)") auto

declare sub_group_from.simps [simp del]

definition AUTHORED_KEYWORD_RE :: rx where
  "AUTHORED_KEYWORD_RE = rx_alt (map rx_ilit [''key'', ''secret'', ''token'', ''password'', ''passwd'', ''pwd''])"

definition AUTHORED_VALUE_RE :: rx where
  "AUTHORED_VALUE_RE = rx_seq [rx_spaces, RSet (\<lambda>c. c = CHR '':'' \<or> c = CHR ''=''), rx_spaces, rx_plus (RSet (\<lambda>c. \<not> is_space c))]"

definition authored_aws_re :: rx where
  "authored_aws_re = RSeq (rx_lit ''AKIA'') (rx_times 16 (RSet (\<lambda>c. in_range (CHR ''0'') (CHR ''9'') c \<or> in_range (CHR ''A'') (CHR ''Z'') c)))"

definition authored_bearer_re :: rx where
  "authored_bearer_re = rx_seq [rx_ilit ''bearer'', rx_spaces1, rx_plus (RSet (alnum_or ''-._~+/'')), RStar (rx_lit ''='')]"

definition authored_pem_re :: rx where
  "authored_pem_re = rx_seq [rx_lit ''-----BEGIN '', rx_plus (RSet (\<lambda>c. in_range (CHR ''A'') (CHR ''Z'') c \<or> c = CHR '' '')), rx_lit ''-----'']"

definition authored_pat_re :: rx where
  "authored_pat_re = RSeq (rx_alt [rx_lit ''ghp_'', rx_lit ''gho_'', rx_lit ''github_pat_'']) (rx_plus (RSet (alnum_or ''_'')))"

definition authored_scrub_secrets :: "string \<Rightarrow> string" where
  "authored_scrub_secrets text =
     (let text = re_sub authored_aws_re ''<AWS_KEY>'' text;
          text = sub_group_from AUTHORED_KEYWORD_RE AUTHORED_VALUE_RE '': <REDACTED>'' [] text;
          text = re_sub authored_bearer_re ''Bearer <TOKEN>'' text;
          text = re_sub JWT_RE ''<JWT>'' text;
          text = re_sub authored_pem_re ''<PEM_HEADER>'' text
      in re_sub authored_pat_re ''<GITHUB_PAT>'' text)"

text \<open>
  Truncation to \<open>cap\<close> bytes of UTF-8.  A character cut in half is decoded as U+FFFD, which is not
  a character of the model; the substitute control character stands for it.
\<close>

definition REPLACEMENT :: char where
  "REPLACEMENT = CHR 0x1A"

fun take_bytes :: "nat \<Rightarrow> string \<Rightarrow> string" where
  "take_bytes n [] = []"
| "take_bytes n (c # cs) =
     (let b = (if cp c < 128 then 1 else 2) in
      if b \<le> n then c # take_bytes (n - b) cs else if n = 0 then [] else [REPLACEMENT])"

definition apply_size_cap :: "string \<Rightarrow> string" where
  "apply_size_cap text =
     (if AUTHORED_TEXT_SIZE_CAP < length (utf8 text) then take_bytes AUTHORED_TEXT_SIZE_CAP text else text)"

definition sanitize_authored_text :: "string \<Rightarrow> string" where
  "sanitize_authored_text text = authored_scrub_secrets (apply_size_cap text)"

definition content_hash :: "string \<Rightarrow> string" where
  "content_hash text = take 16 (sha256_hexdigest text)"

definition decompose_text_into_paragraphs :: "string \<Rightarrow> string list" where
  "decompose_text_into_paragraphs text = filter (\<lambda>p. 10 \<le> length p) (map strip (split_blank_lines text))"

section \<open>Nodes\<close>

record authored_node =
  an_idea_id :: string
  an_authority_kind :: string
  an_body :: string
  an_content_hash :: string
  an_source_name :: string
  an_is_new :: bool

record authored_result =
  ar_source_name :: string
  ar_kind :: string
  ar_nodes_written :: "authored_node list"
  ar_nodes_deduped :: int
  ar_supersessions :: "string list"

definition source_ref :: "string \<Rightarrow> string \<Rightarrow> string \<Rightarrow> (string, string) dict" where
  "source_ref kind label hash = [(''kind'', kind), (''label'', label), (''contentHash'', hash)]"

definition make_authored_idea ::
    "string \<Rightarrow> string \<Rightarrow> string \<Rightarrow> string \<Rightarrow> string \<Rightarrow> (string, string) dict \<Rightarrow> string option \<Rightarrow> idea_record" where
  "make_authored_idea org idea_id skill_base_name body authority_kind ref scope_tag =
     (mk_idea idea_id skill_base_name org body ''open'' 0)
       \<lparr>idea_authored := Some True, idea_authorityKind := Some authority_kind,
        idea_sourceRef := Some (dumps_strings ref), idea_scopeTag := scope_tag\<rparr>"

text \<open>\<open>ref.get(k) == v\<close>; anything but a JSON object has no \<open>get\<close>.\<close>

definition ref_has :: "json \<Rightarrow> string \<Rightarrow> string \<Rightarrow> py_exn + bool" where
  "ref_has ref k v = (case ref of JObj d \<Rightarrow> Inr (dget d k = Some (JStr v)) | _ \<Rightarrow> Inl AttributeError)"

text \<open>The parsed \<open>sourceRef\<close> of an authored idea, when there is one that parses.\<close>

definition authored_ref :: "idea_record \<Rightarrow> json option" where
  "authored_ref r = (if idea_authored r \<noteq> Some True then None
     else case idea_sourceRef r of None \<Rightarrow> None | Some t \<Rightarrow> json_loads t)"

fun first_authored_node :: "string \<Rightarrow> string \<Rightarrow> idea_record list \<Rightarrow> py_exn + idea_record option" where
  "first_authored_node source_name hash [] = Inr None"
| "first_authored_node source_name hash (r # rs) = (case authored_ref r of
     None \<Rightarrow> first_authored_node source_name hash rs
   | Some ref \<Rightarrow> (case ref_has ref ''label'' source_name of
       Inl e \<Rightarrow> Inl e
     | Inr l \<Rightarrow> if l \<and> ref_has ref ''contentHash'' hash = Inr True then Inr (Some r)
                else first_authored_node source_name hash rs))"

definition find_existing_authored_node ::
    "string \<Rightarrow> string \<Rightarrow> string \<Rightarrow> string \<Rightarrow> learning_store \<Rightarrow> py_exn + idea_record option" where
  "find_existing_authored_node org skill_base_name source_name hash s =
     first_authored_node source_name hash (list_current_ideas org skill_base_name s)"

fun nodes_for_source :: "string \<Rightarrow> string \<Rightarrow> idea_record list \<Rightarrow> py_exn + idea_record list" where
  "nodes_for_source skill_base_name source_name [] = Inr []"
| "nodes_for_source skill_base_name source_name (r # rs) = (case authored_ref r of
     None \<Rightarrow> nodes_for_source skill_base_name source_name rs
   | Some ref \<Rightarrow> (case ref_has ref ''label'' source_name of
       Inl e \<Rightarrow> Inl e
     | Inr l \<Rightarrow> (case nodes_for_source skill_base_name source_name rs of
         Inl e \<Rightarrow> Inl e
       | Inr ns \<Rightarrow> Inr (if l \<and> idea_skillBaseName r = skill_base_name then r # ns else ns))))"

definition find_all_authored_nodes_for_source ::
    "string \<Rightarrow> string \<Rightarrow> string \<Rightarrow> learning_store \<Rightarrow> py_exn + idea_record list" where
  "find_all_authored_nodes_for_source org skill_base_name source_name s =
     nodes_for_source skill_base_name source_name (list_all_ideas_for_org org s)"

text \<open>A read that may raise.\<close>

definition pread :: "('s \<Rightarrow> py_exn + 'a) \<Rightarrow> ('s, 'a) py" where
  "pread f s = (f s, s)"

lemma pread_apply [py_simps]: "pread f s = (f s, s)"
  by (simp add: pread_def)

section \<open>The semantic scan\<close>

definition quick_overlap :: "string \<Rightarrow> string \<Rightarrow> bool" where
  "quick_overlap body_a body_b \<longleftrightarrow> words body_a \<noteq> {} \<and> words body_b \<noteq> {} \<and>
     flit (15/100) \<le> jaccard (words body_a) (words body_b)"

text \<open>\<open>supersede_fn(org, incumbent_idea_id, incumbent_skill_base_name, challenger_idea_id,
  challenger_authority_kind, now_ms)\<close>.\<close>

type_synonym supersede_fn = "string \<Rightarrow> string \<Rightarrow> string \<Rightarrow> string \<Rightarrow> string \<Rightarrow> int \<Rightarrow> (learning_store, unit) py"

text \<open>The adapter to \<open>supersession.supersede\<close>, without gate, tracker, telemetry and skill store.\<close>

definition make_supersede_fn :: "string \<Rightarrow> (learning_store \<Rightarrow> learning_store) \<Rightarrow> supersede_fn" where
  "make_supersede_fn unfold_mode env org incumbent_idea_id incumbent_skill challenger_idea_id kind now = (\<lambda>s.
     let rq = \<lparr>sr_org = org, sr_incumbent_idea_id = incumbent_idea_id,
           sr_incumbent_skill_base_name = incumbent_skill, sr_challenger_idea_id = Some challenger_idea_id,
           sr_challenger_skill_base_name = None, sr_challenger_pr_number = 0,
           sr_challenger_owner_repo = ''authored'', sr_challenger_authority_kind = kind,
           sr_idea_body_to_remove = None\<rparr>;
         (r, w) = supersede rq unfold_mode None default_delta env (\<lambda>_ sk. sk) now
           \<lparr>w_store = s, w_tel = None, w_skills = None, w_thrash = None\<rparr>
     in (map_sum id (\<lambda>_. ()) r, w_store w))"

definition scan_candidate ::
    "string \<Rightarrow> idea_record \<Rightarrow> (string \<Rightarrow> string \<Rightarrow> string option) \<Rightarrow> supersede_fn \<Rightarrow> int \<Rightarrow>
     idea_record \<Rightarrow> string list \<Rightarrow> (learning_store, string list) py" where
  "scan_candidate org authored nli supersede_call now candidate ids =
     (if \<not> quick_overlap (idea_body authored) (idea_body candidate) then pret ids
      else if nli (idea_body authored) (idea_body candidate) \<noteq> Some ''contradiction'' then pret ids
      else (\<lambda>s. case supersede_call org (idea_ideaId candidate) (idea_skillBaseName candidate) (idea_ideaId authored)
                 (str_or (idea_authorityKind authored) AUTHORITY_USER_DIRECTIVE) now s of
           (Inr _, s1) \<Rightarrow> (Inr (ids @ [idea_ideaId candidate]), s1)
         | (Inl _, s1) \<Rightarrow> (Inr ids, s1)))"

definition run_authored_semantic_scan ::
    "string \<Rightarrow> idea_record \<Rightarrow> (string \<Rightarrow> string \<Rightarrow> string option) option \<Rightarrow> supersede_fn option \<Rightarrow> int \<Rightarrow>
     (learning_store, string list) py" where
  "run_authored_semantic_scan org authored nli supersede_call now = (case (nli, supersede_call) of
     (Some f, Some g) \<Rightarrow>
       pbind (pget (list_all_ideas_for_org org)) (\<lambda>all_org_ideas.
       pfor (scan_candidate org authored f g now)
         (filter (\<lambda>i. idea_authorityKind i = Some ''merged'' \<and> idea_invalidAt i = None) all_org_ideas) [])
   | _ \<Rightarrow> pret [])"

section \<open>Directives\<close>

text \<open>A conditional write that is skipped on a version conflict.\<close>

definition retire_or_skip ::
    "(learning_store \<Rightarrow> learning_store) \<Rightarrow> idea_record \<Rightarrow> int \<Rightarrow> string list \<Rightarrow> (learning_store, string list) py" where
  "retire_or_skip env updated version ids = (\<lambda>s.
     case put_idea_conditional updated version (env s) of
       (Inr _, s1) \<Rightarrow> (Inr (ids @ [idea_ideaId updated]), s1)
     | (Inl e, s1) \<Rightarrow> (case e of VersionConflictError _ _ _ \<Rightarrow> (Inr ids, s1) | _ \<Rightarrow> (Inl e, s1)))"

definition supersede_earlier_one ::
    "idea_record \<Rightarrow> string \<Rightarrow> (string \<Rightarrow> learning_store \<Rightarrow> learning_store) \<Rightarrow> int \<Rightarrow> idea_record \<Rightarrow> string list \<Rightarrow>
     (learning_store, string list) py" where
  "supersede_earlier_one new_idea source_name env now old ids =
     (if idea_ideaId old = idea_ideaId new_idea then pret ids
      else if idea_invalidAt old \<noteq> None then pret ids
      else case json_loads (str_or (idea_sourceRef old) ''{}'') of
          None \<Rightarrow> pret ids
        | Some ref \<Rightarrow> (case ref_has ref ''label'' source_name of
            Inl e \<Rightarrow> praise e
          | Inr l \<Rightarrow> if \<not> l then pret ids
                     else retire_or_skip (env (idea_ideaId old))
                       (retired_idea now (Some (idea_ideaId new_idea)) old) (idea_corroborationVersion old) ids))"

definition supersede_earlier_directive ::
    "string \<Rightarrow> idea_record \<Rightarrow> string \<Rightarrow> (string \<Rightarrow> learning_store \<Rightarrow> learning_store) \<Rightarrow> int \<Rightarrow>
     (learning_store, string list) py" where
  "supersede_earlier_directive org new_idea source_name env now =
     pbind (pread (find_all_authored_nodes_for_source org (idea_skillBaseName new_idea) source_name)) (\<lambda>existing.
     pfor (supersede_earlier_one new_idea source_name env now) existing [])"

text \<open>What a call is about; \<open>ac_name\<close> is the source name of a paste.\<close>

record authored_call =
  ac_org :: string
  ac_project_id :: string
  ac_user_id :: string
  ac_name :: string
  ac_content :: string
  ac_skill_base_name :: string
  ac_scope_tag :: "string option"

definition call_entry :: "authored_call \<Rightarrow> string \<Rightarrow> int \<Rightarrow> mem_entry" where
  "call_entry c kind now = \<lparr>me_user_id = ac_user_id c, me_project_id = ac_project_id c, me_name = ac_name c,
     me_content = sanitize_authored_text (ac_content c), me_kind = kind, me_updated_at = now\<rparr>"

definition authored_source :: "string \<Rightarrow> string \<Rightarrow> string \<Rightarrow> string \<Rightarrow> idea_source" where
  "authored_source org idea_id source_id kind = (mk_source idea_id source_id org)\<lparr>src_authorityKind := Some kind\<rparr>"

definition directive_idea :: "authored_call \<Rightarrow> string \<Rightarrow> idea_record" where
  "directive_idea c idea_id = (let sanitized = sanitize_authored_text (ac_content c) in
     make_authored_idea (ac_org c) idea_id (ac_skill_base_name c) sanitized AUTHORITY_USER_DIRECTIVE
       (source_ref AUTHORITY_USER_DIRECTIVE (ac_name c) (content_hash sanitized)) (ac_scope_tag c))"

definition ingest_directive ::
    "authored_call \<Rightarrow> string \<Rightarrow> (string \<Rightarrow> string \<Rightarrow> string option) option \<Rightarrow> supersede_fn option \<Rightarrow>
     (string \<Rightarrow> learning_store \<Rightarrow> learning_store) \<Rightarrow> int \<Rightarrow> ('a aworld_scheme, authored_result) py" where
  "ingest_directive c idea_id nli supersede_call env now =
     pbind (org_guard (ac_org c) ''ingest_directive'') (\<lambda>_.
     let sanitized = sanitize_authored_text (ac_content c); hash = content_hash sanitized in
     pbind (on_mem (mem_put_entry (call_entry c ''directive'' now))) (\<lambda>_.
     pbind (on_store (pread (find_existing_authored_node (ac_org c) (ac_skill_base_name c) (ac_name c) hash))) (\<lambda>existing.
     if existing \<noteq> None
     then pret \<lparr>ar_source_name = ac_name c, ar_kind = ''directive'', ar_nodes_written = [],
            ar_nodes_deduped = 1, ar_supersessions = []\<rparr>
     else
       let idea = directive_idea c idea_id in
       pbind (on_store (put_idea idea)) (\<lambda>_.
       pbind (on_store (put_idea_source
         (authored_source (ac_org c) idea_id (''directive#'' @ hash) AUTHORITY_USER_DIRECTIVE))) (\<lambda>_.
       pbind (on_tel (record_idea_authority AUTHORITY_USER_DIRECTIVE)) (\<lambda>_.
       pbind (on_store (supersede_earlier_directive (ac_org c) idea (ac_name c) env now)) (\<lambda>superseded.
       pbind (on_store (run_authored_semantic_scan (ac_org c) idea nli supersede_call now)) (\<lambda>inferred_superseded.
       pret \<lparr>ar_source_name = ac_name c, ar_kind = ''directive'',
         ar_nodes_written = [\<lparr>an_idea_id = idea_id, an_authority_kind = AUTHORITY_USER_DIRECTIVE, an_body = sanitized,
           an_content_hash = hash, an_source_name = ac_name c, an_is_new = True\<rparr>],
         ar_nodes_deduped = 0, ar_supersessions = superseded @ inferred_superseded\<rparr>))))))))"

text \<open>The agent tool delegates to \<open>ingest_directive\<close>.\<close>

definition remember_tool ::
    "authored_call \<Rightarrow> string \<Rightarrow> (string \<Rightarrow> string \<Rightarrow> string option) option \<Rightarrow> supersede_fn option \<Rightarrow>
     (string \<Rightarrow> learning_store \<Rightarrow> learning_store) \<Rightarrow> int \<Rightarrow> ('a aworld_scheme, authored_result) py" where
  "remember_tool = ingest_directive"

section \<open>Pasted text\<close>

definition import_idea :: "authored_call \<Rightarrow> string \<Rightarrow> string \<Rightarrow> idea_record" where
  "import_idea c idea_id para = make_authored_idea (ac_org c) idea_id (ac_skill_base_name c) para AUTHORITY_AUTHORED_IMPORT
     (source_ref AUTHORITY_AUTHORED_IMPORT (ac_name c) (content_hash para)) (ac_scope_tag c)"

text \<open>\<open>ids n\<close> is the result of call \<open>n\<close> of \<open>idea_id_factory\<close>.\<close>

definition ingest_paragraph ::
    "authored_call \<Rightarrow> (nat \<Rightarrow> string) \<Rightarrow> (string \<Rightarrow> string \<Rightarrow> string option) option \<Rightarrow> supersede_fn option \<Rightarrow> int \<Rightarrow>
     string \<Rightarrow> authored_result \<Rightarrow> ('a aworld_scheme, authored_result) py" where
  "ingest_paragraph c ids nli supersede_call now para res =
     (let hash = content_hash para in
      pbind (on_store (pread (find_existing_authored_node (ac_org c) (ac_skill_base_name c) (ac_name c) hash))) (\<lambda>existing.
      if existing \<noteq> None then pret (res\<lparr>ar_nodes_deduped := ar_nodes_deduped res + 1\<rparr>)
      else
        let idea_id = ids (length (ar_nodes_written res)); idea = import_idea c idea_id para in
        pbind (on_store (put_idea idea)) (\<lambda>_.
        pbind (on_store (put_idea_source
          (authored_source (ac_org c) idea_id (''authored#'' @ hash) AUTHORITY_AUTHORED_IMPORT))) (\<lambda>_.
        pbind (on_tel (record_idea_authority AUTHORITY_AUTHORED_IMPORT)) (\<lambda>_.
        pbind (on_store (run_authored_semantic_scan (ac_org c) idea nli supersede_call now)) (\<lambda>inferred_superseded.
        pret (res\<lparr>ar_nodes_written := ar_nodes_written res @
            [\<lparr>an_idea_id = idea_id, an_authority_kind = AUTHORITY_AUTHORED_IMPORT, an_body = para,
              an_content_hash = hash, an_source_name = ac_name c, an_is_new = True\<rparr>],
          ar_supersessions := ar_supersessions res @ inferred_superseded\<rparr>)))))))"

definition ingest_pasted_text ::
    "authored_call \<Rightarrow> (nat \<Rightarrow> string) \<Rightarrow> (string \<Rightarrow> string \<Rightarrow> string option) option \<Rightarrow> supersede_fn option \<Rightarrow> int \<Rightarrow>
     ('a aworld_scheme, authored_result) py" where
  "ingest_pasted_text c ids nli supersede_call now =
     pbind (org_guard (ac_org c) ''ingest_pasted_text'') (\<lambda>_.
     pbind (on_mem (mem_put_entry (call_entry c ''paste'' now))) (\<lambda>_.
     pfor (ingest_paragraph c ids nli supersede_call now)
       (decompose_text_into_paragraphs (sanitize_authored_text (ac_content c)))
       \<lparr>ar_source_name = ac_name c, ar_kind = ''paste'', ar_nodes_written = [], ar_nodes_deduped = 0,
        ar_supersessions = []\<rparr>))"

section \<open>Deletion\<close>

definition unbridged_idea :: "int \<Rightarrow> idea_record \<Rightarrow> idea_record" where
  "unbridged_idea now r = r\<lparr>idea_corroborationVersion := idea_corroborationVersion r + 1, idea_invalidAt := Some now\<rparr>"

definition delete_authored_source ::
    "string \<Rightarrow> string \<Rightarrow> string \<Rightarrow> string \<Rightarrow> string \<Rightarrow> (string \<Rightarrow> learning_store \<Rightarrow> learning_store) \<Rightarrow> int \<Rightarrow>
     ('a aworld_scheme, string list) py" where
  "delete_authored_source org project_id user_id source_name skill_base_name env now =
     pbind (org_guard org ''delete_authored_source'') (\<lambda>_.
     pbind (on_mem (\<lambda>m. snd (mem_delete project_id user_id source_name m))) (\<lambda>_.
     pbind (on_store (pread (find_all_authored_nodes_for_source org skill_base_name source_name))) (\<lambda>nodes.
     on_store (pfor (\<lambda>idea ids. if idea_invalidAt idea \<noteq> None then pret ids
       else retire_or_skip (env (idea_ideaId idea)) (unbridged_idea now idea) (idea_corroborationVersion idea) ids) nodes []))))"

end
