(* ===== verification/AuthoredProps.thy ===== *)
theory AuthoredProps
  imports Authored BulkUpdate
begin

text \<open>
  Properties of the authored lane: what a directive writes and which earlier directives it
  retires, that stating it again is a no-op, that deleting a source un-bridges it without
  removing anything, whose directives share a slot, what a re-paste leaves behind, and what the
  semantic scan reports in shadow mode.
\<close>

section \<open>Authored nodes of a source\<close>

definition ref_field :: "idea_record \<Rightarrow> string \<Rightarrow> string option" where
  "ref_field r k = (case authored_ref r of Some (JObj d) \<Rightarrow> (case dget d k of Some (JStr v) \<Rightarrow> Some v | _ \<Rightarrow> None) | _ \<Rightarrow> None)"

text \<open>Every source reference of an authored idea that parses is an object, as the writers of
  this module store it; the scan raises on any other.\<close>

definition ref_ok :: "idea_record \<Rightarrow> bool" where
  "ref_ok r = (case authored_ref r of None \<Rightarrow> True | Some (JObj _) \<Rightarrow> True | _ \<Rightarrow> False)"

definition refs_ok :: "string \<Rightarrow> learning_store \<Rightarrow> bool" where
  "refs_ok org s = list_all ref_ok (list_all_ideas_for_org org s)"

lemma refs_okD: "store_wf s \<Longrightarrow> refs_ok org s \<Longrightarrow> get_idea org sk i s = Some r \<Longrightarrow> ref_ok r"
  by (auto simp: refs_ok_def list_all_iff all_ideas_iff)

lemma refs_okI: "store_wf s \<Longrightarrow> (\<And>sk i r. get_idea org sk i s = Some r \<Longrightarrow> ref_ok r) \<Longrightarrow> refs_ok org s"
  by (auto simp: refs_ok_def list_all_iff all_ideas_iff)

lemma nodes_for_source_filter:
  "list_all ref_ok rs \<Longrightarrow> nodes_for_source sk src rs =
     Inr (filter (\<lambda>r. ref_field r ''label'' = Some src \<and> idea_skillBaseName r = sk) rs)"
proof (induction rs)
  case Nil
  then show ?case by simp
next
  case (Cons r rs)
  then show ?case
    by (cases "authored_ref r")
       (auto simp: ref_ok_def ref_has_def ref_field_def split: json.splits option.splits)
qed

lemma first_authored_node_find:
  "list_all ref_ok rs \<Longrightarrow> first_authored_node src hash rs =
     Inr (find (\<lambda>r. ref_field r ''label'' = Some src \<and> ref_field r ''contentHash'' = Some hash) rs)"
proof (induction rs)
  case Nil
  then show ?case by simp
next
  case (Cons r rs)
  then show ?case
    by (cases "authored_ref r")
       (auto simp: ref_ok_def ref_has_def ref_field_def split: json.splits option.splits)
qed

lemma authored_ref_made:
  "authored_ref (make_authored_idea org i sk body kind (source_ref kind label hash) scope) =
     Some (JObj [(''kind'', JStr kind), (''label'', JStr label), (''contentHash'', JStr hash)])"
  using loads_dumps [of "source_ref kind label hash"]
  by (simp add: authored_ref_def make_authored_idea_def source_ref_def dict_wf_def)

lemma ref_field_made:
  "ref_field (make_authored_idea org i sk body kind (source_ref kind label hash) scope) ''label'' = Some label"
  "ref_field (make_authored_idea org i sk body kind (source_ref kind label hash) scope) ''contentHash'' = Some hash"
  "ref_ok (make_authored_idea org i sk body kind (source_ref kind label hash) scope)"
  by (simp_all add: ref_field_def ref_ok_def authored_ref_made)

lemma authored_ref_retired [simp]:
  "authored_ref (retired_idea now by r) = authored_ref r" "authored_ref (unbridged_idea now r) = authored_ref r"
  by (simp_all add: authored_ref_def retired_idea_def unbridged_idea_def)

lemma ref_retired [simp]:
  "ref_field (retired_idea now by r) k = ref_field r k" "ref_field (unbridged_idea now r) k = ref_field r k"
  "ref_ok (retired_idea now by r) = ref_ok r" "ref_ok (unbridged_idea now r) = ref_ok r"
  by (simp_all add: ref_field_def ref_ok_def)

lemma retired_fields [simp]:
  "idea_pk (retired_idea now by r) = idea_pk r" "idea_pk (unbridged_idea now r) = idea_pk r"
  "idea_org (retired_idea now by r) = idea_org r" "idea_org (unbridged_idea now r) = idea_org r"
  "idea_ideaId (retired_idea now by r) = idea_ideaId r" "idea_ideaId (unbridged_idea now r) = idea_ideaId r"
  "idea_invalidAt (retired_idea now by r) = Some now" "idea_invalidAt (unbridged_idea now r) = Some now"
  by (simp_all add: retired_idea_def unbridged_idea_def idea_pk_def)

lemma retired_neq [simp]: "idea_invalidAt r = None \<Longrightarrow> retired_idea now by r \<noteq> r"
proof
  assume "idea_invalidAt r = None" "retired_idea now by r = r"
  then show False using retired_fields(7) [of now "by" r] by simp
qed

text \<open>The listing of a skill's authored nodes with a label, and of a skill's current ideas.\<close>

lemma nodes_found:
  assumes "refs_ok org s"
  shows "find_all_authored_nodes_for_source org sk src s =
    Inr (filter (\<lambda>r. ref_field r ''label'' = Some src \<and> idea_skillBaseName r = sk) (list_all_ideas_for_org org s))"
  using assms by (simp add: find_all_authored_nodes_for_source_def nodes_for_source_filter refs_ok_def)

lemma existing_found:
  assumes "store_wf s" "refs_ok org s"
  shows "find_existing_authored_node org sk src hash s = Inr None \<longleftrightarrow>
    \<not> (\<exists>i r. get_idea org sk i s = Some r \<and> idea_invalidAt r = None \<and> ref_field r ''label'' = Some src \<and>
      ref_field r ''contentHash'' = Some hash)"
    "\<exists>o'. find_existing_authored_node org sk src hash s = Inr o'"
proof -
  have "list_all ref_ok (list_current_ideas org sk s)"
    using refs_okD [OF assms] by (auto simp: list_all_iff list_current_ideas_iff [OF assms(1)])
  note f = first_authored_node_find [OF this]
  show "find_existing_authored_node org sk src hash s = Inr None \<longleftrightarrow>
    \<not> (\<exists>i r. get_idea org sk i s = Some r \<and> idea_invalidAt r = None \<and> ref_field r ''label'' = Some src \<and>
      ref_field r ''contentHash'' = Some hash)"
    by (auto simp: find_existing_authored_node_def f find_None_iff list_current_ideas_iff [OF assms(1)])
  show "\<exists>o'. find_existing_authored_node org sk src hash s = Inr o'"
    by (simp add: find_existing_authored_node_def f)
qed

section \<open>Retiring the nodes of a source\<close>

lemma retire_or_skip_alone:
  assumes "dget (ls_ideas s) (idea_pk r) = Some r" "idea_pk u = idea_pk r" "idea_org u = idea_org r" "\<not> blank (idea_org r)"
  shows "retire_or_skip (\<lambda>s. s) u (idea_corroborationVersion r) ids s = (Inr (ids @ [idea_ideaId u]), set_idea u s)"
  using assms by (simp add: retire_or_skip_def py_simps version_at_def set_idea_def)

definition node_of :: "string \<Rightarrow> string \<Rightarrow> string \<Rightarrow> idea_record \<Rightarrow> bool" where
  "node_of org sk src r \<longleftrightarrow> idea_org r = org \<and> idea_skillBaseName r = sk \<and> ref_field r ''label'' = Some src"

abbreviation source_nodes :: "string \<Rightarrow> string \<Rightarrow> string \<Rightarrow> learning_store \<Rightarrow> idea_record list" where
  "source_nodes org sk src s \<equiv>
     filter (\<lambda>r. ref_field r ''label'' = Some src \<and> idea_skillBaseName r = sk) (list_all_ideas_for_org org s)"

lemma source_nodes_iff:
  assumes "store_wf s" "get_idea g sk' i s = Some r"
  shows "r \<in> set (source_nodes org sk src s) \<longleftrightarrow> node_of org sk src r"
  using get_idea_key [OF assms] assms by (auto simp: node_of_def all_ideas_iff dest: get_idea_key)

lemma fold_append_ids: "fold (\<lambda>r ids. if P r then ids @ [idea_ideaId r] else ids) xs ids = ids @ map idea_ideaId (filter P xs)"
  by (induction xs arbitrary: ids) simp_all

lemma authored_ref_parsed: "ref_field r k = Some v \<Longrightarrow>
    \<exists>d. json_loads (str_or (idea_sourceRef r) ''{}'') = Some (JObj d) \<and> ref_field r = (\<lambda>k. case dget d k of Some (JStr v) \<Rightarrow> Some v | _ \<Rightarrow> None)"
proof -
  assume f: "ref_field r k = Some v"
  then obtain d where d: "authored_ref r = Some (JObj d)" by (auto simp: ref_field_def split: option.splits json.splits)
  then obtain t where t: "idea_sourceRef r = Some t" "json_loads t = Some (JObj d)"
    by (auto simp: authored_ref_def split: option.splits if_splits)
  have "json_loads [] = None" by code_simp
  with t have "str_or (idea_sourceRef r) ''{}'' = t" by (auto simp: str_or_def)
  with t d show ?thesis by (intro exI [of _ d]) (simp add: ref_field_def fun_eq_iff)
qed

lemma supersede_earlier_alone:
  assumes wf: "store_wf s" and ok: "refs_ok org s" and org: "\<not> blank org" and sk: "idea_skillBaseName new = sk"
  shows "supersede_earlier_directive org new src (\<lambda>_ s. s) now s =
    (let P = (\<lambda>r. idea_ideaId r \<noteq> idea_ideaId new \<and> idea_invalidAt r = None) in
     (Inr (map idea_ideaId (filter P (source_nodes org sk src s))),
      update_listed P (retired_idea now (Some (idea_ideaId new))) (source_nodes org sk src s) s))"
proof -
  let ?P = "\<lambda>r. idea_ideaId r \<noteq> idea_ideaId new \<and> idea_invalidAt r = None"
  let ?f = "retired_idea now (Some (idea_ideaId new))"
  have "pfor (supersede_earlier_one new src (\<lambda>_ s. s) now) (source_nodes org sk src s) [] s =
      (Inr (fold (\<lambda>r ids. if ?P r then ids @ [idea_ideaId r] else ids) (source_nodes org sk src s) []),
       update_listed ?P ?f (source_nodes org sk src s) s)"
  proof (rule pfor_update_listed [OF listed_in_filter [OF listed_in_all [OF wf]]])
    fix r acc d
    assume r: "r \<in> set (source_nodes org sk src s)" "dget d (idea_pk r) = Some r"
    then have g: "idea_org r = org" "ref_field r ''label'' = Some src"
      using get_idea_key [OF wf] by (auto simp: all_ideas_iff [OF wf])
    obtain e where e: "json_loads (str_or (idea_sourceRef r) ''{}'') = Some (JObj e)" "dget e ''label'' = Some (JStr src)"
      using authored_ref_parsed [OF g(2)] g(2) by (auto split: option.splits json.splits)
    have "retire_or_skip (\<lambda>s. s) (?f r) (idea_corroborationVersion r) acc (s\<lparr>ls_ideas := d\<rparr>) =
        (Inr (acc @ [idea_ideaId r]), set_idea (?f r) (s\<lparr>ls_ideas := d\<rparr>))"
      using retire_or_skip_alone [of "s\<lparr>ls_ideas := d\<rparr>" r "?f r" acc] r(2) g(1) org by simp
    then show "supersede_earlier_one new src (\<lambda>_ s. s) now r acc (s\<lparr>ls_ideas := d\<rparr>) =
        (Inr (if ?P r then acc @ [idea_ideaId r] else acc),
         if ?P r then set_idea (?f r) (s\<lparr>ls_ideas := d\<rparr>) else s\<lparr>ls_ideas := d\<rparr>)"
      by (simp add: supersede_earlier_one_def e ref_has_def py_simps)
  qed simp
  then show ?thesis
    by (simp add: supersede_earlier_directive_def py_simps nodes_found [OF ok] sk fold_append_ids Let_def)
qed

section \<open>A directive\<close>

definition call_hash :: "authored_call \<Rightarrow> string" where
  "call_hash c = content_hash (sanitize_authored_text (ac_content c))"

definition after_bridge :: "authored_call \<Rightarrow> string \<Rightarrow> learning_store \<Rightarrow> learning_store" where
  "after_bridge c i s = (set_idea (directive_idea c i) s)\<lparr>ls_idea_sources :=
     dset (ac_org c, i, ''directive#'' @ call_hash c)
       (authored_source (ac_org c) i (''directive#'' @ call_hash c) AUTHORITY_USER_DIRECTIVE) (ls_idea_sources s)\<rparr>"

lemma directive_idea_simps [simp]:
  "idea_org (directive_idea c i) = ac_org c" "idea_skillBaseName (directive_idea c i) = ac_skill_base_name c"
  "idea_ideaId (directive_idea c i) = i" "idea_invalidAt (directive_idea c i) = None"
  "idea_pk (directive_idea c i) = (ac_org c, ac_skill_base_name c, i)"
  "ref_field (directive_idea c i) ''label'' = Some (ac_name c)"
  "ref_field (directive_idea c i) ''contentHash'' = Some (call_hash c)" "ref_ok (directive_idea c i)"
  by (simp_all add: directive_idea_def Let_def ref_field_made call_hash_def)
     (simp_all add: make_authored_idea_def mk_idea_def idea_pk_def)

lemma after_bridge_run:
  assumes "\<not> blank (ac_org c)" "i \<noteq> []"
  shows "after_bridge c i s = snd (run_op (PutIdeaSource
      (authored_source (ac_org c) i (''directive#'' @ call_hash c) AUTHORITY_USER_DIRECTIVE))
      (snd (run_op (PutIdea (directive_idea c i)) s)))"
    "put_idea (directive_idea c i) s = (Inr (), set_idea (directive_idea c i) s)"
    "put_idea_source (authored_source (ac_org c) i (''directive#'' @ call_hash c) AUTHORITY_USER_DIRECTIVE)
      (set_idea (directive_idea c i) s) = (Inr (), after_bridge c i s)"
  using assms by (simp_all add: py_simps authored_source_def mk_source_def after_bridge_def set_idea_def)

lemma after_bridge_wf: "\<not> blank (ac_org c) \<Longrightarrow> i \<noteq> [] \<Longrightarrow> store_wf s \<Longrightarrow> store_wf (after_bridge c i s)"
  using after_bridge_run(1) store_wf_step by metis

lemma after_bridge_get: "get_idea g sk j (after_bridge c i s) =
    (if (g, sk, j) = (ac_org c, ac_skill_base_name c, i) then Some (directive_idea c i) else get_idea g sk j s)"
  by (simp add: after_bridge_def set_idea_def get_idea_def dict_simps)

lemma after_bridge_refs_ok:
  assumes "\<not> blank (ac_org c)" "i \<noteq> []" "store_wf s" "refs_ok (ac_org c) s"
  shows "refs_ok (ac_org c) (after_bridge c i s)"
proof (rule refs_okI [OF after_bridge_wf [OF assms(1-3)]])
  fix sk j r assume "get_idea (ac_org c) sk j (after_bridge c i s) = Some r"
  then show "ref_ok r" using refs_okD [OF assms(3,4)] by (auto simp: after_bridge_get split: if_splits)
qed

definition directive_store :: "authored_call \<Rightarrow> string \<Rightarrow> int \<Rightarrow> learning_store \<Rightarrow> learning_store" where
  "directive_store c i now s = update_listed (\<lambda>r. idea_ideaId r \<noteq> i \<and> idea_invalidAt r = None) (retired_idea now (Some i))
     (source_nodes (ac_org c) (ac_skill_base_name c) (ac_name c) (after_bridge c i s)) (after_bridge c i s)"

definition directive_retired :: "authored_call \<Rightarrow> string \<Rightarrow> learning_store \<Rightarrow> string list" where
  "directive_retired c i s = map idea_ideaId (filter (\<lambda>r. idea_ideaId r \<noteq> i \<and> idea_invalidAt r = None)
     (source_nodes (ac_org c) (ac_skill_base_name c) (ac_name c) (after_bridge c i s)))"

lemma ingest_directive_new:
  assumes "store_wf (w_store w)" "refs_ok (ac_org c) (w_store w)" "\<not> blank (ac_org c)" "i \<noteq> []"
    and "find_existing_authored_node (ac_org c) (ac_skill_base_name c) (ac_name c) (call_hash c) (w_store w) = Inr None"
  shows "ingest_directive c i None g (\<lambda>_ s. s) now w =
    (Inr \<lparr>ar_source_name = ac_name c, ar_kind = ''directive'',
        ar_nodes_written = [\<lparr>an_idea_id = i, an_authority_kind = AUTHORITY_USER_DIRECTIVE,
          an_body = sanitize_authored_text (ac_content c), an_content_hash = call_hash c,
          an_source_name = ac_name c, an_is_new = True\<rparr>],
        ar_nodes_deduped = 0, ar_supersessions = directive_retired c i (w_store w)\<rparr>,
     w\<lparr>w_mem := mem_put_entry (call_entry c ''directive'' now) (w_mem w),
       w_store := directive_store c i now (w_store w),
       w_tel := map_option (record_idea_authority AUTHORITY_USER_DIRECTIVE) (w_tel w)\<rparr>)"
proof -
  have s: "supersede_earlier_directive (ac_org c) (directive_idea c i) (ac_name c) (\<lambda>_ s. s) now (after_bridge c i (w_store w)) =
      (Inr (directive_retired c i (w_store w)), directive_store c i now (w_store w))"
    using supersede_earlier_alone [OF after_bridge_wf [OF assms(3,4,1)] after_bridge_refs_ok [OF assms(3,4,1,2)] assms(3),
        of "directive_idea c i" "ac_skill_base_name c" "ac_name c" now]
    by (simp add: directive_retired_def directive_store_def)
  note b = after_bridge_run(2,3) [OF assms(3,4), of "w_store w", simplified]
  show ?thesis
    unfolding ingest_directive_def Let_def call_hash_def [symmetric]
    by (simp add: pbind_apply org_guard_apply on_mem_def pmodify_apply on_store_apply pread_apply on_tel_apply
        pret_apply assms(3,5) b s run_authored_semantic_scan_def)
qed

text \<open>A directive is retired by a new one of the same organisation, skill and name.\<close>

definition replaced :: "authored_call \<Rightarrow> idea_record \<Rightarrow> bool" where
  "replaced c r \<longleftrightarrow> node_of (ac_org c) (ac_skill_base_name c) (ac_name c) r \<and> idea_invalidAt r = None"

lemma directive_store_get:
  assumes "store_wf s" "\<not> blank (ac_org c)" "i \<noteq> []"
  shows "get_idea g sk j (directive_store c i now s) =
    (if (g, sk, j) = (ac_org c, ac_skill_base_name c, i) then Some (directive_idea c i)
     else map_option (\<lambda>r. if replaced c r \<and> j \<noteq> i then retired_idea now (Some i) r else r) (get_idea g sk j s))"
proof -
  let ?s = "after_bridge c i s"
  have wf: "store_wf ?s" by (rule after_bridge_wf [OF assms(2,3,1)])
  have "get_idea g sk j (directive_store c i now s) =
    map_option (\<lambda>r. if r \<in> set (source_nodes (ac_org c) (ac_skill_base_name c) (ac_name c) ?s) \<and>
      (idea_ideaId r \<noteq> i \<and> idea_invalidAt r = None) then retired_idea now (Some i) r else r) (get_idea g sk j ?s)"
    unfolding directive_store_def
    by (rule update_listed_get_idea [OF wf listed_in_filter [OF listed_in_all [OF wf]]]) simp
  also have "\<dots> = map_option (\<lambda>r. if node_of (ac_org c) (ac_skill_base_name c) (ac_name c) r \<and> j \<noteq> i \<and> idea_invalidAt r = None
      then retired_idea now (Some i) r else r) (get_idea g sk j ?s)"
    by (rule option.map_cong [OF refl])
       (use source_nodes_iff [OF wf] get_idea_key [OF wf] in \<open>auto simp del: set_filter\<close>)
  finally show ?thesis by (auto simp: after_bridge_get replaced_def intro!: option.map_cong)
qed

lemma mem_get_put: "mem_get p u n (mem_put_entry e m) =
    (if (p, u, n) = (me_project_id e, me_user_id e, me_name e) then Some e else mem_get p u n m)"
  by (simp add: mem_get_def mem_put_entry_def dict_simps)

text \<open>The retired ideas reported are exactly those that were.\<close>

lemma directive_retired_iff:
  assumes "store_wf s" "\<not> blank (ac_org c)" "i \<noteq> []"
  shows "j \<in> set (directive_retired c i s) \<longleftrightarrow>
    j \<noteq> i \<and> (\<exists>r. get_idea (ac_org c) (ac_skill_base_name c) j s = Some r \<and> replaced c r)"
proof -
  let ?s = "after_bridge c i s"
  have wf: "store_wf ?s" by (rule after_bridge_wf [OF assms(2,3,1)])
  let ?nodes = "source_nodes (ac_org c) (ac_skill_base_name c) (ac_name c) ?s"
  have nodes: "r \<in> set ?nodes \<longleftrightarrow> get_idea (ac_org c) (ac_skill_base_name c) (idea_ideaId r) ?s = Some r \<and>
      node_of (ac_org c) (ac_skill_base_name c) (ac_name c) r" for r
  proof
    assume r: "r \<in> set ?nodes"
    then obtain sk j where g: "get_idea (ac_org c) sk j ?s = Some r" by (auto simp: all_ideas_iff [OF wf])
    then show "get_idea (ac_org c) (ac_skill_base_name c) (idea_ideaId r) ?s = Some r \<and>
        node_of (ac_org c) (ac_skill_base_name c) (ac_name c) r"
      using r source_nodes_iff [OF wf g] get_idea_key [OF wf g] by (auto simp: node_of_def)
  next
    assume "get_idea (ac_org c) (ac_skill_base_name c) (idea_ideaId r) ?s = Some r \<and>
        node_of (ac_org c) (ac_skill_base_name c) (ac_name c) r"
    then show "r \<in> set ?nodes" using source_nodes_iff [OF wf] by blast
  qed
  have "j \<in> set (directive_retired c i s) \<longleftrightarrow> (\<exists>r \<in> set ?nodes. idea_ideaId r \<noteq> i \<and> idea_invalidAt r = None \<and> j = idea_ideaId r)"
    by (auto simp: directive_retired_def)
  also have "\<dots> \<longleftrightarrow> (\<exists>r. get_idea (ac_org c) (ac_skill_base_name c) j ?s = Some r \<and> j \<noteq> i \<and> replaced c r)"
    unfolding Bex_def nodes replaced_def using get_idea_key [OF wf] by blast
  finally show ?thesis by (auto simp: after_bridge_get)
qed

lemma directive_store_wf:
  assumes "store_wf s" "\<not> blank (ac_org c)" "i \<noteq> []"
  shows "store_wf (directive_store c i now s)"
proof -
  have wf: "store_wf (after_bridge c i s)" by (rule after_bridge_wf [OF assms(2,3,1)])
  have "\<not> blank (idea_org r)" if "r \<in> set (list_all_ideas_for_org (ac_org c) (after_bridge c i s))" for r
    using that assms(2) get_idea_key [OF wf] by (auto simp: all_ideas_iff [OF wf])
  then show ?thesis unfolding directive_store_def by (intro update_listed_wf [OF wf]) simp
qed

lemma directive_store_refs_ok:
  assumes "store_wf s" "refs_ok (ac_org c) s" "\<not> blank (ac_org c)" "i \<noteq> []"
  shows "refs_ok (ac_org c) (directive_store c i now s)"
proof (rule refs_okI [OF directive_store_wf [OF assms(1,3,4)]])
  fix sk j r assume "get_idea (ac_org c) sk j (directive_store c i now s) = Some r"
  then show "ref_ok r" using refs_okD [OF assms(1,2)]
    by (auto simp: directive_store_get [OF assms(1,3,4)] split: if_splits)
qed

section \<open>Properties\<close>


definition rule_call :: authored_call where
  "rule_call = \<lparr>ac_org = ''acme'', ac_project_id = ''p'', ac_user_id = ''u1'', ac_name = ''style'',
     ac_content = ''Write short sentences.'', ac_skill_base_name = ''sk'', ac_scope_tag = Some ''project''\<rparr>"

definition old_rule :: idea_record where
  "old_rule = (mk_idea ''d0'' ''sk'' ''acme'' ''Write long sentences.'' ''open'' 0)
     \<lparr>idea_authored := Some True, idea_authorityKind := Some AUTHORITY_USER_DIRECTIVE,
      idea_sourceRef := Some (dumps_strings [(''label'', ''style'')])\<rparr>"

definition rule_world :: aworld where
  "rule_world = \<lparr>w_store = set_idea old_rule empty_store, w_tel = None, w_mem = []\<rparr>"

lemma old_rule_fields:
  "idea_pk old_rule = (''acme'', ''sk'', ''d0'')" "idea_org old_rule = ''acme''" "idea_invalidAt old_rule = None"
  "idea_skillBaseName old_rule = ''sk''" "idea_ideaId old_rule = ''d0''"
  by (simp_all add: old_rule_def mk_idea_def idea_pk_def)

lemma old_rule_ref:
  "ref_field old_rule ''label'' = Some ''style''" "ref_field old_rule ''contentHash'' = None" "ref_ok old_rule"
  using loads_dumps [of "[(''label'', ''style'')]"]
  by (simp_all add: ref_field_def ref_ok_def authored_ref_def old_rule_def dict_wf_def)

lemma rule_world_ok:
  "store_wf (w_store rule_world)" "refs_ok ''acme'' (w_store rule_world)" "\<not> blank (ac_org rule_call)"
  "get_idea g sk j (w_store rule_world) = (if (g, sk, j) = (''acme'', ''sk'', ''d0'') then Some old_rule else None)"
  "find_existing_authored_node (ac_org rule_call) (ac_skill_base_name rule_call) (ac_name rule_call) (call_hash rule_call)
     (w_store rule_world) = Inr None"
proof -
  have acme: "\<not> blank (ac_org rule_call)" "\<not> blank ''acme''" by code_simp+
  show wf: "store_wf (w_store rule_world)"
    unfolding rule_world_def by (simp add: set_idea_wf [OF store_wf_empty] old_rule_fields acme)
  show get: "get_idea g sk j (w_store rule_world) = (if (g, sk, j) = (''acme'', ''sk'', ''d0'') then Some old_rule else None)"
    for g sk j by (simp add: rule_world_def get_idea_def set_idea_def empty_store_def old_rule_fields dict_simps)
  show ok: "refs_ok ''acme'' (w_store rule_world)"
    by (rule refs_okI [OF wf]) (auto simp: get old_rule_ref split: if_splits)
  show "\<not> blank (ac_org rule_call)" by (rule acme)
  show "find_existing_authored_node (ac_org rule_call) (ac_skill_base_name rule_call) (ac_name rule_call) (call_hash rule_call)
     (w_store rule_world) = Inr None"
    using existing_found(1) [OF wf ok] by (simp add: rule_call_def get old_rule_ref)
qed


text \<open>Stating the same directive again is a no-op of the idea
  graph, whatever the model, the scan and other writers would do: it is found by its source name and content
  hash, which survive the JSON round trip, nothing is written but the memory entry, and the
  result counts one deduplicated node.\<close>

theorem directive_idempotent:
  assumes "store_wf (w_store w)" and "refs_ok (ac_org c) (w_store w)" and "\<not> blank (ac_org c)" and "i \<noteq> []"
    and "find_existing_authored_node (ac_org c) (ac_skill_base_name c) (ac_name c) (call_hash c) (w_store w) = Inr None"
    and "ingest_directive c i None g (\<lambda>_ s. s) now w = (Inr res, w')"
  shows "ingest_directive c j nli g' env' now' w' =
    (Inr \<lparr>ar_source_name = ac_name c, ar_kind = ''directive'', ar_nodes_written = [], ar_nodes_deduped = 1,
       ar_supersessions = []\<rparr>,
     w'\<lparr>w_mem := mem_put_entry (call_entry c ''directive'' now') (w_mem w')\<rparr>)"
proof -
  have w': "w_store w' = directive_store c i now (w_store w)"
    using assms(6) unfolding ingest_directive_new [OF assms(1-5)] by auto
  note wf = directive_store_wf [OF assms(1,3,4), of now] and ok = directive_store_refs_ok [OF assms(1-4), of now]
  have get: "get_idea (ac_org c) (ac_skill_base_name c) i (directive_store c i now (w_store w)) = Some (directive_idea c i)"
    by (simp add: directive_store_get [OF assms(1,3,4)])
  have "find_existing_authored_node (ac_org c) (ac_skill_base_name c) (ac_name c) (call_hash c)
      (directive_store c i now (w_store w)) \<noteq> Inr None"
    unfolding existing_found(1) [OF wf ok] not_not
    by (rule exI [of _ i], rule exI [of _ "directive_idea c i"]) (simp add: get)
  then obtain r where r: "find_existing_authored_node (ac_org c) (ac_skill_base_name c) (ac_name c) (call_hash c)
      (w_store w') = Inr (Some r)"
    using existing_found(2) [OF wf ok, of "ac_skill_base_name c" "ac_name c" "call_hash c"] by (auto simp: w')
  show ?thesis
    unfolding ingest_directive_def Let_def call_hash_def [symmetric]
    by (simp add: pbind_apply org_guard_apply on_mem_def pmodify_apply on_store_apply pread_apply pret_apply assms(3) r)
qed

lemma directive_idempotent_witness:
  "\<exists>res w' res' w2. ingest_directive rule_call ''d1'' None None (\<lambda>_ s. s) 5 rule_world = (Inr res, w') \<and>
    ingest_directive rule_call ''d2'' None None (\<lambda>_ s. s) 6 w' = (Inr res', w2) \<and> w_store w2 = w_store w' \<and>
    ar_nodes_deduped res' = 1"
proof -
  have ok: "refs_ok (ac_org rule_call) (w_store rule_world)" using rule_world_ok(2) by (simp add: rule_call_def)
  obtain res w' where run: "ingest_directive rule_call ''d1'' None None (\<lambda>_ s. s) 5 rule_world = (Inr res, w')"
    using ingest_directive_new [OF rule_world_ok(1) ok rule_world_ok(3) _ rule_world_ok(5), of "''d1''"] by auto
  then show ?thesis
    using directive_idempotent [OF rule_world_ok(1) ok rule_world_ok(3) _ rule_world_ok(5) run, of "''d2''"] by auto
qed

section \<open>Deletion\<close>

lemma delete_alone:
  assumes "store_wf (w_store w)" "refs_ok org (w_store w)" "\<not> blank org"
  shows "delete_authored_source org p u src sk (\<lambda>_ s. s) now w =
    (Inr (map idea_ideaId (filter (\<lambda>r. idea_invalidAt r = None) (source_nodes org sk src (w_store w)))),
     w\<lparr>w_mem := dpop (p, u, src) (w_mem w),
       w_store := update_listed (\<lambda>r. idea_invalidAt r = None) (unbridged_idea now) (source_nodes org sk src (w_store w)) (w_store w)\<rparr>)"
proof -
  let ?s = "w_store w"
  have "pfor (\<lambda>idea ids. if idea_invalidAt idea \<noteq> None then pret ids
       else retire_or_skip (\<lambda>s. s) (unbridged_idea now idea) (idea_corroborationVersion idea) ids) (source_nodes org sk src ?s) [] ?s =
      (Inr (fold (\<lambda>r ids. if idea_invalidAt r = None then ids @ [idea_ideaId r] else ids) (source_nodes org sk src ?s) []),
       update_listed (\<lambda>r. idea_invalidAt r = None) (unbridged_idea now) (source_nodes org sk src ?s) ?s)"
  proof (rule pfor_update_listed [OF listed_in_filter [OF listed_in_all [OF assms(1)]]])
    fix r acc d
    assume r: "r \<in> set (source_nodes org sk src ?s)" "dget d (idea_pk r) = Some r"
    then have g: "idea_org r = org" using get_idea_key [OF assms(1)] by (auto simp: all_ideas_iff [OF assms(1)])
    have "retire_or_skip (\<lambda>s. s) (unbridged_idea now r) (idea_corroborationVersion r) acc (?s\<lparr>ls_ideas := d\<rparr>) =
        (Inr (acc @ [idea_ideaId r]), set_idea (unbridged_idea now r) (?s\<lparr>ls_ideas := d\<rparr>))"
      using retire_or_skip_alone [of "?s\<lparr>ls_ideas := d\<rparr>" r "unbridged_idea now r" acc] r(2) g assms(3) by simp
    then show "(if idea_invalidAt r \<noteq> None then pret acc
         else retire_or_skip (\<lambda>s. s) (unbridged_idea now r) (idea_corroborationVersion r) acc) (?s\<lparr>ls_ideas := d\<rparr>) =
        (Inr (if idea_invalidAt r = None then acc @ [idea_ideaId r] else acc),
         if idea_invalidAt r = None then set_idea (unbridged_idea now r) (?s\<lparr>ls_ideas := d\<rparr>) else ?s\<lparr>ls_ideas := d\<rparr>)"
      by (simp add: pret_apply)
  qed simp
  then show ?thesis
    by (simp add: delete_authored_source_def pbind_apply org_guard_apply on_mem_def pmodify_apply on_store_apply
        pread_apply assms(3) nodes_found [OF assms(2)] fold_append_ids mem_delete_def)
qed

text \<open>C27: Deleting a source, with no other writer, removes its memory
  entry and un-bridges its nodes: every current idea of the organisation and skill with that
  source name gets an end time and the next version, whoever stated it, no idea is removed and
  no other one changes, and the memory entry of every other user with the same name stays.\<close>

theorem delete_unbridges:
  assumes "store_wf (w_store w)" and "refs_ok org (w_store w)" and "\<not> blank org"
  shows "\<exists>ids w'. delete_authored_source org p u src sk (\<lambda>_ s. s) now w = (Inr ids, w') \<and>
    (\<forall>p' u' n. mem_get p' u' n (w_mem w') = (if (p', u', n) = (p, u, src) then None else mem_get p' u' n (w_mem w))) \<and>
    (\<forall>g k j. get_idea g k j (w_store w') = map_option (\<lambda>r. if node_of org sk src r \<and> idea_invalidAt r = None
       then r\<lparr>idea_corroborationVersion := idea_corroborationVersion r + 1, idea_invalidAt := Some now\<rparr> else r)
       (get_idea g k j (w_store w)))"
proof -
  have m: "mem_get p' u' n (dpop (p, u, src) (w_mem w)) = (if (p', u', n) = (p, u, src) then None else mem_get p' u' n (w_mem w))"
    for p' u' n by (simp add: mem_get_def delete_conv')
  have "get_idea g k j (update_listed (\<lambda>r. idea_invalidAt r = None) (unbridged_idea now) (source_nodes org sk src (w_store w)) (w_store w)) =
      map_option (\<lambda>r. if r \<in> set (source_nodes org sk src (w_store w)) \<and> idea_invalidAt r = None then unbridged_idea now r else r)
       (get_idea g k j (w_store w))" for g k j
    by (rule update_listed_get_idea [OF assms(1) listed_in_filter [OF listed_in_all [OF assms(1)]]]) simp
  also have "\<dots> g k j = map_option (\<lambda>r. if node_of org sk src r \<and> idea_invalidAt r = None
       then r\<lparr>idea_corroborationVersion := idea_corroborationVersion r + 1, idea_invalidAt := Some now\<rparr> else r)
       (get_idea g k j (w_store w))" for g k j
    by (intro option.map_cong) (use source_nodes_iff [OF assms(1)] in \<open>auto simp: unbridged_idea_def simp del: set_filter\<close>)
  finally show ?thesis by (simp add: delete_alone [OF assms(1-3)] m)
qed

lemma delete_unbridges_witness:
  "\<exists>ids w'. delete_authored_source ''acme'' ''p'' ''u1'' ''style'' ''sk'' (\<lambda>_ s. s) 7 rule_world = (Inr ids, w') \<and>
    get_idea ''acme'' ''sk'' ''d0'' (w_store w') =
      Some (old_rule\<lparr>idea_corroborationVersion := 1, idea_invalidAt := Some 7\<rparr>)"
proof -
  have "node_of ''acme'' ''sk'' ''style'' old_rule" "idea_corroborationVersion old_rule = 0" "\<not> blank ''acme''"
    by (simp_all add: node_of_def old_rule_fields old_rule_ref old_rule_def [THEN arg_cong [where f = idea_corroborationVersion]]
        mk_idea_def)
  then show ?thesis
    using delete_unbridges [OF rule_world_ok(1,2), of "''p''" "''u1''" "''style''" "''sk''" 7] rule_world_ok(4)
    by (fastforce simp: old_rule_fields)
qed

text \<open>The slot of a source in the idea graph has no user in it: when a
  user states a directive and another user of the organisation deletes a source of the same
  name and skill, the directive is un-bridged while its own memory entry stays.\<close>

theorem delete_unbridges_other_users:
  assumes "store_wf (w_store w)" and "refs_ok (ac_org c) (w_store w)" and "\<not> blank (ac_org c)" and "i \<noteq> []"
    and "find_existing_authored_node (ac_org c) (ac_skill_base_name c) (ac_name c) (call_hash c) (w_store w) = Inr None"
    and "ingest_directive c i None g (\<lambda>_ s. s) now w = (Inr res, w1)"
    and "u \<noteq> ac_user_id c"
  shows "\<exists>ids w2. delete_authored_source (ac_org c) p u (ac_name c) (ac_skill_base_name c) (\<lambda>_ s. s) later w1 = (Inr ids, w2) \<and>
    mem_get (ac_project_id c) (ac_user_id c) (ac_name c) (w_mem w2) = Some (call_entry c ''directive'' now) \<and>
    map_option idea_invalidAt (get_idea (ac_org c) (ac_skill_base_name c) i (w_store w2)) = Some (Some later)"
proof -
  have w1: "w_store w1 = directive_store c i now (w_store w)"
      "w_mem w1 = mem_put_entry (call_entry c ''directive'' now) (w_mem w)"
    using assms(6) unfolding ingest_directive_new [OF assms(1-5)] by auto
  note wf = directive_store_wf [OF assms(1,3,4), of now] and ok = directive_store_refs_ok [OF assms(1-4), of now]
  have get: "get_idea (ac_org c) (ac_skill_base_name c) i (w_store w1) = Some (directive_idea c i)"
    by (simp add: w1 directive_store_get [OF assms(1,3,4)])
  let ?nodes = "source_nodes (ac_org c) (ac_skill_base_name c) (ac_name c) (w_store w1)"
  have "directive_idea c i \<in> set ?nodes"
    using get all_ideas_iff [OF wf] by (auto simp: w1)
  moreover have "get_idea g k j (update_listed (\<lambda>r. idea_invalidAt r = None) (unbridged_idea later) ?nodes (w_store w1)) =
      map_option (\<lambda>r. if r \<in> set ?nodes \<and> idea_invalidAt r = None then unbridged_idea later r else r)
       (get_idea g k j (w_store w1))" for g k j
    unfolding w1 by (rule update_listed_get_idea [OF wf listed_in_filter [OF listed_in_all [OF wf]]]) simp
  ultimately have "get_idea (ac_org c) (ac_skill_base_name c) i
      (update_listed (\<lambda>r. idea_invalidAt r = None) (unbridged_idea later) ?nodes (w_store w1)) =
      Some (unbridged_idea later (directive_idea c i))"
    by (simp add: get)
  moreover have "mem_get (ac_project_id c) (ac_user_id c) (ac_name c) (dpop (p, u, ac_name c) (w_mem w1)) =
      Some (call_entry c ''directive'' now)"
    using assms(7) by (simp add: mem_get_def delete_conv' w1 mem_put_entry_def dict_simps call_entry_def)
  ultimately show ?thesis
    using delete_alone [of w1 "ac_org c" p u "ac_name c" "ac_skill_base_name c" later] wf ok assms(3) by (simp add: w1)
qed

lemma delete_unbridges_other_users_witness:
  "\<exists>res w1 ids w2. ingest_directive rule_call ''d1'' None None (\<lambda>_ s. s) 5 rule_world = (Inr res, w1) \<and>
    delete_authored_source ''acme'' ''p'' ''u2'' ''style'' ''sk'' (\<lambda>_ s. s) 7 w1 = (Inr ids, w2) \<and>
    mem_get ''p'' ''u1'' ''style'' (w_mem w2) = Some (call_entry rule_call ''directive'' 5) \<and>
    map_option idea_invalidAt (get_idea ''acme'' ''sk'' ''d1'' (w_store w2)) = Some (Some 7)"
proof -
  have ok: "refs_ok (ac_org rule_call) (w_store rule_world)" using rule_world_ok(2) by (simp add: rule_call_def)
  have call: "ac_org rule_call = ''acme''" "ac_skill_base_name rule_call = ''sk''" "ac_name rule_call = ''style''"
      "ac_user_id rule_call = ''u1''" "ac_project_id rule_call = ''p''"
    by (simp_all add: rule_call_def)
  obtain res w1 where run: "ingest_directive rule_call ''d1'' None None (\<lambda>_ s. s) 5 rule_world = (Inr res, w1)"
    using ingest_directive_new [OF rule_world_ok(1) ok rule_world_ok(3) _ rule_world_ok(5), of "''d1''"] by auto
  then show ?thesis
    using delete_unbridges_other_users [OF rule_world_ok(1) ok rule_world_ok(3) _ rule_world_ok(5) run, of "''u2''" "''p''" 7]
    by (simp add: call)
qed

section \<open>The scan in shadow mode\<close>

lemma shadow_supersede_fn:
  assumes "\<not> blank org"
  shows "make_supersede_fn ''shadow'' env org i sk ch kind now s = (Inr (), s)"
proof -
  have "\<exists>res. supersede rq ''shadow'' None d env senv now w = (Inr res, w)" if "sr_org rq = org" for rq d senv w
    using assms that by (auto simp: supersede_def pbind_apply org_guard_apply split: option.split)
  from this [of "\<lparr>sr_org = org, sr_incumbent_idea_id = i,
           sr_incumbent_skill_base_name = sk, sr_challenger_idea_id = Some ch,
           sr_challenger_skill_base_name = None, sr_challenger_pr_number = 0,
           sr_challenger_owner_repo = ''authored'', sr_challenger_authority_kind = kind,
           sr_idea_body_to_remove = None\<rparr>" default_delta "\<lambda>_ sk. sk" "\<lparr>w_store = s, w_tel = None, w_skills = None, w_thrash = None\<rparr>"]
  show ?thesis by (auto simp: make_supersede_fn_def Let_def)
qed

text \<open>The production handler builds its supersede function without a
  mode, so it runs in shadow mode; the scan then writes nothing, yet it reports as superseded
  every current merged idea of the organisation that overlaps the new one and that the model
  calls a contradiction.\<close>

theorem shadow_scan_reports_unretired:
  assumes "\<not> blank org"
  shows "run_authored_semantic_scan org idea (Some nli) (Some (make_supersede_fn ''shadow'' env)) now s =
    (Inr (map idea_ideaId (filter (\<lambda>r. idea_authorityKind r = Some ''merged'' \<and> idea_invalidAt r = None \<and>
       quick_overlap (idea_body idea) (idea_body r) \<and> nli (idea_body idea) (idea_body r) = Some ''contradiction'')
       (list_all_ideas_for_org org s))), s)"
proof -
  have "pfor (scan_candidate org idea nli (make_supersede_fn ''shadow'' env) now) xs ids s =
      (Inr (ids @ map idea_ideaId (filter (\<lambda>r. quick_overlap (idea_body idea) (idea_body r) \<and>
         nli (idea_body idea) (idea_body r) = Some ''contradiction'') xs)), s)" for xs ids
    by (induction xs arbitrary: ids)
       (simp_all add: pret_apply pbind_apply scan_candidate_def shadow_supersede_fn [OF assms])
  then show ?thesis
    by (simp add: run_authored_semantic_scan_def pbind_apply pget_apply conj_ac)
qed

definition merged_demo_store :: learning_store where
  "merged_demo_store = set_idea (demo_idea\<lparr>idea_authorityKind := Some ''merged''\<rparr>) empty_store"

lemma shadow_scan_reports_unretired_witness:
  "run_authored_semantic_scan ''acme'' (demo_idea\<lparr>idea_ideaId := ''d1''\<rparr>) (Some (\<lambda>_ _. Some ''contradiction''))
    (Some (make_supersede_fn ''shadow'' (\<lambda>s. s))) 9 merged_demo_store = (Inr [''i1''], merged_demo_store)"
proof -
  have acme: "\<not> blank ''acme''" by code_simp
  have "map idea_ideaId (filter (\<lambda>r. idea_authorityKind r = Some ''merged'' \<and> idea_invalidAt r = None \<and>
       quick_overlap (idea_body (demo_idea\<lparr>idea_ideaId := ''d1''\<rparr>)) (idea_body r) \<and> Some ''contradiction'' = Some ''contradiction'')
       (list_all_ideas_for_org ''acme'' merged_demo_store)) = [''i1'']"
    by code_simp
  then show ?thesis
    using shadow_scan_reports_unretired [OF acme, of "demo_idea\<lparr>idea_ideaId := ''d1''\<rparr>" "\<lambda>_ _. Some ''contradiction''"
        "\<lambda>s. s" 9 merged_demo_store] by simp
qed

section \<open>Pasted text\<close>

lemma import_idea_simps [simp]:
  "idea_org (import_idea c i p) = ac_org c" "idea_skillBaseName (import_idea c i p) = ac_skill_base_name c"
  "idea_ideaId (import_idea c i p) = i" "idea_invalidAt (import_idea c i p) = None" "idea_body (import_idea c i p) = p"
  "idea_pk (import_idea c i p) = (ac_org c, ac_skill_base_name c, i)"
  "ref_field (import_idea c i p) ''label'' = Some (ac_name c)"
  "ref_field (import_idea c i p) ''contentHash'' = Some (content_hash p)" "ref_ok (import_idea c i p)"
  by (simp_all add: import_idea_def ref_field_made) (simp_all add: make_authored_idea_def mk_idea_def idea_pk_def)

definition after_import :: "authored_call \<Rightarrow> string \<Rightarrow> string \<Rightarrow> learning_store \<Rightarrow> learning_store" where
  "after_import c i p s = (set_idea (import_idea c i p) s)\<lparr>ls_idea_sources :=
     dset (ac_org c, i, ''authored#'' @ content_hash p)
       (authored_source (ac_org c) i (''authored#'' @ content_hash p) AUTHORITY_AUTHORED_IMPORT) (ls_idea_sources s)\<rparr>"

lemma after_import_run:
  assumes "\<not> blank (ac_org c)" "i \<noteq> []"
  shows "after_import c i p s = snd (run_op (PutIdeaSource
      (authored_source (ac_org c) i (''authored#'' @ content_hash p) AUTHORITY_AUTHORED_IMPORT))
      (snd (run_op (PutIdea (import_idea c i p)) s)))"
    "put_idea (import_idea c i p) s = (Inr (), set_idea (import_idea c i p) s)"
    "put_idea_source (authored_source (ac_org c) i (''authored#'' @ content_hash p) AUTHORITY_AUTHORED_IMPORT)
      (set_idea (import_idea c i p) s) = (Inr (), after_import c i p s)"
  using assms by (simp_all add: py_simps authored_source_def mk_source_def after_import_def set_idea_def)

lemma after_import_wf: "\<not> blank (ac_org c) \<Longrightarrow> i \<noteq> [] \<Longrightarrow> store_wf s \<Longrightarrow> store_wf (after_import c i p s)"
  using after_import_run(1) store_wf_step by metis

lemma after_import_get: "get_idea g sk j (after_import c i p s) =
    (if (g, sk, j) = (ac_org c, ac_skill_base_name c, i) then Some (import_idea c i p) else get_idea g sk j s)"
  by (simp add: after_import_def set_idea_def get_idea_def dict_simps)

lemma after_import_refs_ok:
  assumes "\<not> blank (ac_org c)" "i \<noteq> []" "store_wf s" "refs_ok (ac_org c) s"
  shows "refs_ok (ac_org c) (after_import c i p s)"
proof (rule refs_okI [OF after_import_wf [OF assms(1-3)]])
  fix sk j r assume "get_idea (ac_org c) sk j (after_import c i p s) = Some r"
  then show "ref_ok r" using refs_okD [OF assms(3,4)] by (auto simp: after_import_get split: if_splits)
qed

text \<open>A current node of the pasted source with the hash of a paragraph.\<close>

definition has_node :: "authored_call \<Rightarrow> learning_store \<Rightarrow> string \<Rightarrow> bool" where
  "has_node c s p \<longleftrightarrow> (\<exists>j r. get_idea (ac_org c) (ac_skill_base_name c) j s = Some r \<and> idea_invalidAt r = None \<and>
     ref_field r ''label'' = Some (ac_name c) \<and> ref_field r ''contentHash'' = Some (content_hash p))"

lemma ingest_paragraph_alone:
  assumes "store_wf (w_store w)" "refs_ok (ac_org c) (w_store w)" "\<not> blank (ac_org c)"
    and "ids (length (ar_nodes_written res)) \<noteq> []"
  shows "ingest_paragraph c ids None g now p res w =
    (if has_node c (w_store w) p then (Inr (res\<lparr>ar_nodes_deduped := ar_nodes_deduped res + 1\<rparr>), w)
     else (Inr (res\<lparr>ar_nodes_written := ar_nodes_written res @
         [\<lparr>an_idea_id = ids (length (ar_nodes_written res)), an_authority_kind = AUTHORITY_AUTHORED_IMPORT, an_body = p,
           an_content_hash = content_hash p, an_source_name = ac_name c, an_is_new = True\<rparr>]\<rparr>),
       w\<lparr>w_store := after_import c (ids (length (ar_nodes_written res))) p (w_store w),
         w_tel := map_option (record_idea_authority AUTHORITY_AUTHORED_IMPORT) (w_tel w)\<rparr>))"
proof -
  note b = after_import_run(2,3) [OF assms(3,4), of p "w_store w", simplified]
  have iff: "find_existing_authored_node (ac_org c) (ac_skill_base_name c) (ac_name c) (content_hash p) (w_store w) = Inr None \<longleftrightarrow>
      \<not> has_node c (w_store w) p"
    unfolding existing_found(1) [OF assms(1,2)] has_node_def ..
  obtain o' where o': "find_existing_authored_node (ac_org c) (ac_skill_base_name c) (ac_name c) (content_hash p) (w_store w) = Inr o'"
    using existing_found(2) [OF assms(1,2)] by blast
  show ?thesis
  proof (cases "has_node c (w_store w) p")
    case True
    then have "o' \<noteq> None" using iff o' by auto
    with True show ?thesis
      by (simp add: ingest_paragraph_def Let_def pbind_apply on_store_apply pread_apply pret_apply o')
  next
    case False
    then have "o' = None" using iff o' by auto
    with False show ?thesis
      by (simp add: ingest_paragraph_def Let_def pbind_apply on_store_apply pread_apply pret_apply on_tel_apply o' b
          run_authored_semantic_scan_def)
  qed
qed

text \<open>Identifiers the paste can use: none is empty, none repeats and, from the \<open>n\<close>-th on, none
  is that of a stored idea of the skill.\<close>

definition fresh_ids :: "authored_call \<Rightarrow> (nat \<Rightarrow> string) \<Rightarrow> nat \<Rightarrow> learning_store \<Rightarrow> bool" where
  "fresh_ids c ids n s \<longleftrightarrow> inj ids \<and> (\<forall>m. ids m \<noteq> []) \<and>
     (\<forall>m \<ge> n. get_idea (ac_org c) (ac_skill_base_name c) (ids m) s = None)"

definition ideas_kept :: "learning_store \<Rightarrow> learning_store \<Rightarrow> bool" where
  "ideas_kept s s' \<longleftrightarrow> (\<forall>g sk j r. get_idea g sk j s = Some r \<longrightarrow> get_idea g sk j s' = Some r)"

lemma ideas_kept_has_node: "ideas_kept s s' \<Longrightarrow> has_node c s p \<Longrightarrow> has_node c s' p"
  unfolding ideas_kept_def has_node_def by blast

lemma paste_loop:
  assumes "store_wf (w_store w)" "refs_ok (ac_org c) (w_store w)" "\<not> blank (ac_org c)"
    and "fresh_ids c ids (length (ar_nodes_written res)) (w_store w)"
  shows "\<exists>res' w'. pfor (ingest_paragraph c ids None g now) ps res w = (Inr res', w') \<and>
    store_wf (w_store w') \<and> refs_ok (ac_org c) (w_store w') \<and> ideas_kept (w_store w) (w_store w') \<and>
    (\<forall>p \<in> set ps. has_node c (w_store w') p) \<and> w_mem w' = w_mem w \<and>
    int (length (ar_nodes_written res')) + ar_nodes_deduped res' =
      int (length (ar_nodes_written res)) + ar_nodes_deduped res + int (length ps) \<and>
    ar_supersessions res' = ar_supersessions res \<and>
    (\<forall>g sk j r. get_idea g sk j (w_store w') = Some r \<and> get_idea g sk j (w_store w) = None \<longrightarrow>
       g = ac_org c \<and> sk = ac_skill_base_name c \<and> j \<in> range ids \<and> (\<exists>p \<in> set ps. r = import_idea c j p))"
  using assms
proof (induction ps arbitrary: res w)
  case Nil
  then show ?case by (auto simp: pret_apply ideas_kept_def)
next
  case (Cons p ps)
  let ?n = "length (ar_nodes_written res)"
  let ?s = "w_store w"
  have id: "ids ?n \<noteq> []" "get_idea (ac_org c) (ac_skill_base_name c) (ids ?n) ?s = None" and inj: "inj ids"
    using Cons.prems(4) by (simp_all add: fresh_ids_def)
  note step = ingest_paragraph_alone [OF Cons.prems(1-3), of ids res g now p, OF id(1)]
  show ?case
  proof (cases "has_node c ?s p")
    case True
    let ?res = "res\<lparr>ar_nodes_deduped := ar_nodes_deduped res + 1\<rparr>"
    obtain res' w' where ih: "pfor (ingest_paragraph c ids None g now) ps ?res w = (Inr res', w')"
        "store_wf (w_store w')" "refs_ok (ac_org c) (w_store w')" "ideas_kept ?s (w_store w')"
        "\<forall>p \<in> set ps. has_node c (w_store w') p" "w_mem w' = w_mem w"
        "int (length (ar_nodes_written res')) + ar_nodes_deduped res' = int ?n + ar_nodes_deduped res + 1 + int (length ps)"
        "ar_supersessions res' = ar_supersessions res"
        "\<forall>g sk j r. get_idea g sk j (w_store w') = Some r \<and> get_idea g sk j ?s = None \<longrightarrow>
          g = ac_org c \<and> sk = ac_skill_base_name c \<and> j \<in> range ids \<and> (\<exists>p \<in> set ps. r = import_idea c j p)"
      using Cons.IH [of w ?res] Cons.prems by auto
    have "has_node c (w_store w') p" by (rule ideas_kept_has_node [OF ih(4) True])
    then show ?thesis using ih True
      by (intro exI [of _ res'] exI [of _ w']) (auto simp: pbind_apply step)
  next
    case False
    let ?s1 = "after_import c (ids ?n) p ?s"
    let ?w1 = "w\<lparr>w_store := ?s1, w_tel := map_option (record_idea_authority AUTHORITY_AUTHORED_IMPORT) (w_tel w)\<rparr>"
    let ?res = "res\<lparr>ar_nodes_written := ar_nodes_written res @ [\<lparr>an_idea_id = ids ?n,
        an_authority_kind = AUTHORITY_AUTHORED_IMPORT, an_body = p, an_content_hash = content_hash p,
        an_source_name = ac_name c, an_is_new = True\<rparr>]\<rparr>"
    have fresh: "fresh_ids c ids (length (ar_nodes_written ?res)) (w_store ?w1)"
      using Cons.prems(4) inj by (auto simp: fresh_ids_def after_import_get inj_eq)
    obtain res' w' where ih: "pfor (ingest_paragraph c ids None g now) ps ?res ?w1 = (Inr res', w')"
        "store_wf (w_store w')" "refs_ok (ac_org c) (w_store w')" "ideas_kept ?s1 (w_store w')"
        "\<forall>p \<in> set ps. has_node c (w_store w') p" "w_mem w' = w_mem w"
        "int (length (ar_nodes_written res')) + ar_nodes_deduped res' = int ?n + 1 + ar_nodes_deduped res + int (length ps)"
        "ar_supersessions res' = ar_supersessions res"
        "\<forall>g sk j r. get_idea g sk j (w_store w') = Some r \<and> get_idea g sk j ?s1 = None \<longrightarrow>
          g = ac_org c \<and> sk = ac_skill_base_name c \<and> j \<in> range ids \<and> (\<exists>p \<in> set ps. r = import_idea c j p)"
      using Cons.IH [of ?w1 ?res] after_import_wf [OF Cons.prems(3) id(1) Cons.prems(1)]
        after_import_refs_ok [OF Cons.prems(3) id(1) Cons.prems(1,2)] Cons.prems(3) fresh by auto
    have kept: "ideas_kept ?s ?s1" using id(2) by (auto simp: ideas_kept_def after_import_get)
    have "ideas_kept ?s (w_store w')" using kept ih(4) by (simp add: ideas_kept_def)
    moreover have "has_node c (w_store w') p"
    proof (rule ideas_kept_has_node [OF ih(4)])
      show "has_node c ?s1 p" unfolding has_node_def
        by (rule exI [of _ "ids ?n"], rule exI [of _ "import_idea c (ids ?n) p"]) (simp add: after_import_get)
    qed
    moreover have "g = ac_org c \<and> sk = ac_skill_base_name c \<and> j \<in> range ids \<and> (\<exists>q \<in> set (p # ps). r = import_idea c j q)"
      if new: "get_idea g sk j (w_store w') = Some r" "get_idea g sk j ?s = None" for g sk j r
    proof (cases "(g, sk, j) = (ac_org c, ac_skill_base_name c, ids ?n)")
      case True
      then have "get_idea g sk j (w_store w') = Some (import_idea c (ids ?n) p)"
        using ih(4) by (simp add: ideas_kept_def after_import_get)
      with new(1) True show ?thesis by simp
    next
      case False
      then have "get_idea g sk j ?s1 = None" using new(2) by (auto simp: after_import_get)
      then show ?thesis using ih(9) new(1) by auto
    qed
    ultimately show ?thesis using ih(1-3,5-8) False
      by (intro exI [of _ res'] exI [of _ w']) (simp add: pbind_apply step, blast)
  qed
qed

abbreviation paste_paragraphs :: "authored_call \<Rightarrow> string list" where
  "paste_paragraphs c \<equiv> decompose_text_into_paragraphs (sanitize_authored_text (ac_content c))"

lemma ingest_pasted_text_alone:
  assumes "store_wf (w_store w)" "refs_ok (ac_org c) (w_store w)" "\<not> blank (ac_org c)" "fresh_ids c ids 0 (w_store w)"
  shows "\<exists>res w'. ingest_pasted_text c ids None g now w = (Inr res, w') \<and>
    store_wf (w_store w') \<and> refs_ok (ac_org c) (w_store w') \<and> ideas_kept (w_store w) (w_store w') \<and>
    (\<forall>p \<in> set (paste_paragraphs c). has_node c (w_store w') p) \<and>
    w_mem w' = mem_put_entry (call_entry c ''paste'' now) (w_mem w) \<and>
    int (length (ar_nodes_written res)) + ar_nodes_deduped res = int (length (paste_paragraphs c)) \<and>
    ar_supersessions res = [] \<and>
    (\<forall>g sk j r. get_idea g sk j (w_store w') = Some r \<and> get_idea g sk j (w_store w) = None \<longrightarrow>
       g = ac_org c \<and> sk = ac_skill_base_name c \<and> j \<in> range ids \<and> (\<exists>p \<in> set (paste_paragraphs c). r = import_idea c j p))"
proof -
  let ?w = "w\<lparr>w_mem := mem_put_entry (call_entry c ''paste'' now) (w_mem w)\<rparr>"
  let ?res = "\<lparr>ar_source_name = ac_name c, ar_kind = ''paste'', ar_nodes_written = [], ar_nodes_deduped = 0,
        ar_supersessions = []\<rparr>"
  show ?thesis
    using paste_loop [of ?w c ids ?res g now "paste_paragraphs c"] assms
    by (simp add: ingest_pasted_text_def pbind_apply org_guard_apply on_mem_def pmodify_apply)
qed


definition paste_call :: authored_call where
  "paste_call = rule_call\<lparr>ac_content := ''You run Vim''\<rparr>"

lemma paste_call_paragraphs:
  "decompose_text_into_paragraphs (sanitize_authored_text (ac_content paste_call)) = [''You run Vim'']"
proof -
  have s0: "re_sub authored_aws_re ''<AWS_KEY>'' ''You run Vim'' = ''You run Vim''" by code_simp
  have s1: "sub_group_from AUTHORED_KEYWORD_RE AUTHORED_VALUE_RE '': <REDACTED>'' [] ''You run Vim'' = ''You run Vim''" by code_simp
  have s2: "re_sub authored_bearer_re ''Bearer <TOKEN>'' ''You run Vim'' = ''You run Vim''" by code_simp
  have s3: "re_sub JWT_RE ''<JWT>'' ''You run Vim'' = ''You run Vim''" by code_simp
  have s4: "re_sub authored_pem_re ''<PEM_HEADER>'' ''You run Vim'' = ''You run Vim''" by code_simp
  have s5: "re_sub authored_pat_re ''<GITHUB_PAT>'' ''You run Vim'' = ''You run Vim''" by code_simp
  have "authored_scrub_secrets ''You run Vim'' = ''You run Vim''"
    by (simp only: authored_scrub_secrets_def Let_def s0 s1 s2 s3 s4 s5)
  moreover have "length (utf8 ''You run Vim'') = 11" by code_simp
  then have "apply_size_cap ''You run Vim'' = ''You run Vim''"
    by (simp add: apply_size_cap_def AUTHORED_TEXT_SIZE_CAP_def)
  moreover have "split_blank_lines ''You run Vim'' = [''You run Vim'']" "strip ''You run Vim'' = ''You run Vim''"
    by code_simp+
  ultimately show ?thesis
    by (simp add: paste_call_def decompose_text_into_paragraphs_def sanitize_authored_text_def)
qed

definition paste_ids :: "nat \<Rightarrow> string" where
  "paste_ids n = ''p'' @ replicate n CHR ''0''"

lemma paste_ready:
  "refs_ok (ac_org paste_call) (w_store rule_world)" "\<not> blank (ac_org paste_call)"
  "fresh_ids paste_call paste_ids 0 (w_store rule_world)"
proof -
  show "refs_ok (ac_org paste_call) (w_store rule_world)" "\<not> blank (ac_org paste_call)"
    using rule_world_ok(2,3) by (simp_all add: paste_call_def rule_call_def)
  have "inj paste_ids" by (rule injI) (simp add: paste_ids_def)
  then show "fresh_ids paste_call paste_ids 0 (w_store rule_world)"
    by (auto simp: fresh_ids_def rule_world_ok(4) paste_ids_def)
qed


text \<open>Editing a pasted source does not reconcile: after a second text
  is pasted under the same name, every paragraph of the first one still has a current node,
  although the memory entry holds only the second text.\<close>

theorem paste_edit_keeps_removed_paragraphs:
  assumes "store_wf (w_store w)" and "refs_ok (ac_org c) (w_store w)" and "\<not> blank (ac_org c)"
    and "fresh_ids c ids 0 (w_store w)"
    and "ingest_pasted_text c ids None g now w = (Inr res, w1)"
    and "c' = c\<lparr>ac_content := edited\<rparr>" and "fresh_ids c ids' 0 (w_store w1)"
  shows "\<exists>res' w2. ingest_pasted_text c' ids' None g later w1 = (Inr res', w2) \<and>
    (\<forall>p \<in> set (decompose_text_into_paragraphs (sanitize_authored_text (ac_content c))). has_node c (w_store w2) p) \<and>
    mem_get (ac_project_id c) (ac_user_id c) (ac_name c) (w_mem w2) = Some (call_entry c' ''paste'' later)"
proof -
  have w1: "store_wf (w_store w1)" "refs_ok (ac_org c') (w_store w1)" "\<not> blank (ac_org c')"
      "fresh_ids c' ids' 0 (w_store w1)" "\<forall>p \<in> set (paste_paragraphs c). has_node c (w_store w1) p"
    using ingest_pasted_text_alone [OF assms(1-4), of g now] assms(3,5-7) by (auto simp: fresh_ids_def)
  obtain res' w2 where run: "ingest_pasted_text c' ids' None g later w1 = (Inr res', w2)"
    and kept: "ideas_kept (w_store w1) (w_store w2)" and mem: "w_mem w2 = mem_put_entry (call_entry c' ''paste'' later) (w_mem w1)"
    using ingest_pasted_text_alone [OF w1(1-4), of g later] by blast
  have "mem_get (ac_project_id c) (ac_user_id c) (ac_name c) (w_mem w2) = Some (call_entry c' ''paste'' later)"
    by (simp add: mem mem_get_put call_entry_def assms(6))
  then show ?thesis using run w1(5) ideas_kept_has_node [OF kept] by blast
qed

lemma paste_edit_keeps_removed_paragraphs_witness:
  "\<exists>res w1 res' w2. ingest_pasted_text paste_call paste_ids None None 5 rule_world = (Inr res, w1) \<and>
    ingest_pasted_text (paste_call\<lparr>ac_content := []\<rparr>) (\<lambda>n. ''q'' @ replicate n CHR ''0'') None None 6 w1 = (Inr res', w2) \<and>
    has_node paste_call (w_store w2) ''You run Vim''"
proof -
  let ?ids = "\<lambda>n. ''q'' @ replicate n CHR ''0''"
  let ?c = "paste_call\<lparr>ac_content := []\<rparr>"
  obtain res w1 where run: "ingest_pasted_text paste_call paste_ids None None 5 rule_world = (Inr res, w1)"
    and new: "\<forall>g sk j r. get_idea g sk j (w_store w1) = Some r \<and> get_idea g sk j (w_store rule_world) = None \<longrightarrow>
       g = ac_org paste_call \<and> sk = ac_skill_base_name paste_call \<and> j \<in> range paste_ids \<and>
       (\<exists>p \<in> set (paste_paragraphs paste_call). r = import_idea paste_call j p)"
    using ingest_pasted_text_alone [OF rule_world_ok(1) paste_ready, of None 5] by blast
  have other: "?ids m \<notin> range paste_ids" "?ids m \<noteq> ''d0''" for m by (auto simp: paste_ids_def)
  have "get_idea (ac_org paste_call) (ac_skill_base_name paste_call) (?ids m) (w_store w1) = None" for m
  proof (rule ccontr)
    assume "get_idea (ac_org paste_call) (ac_skill_base_name paste_call) (?ids m) (w_store w1) \<noteq> None"
    moreover have "get_idea g sk (?ids m) (w_store rule_world) = None" for g sk
      by (simp add: rule_world_ok(4))
    ultimately show False using new other by blast
  qed
  moreover have "inj ?ids" by (rule injI) simp
  ultimately have "fresh_ids paste_call ?ids 0 (w_store w1)" by (simp add: fresh_ids_def)
  from paste_edit_keeps_removed_paragraphs [OF rule_world_ok(1) paste_ready run refl this, where edited = "[]" and later = 6]
  show ?thesis using run by (auto simp: paste_call_paragraphs)
qed

end
