(* ===== verification/AfObjective.thy ===== *)
theory AfObjective
  imports PyFloat "HOL-Library.Product_Lexorder"
begin

text \<open>
  \<open>reflector/objective.py\<close>: the cost of a partition of the insights over a weighted graph.  A
  partition is the dictionary from insight to module.  \<open>math.log2\<close> is the C library's and a
  parameter, on the positive integers it is applied to.
\<close>

type_synonym partition = "(int, int) dict"
type_synonym flow_edge = "int \<times> int \<times> pyfloat"

definition DEFAULT_MODULE_OVERHEAD_BITS :: pyfloat where
  "DEFAULT_MODULE_OVERHEAD_BITS = 4"

record cost_parts =
  cp_routing_bits :: pyfloat
  cp_locate_bits :: pyfloat
  cp_insight_count_bits :: pyfloat
  cp_module_overhead_bits :: pyfloat
  cp_total :: pyfloat

section \<open>Partitions\<close>

definition partition_from_sets :: "int list list \<Rightarrow> partition" where
  "partition_from_sets modules = fold (\<lambda>(module_id, members) out.
     fold (\<lambda>node out. dset node (int module_id) out) members out) (enumerate 0 modules) []"

text \<open>\<open>d[k] = d.get(k, 0) + 1\<close> and its floating-point sister.\<close>

definition count_up :: "'k \<Rightarrow> ('k, nat) dict \<Rightarrow> ('k, nat) dict" where
  "count_up k d = dset k ((case dget d k of None \<Rightarrow> 0 | Some n \<Rightarrow> n) + 1) d"

definition add_to :: "'k \<Rightarrow> pyfloat \<Rightarrow> ('k, pyfloat) dict \<Rightarrow> ('k, pyfloat) dict" where
  "add_to k w d = dset k (fadd (case dget d k of None \<Rightarrow> 0 | Some x \<Rightarrow> x) w) d"

definition module_sizes :: "partition \<Rightarrow> (int, nat) dict" where
  "module_sizes p = fold count_up (map snd p) []"

definition num_modules :: "partition \<Rightarrow> nat" where
  "num_modules p = card (set (map snd p))"

section \<open>The code length\<close>

text \<open>The walk: the bits to locate each access and to route each change of module.  A node outside
  the partition raises \<open>KeyError\<close>.\<close>

fun walk :: "(nat \<Rightarrow> pyfloat) \<Rightarrow> partition \<Rightarrow> pyfloat \<Rightarrow> int list \<Rightarrow> int option \<Rightarrow> pyfloat \<Rightarrow> pyfloat \<Rightarrow> pyfloat" where
  "walk lg p unit [] prev locate routing = fadd locate routing"
| "walk lg p unit (node # nodes) prev locate routing =
     (let m = the (dget p node);
          locate = fadd locate (lg (the (dget (module_sizes p) m)));
          routing = (if prev \<noteq> None \<and> prev \<noteq> Some m then fadd routing unit else routing)
      in walk lg p unit nodes (Some m) locate routing)"

definition map_equation_codelength :: "(nat \<Rightarrow> pyfloat) \<Rightarrow> int list \<Rightarrow> partition \<Rightarrow> py_exn + pyfloat" where
  "map_equation_codelength lg trajectory p =
     (if trajectory = [] then Inr 0
      else if \<exists>node \<in> set trajectory. dget p node = None then Inl (KeyError [])
      else Inr (walk lg p (lg (card (set (map (\<lambda>node. the (dget p node)) trajectory)))) trajectory None 0 0))"

definition edge_key :: "int \<Rightarrow> int \<Rightarrow> int \<times> int" where
  "edge_key src dst = (if src \<le> dst then (src, dst) else (dst, src))"

definition merge_edge :: "partition \<Rightarrow> flow_edge \<Rightarrow> (int \<times> int, pyfloat) dict \<Rightarrow> (int \<times> int, pyfloat) dict" where
  "merge_edge p = (\<lambda>(src, dst, weight) merged.
     if dget p src = None \<or> dget p dst = None then merged
     else if src = dst then merged
     else add_to (edge_key src dst) weight merged)"

definition canonical_edges :: "flow_edge list \<Rightarrow> partition \<Rightarrow> flow_edge list" where
  "canonical_edges flow_graph p = (let merged = fold (merge_edge p) flow_graph [] in
     map (\<lambda>(u, v). (u, v, the (dget merged (u, v)))) (sort (map fst merged)))"

section \<open>The cost\<close>

definition add_strength :: "flow_edge \<Rightarrow> (int, pyfloat) dict \<Rightarrow> (int, pyfloat) dict" where
  "add_strength = (\<lambda>(src, dst, weight) strength. add_to dst weight (add_to src weight strength))"

definition add_routing :: "partition \<Rightarrow> pyfloat \<Rightarrow> flow_edge \<Rightarrow> pyfloat \<Rightarrow> pyfloat" where
  "add_routing p unit = (\<lambda>(src, dst, weight) bits.
     if dget p src \<noteq> dget p dst then fadd bits (fmul weight unit) else bits)"

definition add_locate :: "(nat \<Rightarrow> pyfloat) \<Rightarrow> partition \<Rightarrow> (int, pyfloat) dict \<Rightarrow> int \<Rightarrow> pyfloat \<Rightarrow> pyfloat" where
  "add_locate lg p strength node bits =
     fadd bits (fmul (the (dget strength node)) (lg (the (dget (module_sizes p) (the (dget p node))))))"

definition cost_breakdown :: "(nat \<Rightarrow> pyfloat) \<Rightarrow> pyfloat \<Rightarrow> partition \<Rightarrow> flow_edge list \<Rightarrow> cost_parts" where
  "cost_breakdown lg overhead p flow_graph =
     (let sizes = module_sizes p;
          m = length sizes;
          routing_unit = (if 0 < m then lg m else 0);
          edges = canonical_edges flow_graph p;
          strength = fold add_strength edges [];
          routing_bits = fold (add_routing p routing_unit) edges 0;
          locate_bits = fold (add_locate lg p strength) (sort (map fst strength)) 0;
          insight_count_bits = fint (int (length p));
          module_overhead_total = fmul (fint (int m)) overhead
      in \<lparr>cp_routing_bits = routing_bits, cp_locate_bits = locate_bits, cp_insight_count_bits = insight_count_bits,
          cp_module_overhead_bits = module_overhead_total,
          cp_total = fadd (fadd (fadd locate_bits routing_bits) insight_count_bits) module_overhead_total\<rparr>)"

definition cost :: "(nat \<Rightarrow> pyfloat) \<Rightarrow> pyfloat \<Rightarrow> partition \<Rightarrow> flow_edge list \<Rightarrow> pyfloat" where
  "cost lg overhead p flow_graph = cp_total (cost_breakdown lg overhead p flow_graph)"

definition beats_incumbent :: "(nat \<Rightarrow> pyfloat) \<Rightarrow> pyfloat \<Rightarrow> partition \<Rightarrow> partition \<Rightarrow> flow_edge list \<Rightarrow> bool" where
  "beats_incumbent lg overhead candidate incumbent flow_graph \<longleftrightarrow>
     cost lg overhead candidate flow_graph < cost lg overhead incumbent flow_graph"

definition cost_delta :: "(nat \<Rightarrow> pyfloat) \<Rightarrow> pyfloat \<Rightarrow> partition \<times> flow_edge list \<Rightarrow> partition \<times> flow_edge list \<Rightarrow> pyfloat" where
  "cost_delta lg overhead before after =
     fsub (cost lg overhead (fst after) (snd after)) (cost lg overhead (fst before) (snd before))"

section \<open>Labels are immaterial\<close>

definition relabel :: "(int \<Rightarrow> int) \<Rightarrow> partition \<Rightarrow> partition" where
  "relabel f p = map (\<lambda>(n, c). (n, f c)) p"

lemma dget_relabel [simp]: "dget (relabel f p) n = map_option f (dget p n)"
  by (induction p) (auto simp: relabel_def)

lemma relabel_simps [simp]: "map fst (relabel f p) = map fst p" "map snd (relabel f p) = map f (map snd p)"
  "length (relabel f p) = length p"
  by (simp_all add: relabel_def split_beta)

lemma dset_map_key:
  "inj_on f (insert k (fst ` set d)) \<Longrightarrow> dset (f k) v (map (\<lambda>(k, v). (f k, v)) d) = map (\<lambda>(k, v). (f k, v)) (dset k v d)"
  by (induction d) (auto simp: inj_on_def)

lemma dget_map_key:
  "inj_on f (insert k (fst ` set d)) \<Longrightarrow> dget (map (\<lambda>(k, v). (f k, v)) d) (f k) = dget d k"
  by (induction d) (auto simp: inj_on_def)

lemma count_up_map_key: "inj_on f (insert k (fst ` set d)) \<Longrightarrow>
    count_up (f k) (map (\<lambda>(k, v). (f k, v)) d) = map (\<lambda>(k, v). (f k, v)) (count_up k d)"
  by (simp add: count_up_def dget_map_key dset_map_key)

lemma keys_count_up: "fst ` set (count_up k d) = insert k (fst ` set d)"
  using keys_dset [of k _ d] by (simp add: count_up_def)

lemma counts_map_key: "inj_on f (set ks \<union> fst ` set d) \<Longrightarrow>
    fold count_up (map f ks) (map (\<lambda>(k, v). (f k, v)) d) = map (\<lambda>(k, v). (f k, v)) (fold count_up ks d)"
proof (induction ks arbitrary: d)
  case (Cons k ks)
  have "inj_on f (insert k (fst ` set d))" by (rule inj_on_subset [OF Cons.prems]) auto
  then show ?case using Cons.IH [of "count_up k d"] Cons.prems by (simp add: count_up_map_key keys_count_up)
qed simp

lemma sizes_relabel: "inj_on f (snd ` set p) \<Longrightarrow>
    module_sizes (relabel f p) = map (\<lambda>(k, v). (f k, v)) (module_sizes p)"
  using counts_map_key [of f "map snd p" "[]"] by (simp add: module_sizes_def)

lemma keys_counts: "fst ` set (fold count_up ks d) = set ks \<union> fst ` set d"
  by (induction ks arbitrary: d) (auto simp: keys_count_up)

lemma keys_module_sizes: "fst ` set (module_sizes p) = snd ` set p"
  by (simp add: module_sizes_def keys_counts)

lemma keys_add_to: "fst ` set (add_to k w d) = insert k (fst ` set d)"
  using keys_dset [of k _ d] by (simp add: add_to_def)

lemma keys_merge_edges: "(u, v) \<in> fst ` set (fold (merge_edge p) es d) \<Longrightarrow>
    (u, v) \<in> fst ` set d \<or> (dget p u \<noteq> None \<and> dget p v \<noteq> None)"
proof (induction es arbitrary: d)
  case (Cons e es)
  obtain a b w where e: "e = (a, b, w)" by (cases e) auto
  from Cons.prems have "(u, v) \<in> fst ` set (merge_edge p e d) \<or> dget p u \<noteq> None \<and> dget p v \<noteq> None"
    using Cons.IH [of "merge_edge p e d"] by simp
  then show ?case by (auto simp: e merge_edge_def keys_add_to edge_key_def split: if_splits)
qed simp

lemma canonical_edges_nodes: "(u, v, w) \<in> set (canonical_edges g p) \<Longrightarrow> dget p u \<noteq> None \<and> dget p v \<noteq> None"
  using keys_merge_edges [of u v p g "[]"] by (auto simp: canonical_edges_def Let_def)

lemma keys_add_strength: "fst ` set (add_strength (u, v, w) d) = insert u (insert v (fst ` set d))"
  by (auto simp: add_strength_def keys_add_to)

lemma keys_strength: "fst ` set (fold add_strength es d) = fst ` set d \<union> (\<Union>(u, v, w) \<in> set es. {u, v})"
proof (induction es arbitrary: d)
  case (Cons e es)
  obtain u v w where "e = (u, v, w)" by (cases e) auto
  then show ?case by (simp only: fold_simps Cons.IH list.set keys_add_strength) auto
qed simp

lemma canonical_edges_relabel: "canonical_edges g (relabel f p) = canonical_edges g p"
proof -
  have "merge_edge (relabel f p) = merge_edge p" by (auto simp: merge_edge_def fun_eq_iff)
  then show ?thesis by (simp add: canonical_edges_def)
qed

lemma dget_snd: "dget p n = Some c \<Longrightarrow> c \<in> snd ` set p"
  by (force dest: map_of_SomeD)

lemma add_routing_relabel: "inj_on f (snd ` set p) \<Longrightarrow> add_routing (relabel f p) = add_routing p"
proof (intro ext)
  fix unit e bits
  assume inj: "inj_on f (snd ` set p)"
  have "map_option f (dget p a) = map_option f (dget p b) \<longleftrightarrow> dget p a = dget p b" for a b
    using inj dget_snd [of p a] dget_snd [of p b] by (cases "dget p a"; cases "dget p b") (auto dest: inj_onD)
  then show "add_routing (relabel f p) unit e bits = add_routing p unit e bits"
    by (simp add: add_routing_def split: prod.split)
qed

lemma add_locate_relabel:
  assumes "inj_on f (snd ` set p)" "dget p n \<noteq> None"
  shows "add_locate lg (relabel f p) st n = add_locate lg p st n"
proof -
  obtain c where c: "dget p n = Some c" using assms(2) by blast
  have "insert c (fst ` set (module_sizes p)) = snd ` set p" using dget_snd [OF c] by (auto simp: keys_module_sizes)
  then have "dget (module_sizes (relabel f p)) (f c) = dget (module_sizes p) c"
    using dget_map_key [of f c "module_sizes p"] assms(1) by (simp add: sizes_relabel)
  then show ?thesis by (simp add: add_locate_def c fun_eq_iff)
qed

lemma cost_relabel_parts:
  assumes "inj_on f (snd ` set p)"
  shows "cost_breakdown lg overhead (relabel f p) g = cost_breakdown lg overhead p g"
proof -
  let ?es = "canonical_edges g p" and ?st = "fold add_strength (canonical_edges g p) []"
  have "dget p n \<noteq> None" if "n \<in> set (sort (map fst ?st))" for n
    using that keys_strength [of ?es "[]"] canonical_edges_nodes [of _ _ _ g p] by fastforce
  then have "fold (add_locate lg (relabel f p) ?st) (sort (map fst ?st)) 0 = fold (add_locate lg p ?st) (sort (map fst ?st)) 0"
    by (intro fold_cong) (simp_all add: add_locate_relabel [OF assms])
  then show ?thesis using assms
    by (simp add: cost_breakdown_def Let_def canonical_edges_relabel add_routing_relabel sizes_relabel)
qed

end
