(* ===== verification/AfPartition.thy ===== *)
theory AfPartition
  imports AfObjective "HOL-Library.Monad_Syntax"
begin

text \<open>
  \<open>reflector/partition.py\<close>: candidate partitions of a weighted graph.  The keys of a membership
  are the nodes, in ascending order.  The native Leiden and Infomap back ends are parameters (the
  adapters return a membership or \<open>None\<close>; no back end when the package is not installed), as is
  the C library's \<open>pow\<close> behind \<open>x ** 2\<close>.  \<open>_refine\<close> repeats passes until nothing changes and is a
  partial function.
\<close>

definition DEFAULT_SEED :: int where
  "DEFAULT_SEED = 1234"

definition DEFAULT_RESOLUTIONS :: "pyfloat list" where
  "DEFAULT_RESOLUTIONS = [1 / 2, 1, 2]"

record candidate_partition =
  cd_proposer :: string
  cd_membership :: partition
  cd_resolution :: "pyfloat option"
  cd_backend :: string

record proposal_set =
  ps_candidates :: "candidate_partition list"
  ps_leiden_ran :: bool
  ps_fallback :: "string option"

definition num_communities :: "candidate_partition \<Rightarrow> nat" where
  "num_communities c = card (set (map snd (cd_membership c)))"

definition canonical :: "candidate_partition \<Rightarrow> (int \<times> int) list" where
  "canonical c = sort (cd_membership c)"

section \<open>Nodes and labels\<close>

definition nodes_of :: "flow_edge list \<Rightarrow> int list \<Rightarrow> int list" where
  "nodes_of edges nodes = sort (remdups (concat (map (\<lambda>(src, dst, w). [src, dst]) edges) @ nodes))"

text \<open>The least node of every community, in the order the communities are met.\<close>

definition min_member :: "int \<times> int \<Rightarrow> (int, int) dict \<Rightarrow> (int, int) dict" where
  "min_member = (\<lambda>(node, community) d. case dget d community of
     None \<Rightarrow> dset community node d | Some least \<Rightarrow> if node < least then dset community node d else d)"

definition least_members :: "partition \<Rightarrow> (int, int) dict" where
  "least_members membership = fold min_member membership []"

definition canonicalize :: "partition \<Rightarrow> partition" where
  "canonicalize membership =
     (let comm_min = least_members membership;
          order = sort_key (\<lambda>c. the (dget comm_min c)) (map fst comm_min);
          new = map (\<lambda>(k, c). (c, int k)) (enumerate 0 order)
      in map (\<lambda>node. (node, the (dget new (the (dget membership node))))) (sort (map fst membership)))"

section \<open>Greedy merging\<close>

definition adjacent_pairs :: "flow_edge list \<Rightarrow> partition \<Rightarrow> (int \<times> int) list" where
  "adjacent_pairs edges membership = sort (remdups (concat (map (\<lambda>(src, dst, w).
     case (dget membership src, dget membership dst) of
       (Some cu, Some cv) \<Rightarrow> if cu \<noteq> cv then [if cu < cv then (cu, cv) else (cv, cu)] else []
     | _ \<Rightarrow> []) edges)))"

definition merge_into :: "int \<Rightarrow> int \<Rightarrow> partition \<Rightarrow> partition" where
  "merge_into c d membership = map (\<lambda>(n, x). (n, if x = d then c else x)) membership"

definition merge_step :: "(partition \<Rightarrow> partition \<Rightarrow> pyfloat) \<Rightarrow> partition \<Rightarrow> int \<times> int \<Rightarrow>
    (pyfloat \<times> int \<times> int \<times> int \<times> int) option \<Rightarrow> (pyfloat \<times> int \<times> int \<times> int \<times> int) option" where
  "merge_step gain_fn membership = (\<lambda>(c, d) best.
     let gain = gain_fn membership (merge_into c d membership);
         rep = least_members membership;
         a = the (dget rep c); b = the (dget rep d);
         cand = (- gain, min a b, max a b, c, d)
     in if gain \<le> flit (1 / 10 ^ 12) then best
        else case best of None \<Rightarrow> Some cand | Some x \<Rightarrow> if cand < x then Some cand else best)"

definition best_merge :: "(partition \<Rightarrow> partition \<Rightarrow> pyfloat) \<Rightarrow> flow_edge list \<Rightarrow> partition \<Rightarrow> (int \<times> int) option" where
  "best_merge gain_fn edges membership = map_option (\<lambda>(g, lo, hi, c, d). (c, d))
     (fold (merge_step gain_fn membership) (adjacent_pairs edges membership) None)"

lemma merge_step_origin: "merge_step gain_fn m p best = Some (g, lo, hi, c, d) \<Longrightarrow> (c, d) = p \<or> best = Some (g, lo, hi, c, d)"
  by (auto simp: merge_step_def Let_def split: prod.splits if_splits option.splits)

lemma best_merge_adjacent:
  assumes "best_merge gain_fn edges m = Some (c, d)"
  shows "(c, d) \<in> set (adjacent_pairs edges m)"
proof -
  have "fold (merge_step gain_fn m) ps best = Some (g, lo, hi, c, d) \<Longrightarrow> (c, d) \<in> set ps \<or> best = Some (g, lo, hi, c, d)"
    for ps best g lo hi
  proof (induction ps arbitrary: best)
    case (Cons p ps)
    then show ?case using merge_step_origin [of gain_fn m p best g lo hi c d] by fastforce
  qed simp
  then show ?thesis using assms by (fastforce simp: best_merge_def)
qed

lemma adjacent_pairs_labels: "(c, d) \<in> set (adjacent_pairs edges m) \<Longrightarrow> c < d \<and> c \<in> snd ` set m \<and> d \<in> snd ` set m"
  by (auto simp: adjacent_pairs_def split: option.splits if_splits intro: dget_snd [OF sym])

lemma labels_merge: "c \<noteq> d \<Longrightarrow> c \<in> snd ` set m \<Longrightarrow> snd ` set (merge_into c d m) \<subseteq> snd ` set m - {d}"
  by (force simp: merge_into_def split: if_splits)

text \<open>Every merge removes a label, so the loop ends.\<close>

function merge_loop :: "(partition \<Rightarrow> partition \<Rightarrow> pyfloat) \<Rightarrow> flow_edge list \<Rightarrow> partition \<Rightarrow> partition" where
  "merge_loop gain_fn edges membership = (case best_merge gain_fn edges membership of
     None \<Rightarrow> membership
   | Some (c, d) \<Rightarrow> merge_loop gain_fn edges (merge_into c d membership))"
  by pat_completeness auto

termination
proof (relation "measure (\<lambda>(gain_fn, edges, membership). card (snd ` set membership))", goal_cases)
  case (2 gain_fn edges m p c d)
  then have "c < d \<and> c \<in> snd ` set m \<and> d \<in> snd ` set m" using best_merge_adjacent adjacent_pairs_labels by blast
  then have "snd ` set (merge_into c d m) \<subset> snd ` set m" using labels_merge [of c d m] by blast
  then show ?case using 2 by (simp add: psubset_card_mono)
qed simp

declare merge_loop.simps [simp del]

section \<open>Moving single nodes\<close>

definition neighbor_labels :: "flow_edge list \<Rightarrow> partition \<Rightarrow> int \<Rightarrow> int list" where
  "neighbor_labels edges current node = concat (map (\<lambda>(src, dst, w).
     if src = dst then [] else (if src = node then [the (dget current dst)] else []) @
       (if dst = node then [the (dget current src)] else [])) edges)"

definition move_targets :: "flow_edge list \<Rightarrow> partition \<Rightarrow> int \<Rightarrow> int \<Rightarrow> int list" where
  "move_targets edges current fresh node =
     sort (remdups (filter (\<lambda>c. c \<noteq> the (dget current node)) (fresh # neighbor_labels edges current node)))"

definition try_target :: "(partition \<Rightarrow> pyfloat) \<Rightarrow> partition \<Rightarrow> int \<Rightarrow> int \<Rightarrow> int option \<times> pyfloat \<Rightarrow> int option \<times> pyfloat" where
  "try_target score_fn current node target = (\<lambda>(best_target, best_score).
     let score = score_fn (dset node target current)
     in if fadd best_score (flit (1 / 10 ^ 12)) < score then (Some target, score) else (best_target, best_score))"

definition move_node :: "(partition \<Rightarrow> pyfloat) \<Rightarrow> flow_edge list \<Rightarrow> int \<Rightarrow>
    partition \<times> pyfloat \<times> int \<times> bool \<Rightarrow> partition \<times> pyfloat \<times> int \<times> bool" where
  "move_node score_fn edges node = (\<lambda>(current, base, fresh, changed).
     case fold (try_target score_fn current node) (move_targets edges current fresh node) (None, base) of
       (None, best_score) \<Rightarrow> (current, base, fresh, changed)
     | (Some best_target, best_score) \<Rightarrow> (dset node best_target current, best_score, max fresh (best_target + 1), True))"

definition refine_pass :: "(partition \<Rightarrow> pyfloat) \<Rightarrow> flow_edge list \<Rightarrow> int list \<Rightarrow> partition \<Rightarrow> partition \<times> bool" where
  "refine_pass score_fn edges nodes current =
     (case fold (move_node score_fn edges) nodes (current, score_fn current, Max (snd ` set current) + 1, False) of
        (current, base, fresh, changed) \<Rightarrow> (current, changed))"

partial_function (option) refine ::
    "(partition \<Rightarrow> pyfloat) \<Rightarrow> flow_edge list \<Rightarrow> int list \<Rightarrow> partition \<Rightarrow> partition option" where
  "refine score_fn edges nodes current = (case refine_pass score_fn edges nodes current of
     (current, changed) \<Rightarrow> if changed then refine score_fn edges nodes current else Some current)"

definition greedy_merge :: "flow_edge list \<Rightarrow> int list \<Rightarrow> (partition \<Rightarrow> pyfloat) \<Rightarrow> partition option" where
  "greedy_merge edges nodes score_fn = (let membership = map (\<lambda>n. (n, n)) nodes in
     if edges = [] then Some (canonicalize membership)
     else map_option canonicalize (refine score_fn edges nodes
       (merge_loop (\<lambda>m trial. fsub (score_fn trial) (score_fn m)) edges membership)))"

section \<open>Scores\<close>

definition fdiv :: "pyfloat \<Rightarrow> pyfloat \<Rightarrow> pyfloat" where
  "fdiv a b = rnd (a / b)"

definition real_edges :: "flow_edge list \<Rightarrow> flow_edge list" where
  "real_edges edges = filter (\<lambda>(src, dst, w). src \<noteq> dst) edges"

definition add_tot :: "partition \<Rightarrow> (int, pyfloat) dict \<Rightarrow> int \<Rightarrow> (int, pyfloat) dict \<Rightarrow> (int, pyfloat) dict" where
  "add_tot membership strength node k_tot = add_to (the (dget membership node)) (the (dget strength node)) k_tot"

definition add_within :: "partition \<Rightarrow> flow_edge \<Rightarrow> (int, pyfloat) dict \<Rightarrow> (int, pyfloat) dict" where
  "add_within membership = (\<lambda>(src, dst, weight) inside.
     if dget membership src = dget membership dst then add_to (the (dget membership src)) weight inside else inside)"

definition modularity_term :: "(pyfloat \<Rightarrow> pyfloat) \<Rightarrow> pyfloat \<Rightarrow> pyfloat \<Rightarrow> pyfloat \<Rightarrow> pyfloat \<Rightarrow> pyfloat" where
  "modularity_term sq resolution m l_c k_c =
     fsub (fdiv l_c m) (fmul resolution (sq (fdiv k_c (fmul 2 m))))"

definition modularity_score :: "(pyfloat \<Rightarrow> pyfloat) \<Rightarrow> pyfloat \<Rightarrow> flow_edge list \<Rightarrow> partition \<Rightarrow> pyfloat" where
  "modularity_score sq resolution edges membership =
     (let strength = fold add_strength (real_edges edges) [];
          m = fold (\<lambda>(src, dst, weight) m. fadd m weight) (real_edges edges) 0
      in if m = 0 then 0
         else let k_tot = fold (add_tot membership strength) (sort (map fst strength)) [];
                  inside = fold (add_within membership) (real_edges edges) []
              in fold (\<lambda>community q. fadd q (modularity_term sq resolution m
                   (case dget inside community of None \<Rightarrow> 0 | Some x \<Rightarrow> x) (the (dget k_tot community))))
                 (sort (map fst k_tot)) 0)"

definition coarsen_by_cost :: "(nat \<Rightarrow> pyfloat) \<Rightarrow> partition \<Rightarrow> flow_edge list \<Rightarrow> partition" where
  "coarsen_by_cost lg membership edges = canonicalize (merge_loop (\<lambda>m trial.
     fsub (cost lg DEFAULT_MODULE_OVERHEAD_BITS m edges) (cost lg DEFAULT_MODULE_OVERHEAD_BITS trial edges)) edges membership)"

section \<open>The proposers\<close>

text \<open>What is installed: the adapters of the two back ends.\<close>

record natives =
  nt_leiden :: "(flow_edge list \<Rightarrow> pyfloat \<Rightarrow> int \<Rightarrow> partition option) option"
  nt_infomap :: "(flow_edge list \<Rightarrow> int \<Rightarrow> partition option) option"

definition with_isolated :: "int list \<Rightarrow> partition \<Rightarrow> partition" where
  "with_isolated nodes membership = fold (\<lambda>node m. if dget m node = None then dset node node m else m) nodes membership"

definition propose_leiden_at :: "(pyfloat \<Rightarrow> pyfloat) \<Rightarrow> natives \<Rightarrow> flow_edge list \<Rightarrow> int \<Rightarrow> int list \<Rightarrow> pyfloat \<Rightarrow>
    candidate_partition option" where
  "propose_leiden_at sq nt edges seed node_list resolution =
     (case (case nt_leiden nt of None \<Rightarrow> None | Some leiden \<Rightarrow> leiden edges resolution seed) of
        Some membership \<Rightarrow> Some \<lparr>cd_proposer = ''leiden'', cd_membership = canonicalize (with_isolated node_list membership),
          cd_resolution = Some resolution, cd_backend = ''graspologic''\<rparr>
      | None \<Rightarrow> map_option (\<lambda>membership. \<lparr>cd_proposer = ''leiden'', cd_membership = membership,
          cd_resolution = Some resolution, cd_backend = ''python''\<rparr>)
          (greedy_merge edges node_list (modularity_score sq resolution edges)))"

definition propose_leiden :: "(pyfloat \<Rightarrow> pyfloat) \<Rightarrow> natives \<Rightarrow> flow_edge list \<Rightarrow> pyfloat list \<Rightarrow> int \<Rightarrow> int list \<Rightarrow>
    candidate_partition list option" where
  "propose_leiden sq nt edges resolutions seed nodes =
     those (map (propose_leiden_at sq nt edges seed (nodes_of edges nodes)) resolutions)"

definition propose_infomap :: "(nat \<Rightarrow> pyfloat) \<Rightarrow> (pyfloat \<Rightarrow> pyfloat) \<Rightarrow> natives \<Rightarrow> flow_edge list \<Rightarrow> int \<Rightarrow> int list \<Rightarrow>
    candidate_partition option" where
  "propose_infomap lg sq nt edges seed nodes =
     (case (case nt_infomap nt of None \<Rightarrow> None | Some infomap \<Rightarrow> infomap edges seed) of
        Some membership \<Rightarrow> Some \<lparr>cd_proposer = ''infomap'', cd_membership = canonicalize (with_isolated (nodes_of edges nodes) membership),
          cd_resolution = None, cd_backend = ''infomap''\<rparr>
      | None \<Rightarrow> map_option (\<lambda>seed_partition. \<lparr>cd_proposer = ''infomap'',
          cd_membership = coarsen_by_cost lg seed_partition edges, cd_resolution = None, cd_backend = ''python''\<rparr>)
          (greedy_merge edges (nodes_of edges nodes) (modularity_score sq 1 edges)))"

definition propose_partitions :: "(nat \<Rightarrow> pyfloat) \<Rightarrow> (pyfloat \<Rightarrow> pyfloat) \<Rightarrow> natives \<Rightarrow> flow_edge list \<Rightarrow> pyfloat list \<Rightarrow>
    int \<Rightarrow> int list \<Rightarrow> proposal_set option" where
  "propose_partitions lg sq nt edges resolutions seed nodes = do {
     leiden \<leftarrow> (if nt_leiden nt = None then Some [] else propose_leiden sq nt edges resolutions seed nodes);
     infomap \<leftarrow> propose_infomap lg sq nt edges seed nodes;
     Some \<lparr>ps_candidates = leiden @ [infomap], ps_leiden_ran = (nt_leiden nt \<noteq> None),
       ps_fallback = (if nt_leiden nt = None then Some ''infomap-only'' else None)\<rparr>}"

end
