(* ===== verification/AfSql.thy ===== *)
theory AfSql
  imports PyStr Interfaces "HOL-Library.Char_ord" "HOL-Library.List_Lexorder"
begin

text \<open>
  The parts of SQLite the library store of \<open>agent-families\<close> relies on: a table is the list of
  its rows, oldest first; an \<open>INTEGER PRIMARY KEY\<close> column gets the largest identifier plus one;
  a violated constraint raises \<open>IntegrityError\<close> and writes nothing.  Rows of the
  \<open>AUTOINCREMENT\<close> tables are never deleted, so the same rule gives their identifiers.
\<close>

definition next_rowid :: "int list \<Rightarrow> int" where
  "next_rowid ids = (if ids = [] then 1 else Max (set ids) + 1)"

lemma next_rowid_fresh: "i \<in> set ids \<Longrightarrow> i < next_rowid ids"
  using Max_ge [of "set ids" i] by (cases ids) (simp_all add: next_rowid_def del: Max_ge)

lemma next_rowid_notin: "next_rowid ids \<notin> set ids"
  using next_rowid_fresh by blast

abbreviation IntegrityError :: py_exn where
  "IntegrityError \<equiv> Raised ''IntegrityError''"

definition check :: "py_exn \<Rightarrow> bool \<Rightarrow> ('s, unit) py" where
  "check e ok = (if ok then pret () else praise e)"

lemma check_apply [py_simps]: "check e ok s = (if ok then (Inr (), s) else (Inl e, s))"
  by (simp add: check_def py_simps)

text \<open>The row with a key, and the update of the rows with a key.\<close>

definition row_of :: "('r \<Rightarrow> 'k) \<Rightarrow> 'k \<Rightarrow> 'r list \<Rightarrow> 'r option" where
  "row_of key k rows = find (\<lambda>r. key r = k) rows"

definition update_where :: "('r \<Rightarrow> bool) \<Rightarrow> ('r \<Rightarrow> 'r) \<Rightarrow> 'r list \<Rightarrow> 'r list" where
  "update_where P f rows = map (\<lambda>r. if P r then f r else r) rows"

lemma row_of_Some: "row_of key k rows = Some r \<Longrightarrow> r \<in> set rows \<and> key r = k"
  by (auto simp: row_of_def find_Some_iff)

lemma row_of_None: "row_of key k rows = None \<longleftrightarrow> k \<notin> key ` set rows"
  by (auto simp: row_of_def find_None_iff)

lemma row_of_iff: "distinct (map key rows) \<Longrightarrow> row_of key k rows = Some r \<longleftrightarrow> r \<in> set rows \<and> key r = k"
proof
  assume d: "distinct (map key rows)" and r: "r \<in> set rows \<and> key r = k"
  then obtain r' where r': "row_of key k rows = Some r'" using row_of_None [of key k rows] by force
  then have "r' = r" using row_of_Some [OF r'] r d by (auto simp: distinct_map inj_on_def)
  then show "row_of key k rows = Some r" using r' by simp
qed (rule row_of_Some)

lemma row_of_update:
  assumes "\<And>r. key (f r) = key r"
  shows "row_of key k (update_where P f rows) = map_option (\<lambda>r. if P r then f r else r) (row_of key k rows)"
  using assms by (induction rows) (auto simp: row_of_def update_where_def)

lemma row_of_append: "row_of key k (rows @ [r]) =
    (case row_of key k rows of Some q \<Rightarrow> Some q | None \<Rightarrow> if key r = k then Some r else None)"
  by (induction rows) (auto simp: row_of_def)

lemma keys_update_where: "(\<And>r. key (f r) = key r) \<Longrightarrow> map key (update_where P f rows) = map key rows"
  by (simp add: update_where_def)

end
