(* ===== verification/AfStore.thy ===== *)
theory AfStore
  imports AfSql
begin

text \<open>
  \<open>agent_families/store.py\<close>: the library database.  Each table is a list of records with the
  columns of its \<open>CREATE TABLE\<close> statement as the last migration leaves it; time stamps are kept
  only where the code reads them (\<open>insights.created_at\<close>), and the four insight counters, which
  nothing writes, are left out.  Every \<open>INSERT\<close> checks the constraints of its table.  A
  transaction that raises restores the tables; a nested one joins the outer one.
\<close>

section \<open>Vocabularies\<close>

definition STATUSES :: "string list" where
  "STATUSES = [''quarantined'', ''active'', ''dormant'', ''retired'']"

definition RUN_STATUSES :: "string list" where
  "RUN_STATUSES = [''created'', ''planning'', ''executing'', ''success'', ''partial'', ''plan_failed'',
     ''aborted_quota'', ''aborted_error'']"

definition TICKET_STATUSES :: "string list" where
  "TICKET_STATUSES = [''pending'', ''in_progress'', ''done'', ''escalated'', ''blocked'']"

definition SPAN_FINAL_STATUSES :: "string list" where
  "SPAN_FINAL_STATUSES = [''completed'', ''error'', ''timeout'', ''aborted'']"

definition FAILURE_KINDS :: "string list" where
  "FAILURE_KINDS = [''gate_typecheck'', ''gate_lint'', ''gate_test'', ''plan_lint'', ''verifier_check'',
     ''contract_violation'', ''timeout'', ''infra'', ''step_repetition'', ''reasoning_action_mismatch'',
     ''termination_unaware'', ''incorrect_verification'']"

definition EPISODE_STATUSES :: "string list" where
  "EPISODE_STATUSES = [''created'', ''running'', ''suspended'', ''frontier_exhausted'', ''budget_spent'', ''aborted_error'']"

definition RUN_ACCEPTANCE :: "string list" where
  "RUN_ACCEPTANCE = [''accepted'', ''rejected'']"

definition RUN_MODES :: "string list" where
  "RUN_MODES = [''training'', ''trial'', ''benchmark'']"

definition FITNESS_EVENT_KINDS :: "string list" where
  "FITNESS_EVENT_KINDS = [''retrieval'', ''win'', ''loss'', ''corroborate'']"

definition BATCH_VERDICTS :: "string list" where
  "BATCH_VERDICTS = [''promote'', ''revert'']"

definition INSIGHT_PROVENANCES :: "string list" where
  "INSIGHT_PROVENANCES = [''manual'', ''reflector'', ''researched'', ''seeded'', ''consolidated'']"

definition VALIDATION_CLASSES :: "string list" where
  "VALIDATION_CLASSES = [''code'', ''elicitation'', ''general'']"

definition INSIGHT_EDGE_KINDS :: "string list" where
  "INSIGHT_EDGE_KINDS = [''similarity'', ''corroborates'', ''refines'', ''contradicts'', ''generalizes_from'']"

section \<open>Tables\<close>

record family_row =
  fm_id :: int
  fm_name :: string
  fm_charter :: string
  fm_router_prompt :: string

record agent_row =
  ag_id :: int
  ag_family_id :: int
  ag_parent_id :: "int option"
  ag_name :: string
  ag_description :: string
  ag_permissions :: string
  ag_active_cap :: int
  ag_routing_decisions :: int
  ag_lineage_status :: "string option"

record batch_row =
  bt_id :: int
  bt_label :: string
  bt_validation_class :: string

record snapshot_row =
  sn_id :: int
  sn_parent_id :: "int option"
  sn_mutation_summary :: string

record queue_row =
  pq_id :: int
  pq_operation :: string
  pq_detail :: string
  pq_snapshot_id :: int

record insight_row =
  in_id :: int
  in_precondition :: string
  in_action :: string
  in_expected_outcome :: string
  in_scope_tag :: "string option"
  in_content_hash :: string
  in_status :: string
  in_batch_id :: "int option"
  in_source_run_id :: "string option"
  in_embedding_model :: "string option"
  in_embedding_dim :: "int option"
  in_duplicate_of :: "int option"
  in_supersedes :: "int option"
  in_created_at :: string
  in_episode_id :: "int option"
  in_evidence_scenario_id :: "string option"
  in_evidence_ticket_id :: "string option"
  in_provenance :: string
  in_negative_scope :: "string option"
  in_valid_at :: "string option"
  in_invalid_at :: "string option"
  in_rationale :: "string option"

record skill_row =
  sk_id :: int
  sk_agent_id :: int
  sk_name :: "string option"
  sk_description :: string
  sk_created_batch_id :: "int option"
  sk_token_count :: int
  sk_parent_skill_id :: "int option"
  sk_split_snapshot_id :: "int option"
  sk_level :: "int option"

record member_row =
  mb_skill_id :: int
  mb_insight_id :: int
  mb_position :: int

record transition_row =
  tr_id :: int
  tr_insight_id :: int
  tr_from_status :: string
  tr_to_status :: string
  tr_snapshot_id :: int

record contradiction_row =
  ct_id :: int
  ct_challenger_id :: int
  ct_incumbent_id :: int
  ct_status :: string
  ct_closed_snapshot_id :: "int option"

record merge_row =
  mg_id :: int
  mg_content_hash :: string
  mg_structural_fields_json :: string
  mg_duplicate_of :: int
  mg_batch_id :: "int option"

record edge_row =
  ed_id :: int
  ed_src :: int
  ed_dst :: int
  ed_weight :: "pyfloat option"
  ed_kind :: string

record fitness_row =
  ft_id :: int
  ft_insight_id :: int
  ft_episode_id :: "int option"
  ft_mode :: string
  ft_kind :: string
  ft_snapshot_id :: int

record episode_row =
  ep_id :: int
  ep_target :: string
  ep_digest :: string
  ep_snapshot_id :: int
  ep_status :: string
  ep_max_increments :: "int option"
  ep_cost_ceiling_usd :: "pyfloat option"
  ep_mode :: string
  ep_epoch :: "int option"

record run_row =
  rn_id :: int
  rn_spec_ref :: string
  rn_snapshot_id :: int
  rn_status :: string
  rn_episode_id :: "int option"
  rn_increment_index :: "int option"
  rn_acceptance :: "string option"

record ticket_row =
  tk_id :: string
  tk_status :: string

record ticket_transition_row =
  tt_id :: int
  tt_ticket_id :: string
  tt_from_status :: string
  tt_to_status :: string
  tt_run_id :: "int option"

record span_row =
  sp_id :: string
  sp_run_id :: "int option"
  sp_family :: "string option"
  sp_agent :: "string option"
  sp_ticket_id :: "string option"
  sp_ralph_iteration :: "int option"
  sp_parent_span :: "string option"
  sp_status :: string
  sp_model_version :: "string option"
  sp_prompt_set_version :: "string option"
  sp_files_json :: string
  sp_artifact_refs_json :: string
  sp_num_turns :: "int option"
  sp_duration_ms :: "int option"
  sp_cost_usd :: "pyfloat option"
  sp_input_tokens :: "int option"
  sp_output_tokens :: "int option"
  sp_cost_partial :: bool

record failure_row =
  fr_id :: int
  fr_run_id :: "int option"
  fr_ticket_id :: "string option"
  fr_span_id :: "string option"
  fr_failure_kind :: string
  fr_location :: string
  fr_expected :: string
  fr_observed :: string
  fr_repro_command :: string

record ledger_row =
  lg_id :: int
  lg_ticket_id :: string
  lg_run_id :: "int option"
  lg_ralph_iteration :: "int option"
  lg_entry_kind :: string
  lg_span_id :: "string option"
  lg_chk_id :: "string option"
  lg_failure_record_id :: "int option"
  lg_content :: string

record workflow_row =
  wf_id :: int
  wf_episode_id :: int
  wf_run_id :: "int option"
  wf_source_ticket_id :: "string option"
  wf_precondition :: string
  wf_action :: string
  wf_expected_outcome :: string
  wf_status :: string

record validation_row =
  bv_id :: int
  bv_batch_id :: int
  bv_snapshot_id :: "int option"
  bv_trial_episode_id :: "int option"
  bv_benchmark_episode_id :: "int option"
  bv_verdict :: "string option"
  bv_replay_miss :: bool
  bv_bootstrap :: bool
  bv_cosigned_by :: "string option"
  bv_detail :: string

text \<open>Of the traceability tables of scenarios and checks only the identifiers are kept: they are
  what the modelled tables refer to.  \<open>lb_txn\<close> is the depth of open transactions.\<close>

record library =
  lb_txn :: nat
  lb_families :: "family_row list"
  lb_agents :: "agent_row list"
  lb_batches :: "batch_row list"
  lb_snapshots :: "snapshot_row list"
  lb_queue :: "queue_row list"
  lb_insights :: "insight_row list"
  lb_skills :: "skill_row list"
  lb_members :: "member_row list"
  lb_transitions :: "transition_row list"
  lb_contradictions :: "contradiction_row list"
  lb_merge_log :: "merge_row list"
  lb_meta :: "(string, string) dict"
  lb_edges :: "edge_row list"
  lb_fitness :: "fitness_row list"
  lb_scens :: "string list"
  lb_chks :: "string list"
  lb_episodes :: "episode_row list"
  lb_runs :: "run_row list"
  lb_tickets :: "ticket_row list"
  lb_ticket_transitions :: "ticket_transition_row list"
  lb_spans :: "span_row list"
  lb_failures :: "failure_row list"
  lb_ledger :: "ledger_row list"
  lb_workflows :: "workflow_row list"
  lb_validations :: "validation_row list"

definition empty_library :: library where
  "empty_library = \<lparr>lb_txn = 0, lb_families = [], lb_agents = [], lb_batches = [], lb_snapshots = [], lb_queue = [],
     lb_insights = [], lb_skills = [], lb_members = [], lb_transitions = [], lb_contradictions = [], lb_merge_log = [],
     lb_meta = [], lb_edges = [], lb_fitness = [], lb_scens = [], lb_chks = [], lb_episodes = [], lb_runs = [],
     lb_tickets = [], lb_ticket_transitions = [], lb_spans = [], lb_failures = [], lb_ledger = [], lb_workflows = [],
     lb_validations = []\<rparr>"

abbreviation StoreError :: py_exn where
  "StoreError \<equiv> Raised ''StoreError''"

text \<open>A reference that may be NULL.\<close>

definition refers :: "'k option \<Rightarrow> 'k list \<Rightarrow> bool" where
  "refers k ks = (case k of None \<Rightarrow> True | Some x \<Rightarrow> x \<in> set ks)"

section \<open>Transactions, snapshots and the promotion queue\<close>

definition transaction :: "('a library_scheme, 'b) py \<Rightarrow> ('a library_scheme, 'b) py" where
  "transaction body l = (if 0 < lb_txn l
     then (let (r, l1) = body (l\<lparr>lb_txn := lb_txn l + 1\<rparr>) in (r, l1\<lparr>lb_txn := lb_txn l1 - 1\<rparr>))
     else (let (r, l1) = body (l\<lparr>lb_txn := 1\<rparr>) in
       case r of Inl e \<Rightarrow> (Inl e, l\<lparr>lb_txn := 0\<rparr>) | Inr x \<Rightarrow> (Inr x, l1\<lparr>lb_txn := 0\<rparr>)))"

definition require_transaction :: "('a library_scheme, unit) py" where
  "require_transaction l = (if 0 < lb_txn l then Inr () else Inl StoreError, l)"

definition current_snapshot_id :: "'a library_scheme \<Rightarrow> int" where
  "current_snapshot_id l = (if lb_snapshots l = [] then 0 else Max (set (map sn_id (lb_snapshots l))))"

definition mint_snapshot :: "string \<Rightarrow> string \<Rightarrow> ('a library_scheme, int) py" where
  "mint_snapshot operation detail l =
     (let parent = current_snapshot_id l;
          snapshot_id = next_rowid (map sn_id (lb_snapshots l));
          l1 = l\<lparr>lb_snapshots := lb_snapshots l @ [\<lparr>sn_id = snapshot_id,
                 sn_parent_id = (if parent = 0 then None else Some parent),
                 sn_mutation_summary = (if detail = [] then operation else operation @ '': '' @ detail)\<rparr>]\<rparr>
      in (Inr snapshot_id, l1\<lparr>lb_queue := lb_queue l1 @ [\<lparr>pq_id = next_rowid (map pq_id (lb_queue l1)),
             pq_operation = operation, pq_detail = detail, pq_snapshot_id = snapshot_id\<rparr>]\<rparr>))"

definition queue_operation ::
    "string \<Rightarrow> string \<Rightarrow> (int \<Rightarrow> ('a library_scheme, 'b) py) \<Rightarrow> ('a library_scheme, 'b) py" where
  "queue_operation operation detail body = transaction (pbind (mint_snapshot operation detail) body)"

definition get_insight :: "int \<Rightarrow> 'a library_scheme \<Rightarrow> insight_row option" where
  "get_insight insight_id l = row_of in_id insight_id (lb_insights l)"

definition set_insight :: "int \<Rightarrow> (insight_row \<Rightarrow> insight_row) \<Rightarrow> 'a library_scheme \<Rightarrow> 'a library_scheme" where
  "set_insight insight_id f l = l\<lparr>lb_insights := update_where (\<lambda>r. in_id r = insight_id) f (lb_insights l)\<rparr>"

definition set_status :: "int \<Rightarrow> string \<Rightarrow> int \<Rightarrow> ('a library_scheme, unit) py" where
  "set_status insight_id to_status snapshot_id =
     pbind (check StoreError (to_status \<in> set STATUSES)) (\<lambda>_.
     pbind require_transaction (\<lambda>_ l. case get_insight insight_id l of
       None \<Rightarrow> (Inl StoreError, l)
     | Some row \<Rightarrow>
         if snapshot_id \<notin> set (map sn_id (lb_snapshots l)) then (Inl IntegrityError, l)
         else (Inr (), set_insight insight_id (\<lambda>r. r\<lparr>in_status := to_status\<rparr>)
           (l\<lparr>lb_transitions := lb_transitions l @ [\<lparr>tr_id = next_rowid (map tr_id (lb_transitions l)),
              tr_insight_id = insight_id, tr_from_status = in_status row, tr_to_status = to_status,
              tr_snapshot_id = snapshot_id\<rparr>]\<rparr>))))"

text \<open>\<open>ORDER BY snapshot_id, id\<close>: the first and the last row of that order.\<close>

definition by_snapshot :: "transition_row list \<Rightarrow> transition_row list" where
  "by_snapshot = sort_key tr_snapshot_id \<circ> sort_key tr_id"

definition status_at :: "int \<Rightarrow> int \<Rightarrow> 'a library_scheme \<Rightarrow> py_exn + string" where
  "status_at insight_id snapshot_id l =
     (let rows = by_snapshot (filter (\<lambda>t. tr_insight_id t = insight_id) (lb_transitions l));
          past = filter (\<lambda>t. tr_snapshot_id t \<le> snapshot_id) rows
      in if past \<noteq> [] then Inr (tr_to_status (last past))
         else if rows \<noteq> [] then Inr (tr_from_status (hd rows))
         else case get_insight insight_id l of None \<Rightarrow> Inl StoreError | Some r \<Rightarrow> Inr (in_status r))"

section \<open>Taxonomy\<close>

definition create_family :: "string \<Rightarrow> string \<Rightarrow> string \<Rightarrow> ('a library_scheme, int) py" where
  "create_family name charter router_prompt l =
     (if name \<in> fm_name ` set (lb_families l) then (Inl IntegrityError, l)
      else let i = next_rowid (map fm_id (lb_families l)) in
        (Inr i, l\<lparr>lb_families := lb_families l @ [\<lparr>fm_id = i, fm_name = name, fm_charter = charter,
           fm_router_prompt = router_prompt\<rparr>]\<rparr>))"

definition create_agent ::
    "int \<Rightarrow> string \<Rightarrow> string \<Rightarrow> string \<Rightarrow> int \<Rightarrow> int option \<Rightarrow> ('a library_scheme, int) py" where
  "create_agent family_id name description permissions active_cap parent_id l =
     (if family_id \<notin> fm_id ` set (lb_families l) \<or>
         (\<exists>a \<in> set (lb_agents l). ag_family_id a = family_id \<and> ag_name a = name) \<or> active_cap \<le> 0 \<or>
         \<not> refers parent_id (next_rowid (map ag_id (lb_agents l)) # map ag_id (lb_agents l))
      then (Inl IntegrityError, l)
      else let i = next_rowid (map ag_id (lb_agents l)) in
        (Inr i, l\<lparr>lb_agents := lb_agents l @ [\<lparr>ag_id = i, ag_family_id = family_id, ag_parent_id = parent_id,
           ag_name = name, ag_description = description, ag_permissions = permissions, ag_active_cap = active_cap,
           ag_routing_decisions = 0, ag_lineage_status = None\<rparr>]\<rparr>))"

definition ensure_batch :: "string \<Rightarrow> ('a library_scheme, int) py" where
  "ensure_batch label l = (case row_of bt_label label (lb_batches l) of
     Some b \<Rightarrow> (Inr (bt_id b), l)
   | None \<Rightarrow> let i = next_rowid (map bt_id (lb_batches l)) in
       (Inr i, l\<lparr>lb_batches := lb_batches l @ [\<lparr>bt_id = i, bt_label = label, bt_validation_class = ''general''\<rparr>]\<rparr>))"

section \<open>Insights and edges\<close>

text \<open>The row to insert comes without an identifier: \<open>in_id\<close> is set here.\<close>

definition insert_insight :: "insight_row \<Rightarrow> ('a library_scheme, int) py" where
  "insert_insight r l =
     (let i = next_rowid (map in_id (lb_insights l)); known = i # map in_id (lb_insights l) in
      if in_content_hash r \<in> in_content_hash ` set (lb_insights l) \<or> in_status r \<notin> set STATUSES \<or>
         in_provenance r \<notin> set INSIGHT_PROVENANCES \<or> \<not> refers (in_batch_id r) (map bt_id (lb_batches l)) \<or>
         \<not> refers (in_duplicate_of r) known \<or> \<not> refers (in_supersedes r) known \<or>
         \<not> refers (in_episode_id r) (map ep_id (lb_episodes l)) \<or> \<not> refers (in_evidence_scenario_id r) (lb_scens l) \<or>
         \<not> refers (in_evidence_ticket_id r) (map tk_id (lb_tickets l))
      then (Inl IntegrityError, l)
      else (Inr i, l\<lparr>lb_insights := lb_insights l @ [r\<lparr>in_id := i\<rparr>]\<rparr>))"

definition set_invalid_at :: "int \<Rightarrow> string \<Rightarrow> int \<Rightarrow> ('a library_scheme, unit) py" where
  "set_invalid_at insight_id value snapshot_id =
     pbind require_transaction (\<lambda>_ l. case get_insight insight_id l of
       None \<Rightarrow> (Inl StoreError, l)
     | Some _ \<Rightarrow> (Inr (), set_insight insight_id (\<lambda>r. r\<lparr>in_invalid_at := Some value\<rparr>) l))"

definition add_insight_edge :: "int \<Rightarrow> int \<Rightarrow> string \<Rightarrow> pyfloat option \<Rightarrow> ('a library_scheme, int) py" where
  "add_insight_edge src dst kind weight =
     pbind (check StoreError (kind \<in> set INSIGHT_EDGE_KINDS)) (\<lambda>_ l.
     if src \<notin> in_id ` set (lb_insights l) \<or> dst \<notin> in_id ` set (lb_insights l) then (Inl IntegrityError, l)
     else let i = next_rowid (map ed_id (lb_edges l)) in
       (Inr i, l\<lparr>lb_edges := lb_edges l @ [\<lparr>ed_id = i, ed_src = src, ed_dst = dst, ed_weight = weight, ed_kind = kind\<rparr>]\<rparr>))"

definition find_insight_by_hash :: "string \<Rightarrow> 'a library_scheme \<Rightarrow> insight_row option" where
  "find_insight_by_hash hash l = row_of in_content_hash hash (lb_insights l)"

section \<open>Skills and membership\<close>

definition create_skill :: "int \<Rightarrow> string option \<Rightarrow> string \<Rightarrow> int option \<Rightarrow> ('a library_scheme, int) py" where
  "create_skill agent_id name description created_batch_id l =
     (if agent_id \<notin> ag_id ` set (lb_agents l) \<or>
         (name \<noteq> None \<and> (\<exists>s \<in> set (lb_skills l). sk_agent_id s = agent_id \<and> sk_name s = name)) \<or>
         \<not> refers created_batch_id (map bt_id (lb_batches l))
      then (Inl IntegrityError, l)
      else let i = next_rowid (map sk_id (lb_skills l)) in
        (Inr i, l\<lparr>lb_skills := lb_skills l @ [\<lparr>sk_id = i, sk_agent_id = agent_id, sk_name = name,
           sk_description = description, sk_created_batch_id = created_batch_id, sk_token_count = 0,
           sk_parent_skill_id = None, sk_split_snapshot_id = None, sk_level = None\<rparr>]\<rparr>))"

definition append_member :: "int \<Rightarrow> int \<Rightarrow> ('a library_scheme, unit) py" where
  "append_member skill_id insight_id l =
     (let own = filter (\<lambda>m. mb_skill_id m = skill_id) (lb_members l);
          position = (if own = [] then 0 else Max (set (map mb_position own))) + 1
      in if skill_id \<notin> sk_id ` set (lb_skills l) \<or> insight_id \<notin> in_id ` set (lb_insights l) \<or>
            insight_id \<in> mb_insight_id ` set own
         then (Inl IntegrityError, l)
         else (Inr (), l\<lparr>lb_members := lb_members l @ [\<lparr>mb_skill_id = skill_id, mb_insight_id = insight_id,
                mb_position = position\<rparr>]\<rparr>))"

definition skill_members :: "int \<Rightarrow> 'a library_scheme \<Rightarrow> int list" where
  "skill_members skill_id l =
     map mb_insight_id (sort_key mb_position (filter (\<lambda>m. mb_skill_id m = skill_id) (lb_members l)))"

section \<open>Merge log and meta\<close>

definition insert_merge_log :: "string \<Rightarrow> string \<Rightarrow> int \<Rightarrow> int option \<Rightarrow> ('a library_scheme, int) py" where
  "insert_merge_log hash fields_json duplicate_of batch_id l =
     (if duplicate_of \<notin> in_id ` set (lb_insights l) \<or> \<not> refers batch_id (map bt_id (lb_batches l))
      then (Inl IntegrityError, l)
      else let i = next_rowid (map mg_id (lb_merge_log l)) in
        (Inr i, l\<lparr>lb_merge_log := lb_merge_log l @ [\<lparr>mg_id = i, mg_content_hash = hash,
           mg_structural_fields_json = fields_json, mg_duplicate_of = duplicate_of, mg_batch_id = batch_id\<rparr>]\<rparr>))"

definition find_merge_log_by_hash :: "string \<Rightarrow> 'a library_scheme \<Rightarrow> merge_row option" where
  "find_merge_log_by_hash hash l =
     (let rows = sort_key mg_id (filter (\<lambda>m. mg_content_hash m = hash) (lb_merge_log l))
      in if rows = [] then None else Some (last rows))"

definition set_meta :: "string \<Rightarrow> string \<Rightarrow> ('a library_scheme, unit) py" where
  "set_meta key value = pmodify (\<lambda>l. l\<lparr>lb_meta := dset key value (lb_meta l)\<rparr>)"

definition get_meta :: "string \<Rightarrow> 'a library_scheme \<Rightarrow> string option" where
  "get_meta key l = dget (lb_meta l) key"

end
