(* ===== verification/AfRuns.thy ===== *)
theory AfRuns
  imports AfStore
begin

text \<open>
  \<open>agent_families/store.py\<close>, the tables of the pipeline: runs, tickets, spans, failures, the
  ledger, episodes, the fitness log, run memory and batch validations.
\<close>

section \<open>Runs and tickets\<close>

definition create_run :: "string \<Rightarrow> int \<Rightarrow> int option \<Rightarrow> int option \<Rightarrow> ('a library_scheme, int) py" where
  "create_run spec_ref snapshot_id episode_id increment_index l =
     (if \<not> refers episode_id (map ep_id (lb_episodes l)) then (Inl IntegrityError, l)
      else let i = next_rowid (map rn_id (lb_runs l)) in
        (Inr i, l\<lparr>lb_runs := lb_runs l @ [\<lparr>rn_id = i, rn_spec_ref = spec_ref, rn_snapshot_id = snapshot_id,
           rn_status = ''created'', rn_episode_id = episode_id, rn_increment_index = increment_index,
           rn_acceptance = None\<rparr>]\<rparr>))"

definition get_run :: "int \<Rightarrow> 'a library_scheme \<Rightarrow> run_row option" where
  "get_run run_id l = row_of rn_id run_id (lb_runs l)"

definition update_run :: "int \<Rightarrow> (run_row \<Rightarrow> run_row) \<Rightarrow> ('a library_scheme, unit) py" where
  "update_run run_id f l = (if get_run run_id l = None then (Inl StoreError, l)
     else (Inr (), l\<lparr>lb_runs := update_where (\<lambda>r. rn_id r = run_id) f (lb_runs l)\<rparr>))"

definition set_run_status :: "int \<Rightarrow> string \<Rightarrow> ('a library_scheme, unit) py" where
  "set_run_status run_id status =
     pbind (check StoreError (status \<in> set RUN_STATUSES)) (\<lambda>_. update_run run_id (\<lambda>r. r\<lparr>rn_status := status\<rparr>))"

definition set_run_acceptance :: "int \<Rightarrow> string \<Rightarrow> ('a library_scheme, unit) py" where
  "set_run_acceptance run_id acceptance =
     pbind (check StoreError (acceptance \<in> set RUN_ACCEPTANCE)) (\<lambda>_.
       update_run run_id (\<lambda>r. r\<lparr>rn_acceptance := Some acceptance\<rparr>))"

definition set_ticket_status :: "string \<Rightarrow> string \<Rightarrow> int option \<Rightarrow> ('a library_scheme, unit) py" where
  "set_ticket_status ticket_id to_status run_id =
     pbind (check StoreError (to_status \<in> set TICKET_STATUSES)) (\<lambda>_.
     pbind require_transaction (\<lambda>_ l. case row_of tk_id ticket_id (lb_tickets l) of
       None \<Rightarrow> (Inl StoreError, l)
     | Some row \<Rightarrow>
         if \<not> refers run_id (map rn_id (lb_runs l)) then (Inl IntegrityError, l)
         else (Inr (), l\<lparr>lb_ticket_transitions := lb_ticket_transitions l @
             [\<lparr>tt_id = next_rowid (map tt_id (lb_ticket_transitions l)), tt_ticket_id = ticket_id,
               tt_from_status = tk_status row, tt_to_status = to_status, tt_run_id = run_id\<rparr>],
           lb_tickets := update_where (\<lambda>r. tk_id r = ticket_id) (\<lambda>r. r\<lparr>tk_status := to_status\<rparr>) (lb_tickets l)\<rparr>)))"

section \<open>Spans, failures and the ledger\<close>

text \<open>The row to insert carries the keyword arguments; the others start empty.\<close>

definition insert_span :: "span_row \<Rightarrow> ('a library_scheme, string) py" where
  "insert_span r l =
     (if \<not> prefix ''SPAN-'' (sp_id r) \<or> sp_id r \<in> sp_id ` set (lb_spans l) \<or>
         \<not> refers (sp_run_id r) (map rn_id (lb_runs l)) \<or> \<not> refers (sp_ticket_id r) (map tk_id (lb_tickets l)) \<or>
         \<not> refers (sp_parent_span r) (sp_id r # map sp_id (lb_spans l))
      then (Inl IntegrityError, l)
      else (Inr (sp_id r), l\<lparr>lb_spans := lb_spans l @ [r\<lparr>sp_status := ''running'', sp_files_json := ''[]'',
          sp_artifact_refs_json := ''[]'', sp_num_turns := None, sp_duration_ms := None, sp_cost_usd := None,
          sp_input_tokens := None, sp_output_tokens := None, sp_cost_partial := False\<rparr>]\<rparr>))"

record span_totals =
  fs_num_turns :: "int option"
  fs_duration_ms :: "int option"
  fs_cost_usd :: "pyfloat option"
  fs_input_tokens :: "int option"
  fs_output_tokens :: "int option"
  fs_cost_partial :: bool
  fs_files_json :: "string option"
  fs_artifact_refs_json :: "string option"

definition finalized_span :: "string \<Rightarrow> span_totals \<Rightarrow> span_row \<Rightarrow> span_row" where
  "finalized_span status f r = r\<lparr>sp_status := status, sp_num_turns := fs_num_turns f,
     sp_duration_ms := fs_duration_ms f, sp_cost_usd := fs_cost_usd f, sp_input_tokens := fs_input_tokens f,
     sp_output_tokens := fs_output_tokens f, sp_cost_partial := fs_cost_partial f,
     sp_files_json := (case fs_files_json f of None \<Rightarrow> sp_files_json r | Some x \<Rightarrow> x),
     sp_artifact_refs_json := (case fs_artifact_refs_json f of None \<Rightarrow> sp_artifact_refs_json r | Some x \<Rightarrow> x)\<rparr>"

definition finalize_span :: "string \<Rightarrow> string \<Rightarrow> span_totals \<Rightarrow> ('a library_scheme, unit) py" where
  "finalize_span span_id status f =
     pbind (check StoreError (status \<in> set SPAN_FINAL_STATUSES)) (\<lambda>_ l.
     if span_id \<notin> sp_id ` set (lb_spans l) then (Inl StoreError, l)
     else (Inr (), l\<lparr>lb_spans := update_where (\<lambda>r. sp_id r = span_id) (finalized_span status f) (lb_spans l)\<rparr>))"

text \<open>The rows still running, in the order of their identifiers.\<close>

definition orphan_spans :: "int option \<Rightarrow> 'a library_scheme \<Rightarrow> span_row list" where
  "orphan_spans run_id l = sort_key sp_id (filter (\<lambda>r. sp_status r = ''running'' \<and>
     (case run_id of None \<Rightarrow> True | Some i \<Rightarrow> sp_run_id r = Some i)) (lb_spans l))"

definition insert_failure_record :: "failure_row \<Rightarrow> ('a library_scheme, int) py" where
  "insert_failure_record r =
     pbind (check StoreError (fr_failure_kind r \<in> set FAILURE_KINDS)) (\<lambda>_ l.
     if \<not> refers (fr_run_id r) (map rn_id (lb_runs l)) \<or> \<not> refers (fr_ticket_id r) (map tk_id (lb_tickets l)) \<or>
        \<not> refers (fr_span_id r) (map sp_id (lb_spans l))
     then (Inl IntegrityError, l)
     else let i = next_rowid (map fr_id (lb_failures l)) in
       (Inr i, l\<lparr>lb_failures := lb_failures l @ [r\<lparr>fr_id := i\<rparr>]\<rparr>))"

definition append_ledger_entry :: "ledger_row \<Rightarrow> ('a library_scheme, int) py" where
  "append_ledger_entry r l =
     (if lg_ticket_id r \<notin> tk_id ` set (lb_tickets l) \<or> \<not> refers (lg_run_id r) (map rn_id (lb_runs l)) \<or>
         \<not> refers (lg_span_id r) (map sp_id (lb_spans l)) \<or> \<not> refers (lg_chk_id r) (lb_chks l) \<or>
         \<not> refers (lg_failure_record_id r) (map fr_id (lb_failures l))
      then (Inl IntegrityError, l)
      else let i = next_rowid (map lg_id (lb_ledger l)) in
        (Inr i, l\<lparr>lb_ledger := lb_ledger l @ [r\<lparr>lg_id := i\<rparr>]\<rparr>))"

section \<open>Episodes\<close>

definition create_episode ::
    "string \<Rightarrow> string \<Rightarrow> int \<Rightarrow> int option \<Rightarrow> pyfloat option \<Rightarrow> string \<Rightarrow> int option \<Rightarrow> ('a library_scheme, int) py" where
  "create_episode target digest snapshot_id max_increments cost_ceiling mode epoch =
     pbind (check StoreError (mode \<in> set RUN_MODES)) (\<lambda>_ l.
     let i = next_rowid (map ep_id (lb_episodes l)) in
     (Inr i, l\<lparr>lb_episodes := lb_episodes l @ [\<lparr>ep_id = i, ep_target = target, ep_digest = digest,
        ep_snapshot_id = snapshot_id, ep_status = ''created'', ep_max_increments = max_increments,
        ep_cost_ceiling_usd = cost_ceiling, ep_mode = mode, ep_epoch = epoch\<rparr>]\<rparr>))"

definition get_episode :: "int \<Rightarrow> 'a library_scheme \<Rightarrow> episode_row option" where
  "get_episode episode_id l = row_of ep_id episode_id (lb_episodes l)"

definition set_episode_status :: "int \<Rightarrow> string \<Rightarrow> ('a library_scheme, unit) py" where
  "set_episode_status episode_id status =
     pbind (check StoreError (status \<in> set EPISODE_STATUSES)) (\<lambda>_ l.
     if get_episode episode_id l = None then (Inl StoreError, l)
     else (Inr (), l\<lparr>lb_episodes := update_where (\<lambda>r. ep_id r = episode_id) (\<lambda>r. r\<lparr>ep_status := status\<rparr>) (lb_episodes l)\<rparr>))"

section \<open>The fitness log\<close>

definition record_fitness_event ::
    "int \<Rightarrow> string \<Rightarrow> string \<Rightarrow> int \<Rightarrow> int option \<Rightarrow> ('a library_scheme, int) py" where
  "record_fitness_event insight_id kind mode snapshot_id episode_id =
     pbind (check StoreError (kind \<in> set FITNESS_EVENT_KINDS)) (\<lambda>_.
     pbind (check StoreError (mode \<in> set RUN_MODES)) (\<lambda>_ l.
     if insight_id \<notin> in_id ` set (lb_insights l) \<or> \<not> refers episode_id (map ep_id (lb_episodes l))
     then (Inl IntegrityError, l)
     else let i = next_rowid (map ft_id (lb_fitness l)) in
       (Inr i, l\<lparr>lb_fitness := lb_fitness l @ [\<lparr>ft_id = i, ft_insight_id = insight_id, ft_episode_id = episode_id,
          ft_mode = mode, ft_kind = kind, ft_snapshot_id = snapshot_id\<rparr>]\<rparr>)))"

text \<open>The counts by kind; every kind is present.\<close>

definition fitness_count :: "int \<Rightarrow> int option \<Rightarrow> string \<Rightarrow> 'a library_scheme \<Rightarrow> string \<Rightarrow> nat" where
  "fitness_count insight_id snapshot_id mode l kind = length (filter (\<lambda>e. ft_insight_id e = insight_id \<and>
     ft_mode e = mode \<and> ft_kind e = kind \<and>
     (case snapshot_id of None \<Rightarrow> True | Some s \<Rightarrow> ft_snapshot_id e \<le> s)) (lb_fitness l))"

definition fitness_counts ::
    "int \<Rightarrow> int option \<Rightarrow> string \<Rightarrow> 'a library_scheme \<Rightarrow> py_exn + (string, nat) dict" where
  "fitness_counts insight_id snapshot_id mode l =
     (if mode \<notin> set RUN_MODES then Inl StoreError
      else Inr (map (\<lambda>k. (k, fitness_count insight_id snapshot_id mode l k)) FITNESS_EVENT_KINDS))"

section \<open>Run memory\<close>

definition insert_workflow :: "workflow_row \<Rightarrow> ('a library_scheme, int) py" where
  "insert_workflow r l =
     (if wf_episode_id r \<notin> ep_id ` set (lb_episodes l) \<or> \<not> refers (wf_run_id r) (map rn_id (lb_runs l)) \<or>
         \<not> refers (wf_source_ticket_id r) (map tk_id (lb_tickets l))
      then (Inl IntegrityError, l)
      else let i = next_rowid (map wf_id (lb_workflows l)) in
        (Inr i, l\<lparr>lb_workflows := lb_workflows l @ [r\<lparr>wf_id := i, wf_status := ''live''\<rparr>]\<rparr>))"

definition is_live_workflow :: "int \<Rightarrow> workflow_row \<Rightarrow> bool" where
  "is_live_workflow episode_id r \<longleftrightarrow> wf_episode_id r = episode_id \<and> wf_status r = ''live''"

definition live_workflows :: "int \<Rightarrow> 'a library_scheme \<Rightarrow> workflow_row list" where
  "live_workflows episode_id l = sort_key wf_id (filter (is_live_workflow episode_id) (lb_workflows l))"

definition settle_workflows :: "int \<Rightarrow> ('a library_scheme, nat) py" where
  "settle_workflows episode_id l =
     (Inr (length (filter (is_live_workflow episode_id) (lb_workflows l))),
      l\<lparr>lb_workflows := update_where (is_live_workflow episode_id) (\<lambda>r. r\<lparr>wf_status := ''dead''\<rparr>) (lb_workflows l)\<rparr>)"

section \<open>Batch validations\<close>

definition insert_batch_validation :: "validation_row \<Rightarrow> ('a library_scheme, int) py" where
  "insert_batch_validation r =
     pbind (check StoreError (case bv_verdict r of None \<Rightarrow> True | Some v \<Rightarrow> v \<in> set BATCH_VERDICTS)) (\<lambda>_ l.
     if bv_batch_id r \<notin> bt_id ` set (lb_batches l) \<or> \<not> refers (bv_trial_episode_id r) (map ep_id (lb_episodes l)) \<or>
        \<not> refers (bv_benchmark_episode_id r) (map ep_id (lb_episodes l))
     then (Inl IntegrityError, l)
     else let i = next_rowid (map bv_id (lb_validations l)) in
       (Inr i, l\<lparr>lb_validations := lb_validations l @ [r\<lparr>bv_id := i\<rparr>]\<rparr>))"

definition get_batch_validation :: "int \<Rightarrow> 'a library_scheme \<Rightarrow> validation_row option" where
  "get_batch_validation validation_id l = row_of bv_id validation_id (lb_validations l)"

definition set_batch_verdict :: "int \<Rightarrow> string \<Rightarrow> bool option \<Rightarrow> string option \<Rightarrow> ('a library_scheme, unit) py" where
  "set_batch_verdict validation_id verdict replay_miss cosigned_by =
     pbind (check StoreError (verdict \<in> set BATCH_VERDICTS)) (\<lambda>_ l.
     if get_batch_validation validation_id l = None then (Inl StoreError, l)
     else (Inr (), l\<lparr>lb_validations := update_where (\<lambda>r. bv_id r = validation_id) (\<lambda>r. r\<lparr>bv_verdict := Some verdict,
         bv_replay_miss := (case replay_miss of None \<Rightarrow> bv_replay_miss r | Some b \<Rightarrow> b),
         bv_cosigned_by := (case cosigned_by of None \<Rightarrow> bv_cosigned_by r | Some c \<Rightarrow> Some c)\<rparr>) (lb_validations l)\<rparr>))"

end
