(* ===== verification/AfLifecycle.thy ===== *)
theory AfLifecycle
  imports AfRuns
begin

text \<open>
  \<open>agent_families/lifecycle.py\<close>: promotion and reversal of batches, retirement and revival of
  insights and skills, consolidation.  Each operation is one \<open>queue_operation\<close>.  The NLI model is
  a parameter: a label and a confidence, or the exception it raises.
\<close>

definition LIVE_STATUSES :: "string list" where
  "LIVE_STATUSES = [''quarantined'', ''active'', ''dormant'']"

definition PROVENANCE_AUTHORITY :: "(string, int) dict" where
  "PROVENANCE_AUTHORITY = [(''seeded'', 4), (''manual'', 3), (''researched'', 2), (''consolidated'', 1), (''reflector'', 0)]"

definition SUPERSEDE_RECHECK_CONFIDENCE_DEFAULT :: pyfloat where
  "SUPERSEDE_RECHECK_CONFIDENCE_DEFAULT = flit (65/100)"

abbreviation LifecycleError :: py_exn where
  "LifecycleError \<equiv> Raised ''LifecycleError''"

record lifecycle_result =
  lr_operation :: string
  lr_snapshot_id :: int
  lr_insight_ids :: "int list"
  lr_removed_skill_ids :: "int list"
  lr_closed_contradiction_ids :: "int list"
  lr_retired_incumbent_ids :: "int list"

definition lifecycle_result :: "string \<Rightarrow> int \<Rightarrow> int list \<Rightarrow> lifecycle_result" where
  "lifecycle_result operation snapshot_id ids = \<lparr>lr_operation = operation, lr_snapshot_id = snapshot_id,
     lr_insight_ids = ids, lr_removed_skill_ids = [], lr_closed_contradiction_ids = [], lr_retired_incumbent_ids = []\<rparr>"

type_synonym nli_model = "string \<Rightarrow> string \<Rightarrow> py_exn + (string \<times> pyfloat)"

section \<open>The deferred supersede\<close>

definition insight_nli_text :: "insight_row \<Rightarrow> string" where
  "insight_nli_text row = join '' '' (filter (\<lambda>p. p \<noteq> [])
     [strip (in_precondition row), strip (in_action row), strip (in_expected_outcome row)])"

text \<open>Challenger and incumbent of the open contradictions, in the order of the edges.\<close>

definition open_contradicts_edges :: "int list \<Rightarrow> 'a library_scheme \<Rightarrow> (int \<times> int) list" where
  "open_contradicts_edges challenger_ids l =
     map (\<lambda>e. (ed_src e, ed_dst e)) (sort_key ed_id (filter (\<lambda>e. ed_kind e = ''contradicts'' \<and>
       ed_src e \<in> set challenger_ids \<and> (case get_insight (ed_dst e) l of None \<Rightarrow> False
         | Some inc \<Rightarrow> in_status inc \<noteq> ''retired'' \<and> in_invalid_at inc = None)) (lb_edges l)))"

definition corroborate_count :: "int \<Rightarrow> 'a library_scheme \<Rightarrow> nat" where
  "corroborate_count insight_id l =
     length (filter (\<lambda>e. ft_insight_id e = insight_id \<and> ft_kind e = ''corroborate'') (lb_fitness l))"

definition authority :: "insight_row \<Rightarrow> int" where
  "authority row = (case dget PROVENANCE_AUTHORITY (in_provenance row) of None \<Rightarrow> 0 | Some a \<Rightarrow> a)"

definition beats :: "insight_row \<Rightarrow> insight_row \<Rightarrow> 'a library_scheme \<Rightarrow> bool" where
  "beats challenger incumbent l =
     (if authority challenger \<noteq> authority incumbent then authority incumbent < authority challenger
      else if corroborate_count (in_id challenger) l \<noteq> corroborate_count (in_id incumbent) l
      then corroborate_count (in_id incumbent) l < corroborate_count (in_id challenger) l
      else if in_created_at challenger \<noteq> in_created_at incumbent
      then in_created_at incumbent < in_created_at challenger
      else in_id incumbent < in_id challenger)"

definition invalid_at_stamp :: "int \<Rightarrow> string" where
  "invalid_at_stamp snapshot_id = ''snapshot:'' @ show_int snapshot_id"

definition confirms :: "nli_model \<Rightarrow> pyfloat \<Rightarrow> insight_row \<Rightarrow> insight_row \<Rightarrow> py_exn + bool" where
  "confirms nli threshold incumbent challenger = map_sum id
     (\<lambda>(label, confidence). label = ''contradiction'' \<and> threshold \<le> confidence)
     (nli (insight_nli_text incumbent) (insight_nli_text challenger))"

definition resolve_edge ::
    "nli_model \<Rightarrow> pyfloat \<Rightarrow> int \<Rightarrow> int \<times> int \<Rightarrow> int list \<Rightarrow> ('a library_scheme, int list) py" where
  "resolve_edge nli threshold snapshot_id = (\<lambda>(challenger_id, incumbent_id) retired l.
     if incumbent_id \<in> set retired then (Inr retired, l)
     else case (get_insight incumbent_id l, get_insight challenger_id l) of
       (Some incumbent, Some challenger) \<Rightarrow>
         (case confirms nli threshold incumbent challenger of
            Inl e \<Rightarrow> (Inl e, l)
          | Inr ok \<Rightarrow>
              if \<not> ok then (Inr retired, l)
              else if \<not> beats challenger incumbent l then (Inr retired, l)
              else pbind (set_invalid_at incumbent_id (invalid_at_stamp snapshot_id) snapshot_id) (\<lambda>_.
                   pbind (set_status incumbent_id ''retired'' snapshot_id) (\<lambda>_.
                   pret (retired @ [incumbent_id]))) l)
     | _ \<Rightarrow> (Inl (Raised ''TypeError''), l))"

definition supersede_resolution_seam ::
    "nli_model \<Rightarrow> pyfloat \<Rightarrow> int list \<Rightarrow> int \<Rightarrow> ('a library_scheme, int list) py" where
  "supersede_resolution_seam nli threshold challenger_ids snapshot_id =
     pbind (pget (open_contradicts_edges challenger_ids)) (\<lambda>edges.
     pfor (resolve_edge nli threshold snapshot_id) edges [])"

section \<open>Batches\<close>

definition batch_id_of :: "string \<Rightarrow> ('a library_scheme, int) py" where
  "batch_id_of label l = (case row_of bt_label label (lb_batches l) of
     None \<Rightarrow> (Inl LifecycleError, l) | Some b \<Rightarrow> (Inr (bt_id b), l))"

definition batch_insights :: "int \<Rightarrow> string list \<Rightarrow> 'a library_scheme \<Rightarrow> int list" where
  "batch_insights batch_id statuses l =
     sort (map in_id (filter (\<lambda>r. in_batch_id r = Some batch_id \<and> in_status r \<in> set statuses) (lb_insights l)))"

definition set_all :: "int list \<Rightarrow> string \<Rightarrow> int \<Rightarrow> ('a library_scheme, unit) py" where
  "set_all ids status snapshot_id = pfor (\<lambda>i _. set_status i status snapshot_id) ids ()"

definition promote_batch :: "nli_model \<Rightarrow> pyfloat \<Rightarrow> string \<Rightarrow> ('a library_scheme, lifecycle_result) py" where
  "promote_batch nli threshold label =
     pbind (batch_id_of label) (\<lambda>batch_id.
     pbind (pget (batch_insights batch_id [''quarantined''])) (\<lambda>targets.
     pbind (check LifecycleError (targets \<noteq> [])) (\<lambda>_.
     queue_operation ''promote_batch'' label (\<lambda>snapshot_id.
       pbind (set_all targets ''active'' snapshot_id) (\<lambda>_.
       pbind (supersede_resolution_seam nli threshold targets snapshot_id) (\<lambda>retired.
       pret ((lifecycle_result ''promote_batch'' snapshot_id targets)\<lparr>lr_retired_incumbent_ids := retired\<rparr>)))))))"

definition orphaned_batch_skills :: "int \<Rightarrow> 'a library_scheme \<Rightarrow> int list" where
  "orphaned_batch_skills batch_id l = sort (map sk_id (filter (\<lambda>s. sk_created_batch_id s = Some batch_id \<and>
     \<not> (\<exists>m \<in> set (lb_members l). mb_skill_id m = sk_id s \<and>
         (case get_insight (mb_insight_id m) l of None \<Rightarrow> False | Some i \<Rightarrow> in_batch_id i \<noteq> Some batch_id))) (lb_skills l)))"

definition split_from :: "int list \<Rightarrow> 'a library_scheme \<Rightarrow> bool" where
  "split_from removed l \<longleftrightarrow> (\<exists>s \<in> set (lb_skills l). sk_id s \<notin> set removed \<and>
     (case sk_parent_skill_id s of None \<Rightarrow> False | Some p \<Rightarrow> p \<in> set removed))"

text \<open>The foreign key of a skill split off a removed one makes the second \<open>DELETE\<close> fail.\<close>

definition remove_orphaned_batch_skills :: "int \<Rightarrow> ('a library_scheme, int list) py" where
  "remove_orphaned_batch_skills batch_id l =
     (let removed = orphaned_batch_skills batch_id l;
          l1 = l\<lparr>lb_members := filter (\<lambda>m. mb_skill_id m \<notin> set removed) (lb_members l)\<rparr>
      in if split_from removed l1 then (Inl IntegrityError, l1)
         else (Inr removed, l1\<lparr>lb_skills := filter (\<lambda>s. sk_id s \<notin> set removed) (lb_skills l1)\<rparr>))"

definition open_flags :: "int list \<Rightarrow> 'a library_scheme \<Rightarrow> int list" where
  "open_flags challengers l =
     sort (map ct_id (filter (\<lambda>c. ct_status c = ''open'' \<and> ct_challenger_id c \<in> set challengers) (lb_contradictions l)))"

definition close_flags :: "int list \<Rightarrow> int \<Rightarrow> ('a library_scheme, unit) py" where
  "close_flags ids snapshot_id = pmodify (\<lambda>l. l\<lparr>lb_contradictions := update_where (\<lambda>c. ct_id c \<in> set ids)
     (\<lambda>c. c\<lparr>ct_status := ''closed'', ct_closed_snapshot_id := Some snapshot_id\<rparr>) (lb_contradictions l)\<rparr>)"

definition revert_batch :: "string \<Rightarrow> ('a library_scheme, lifecycle_result) py" where
  "revert_batch label =
     pbind (batch_id_of label) (\<lambda>batch_id.
     pbind (pget (batch_insights batch_id [''active'', ''quarantined''])) (\<lambda>targets.
     pbind (check LifecycleError (targets \<noteq> [])) (\<lambda>_.
     queue_operation ''revert_batch'' label (\<lambda>snapshot_id.
       pbind (set_all targets ''retired'' snapshot_id) (\<lambda>_.
       pbind (pget (open_flags targets)) (\<lambda>closed.
       pbind (close_flags closed snapshot_id) (\<lambda>_.
       pbind (remove_orphaned_batch_skills batch_id) (\<lambda>removed.
       pret ((lifecycle_result ''revert_batch'' snapshot_id targets)
         \<lparr>lr_removed_skill_ids := removed, lr_closed_contradiction_ids := closed\<rparr>)))))))))"

section \<open>Insights\<close>

definition insight_status :: "int \<Rightarrow> ('a library_scheme, string) py" where
  "insight_status insight_id l = (case get_insight insight_id l of
     None \<Rightarrow> (Inl LifecycleError, l) | Some r \<Rightarrow> (Inr (in_status r), l))"

definition retire_insight :: "int \<Rightarrow> ('a library_scheme, lifecycle_result) py" where
  "retire_insight insight_id =
     pbind (insight_status insight_id) (\<lambda>status.
     pbind (check LifecycleError (status \<noteq> ''retired'')) (\<lambda>_.
     queue_operation ''retire_insight'' (show_int insight_id) (\<lambda>snapshot_id.
       pbind (set_status insight_id ''retired'' snapshot_id) (\<lambda>_.
       pret (lifecycle_result ''retire_insight'' snapshot_id [insight_id])))))"

definition revive_insight :: "int \<Rightarrow> ('a library_scheme, lifecycle_result) py" where
  "revive_insight insight_id =
     pbind (insight_status insight_id) (\<lambda>status.
     pbind (check LifecycleError (status = ''retired'' \<or> status = ''dormant'')) (\<lambda>_.
     queue_operation ''revive_insight'' (show_int insight_id) (\<lambda>snapshot_id.
       pbind (set_status insight_id ''active'' snapshot_id) (\<lambda>_.
       pret (lifecycle_result ''revive_insight'' snapshot_id [insight_id])))))"

text \<open>\<open>dict.fromkeys\<close>: the first occurrence of each stays.\<close>

definition dedup :: "'x list \<Rightarrow> 'x list" where
  "dedup xs = rev (remdups (rev xs))"

definition check_child :: "int \<Rightarrow> int \<Rightarrow> ('a library_scheme, unit) py" where
  "check_child parent_insight_id child_id =
     pbind (check LifecycleError (child_id \<noteq> parent_insight_id)) (\<lambda>_.
     pbind (insight_status child_id) (\<lambda>status. check LifecycleError (status \<noteq> ''retired'')))"

definition demote_to_dormant :: "int list \<Rightarrow> int \<Rightarrow> ('a library_scheme, lifecycle_result) py" where
  "demote_to_dormant child_ids parent_insight_id =
     pbind (pget (get_insight parent_insight_id)) (\<lambda>parent.
     pbind (check LifecycleError (parent \<noteq> None)) (\<lambda>_.
     pbind (check LifecycleError (child_ids \<noteq> [])) (\<lambda>_.
     let targets = dedup child_ids in
     pbind (pfor (\<lambda>c _. check_child parent_insight_id c) targets ()) (\<lambda>_.
     queue_operation ''consolidate'' (show_int parent_insight_id) (\<lambda>snapshot_id.
       pbind (pfor (\<lambda>c _. pbind (set_status c ''dormant'' snapshot_id) (\<lambda>_.
           pbind (add_insight_edge parent_insight_id c ''generalizes_from'' None) (\<lambda>_. pret ()))) targets ()) (\<lambda>_.
       pret (lifecycle_result ''demote_to_dormant'' snapshot_id targets)))))))"

section \<open>Skills\<close>

definition skill_members_with_status :: "int \<Rightarrow> string list \<Rightarrow> ('a library_scheme, int list) py" where
  "skill_members_with_status skill_id statuses l =
     (if skill_id \<notin> sk_id ` set (lb_skills l) then (Inl LifecycleError, l)
      else (Inr (filter (\<lambda>i. case get_insight i l of None \<Rightarrow> False | Some r \<Rightarrow> in_status r \<in> set statuses)
        (skill_members skill_id l)), l))"

definition retire_skill :: "int \<Rightarrow> ('a library_scheme, lifecycle_result) py" where
  "retire_skill skill_id =
     pbind (skill_members_with_status skill_id LIVE_STATUSES) (\<lambda>targets.
     pbind (check LifecycleError (targets \<noteq> [])) (\<lambda>_.
     queue_operation ''retire_skill'' (show_int skill_id) (\<lambda>snapshot_id.
       pbind (set_all targets ''retired'' snapshot_id) (\<lambda>_.
       pret (lifecycle_result ''retire_skill'' snapshot_id targets)))))"

definition revive_skill :: "int \<Rightarrow> ('a library_scheme, lifecycle_result) py" where
  "revive_skill skill_id =
     pbind (skill_members_with_status skill_id [''retired'']) (\<lambda>targets.
     pbind (check LifecycleError (targets \<noteq> [])) (\<lambda>_.
     queue_operation ''revive_skill'' (show_int skill_id) (\<lambda>snapshot_id.
       pbind (set_all targets ''active'' snapshot_id) (\<lambda>_.
       pret (lifecycle_result ''revive_skill'' snapshot_id targets)))))"

definition empty_skills :: "'a library_scheme \<Rightarrow> int list" where
  "empty_skills l = sort (map sk_id (filter (\<lambda>s. \<not> (\<exists>m \<in> set (lb_members l). mb_skill_id m = sk_id s \<and>
     (case get_insight (mb_insight_id m) l of None \<Rightarrow> False | Some i \<Rightarrow> in_status i \<noteq> ''retired''))) (lb_skills l)))"

definition skills_created_by_reverted_batches :: "'a library_scheme \<Rightarrow> int list" where
  "skills_created_by_reverted_batches l = sort (map sk_id (filter (\<lambda>s.
     \<exists>b \<in> set (lb_batches l). sk_created_batch_id s = Some (bt_id b) \<and>
       (\<exists>q \<in> set (lb_queue l). pq_operation q = ''revert_batch'' \<and> pq_detail q = bt_label b)) (lb_skills l)))"

section \<open>Stamps\<close>

definition REFLECTOR_BATCH_LABEL_PREFIX :: string where
  "REFLECTOR_BATCH_LABEL_PREFIX = ''reflect-ep''"

definition provenance_for_batch_label :: "string \<Rightarrow> string" where
  "provenance_for_batch_label label =
     (if prefix REFLECTOR_BATCH_LABEL_PREFIX label then ''reflector'' else ''manual'')"

definition stamp_insight_provenance :: "int \<Rightarrow> string \<Rightarrow> ('a library_scheme, unit) py" where
  "stamp_insight_provenance insight_id provenance =
     pbind (check LifecycleError (provenance \<in> set INSIGHT_PROVENANCES)) (\<lambda>_ l.
     if get_insight insight_id l = None then (Inl LifecycleError, l)
     else (Inr (), set_insight insight_id (\<lambda>r. r\<lparr>in_provenance := provenance\<rparr>) l))"

definition auto_stamp_batch_provenance :: "string \<Rightarrow> string option \<Rightarrow> ('a library_scheme, int list) py" where
  "auto_stamp_batch_provenance label provenance_opt =
     (let provenance = (case provenance_opt of None \<Rightarrow> provenance_for_batch_label label | Some p \<Rightarrow> p) in
      pbind (check LifecycleError (provenance \<in> set INSIGHT_PROVENANCES)) (\<lambda>_.
      pbind (batch_id_of label) (\<lambda>batch_id l.
      (Inr (sort (map in_id (filter (\<lambda>r. in_batch_id r = Some batch_id) (lb_insights l)))),
       l\<lparr>lb_insights := update_where (\<lambda>r. in_batch_id r = Some batch_id) (\<lambda>r. r\<lparr>in_provenance := provenance\<rparr>) (lb_insights l)\<rparr>))))"

definition set_batch_validation_class :: "string \<Rightarrow> string \<Rightarrow> ('a library_scheme, unit) py" where
  "set_batch_validation_class label validation_class =
     pbind (check LifecycleError (validation_class \<in> set VALIDATION_CLASSES)) (\<lambda>_.
     pbind (batch_id_of label) (\<lambda>batch_id.
     pmodify (\<lambda>l. l\<lparr>lb_batches := update_where (\<lambda>b. bt_id b = batch_id)
       (\<lambda>b. b\<lparr>bt_validation_class := validation_class\<rparr>) (lb_batches l)\<rparr>)))"

end
