(* ===== verification/AfSplit.thy ===== *)
theory AfSplit
  imports AfLifecycle
begin

text \<open>
  \<open>reflector/agent_split.py\<close>: the members of a skill are distributed over two new child skills,
  and back.  The handle of a split is a value; \<open>finalize_split\<close> returns it marked.
\<close>

abbreviation AgentSplitError :: py_exn where
  "AgentSplitError \<equiv> Raised ''AgentSplitError''"

record split_result =
  sr_parent_skill_id :: int
  sr_child_skill_ids :: "int \<times> int"
  sr_snapshot_id :: int
  sr_finalized :: bool

section \<open>Statements\<close>

definition insert_child :: "skill_row \<Rightarrow> string \<Rightarrow> int \<Rightarrow> ('a library_scheme, int) py" where
  "insert_child parent ending snapshot_id l =
     (let name = (case sk_name parent of None \<Rightarrow> ''None'' | Some n \<Rightarrow> n) @ ending;
          i = next_rowid (map sk_id (lb_skills l))
      in if \<exists>s \<in> set (lb_skills l). sk_agent_id s = sk_agent_id parent \<and> sk_name s = Some name
         then (Inl IntegrityError, l)
         else (Inr i, l\<lparr>lb_skills := lb_skills l @ [\<lparr>sk_id = i, sk_agent_id = sk_agent_id parent, sk_name = Some name,
                sk_description = [], sk_created_batch_id = None, sk_token_count = 0, sk_parent_skill_id = Some (sk_id parent),
                sk_split_snapshot_id = Some snapshot_id, sk_level = None\<rparr>]\<rparr>))"

definition set_split_snapshot :: "int \<Rightarrow> int option \<Rightarrow> ('a library_scheme, unit) py" where
  "set_split_snapshot skill_id v = pmodify (\<lambda>l. l\<lparr>lb_skills :=
     update_where (\<lambda>s. sk_id s = skill_id) (\<lambda>s. s\<lparr>sk_split_snapshot_id := v\<rparr>) (lb_skills l)\<rparr>)"

definition delete_members :: "int set \<Rightarrow> ('a library_scheme, unit) py" where
  "delete_members skill_ids = pmodify (\<lambda>l. l\<lparr>lb_members := filter (\<lambda>m. mb_skill_id m \<notin> skill_ids) (lb_members l)\<rparr>)"

definition insert_member :: "int \<Rightarrow> int \<times> int \<Rightarrow> ('a library_scheme, unit) py" where
  "insert_member skill_id = (\<lambda>(position, insight_id) l.
     if skill_id \<notin> sk_id ` set (lb_skills l) \<or> insight_id \<notin> in_id ` set (lb_insights l) \<or>
        (\<exists>m \<in> set (lb_members l). mb_skill_id m = skill_id \<and> (mb_insight_id m = insight_id \<or> mb_position m = position))
     then (Inl IntegrityError, l)
     else (Inr (), l\<lparr>lb_members := lb_members l @
       [\<lparr>mb_skill_id = skill_id, mb_insight_id = insight_id, mb_position = position\<rparr>]\<rparr>))"

text \<open>\<open>enumerate(sorted(ids), start=1)\<close>.\<close>

definition numbered :: "int list \<Rightarrow> (int \<times> int) list" where
  "numbered ids = map (\<lambda>(n, i). (int n, i)) (enumerate 1 (sort ids))"

definition insert_members :: "int \<Rightarrow> int list \<Rightarrow> ('a library_scheme, unit) py" where
  "insert_members skill_id ids = pfor (\<lambda>p _. insert_member skill_id p) (numbered ids) ()"

section \<open>The three primitives\<close>

definition execute_split :: "int \<Rightarrow> int list \<times> int list \<Rightarrow> string \<Rightarrow> ('a library_scheme, split_result) py" where
  "execute_split parent_skill_id = (\<lambda>(cluster0, cluster1) detail.
     pbind (check AgentSplitError (cluster0 \<noteq> [] \<and> cluster1 \<noteq> [])) (\<lambda>_.
     pbind (check AgentSplitError (set cluster0 \<inter> set cluster1 = {})) (\<lambda>_.
     pbind (pget (skill_members parent_skill_id)) (\<lambda>members.
     pbind (check AgentSplitError (set cluster0 \<union> set cluster1 = set members)) (\<lambda>_.
     pbind (pget (\<lambda>l. row_of sk_id parent_skill_id (lb_skills l))) (\<lambda>row.
     case row of
       None \<Rightarrow> praise AgentSplitError
     | Some parent \<Rightarrow>
         queue_operation ''agent_split'' (if detail \<noteq> [] then detail else ''split '' @ show_int parent_skill_id) (\<lambda>snapshot_id.
           pbind (set_split_snapshot parent_skill_id (Some snapshot_id)) (\<lambda>_.
           pbind (insert_child parent ''-0'' snapshot_id) (\<lambda>child0.
           pbind (insert_child parent ''-1'' snapshot_id) (\<lambda>child1.
           pbind (delete_members {parent_skill_id}) (\<lambda>_.
           pbind (insert_members child0 cluster0) (\<lambda>_.
           pbind (insert_members child1 cluster1) (\<lambda>_.
           pret \<lparr>sr_parent_skill_id = parent_skill_id, sr_child_skill_ids = (child0, child1),
             sr_snapshot_id = snapshot_id, sr_finalized = False\<rparr>)))))))))))))"

definition delete_skills :: "int list \<Rightarrow> ('a library_scheme, unit) py" where
  "delete_skills ids l = (if split_from ids l then (Inl IntegrityError, l)
     else (Inr (), l\<lparr>lb_skills := filter (\<lambda>s. sk_id s \<notin> set ids) (lb_skills l)\<rparr>))"

definition members_of :: "int \<Rightarrow> 'a library_scheme \<Rightarrow> int list" where
  "members_of skill_id l = map mb_insight_id (filter (\<lambda>m. mb_skill_id m = skill_id) (lb_members l))"

definition revert_split :: "split_result \<Rightarrow> ('a library_scheme, unit) py" where
  "revert_split split =
     pbind (check AgentSplitError (\<not> sr_finalized split)) (\<lambda>_.
     let parent = sr_parent_skill_id split; child0 = fst (sr_child_skill_ids split); child1 = snd (sr_child_skill_ids split) in
     queue_operation ''agent_split_revert'' (''revert split of '' @ show_int parent) (\<lambda>_.
       pbind (pget (\<lambda>l. sort (members_of child0 l @ members_of child1 l))) (\<lambda>all_ids.
       pbind (delete_members {child0, child1}) (\<lambda>_.
       pbind (delete_skills [child0, child1]) (\<lambda>_.
       pbind (set_split_snapshot parent None) (\<lambda>_.
       insert_members parent all_ids))))))"

definition finalize_split :: "split_result \<Rightarrow> py_exn + split_result" where
  "finalize_split split = (if sr_finalized split then Inl AgentSplitError else Inr (split\<lparr>sr_finalized := True\<rparr>))"

end
