(* ===== verification/AfDerive.thy ===== *)
theory AfDerive
  imports AfPartition AfSplit
begin

text \<open>
  \<open>reflector/derive.py\<close>: the modules of an agent are rebuilt from the graph of its insights.  The
  graph (nodes and edges, from the vector index) is an argument, the namer a parameter: name and
  description of a module, or the exception it raises.
\<close>

type_synonym 'l namer = "'l \<Rightarrow> int \<Rightarrow> int list \<Rightarrow> py_exn + string \<times> string"

record derive_params =
  dp_knn_k :: int
  dp_resolutions :: "pyfloat list"
  dp_seed :: int
  dp_module_overhead_bits :: pyfloat

definition derive_params :: "int \<Rightarrow> pyfloat list \<Rightarrow> int \<Rightarrow> pyfloat \<Rightarrow> py_exn + derive_params" where
  "derive_params knn_k resolutions seed overhead =
     (if knn_k < 1 then Inl ValueError
      else if resolutions = [] then Inl ValueError
      else if overhead < 0 then Inl ValueError
      else Inr \<lparr>dp_knn_k = knn_k, dp_resolutions = resolutions, dp_seed = seed, dp_module_overhead_bits = overhead\<rparr>)"

record derive_result =
  dr_adopted :: bool
  dr_snapshot_id :: "int option"
  dr_incumbent_cost :: pyfloat
  dr_selected_cost :: pyfloat
  dr_num_communities :: nat
  dr_community_module :: "(int, int) dict"
  dr_inherited_module_ids :: "int list"
  dr_new_module_ids :: "int list"
  dr_renamed_module_ids :: "int list"
  dr_namer_calls :: nat

definition default_namer :: "'l namer" where
  "default_namer store skill_id members = Inr (''module-'' @ show_int skill_id,
     ''Derived module '' @ show_int skill_id @ '' ('' @ show_int (int (length members)) @ '' insights)'')"

section \<open>The present modules\<close>

text \<open>The members of the agent's modules that have any.  The query has no order; here the skills come
  in the order of the table.\<close>

definition prior_module_members :: "int \<Rightarrow> 'a library_scheme \<Rightarrow> (int, int list) dict" where
  "prior_module_members agent_id l =
     filter (\<lambda>(k, ms). ms \<noteq> []) (map (\<lambda>s. (sk_id s, members_of (sk_id s) l))
       (filter (\<lambda>s. sk_agent_id s = agent_id) (lb_skills l)))"

definition owners :: "(int, int list) dict \<Rightarrow> (int, int) dict" where
  "owners prior_members = fold (\<lambda>(skill_id, members) owner.
     fold (\<lambda>insight_id owner. dset insight_id skill_id owner) members owner) prior_members []"

definition assign_node :: "(int, int) dict \<Rightarrow> int \<Rightarrow> partition \<times> int \<Rightarrow> partition \<times> int" where
  "assign_node owner insight_id = (\<lambda>(membership, next_singleton). case dget owner insight_id of
     Some skill_id \<Rightarrow> (dset insight_id skill_id membership, next_singleton)
   | None \<Rightarrow> (dset insight_id next_singleton membership, next_singleton + 1))"

definition incumbent_partition :: "int list \<Rightarrow> (int, int list) dict \<Rightarrow> partition" where
  "incumbent_partition node_ids prior_members =
     fst (fold (assign_node (owners prior_members)) node_ids
       ([], (if prior_members = [] then 0 else Max (fst ` set prior_members)) + 1))"

section \<open>Identity by majority overlap\<close>

definition communities_of :: "partition \<Rightarrow> (int, int list) dict" where
  "communities_of membership = map (\<lambda>c. (c, sort (map fst (filter (\<lambda>(n, x). x = c) membership))))
     (dedup (map snd membership))"

definition overlap :: "int list \<Rightarrow> int list \<Rightarrow> int" where
  "overlap members prior = int (card (set members \<inter> set prior))"

definition better_prior :: "int list \<Rightarrow> int \<times> int list \<Rightarrow> int option \<times> int \<Rightarrow> int option \<times> int" where
  "better_prior members = (\<lambda>(skill_id, prior) (best_skill, best_overlap).
     if best_overlap < overlap members prior then (Some skill_id, overlap members prior) else (best_skill, best_overlap))"

text \<open>The prior modules, in ascending id.\<close>

definition best_prior :: "(int, int list) dict \<Rightarrow> int list \<Rightarrow> int option \<times> int" where
  "best_prior prior_members members = fold (better_prior members) (sort_key fst prior_members) (None, - 1)"

definition preference :: "(int, int list) dict \<Rightarrow> int \<times> int list \<Rightarrow> (int \<times> int \<times> int) list" where
  "preference prior_members = (\<lambda>(label, members). case best_prior prior_members members of
     (Some skill_id, best_overlap) \<Rightarrow>
       if int (card (set members)) < best_overlap * 2 then [(label, skill_id, best_overlap)] else []
   | (None, _) \<Rightarrow> [])"

definition claims :: "int \<Rightarrow> (int \<times> int \<times> int) list \<Rightarrow> (int \<times> int) list" where
  "claims skill_id preferences =
     map (\<lambda>(label, k, ov). (- ov, label)) (filter (\<lambda>(label, k, ov). k = skill_id) preferences)"

text \<open>Every module goes to the claim with the largest overlap, then the smallest label.\<close>

definition match_to_prior_modules :: "(int, int list) dict \<Rightarrow> (int, int list) dict \<Rightarrow> (int, int) dict" where
  "match_to_prior_modules communities prior_members =
     (let preferences = concat (map (preference prior_members) (sort_key fst communities))
      in map (\<lambda>skill_id. (snd (Min (set (claims skill_id preferences))), skill_id))
        (dedup (map (\<lambda>(label, skill_id, ov). skill_id) preferences)))"

section \<open>Applying a partition\<close>

definition clear_members :: "int \<Rightarrow> ('a library_scheme, unit) py" where
  "clear_members agent_id = pmodify (\<lambda>l. l\<lparr>lb_members := filter (\<lambda>m.
     mb_skill_id m \<notin> sk_id ` {s \<in> set (lb_skills l). sk_agent_id s = agent_id}) (lb_members l)\<rparr>)"

definition name_skill :: "int \<Rightarrow> string \<Rightarrow> string \<Rightarrow> ('a library_scheme, unit) py" where
  "name_skill skill_id name description l =
     (if \<exists>s \<in> set (lb_skills l). sk_id s = skill_id \<and> (\<exists>s' \<in> set (lb_skills l). sk_id s' \<noteq> skill_id \<and>
          sk_agent_id s' = sk_agent_id s \<and> sk_name s' = Some name)
      then (Inl IntegrityError, l)
      else (Inr (), l\<lparr>lb_skills := update_where (\<lambda>s. sk_id s = skill_id)
        (\<lambda>s. s\<lparr>sk_name := Some name, sk_description := description\<rparr>) (lb_skills l)\<rparr>))"

record applied =
  ap_community_module :: "(int, int) dict"
  ap_inherited :: "int list"
  ap_new :: "int list"
  ap_renamed :: "int list"
  ap_namer_calls :: nat

definition name_if_changed :: "'a library_scheme namer \<Rightarrow> int \<Rightarrow> int list \<Rightarrow> bool \<Rightarrow> applied \<Rightarrow> ('a library_scheme, applied) py" where
  "name_if_changed namer skill_id members changed acc =
     pbind (\<lambda>l. if changed then (Inr True, l) else case row_of sk_id skill_id (lb_skills l) of
         None \<Rightarrow> (Inl (Raised ''TypeError''), l) | Some row \<Rightarrow> (Inr (sk_name row = None), l)) (\<lambda>needs_name.
     if \<not> needs_name then pret acc
     else pbind (\<lambda>l. (namer l skill_id members, l)) (\<lambda>(name, description).
          pbind (name_skill skill_id name description) (\<lambda>_.
          pret (acc\<lparr>ap_namer_calls := ap_namer_calls acc + 1, ap_renamed := ap_renamed acc @ [skill_id]\<rparr>))))"

definition apply_community :: "int \<Rightarrow> (int, int) dict \<Rightarrow> (int, int list) dict \<Rightarrow> 'a library_scheme namer \<Rightarrow>
    int \<times> int list \<Rightarrow> applied \<Rightarrow> ('a library_scheme, applied) py" where
  "apply_community agent_id matched prior_members namer = (\<lambda>(label, members) acc.
     pbind (case dget matched label of None \<Rightarrow> create_skill agent_id None [] None | Some k \<Rightarrow> pret k) (\<lambda>skill_id.
     let is_new = (dget matched label = None);
         acc = (if is_new then acc\<lparr>ap_new := ap_new acc @ [skill_id]\<rparr> else acc\<lparr>ap_inherited := ap_inherited acc @ [skill_id]\<rparr>);
         acc = acc\<lparr>ap_community_module := dset label skill_id (ap_community_module acc)\<rparr>;
         prior = (if is_new then [] else case dget prior_members skill_id of None \<Rightarrow> [] | Some p \<Rightarrow> p)
     in pbind (pfor (\<lambda>i _. append_member skill_id i) members ()) (\<lambda>_.
        name_if_changed namer skill_id members (is_new \<or> set members \<noteq> set prior) acc)))"

definition apply_partition :: "int \<Rightarrow> (int, int list) dict \<Rightarrow> (int, int) dict \<Rightarrow> (int, int list) dict \<Rightarrow>
    'a library_scheme namer \<Rightarrow> string \<Rightarrow> ('a library_scheme, int \<times> applied) py" where
  "apply_partition agent_id communities matched prior_members namer detail =
     queue_operation ''derive'' detail (\<lambda>snapshot_id.
       pbind (clear_members agent_id) (\<lambda>_.
       pbind (pfor (apply_community agent_id matched prior_members namer) (sort_key fst communities)
         \<lparr>ap_community_module = [], ap_inherited = [], ap_new = [], ap_renamed = [], ap_namer_calls = 0\<rparr>) (\<lambda>acc.
       pret (snapshot_id, acc))))"

section \<open>One pass\<close>

definition candidate_key :: "(nat \<Rightarrow> pyfloat) \<Rightarrow> pyfloat \<Rightarrow> flow_edge list \<Rightarrow> candidate_partition \<Rightarrow> pyfloat \<times> (int \<times> int) list" where
  "candidate_key lg overhead edges c = (cost lg overhead (cd_membership c) edges, canonical c)"

text \<open>\<open>min\<close> with a key: the first of the least.\<close>

definition select_candidate :: "(nat \<Rightarrow> pyfloat) \<Rightarrow> pyfloat \<Rightarrow> flow_edge list \<Rightarrow> candidate_partition list \<Rightarrow> candidate_partition" where
  "select_candidate lg overhead edges cs = fold (\<lambda>c best.
     if candidate_key lg overhead edges c < candidate_key lg overhead edges best then c else best) (tl cs) (hd cs)"

definition no_op :: "pyfloat \<Rightarrow> pyfloat \<Rightarrow> nat \<Rightarrow> derive_result" where
  "no_op incumbent_cost selected_cost n = \<lparr>dr_adopted = False, dr_snapshot_id = None, dr_incumbent_cost = incumbent_cost,
     dr_selected_cost = selected_cost, dr_num_communities = n, dr_community_module = [], dr_inherited_module_ids = [],
     dr_new_module_ids = [], dr_renamed_module_ids = [], dr_namer_calls = 0\<rparr>"

text \<open>\<open>None\<close> when the proposers do not return.\<close>

definition derive_skills :: "(nat \<Rightarrow> pyfloat) \<Rightarrow> (pyfloat \<Rightarrow> pyfloat) \<Rightarrow> natives \<Rightarrow> int list \<Rightarrow> flow_edge list \<Rightarrow> int \<Rightarrow>
    derive_params \<Rightarrow> 'a library_scheme namer \<Rightarrow> int option \<Rightarrow> 'a library_scheme \<Rightarrow>
    ((py_exn + derive_result) \<times> 'a library_scheme) option" where
  "derive_skills lg sq nt node_ids edges agent_id params namer snapshot_id l =
     (let read_snapshot = (case snapshot_id of None \<Rightarrow> current_snapshot_id l | Some s \<Rightarrow> s);
          overhead = dp_module_overhead_bits params;
          prior_members = prior_module_members agent_id l;
          incumbent = incumbent_partition node_ids prior_members;
          incumbent_cost = cost lg overhead incumbent edges
      in if node_ids = [] then Some (Inr (no_op incumbent_cost incumbent_cost 0), l)
         else do {
           proposal \<leftarrow> propose_partitions lg sq nt edges (dp_resolutions params) (dp_seed params) node_ids;
           let selected = select_candidate lg overhead edges (ps_candidates proposal);
               selected_cost = cost lg overhead (cd_membership selected) edges
           in if \<not> beats_incumbent lg overhead (cd_membership selected) incumbent edges
              then Some (Inr (no_op incumbent_cost selected_cost (num_communities selected)), l)
              else let communities = communities_of (cd_membership selected);
                       matched = match_to_prior_modules communities prior_members
                   in Some (pbind (apply_partition agent_id communities matched prior_members namer
                        (''snapshot<='' @ show_int read_snapshot @ ''; '' @ show_int (int (length communities)) @ '' communities''))
                      (\<lambda>(snap, a). pret \<lparr>dr_adopted = True, dr_snapshot_id = Some snap, dr_incumbent_cost = incumbent_cost,
                         dr_selected_cost = selected_cost, dr_num_communities = length communities,
                         dr_community_module = ap_community_module a, dr_inherited_module_ids = sort (ap_inherited a),
                         dr_new_module_ids = sort (ap_new a), dr_renamed_module_ids = sort (ap_renamed a),
                         dr_namer_calls = ap_namer_calls a\<rparr>) l) })"

end
