(* ===== verification/AfPartitionProps.thy ===== *)
theory AfPartitionProps
  imports AfPartition "HOL-Library.Multiset"
begin

text \<open>
  What the partitioner guarantees: the proposers return, a proposal covers exactly the nodes under
  canonical labels, coarsening never raises the cost, and labels and the order of the nodes do not
  matter to the cost.
\<close>

section \<open>The cost depends on the grouping only\<close>

lemma dget_count_up: "dget (count_up k d) j = (if j = k then Some (case dget d k of None \<Rightarrow> 1 | Some n \<Rightarrow> n + 1) else dget d j)"
  by (auto simp: count_up_def dict_simps split: option.split)

lemma dget_counts: "dget (fold count_up ks d) j = (case dget d j of
     None \<Rightarrow> if j \<in> set ks then Some (count_list ks j) else None | Some n \<Rightarrow> Some (n + count_list ks j))"
  by (induction ks arbitrary: d) (auto simp: dget_count_up split: option.split)

lemma dict_wf_counts: "dict_wf d \<Longrightarrow> dict_wf (fold count_up ks d)"
  by (induction ks arbitrary: d) (simp_all add: count_up_def dict_simps)

lemma length_dict: "dict_wf d \<Longrightarrow> length d = card (fst ` set d)"
  by (metis dict_wf_def distinct_card length_map set_map)

lemma cost_mset:
  assumes "mset p = mset q" "dict_wf p"
  shows "cost_breakdown lg overhead p g = cost_breakdown lg overhead q g"
proof -
  have sets: "set p = set q" using assms(1) by (rule mset_eq_setD)
  have q: "dict_wf q" using assms by (metis dict_wf_def mset_map mset_eq_imp_distinct_iff)
  have get: "dget p n = dget q n" for n using assms(2) q sets by (metis dget_Some_iff option.exhaust)
  have count: "count_list (map snd p) c = count_list (map snd q) c" for c
    using assms(1) by (metis count_mset mset_map)
  have sizes: "dget (module_sizes p) c = dget (module_sizes q) c" for c
    using sets by (simp add: module_sizes_def dget_counts count)
  have "dict_wf (module_sizes p)" "dict_wf (module_sizes q)" by (simp_all add: module_sizes_def dict_wf_counts dict_wf_Nil)
  then have m: "length (module_sizes p) = length (module_sizes q)" using sets by (simp add: length_dict keys_module_sizes)
  have len: "length p = length q" using assms(1) by (rule mset_eq_length)
  have "merge_edge p = merge_edge q" "add_routing p = add_routing q" "add_locate lg p = add_locate lg q"
    by (simp_all add: fun_eq_iff merge_edge_def add_routing_def add_locate_def get sizes)
  then show ?thesis by (simp only: cost_breakdown_def canonical_edges_def Let_def m len)
qed

section \<open>Canonical labels\<close>

lemma keys_min_member: "fst ` set (min_member (n, c) d) = insert c (fst ` set d)"
  using keys_dset [of c n d] by (auto simp: min_member_def image_iff split: option.split dest!: map_of_SomeD)
    (metis fst_conv)

lemma keys_least_members: "fst ` set (fold min_member m d) = fst ` set d \<union> snd ` set m"
proof (induction m arbitrary: d)
  case (Cons e m)
  then show ?case using keys_min_member [of "fst e" "snd e" d] by auto
qed simp

lemma dict_wf_least_members: "dict_wf d \<Longrightarrow> dict_wf (fold min_member m d)"
  by (induction m arbitrary: d) (auto simp: min_member_def dict_simps split: option.split)

lemma least_members_dict: "dict_wf (least_members m)" "fst ` set (least_members m) = snd ` set m"
  by (simp_all add: least_members_def dict_wf_least_members dict_wf_Nil keys_least_members)

lemma dget_enumerate: "distinct xs \<Longrightarrow> k < length xs \<Longrightarrow>
    dget (map (\<lambda>(k, c). (c, int k)) (enumerate n xs)) (xs ! k) = Some (int (n + k))"
proof (induction xs arbitrary: n k)
  case (Cons x xs)
  then show ?case using Cons.IH [of "k - 1" "Suc n"] by (cases k) (auto simp: nth_Cons')
qed simp

definition label_order :: "partition \<Rightarrow> int list" where
  "label_order m = sort_key (\<lambda>c. the (dget (least_members m) c)) (map fst (least_members m))"

definition new_label :: "partition \<Rightarrow> int \<Rightarrow> int" where
  "new_label m c = the (dget (map (\<lambda>(k, c). (c, int k)) (enumerate 0 (label_order m))) c)"

lemma canonicalize_eq: "canonicalize m = map (\<lambda>n. (n, new_label m (the (dget m n)))) (sort (map fst m))"
  by (simp add: canonicalize_def Let_def new_label_def label_order_def)

lemma label_order: "distinct (label_order m)" "set (label_order m) = snd ` set m"
  using least_members_dict [of m] by (simp_all add: label_order_def dict_wf_def)

lemma new_label_nth: "k < length (label_order m) \<Longrightarrow> new_label m (label_order m ! k) = int k"
  using dget_enumerate [OF label_order(1), of k m 0] by (simp add: new_label_def)

lemma new_label_inj: "inj_on (new_label m) (snd ` set m)"
proof (rule inj_onI)
  fix a b assume ab: "a \<in> snd ` set m" "b \<in> snd ` set m" "new_label m a = new_label m b"
  then obtain i j where "i < length (label_order m)" "label_order m ! i = a" "j < length (label_order m)" "label_order m ! j = b"
    unfolding label_order(2) [symmetric] by (auto simp: in_set_conv_nth)
  then show "a = b" using ab(3) new_label_nth [of i m] new_label_nth [of j m] by auto
qed

lemma new_label_range: "new_label m ` snd ` set m = int ` {..<card (snd ` set m)}"
proof -
  have len: "length (label_order m) = card (snd ` set m)" by (metis distinct_card label_order)
  have "new_label m ` set (label_order m) = int ` {..<length (label_order m)}"
  proof
    show "new_label m ` set (label_order m) \<subseteq> int ` {..<length (label_order m)}"
      by (auto simp: in_set_conv_nth new_label_nth)
    show "int ` {..<length (label_order m)} \<subseteq> new_label m ` set (label_order m)"
      using new_label_nth [of _ m] nth_mem [of _ "label_order m"] by (metis (no_types, lifting) image_subsetI image_eqI lessThan_iff)
  qed
  then show ?thesis by (simp add: label_order(2) len)
qed

lemma map_get_keys: "dict_wf m \<Longrightarrow> map (\<lambda>n. (n, f (the (dget m n)))) (map fst m) = relabel f m"
  by (rule nth_equalityI) (auto simp: relabel_def dict_wf_def split_beta, metis fst_conv map_of_eq_Some_iff nth_mem option.sel prod.collapse snd_conv)

lemma canonicalize_mset: "dict_wf m \<Longrightarrow> mset (canonicalize m) = mset (relabel (new_label m) m)"
  by (simp add: canonicalize_eq map_get_keys [symmetric] del: map_map)

lemma keys_canonicalize [simp]: "map fst (canonicalize m) = sort (map fst m)"
  by (simp add: canonicalize_eq comp_def)

lemma dict_wf_canonicalize: "dict_wf m \<Longrightarrow> dict_wf (canonicalize m)"
  by (simp add: dict_wf_def)

lemma dget_canonicalize: "dict_wf m \<Longrightarrow> dget (canonicalize m) n = map_option (new_label m) (dget m n)"
proof -
  assume wf: "dict_wf m"
  have "dict_wf (relabel (new_label m) m)" using wf by (simp add: dict_wf_def)
  then have "dget (canonicalize m) n = dget (relabel (new_label m) m) n"
    using dict_wf_canonicalize [OF wf] mset_eq_setD [OF canonicalize_mset [OF wf]] by (metis dget_Some_iff option.exhaust)
  then show ?thesis by simp
qed

lemma cost_canonicalize: "dict_wf m \<Longrightarrow> cost lg overhead (canonicalize m) g = cost lg overhead m g"
  unfolding cost_def cost_mset [OF canonicalize_mset dict_wf_canonicalize] cost_relabel_parts [OF new_label_inj] ..

section \<open>Coarsening\<close>

lemma merge_into_relabel: "merge_into c d m = relabel (\<lambda>x. if x = d then c else x) m"
  by (simp add: merge_into_def relabel_def)

lemma best_merge_gains: "best_merge gain_fn edges m = Some (c, d) \<Longrightarrow> flit (1 / 10 ^ 12) < gain_fn m (merge_into c d m)"
proof -
  have step: "merge_step gain_fn m p best = Some (g, lo, hi, c, d) \<Longrightarrow>
      best = Some (g, lo, hi, c, d) \<or> flit (1 / 10 ^ 12) < gain_fn m (merge_into c d m)" for p best g lo hi
    by (auto simp: merge_step_def Let_def split: prod.splits if_splits option.splits)
  have "fold (merge_step gain_fn m) ps best = Some (g, lo, hi, c, d) \<Longrightarrow>
      best = Some (g, lo, hi, c, d) \<or> flit (1 / 10 ^ 12) < gain_fn m (merge_into c d m)" for ps best g lo hi
  proof (induction ps arbitrary: best)
    case (Cons p ps)
    then show ?case using step [of p best g lo hi] by fastforce
  qed simp
  then show "best_merge gain_fn edges m = Some (c, d) \<Longrightarrow> flit (1 / 10 ^ 12) < gain_fn m (merge_into c d m)"
    by (fastforce simp: best_merge_def)
qed

lemma fsub_positive: "0 < fsub a b \<Longrightarrow> b < a"
  using rnd_le_float [of 0 "a - b"] by (force simp: fsub_def)

lemma fadd_tolerance: "is_float a \<Longrightarrow> a \<le> fadd a (flit (1 / 10 ^ 12))"
  by (rule fadd_increasing) simp_all

text \<open>Every merge lowers what the gain is the decrease of.\<close>

lemma merge_loop_lowers:
  "(\<And>m trial. gain_fn m trial = fsub (val m) (val trial)) \<Longrightarrow> val (merge_loop gain_fn edges m) \<le> (val m :: pyfloat)"
proof (induction gain_fn edges m rule: merge_loop.induct)
  case (1 gain_fn edges m)
  show ?case
  proof (cases "best_merge gain_fn edges m")
    case None
    then show ?thesis by (simp add: merge_loop.simps)
  next
    case (Some p)
    obtain c d where p: "p = (c, d)" by fastforce
    have "0 \<le> flit (1 / 10 ^ 12)" by simp
    then have "0 < fsub (val m) (val (merge_into c d m))"
      using best_merge_gains [OF Some [unfolded p]] "1.prems" by (metis le_less_trans)
    then have "val (merge_into c d m) < val m" by (rule fsub_positive)
    moreover have "val (merge_loop gain_fn edges (merge_into c d m)) \<le> val (merge_into c d m)"
      by (rule "1.IH" [OF Some p [symmetric] "1.prems"])
    ultimately show ?thesis using Some p by (simp add: merge_loop.simps [of gain_fn edges m])
  qed
qed

lemma relabel_relabel: "relabel f (relabel g m) = relabel (f \<circ> g) m"
  by (simp add: relabel_def split_beta)

lemma merge_loop_relabel: "\<exists>f. merge_loop gain_fn edges m = relabel f m"
proof (induction gain_fn edges m rule: merge_loop.induct)
  case (1 gain_fn edges m)
  show ?case
  proof (cases "best_merge gain_fn edges m")
    case None
    have "relabel id m = m" by (simp add: relabel_def split_beta)
    then show ?thesis using None by (metis merge_loop.simps option.simps(4))
  next
    case (Some p)
    obtain c d where p: "p = (c, d)" by fastforce
    obtain f where "merge_loop gain_fn edges (merge_into c d m) = relabel f (merge_into c d m)" using 1 [OF Some p [symmetric]] by blast
    then have "merge_loop gain_fn edges m = relabel f (merge_into c d m)"
      using Some p by (simp add: merge_loop.simps [of gain_fn edges m])
    then show ?thesis unfolding merge_into_relabel relabel_relabel by blast
  qed
qed

lemma keys_merge_loop [simp]: "map fst (merge_loop gain_fn edges m) = map fst m"
  using merge_loop_relabel [of gain_fn edges m] by (auto simp del: map_map)

lemma keys_coarsen [simp]: "map fst (coarsen_by_cost lg m edges) = sort (map fst m)"
  by (simp add: coarsen_by_cost_def)

lemma coarsen_lowers:
  assumes "dict_wf m"
  shows "cost lg DEFAULT_MODULE_OVERHEAD_BITS (coarsen_by_cost lg m edges) edges \<le> cost lg DEFAULT_MODULE_OVERHEAD_BITS m edges"
proof -
  let ?val = "\<lambda>m. cost lg DEFAULT_MODULE_OVERHEAD_BITS m edges"
  let ?loop = "merge_loop (\<lambda>m trial. fsub (?val m) (?val trial)) edges m"
  have "dict_wf ?loop" using assms by (simp add: dict_wf_def)
  then have "?val (canonicalize ?loop) = ?val ?loop" by (rule cost_canonicalize)
  moreover have "?val ?loop \<le> ?val m" by (rule merge_loop_lowers) simp
  ultimately show ?thesis by (simp add: coarsen_by_cost_def)
qed

section \<open>Moving nodes ends\<close>

lemma try_targets:
  assumes "\<And>m. is_float (score m)" "fold (try_target score cur node) ts (best, sc) = (bt, bs)"
    "is_float sc" "case best of None \<Rightarrow> sc = base | Some t \<Rightarrow> sc = score (dset node t cur) \<and> base < sc"
  shows "case bt of None \<Rightarrow> bs = base | Some t \<Rightarrow> bs = score (dset node t cur) \<and> base < bs"
  using assms(2-4)
proof (induction ts arbitrary: best sc)
  case Nil
  then show ?case by (cases best) auto
next
  case (Cons t ts)
  obtain best' sc' where step: "try_target score cur node t (best, sc) = (best', sc')" by fastforce
  have rest: "fold (try_target score cur node) ts (best', sc') = (bt, bs)" using Cons.prems(1) step by simp
  have "base \<le> sc" using Cons.prems(3) by (auto split: option.splits)
  then have "is_float sc' \<and> (case best' of None \<Rightarrow> sc' = base | Some t \<Rightarrow> sc' = score (dset node t cur) \<and> base < sc')"
    using step Cons.prems(2,3) assms(1) fadd_tolerance [OF Cons.prems(2)]
    by (auto simp: try_target_def Let_def split: if_splits option.splits)
  then show ?case using Cons.IH [OF rest] by blast
qed

lemma move_nodes:
  assumes "\<And>m. is_float (score m)"
    "fold (move_node score edges) nodes (cur, score cur, fresh, changed) = (cur', base', fresh', changed')"
  shows "base' = score cur' \<and> (if changed' then changed \<or> score cur < base' else cur' = cur) \<and> score cur \<le> base' \<and>
    (changed \<longrightarrow> changed') \<and> (set nodes \<subseteq> fst ` set cur \<longrightarrow> map fst cur' = map fst cur)"
  using assms(2)
proof (induction nodes arbitrary: cur fresh changed)
  case Nil
  then show ?case by auto
next
  case (Cons node nodes)
  obtain bt bs where tt: "fold (try_target score cur node) (move_targets edges cur fresh node) (None, score cur) = (bt, bs)"
    by fastforce
  have best: "case bt of None \<Rightarrow> bs = score cur | Some t \<Rightarrow> bs = score (dset node t cur) \<and> score cur < bs"
    by (rule try_targets [OF assms(1) tt assms(1)]) simp
  show ?case
  proof (cases bt)
    case None
    then have "move_node score edges node (cur, score cur, fresh, changed) = (cur, score cur, fresh, changed)"
      using tt by (simp add: move_node_def)
    then show ?thesis using Cons.IH [of cur fresh changed] Cons.prems by auto
  next
    case (Some t)
    let ?cur = "dset node t cur"
    have up: "bs = score ?cur" "score cur < score ?cur" using best Some by auto
    have "move_node score edges node (cur, score cur, fresh, changed) = (?cur, score ?cur, max fresh (t + 1), True)"
      using tt Some up(1) by (simp add: move_node_def)
    then have "base' = score cur' \<and> score ?cur \<le> base' \<and> changed' \<and> (set nodes \<subseteq> fst ` set ?cur \<longrightarrow> map fst cur' = map fst ?cur)"
      using Cons.IH [of ?cur "max fresh (t + 1)" True] Cons.prems by (simp split: if_splits)
    moreover have "node \<in> fst ` set cur \<Longrightarrow> map fst ?cur = map fst cur" by (simp add: update_keys)
    ultimately show ?thesis using up(2) by (auto simp flip: set_map)
  qed
qed

lemma refine_pass_progress:
  assumes "\<And>m. is_float (score m)" "refine_pass score edges nodes cur = (cur', changed)"
  shows "(if changed then score cur < score cur' else cur' = cur) \<and> (set nodes \<subseteq> fst ` set cur \<longrightarrow> map fst cur' = map fst cur)"
proof -
  obtain c b f ch where run: "fold (move_node score edges) nodes (cur, score cur, Max (snd ` set cur) + 1, False) = (c, b, f, ch)"
    by (cases "fold (move_node score edges) nodes (cur, score cur, Max (snd ` set cur) + 1, False)") auto
  have "c = cur'" "ch = changed" using assms(2) by (simp_all add: refine_pass_def run)
  then show ?thesis using move_nodes [OF assms(1) run] by auto
qed

text \<open>A score that takes finitely many values, all of them doubles, cannot rise for ever.\<close>

lemma refine_returns_keys:
  assumes "\<And>m. is_float (score m)" "finite (range score)" "set nodes \<subseteq> fst ` set cur"
  shows "\<exists>r. refine score edges nodes cur = Some r \<and> map fst r = map fst cur"
  using assms(3)
proof (induction "card {v \<in> range score. score cur < v}" arbitrary: cur rule: less_induct)
  case less
  obtain cur' changed where pass: "refine_pass score edges nodes cur = (cur', changed)" by fastforce
  note prog = refine_pass_progress [OF assms(1) pass]
  show ?case
  proof (cases changed)
    case False
    then show ?thesis using prog pass by (simp add: refine.simps)
  next
    case True
    then have up: "score cur < score cur'" "map fst cur' = map fst cur" using prog less.prems by auto
    have "{v \<in> range score. score cur' < v} \<subset> {v \<in> range score. score cur < v}" using up(1) by auto
    then have "card {v \<in> range score. score cur' < v} < card {v \<in> range score. score cur < v}"
      using assms(2) by (intro psubset_card_mono) simp_all
    moreover have "set nodes \<subseteq> fst ` set cur'" using less.prems up(2) by (metis set_map)
    ultimately obtain r where "refine score edges nodes cur' = Some r" "map fst r = map fst cur'" using less.hyps by blast
    then show ?thesis using True up(2) pass by (simp add: refine.simps [of score edges nodes cur])
  qed
qed

section \<open>The modularity takes finitely many values\<close>

definition bounded_lists :: "'b set \<Rightarrow> nat \<Rightarrow> 'b list set" where
  "bounded_lists A n = {xs. set xs \<subseteq> A \<and> length xs \<le> n}"

lemma finite_bounded_lists: "finite A \<Longrightarrow> finite (bounded_lists A n)"
  by (simp add: bounded_lists_def finite_lists_length_le)

lemma dget_add_fold: "dget (fold (\<lambda>x. add_to (key x) (w x)) xs d) c =
   (case dget d c of
      None \<Rightarrow> if c \<in> key ` set xs then Some (fold (\<lambda>x acc. fadd acc (w x)) (filter (\<lambda>x. key x = c) xs) 0) else None
    | Some v \<Rightarrow> Some (fold (\<lambda>x acc. fadd acc (w x)) (filter (\<lambda>x. key x = c) xs) v))"
proof (induction xs arbitrary: d)
  case (Cons x xs)
  then show ?case by (auto simp: add_to_def dict_simps split: option.split)
qed (simp split: option.split)

lemma keys_add_fold: "fst ` set (fold (\<lambda>x. add_to (key x) (w x)) xs d) = key ` set xs \<union> fst ` set d"
  by (induction xs arbitrary: d) (auto simp: keys_add_to)

lemma dict_wf_add_fold: "dict_wf d \<Longrightarrow> dict_wf (fold (\<lambda>x. add_to (key x) (w x)) xs d)"
  by (induction xs arbitrary: d) (simp_all add: add_to_def dict_simps)

definition part_sums :: "('x \<Rightarrow> pyfloat) \<Rightarrow> 'x list \<Rightarrow> pyfloat set" where
  "part_sums w xs = (\<lambda>ys. fold (\<lambda>x acc. fadd acc (w x)) ys 0) ` bounded_lists (set xs) (length xs)"

lemma finite_sums: "finite (part_sums w xs)"
  by (simp add: part_sums_def finite_bounded_lists)

lemma filter_sum: "fold (\<lambda>x acc. fadd acc (w x)) (filter P xs) 0 \<in> part_sums w xs"
  by (auto simp: part_sums_def bounded_lists_def intro!: imageI)

lemma zero_sum: "0 \<in> part_sums w xs"
  using filter_sum [of w "\<lambda>x. False" xs] by simp

lemma add_within_fold: "fold (add_within m) es d =
    fold (\<lambda>(src, dst, w). add_to (the (dget m src)) w) (filter (\<lambda>(src, dst, w). dget m src = dget m dst) es) d"
  by (induction es arbitrary: d) (auto simp: add_within_def)

lemma finite_modularity: "finite (range (modularity_score sq resolution edges))"
proof -
  let ?es = "real_edges edges"
  let ?strength = "fold add_strength ?es []" and ?m = "fold (\<lambda>(src, dst, weight) m. fadd m weight) ?es 0"
  let ?nodes = "sort (map fst ?strength)"
  let ?w = "\<lambda>(src, dst, w). w :: pyfloat"
  let ?st = "\<lambda>n. the (dget ?strength n)"
  let ?T = "(\<lambda>(l, k). modularity_term sq resolution ?m l k) ` (part_sums ?w ?es \<times> insert (the None) (part_sums ?st ?nodes))"
  let ?V = "insert 0 ((\<lambda>ts. fold (\<lambda>t q. fadd q t) ts 0) ` bounded_lists ?T (length ?nodes))"
  have "modularity_score sq resolution edges mb \<in> ?V" for mb
  proof -
    let ?k = "fold (add_tot mb ?strength) ?nodes []" and ?in = "fold (add_within mb) ?es []"
    let ?summand = "\<lambda>c. modularity_term sq resolution ?m (case dget ?in c of None \<Rightarrow> 0 | Some x \<Rightarrow> x) (the (dget ?k c))"
    have tot: "?k = fold (\<lambda>n. add_to (the (dget mb n)) (?st n)) ?nodes []"
      by (intro fold_cong) (simp_all add: add_tot_def fun_eq_iff)
    have k: "the (dget ?k c) \<in> insert (the None) (part_sums ?st ?nodes)" for c
      unfolding tot dget_add_fold by (simp add: filter_sum)
    have l: "(case dget ?in c of None \<Rightarrow> 0 | Some x \<Rightarrow> x) \<in> part_sums ?w ?es" for c
    proof -
      have "fold (add_within mb) ?es [] = fold (\<lambda>x. add_to (case x of (src, dst, w) \<Rightarrow> the (dget mb src)) (?w x))
          (filter (\<lambda>(src, dst, w). dget mb src = dget mb dst) ?es) []"
        unfolding add_within_fold by (intro fold_cong) auto
      then show ?thesis by (simp add: dget_add_fold zero_sum filter_sum)
    qed
    have terms: "set (map ?summand (sort (map fst ?k))) \<subseteq> ?T" using k l by force
    have "dict_wf ?k" unfolding tot by (rule dict_wf_add_fold) (rule dict_wf_Nil)
    then have "length ?k = card ((\<lambda>n. the (dget mb n)) ` set ?nodes)"
      unfolding tot by (simp add: length_dict keys_add_fold)
    also have "\<dots> \<le> length ?nodes" by (metis card_image_le card_length finite_set le_trans)
    finally have len: "length (map ?summand (sort (map fst ?k))) \<le> length ?nodes" by simp
    have "modularity_score sq resolution edges mb = (if ?m = 0 then 0 else fold (\<lambda>t q. fadd q t) (map ?summand (sort (map fst ?k))) 0)"
      by (simp add: modularity_score_def Let_def fold_map comp_def)
    then show ?thesis using terms len by (auto simp: bounded_lists_def simp del: length_map length_sort)
  qed
  moreover have "finite ?V" by (intro finite.insertI finite_imageI finite_bounded_lists finite_cartesian_product finite_sums)
  ultimately show ?thesis by (meson finite_subset image_subsetI)
qed

lemma modularity_float: "is_float (modularity_score sq resolution edges m)"
proof -
  have "is_float (fold (\<lambda>c q. fadd q (f c)) cs 0)" for f and cs :: "int list"
    by (cases cs rule: rev_cases) simp_all
  then show ?thesis by (simp add: modularity_score_def Let_def)
qed

section \<open>The proposers return\<close>

lemma labels_canonicalize: "dict_wf m \<Longrightarrow> snd ` set (canonicalize m) = int ` {..<card (snd ` set m)}"
  using mset_eq_setD [OF canonicalize_mset, of m] new_label_range [of m]
  by (simp add: relabel_def image_image split_beta)

lemma greedy_merge_returns:
  assumes "distinct nodes"
  shows "\<exists>r. greedy_merge edges nodes (modularity_score sq resolution edges) = Some r \<and> map fst r = sort nodes \<and> dict_wf r"
proof (cases "edges = []")
  case True
  then show ?thesis using assms by (auto simp: greedy_merge_def Let_def dict_wf_def comp_def)
next
  case False
  let ?score = "modularity_score sq resolution edges"
  let ?m = "merge_loop (\<lambda>m trial. fsub (?score trial) (?score m)) edges (map (\<lambda>n. (n, n)) nodes)"
  have keys: "map fst ?m = nodes" by (simp add: comp_def)
  then have "set nodes \<subseteq> fst ` set ?m" by (metis set_map subset_refl)
  then obtain r where "refine ?score edges nodes ?m = Some r" "map fst r = nodes"
    using refine_returns_keys [OF modularity_float finite_modularity] keys by metis
  then show ?thesis using False assms by (auto simp: greedy_merge_def Let_def dict_wf_def)
qed

lemma nodes_of_simps [simp]: "distinct (nodes_of edges nodes)" "sort (nodes_of edges nodes) = nodes_of edges nodes"
  by (simp_all add: nodes_of_def sorted_sort_id)

lemma with_isolated_keys: "dict_wf m \<Longrightarrow> dict_wf (with_isolated nodes m) \<and> fst ` set (with_isolated nodes m) = fst ` set m \<union> set nodes"
proof (induction nodes arbitrary: m)
  case (Cons n nodes)
  show ?case
  proof (cases "dget m n")
    case None
    have "dict_wf (dset n n m)" "fst ` set (dset n n m) = insert n (fst ` set m)"
      using Cons.prems keys_dset [of n n m] by (simp_all add: dict_wf_dset)
    then show ?thesis using Cons.IH [of "dset n n m"] None by (auto simp: with_isolated_def)
  next
    case (Some x)
    then have "n \<in> fst ` set m" by (force dest: map_of_SomeD)
    then show ?thesis using Cons.IH [of m] Cons.prems Some by (auto simp: with_isolated_def)
  qed
qed (simp add: with_isolated_def)

text \<open>What the installed back ends return: a dictionary over nodes of the graph.\<close>

definition native_ok :: "natives \<Rightarrow> flow_edge list \<Rightarrow> int list \<Rightarrow> bool" where
  "native_ok nt edges nodes \<longleftrightarrow>
     (\<forall>f resolution seed m. nt_leiden nt = Some f \<longrightarrow> f edges resolution seed = Some m \<longrightarrow>
        dict_wf m \<and> fst ` set m \<subseteq> set (nodes_of edges nodes)) \<and>
     (\<forall>f seed m. nt_infomap nt = Some f \<longrightarrow> f edges seed = Some m \<longrightarrow>
        dict_wf m \<and> fst ` set m \<subseteq> set (nodes_of edges nodes))"

definition covers :: "int list \<Rightarrow> partition \<Rightarrow> bool" where
  "covers nodes m \<longleftrightarrow> map fst m = nodes \<and> dict_wf m \<and> snd ` set m = int ` {..<card (snd ` set m)}"

lemma covers_canonicalize:
  assumes "dict_wf m" "sort (map fst m) = nodes"
  shows "covers nodes (canonicalize m)"
proof -
  have "card (snd ` set (canonicalize m)) = card (snd ` set m)"
    unfolding labels_canonicalize [OF assms(1)] by (simp add: card_image)
  then show ?thesis using assms labels_canonicalize [OF assms(1)] by (simp add: covers_def dict_wf_canonicalize)
qed

lemma covers_native:
  assumes "dict_wf m" "fst ` set m \<subseteq> set (nodes_of edges nodes)"
  shows "covers (nodes_of edges nodes) (canonicalize (with_isolated (nodes_of edges nodes) m))"
proof (rule covers_canonicalize)
  let ?w = "with_isolated (nodes_of edges nodes) m"
  show wf: "dict_wf ?w" using with_isolated_keys [OF assms(1)] by blast
  have "set (map fst ?w) = set (nodes_of edges nodes)" using with_isolated_keys [OF assms(1), of "nodes_of edges nodes"] assms(2) by auto
  then have "mset (map fst ?w) = mset (nodes_of edges nodes)"
    using wf by (intro set_eq_iff_mset_eq_distinct [THEN iffD1]) (simp_all add: dict_wf_def)
  then show "sort (map fst ?w) = nodes_of edges nodes" by (metis nodes_of_simps(2) sorted_list_of_multiset_mset)
qed

lemma covers_greedy:
  "\<exists>r. greedy_merge edges (nodes_of edges nodes) (modularity_score sq resolution edges) = Some r \<and> covers (nodes_of edges nodes) r"
proof -
  let ?nodes = "nodes_of edges nodes"
  obtain r where r: "greedy_merge edges ?nodes (modularity_score sq resolution edges) = Some r" "map fst r = ?nodes" "dict_wf r"
    using greedy_merge_returns [of ?nodes edges sq resolution] by auto
  obtain m where "r = canonicalize m" "dict_wf m"
  proof (cases "edges = []")
    case True
    then show ?thesis using r that [of "map (\<lambda>n. (n, n)) ?nodes"] by (auto simp: greedy_merge_def Let_def dict_wf_def comp_def)
  next
    case False
    then obtain m where "r = canonicalize m" using r(1) by (auto simp: greedy_merge_def Let_def)
    then show ?thesis using that r(3) by (metis dict_wf_def distinct_sort keys_canonicalize)
  qed
  then show ?thesis using r covers_canonicalize [of m ?nodes] by auto
qed

lemma coarsen_covers: "covers nodes m \<Longrightarrow> sorted nodes \<Longrightarrow> covers nodes (coarsen_by_cost lg m edges)"
  unfolding coarsen_by_cost_def by (rule covers_canonicalize) (auto simp: covers_def dict_wf_def sorted_sort_id)

lemma those_all: "(\<And>x. x \<in> set xs \<Longrightarrow> \<exists>y. f x = Some y \<and> P y) \<Longrightarrow> \<exists>ys. those (map f xs) = Some ys \<and> (\<forall>y \<in> set ys. P y)"
  by (induction xs) fastforce+

lemma propose_covers:
  assumes "native_ok nt edges nodes"
  shows "\<exists>p. propose_partitions lg sq nt edges resolutions seed nodes = Some p \<and> ps_candidates p \<noteq> [] \<and>
    (\<forall>c \<in> set (ps_candidates p). covers (nodes_of edges nodes) (cd_membership c))"
proof -
  let ?nodes = "nodes_of edges nodes"
  have leiden: "\<exists>c. propose_leiden_at sq nt edges seed ?nodes r = Some c \<and> covers ?nodes (cd_membership c)" for r
    using assms covers_greedy [of edges nodes sq r] covers_native [of _ edges nodes]
    by (fastforce simp: propose_leiden_at_def native_ok_def split: option.split)
  obtain cs where cs: "propose_leiden sq nt edges resolutions seed nodes = Some cs" "\<forall>c \<in> set cs. covers ?nodes (cd_membership c)"
    using those_all [of resolutions "propose_leiden_at sq nt edges seed ?nodes", OF leiden] unfolding propose_leiden_def by blast
  have sorted: "sorted ?nodes" by (simp add: nodes_of_def)
  have infomap: "\<exists>c. propose_infomap lg sq nt edges seed nodes = Some c \<and> covers ?nodes (cd_membership c)"
  proof (cases "case nt_infomap nt of None \<Rightarrow> None | Some infomap \<Rightarrow> infomap edges seed")
    case None
    then show ?thesis using covers_greedy [of edges nodes sq 1] coarsen_covers [OF _ sorted]
      by (auto simp: propose_infomap_def)
  next
    case (Some m)
    then have "dict_wf m \<and> fst ` set m \<subseteq> set ?nodes" using assms by (auto simp: native_ok_def split: option.splits)
    then show ?thesis using Some covers_native [of m edges nodes] by (auto simp: propose_infomap_def)
  qed
  then show ?thesis using cs by (auto simp: propose_partitions_def)
qed

end
