(* ===== verification/AfHistory.thy ===== *)
theory AfHistory
  imports AfSplit
begin

text \<open>
  The history of the library: what every lifecycle operation keeps.  The locale
  \<open>library_invariant\<close> reduces an invariant of the whole lifecycle to the writes it is made of:
  minting a snapshot, a status flip under the snapshot just minted, and writes that touch neither
  the snapshots nor the statuses.
\<close>

section \<open>The operations as one step type\<close>

datatype lib_op =
    Promote string
  | Revert string
  | RetireInsight int
  | ReviveInsight int
  | Demote "int list" int
  | RetireSkill int
  | ReviveSkill int
  | StampProvenance int string
  | AutoStamp string "string option"
  | SetClass string string
  | EnsureBatch string
  | InsertInsight insight_row
  | AddEdge int int string "pyfloat option"
  | RecordFitness int string string int "int option"
  | CreateSkill int "string option" string "int option"
  | AppendMember int int
  | SplitSkill int "int list" "int list" string
  | UnsplitSkill split_result

abbreviation punit :: "('s, 'b) py \<Rightarrow> ('s, unit) py" where
  "punit m \<equiv> pbind m (\<lambda>_. pret ())"

fun run_lib_op :: "nli_model \<Rightarrow> pyfloat \<Rightarrow> lib_op \<Rightarrow> ('a library_scheme, unit) py" where
  "run_lib_op nli t (Promote b) = punit (promote_batch nli t b)"
| "run_lib_op nli t (Revert b) = punit (revert_batch b)"
| "run_lib_op nli t (RetireInsight i) = punit (retire_insight i)"
| "run_lib_op nli t (ReviveInsight i) = punit (revive_insight i)"
| "run_lib_op nli t (Demote cs p) = punit (demote_to_dormant cs p)"
| "run_lib_op nli t (RetireSkill k) = punit (retire_skill k)"
| "run_lib_op nli t (ReviveSkill k) = punit (revive_skill k)"
| "run_lib_op nli t (StampProvenance i p) = stamp_insight_provenance i p"
| "run_lib_op nli t (AutoStamp b p) = punit (auto_stamp_batch_provenance b p)"
| "run_lib_op nli t (SetClass b c) = set_batch_validation_class b c"
| "run_lib_op nli t (EnsureBatch b) = punit (ensure_batch b)"
| "run_lib_op nli t (InsertInsight r) = punit (insert_insight r)"
| "run_lib_op nli t (AddEdge a b k w) = punit (add_insight_edge a b k w)"
| "run_lib_op nli t (RecordFitness i k m s e) = punit (record_fitness_event i k m s e)"
| "run_lib_op nli t (CreateSkill a n d b) = punit (create_skill a n d b)"
| "run_lib_op nli t (AppendMember k i) = append_member k i"
| "run_lib_op nli t (SplitSkill k c0 c1 d) = punit (execute_split k (c0, c1) d)"
| "run_lib_op nli t (UnsplitSkill r) = revert_split r"

definition run_lib_ops :: "nli_model \<Rightarrow> pyfloat \<Rightarrow> lib_op list \<Rightarrow> 'a library_scheme \<Rightarrow> 'a library_scheme" where
  "run_lib_ops nli t ops l = fold (\<lambda>p l. snd (run_lib_op nli t p l)) ops l"

section \<open>Invariants\<close>

definition statuses :: "'a library_scheme \<Rightarrow> (int \<times> string) list" where
  "statuses l = map (\<lambda>r. (in_id r, in_status r)) (lb_insights l)"

text \<open>Two states that agree on the snapshots, the queue, the transitions and the statuses.\<close>

definition same_core :: "'a library_scheme \<Rightarrow> 'a library_scheme \<Rightarrow> bool" where
  "same_core l l' \<longleftrightarrow> lb_snapshots l' = lb_snapshots l \<and> lb_queue l' = lb_queue l \<and>
     lb_transitions l' = lb_transitions l \<and> statuses l' = statuses l"

lemma same_core_refl [simp]: "same_core l l"
  by (simp add: same_core_def)

lemma statuses_set_insight: "(\<And>r. in_id (f r) = in_id r \<and> in_status (f r) = in_status r) \<Longrightarrow>
    statuses (set_insight i f l) = statuses l"
  by (simp add: statuses_def set_insight_def update_where_def o_def)

locale library_invariant =
  fixes P :: "'a library_scheme \<Rightarrow> bool"
    and Q :: "int \<Rightarrow> 'a library_scheme \<Rightarrow> bool"
  assumes frame: "P l \<Longrightarrow> same_core l l' \<Longrightarrow> P l'"
    and frame_in: "Q s l \<Longrightarrow> same_core l l' \<Longrightarrow> Q s l'"
    and leave: "Q s l \<Longrightarrow> P l"
    and mint: "P l \<Longrightarrow> mint_snapshot operation detail l = (Inr s, l') \<Longrightarrow> Q s l'"
    and status: "Q s l \<Longrightarrow> Q s (snd (set_status i to s l))"
    and insert_row: "P l \<Longrightarrow> P (snd (insert_insight r l))"
begin

text \<open>A transaction keeps the invariant when its body does; a rollback restores the state.\<close>

lemma transaction_keeps:
  assumes "P l" and "\<And>l. P l \<Longrightarrow> P (snd (body l))"
  shows "P (snd (transaction body l))"
proof -
  have core: "same_core l' (l'\<lparr>lb_txn := n\<rparr>)" for l' :: "'a library_scheme" and n
    by (simp add: same_core_def statuses_def)
  have P: "P (l'\<lparr>lb_txn := n\<rparr>)" if "P l'" for l' n by (rule frame [OF that core])
  show ?thesis using P [OF assms(2) [OF P [OF assms(1)]]] P [OF assms(1)]
    by (auto simp: transaction_def Let_def split: prod.splits sum.splits) (metis snd_conv)+
qed

lemma queue_keeps:
  assumes "P l" and "\<And>s l. Q s l \<Longrightarrow> Q s (snd (body s l))"
  shows "P (snd (queue_operation operation detail body l))"
  unfolding queue_operation_def
proof (rule transaction_keeps [OF assms(1)])
  fix l assume "P l"
  obtain s l1 where m: "mint_snapshot operation detail l = (Inr s, l1)"
    by (simp add: mint_snapshot_def Let_def)
  show "P (snd (pbind (mint_snapshot operation detail) body l))"
    using leave [OF assms(2) [OF mint [OF \<open>P l\<close> m]]] by (simp add: pbind_apply m)
qed

lemma set_all_keeps: "Q s l \<Longrightarrow> Q s (snd (set_all ids to s l))"
  unfolding set_all_def by (rule pfor_invariant) (simp_all add: status)

lemma bind_keeps_in:
  assumes "Q s (snd (m l))" and "\<And>x. fst (m l) = Inr x \<Longrightarrow> Q s (snd (f x (snd (m l))))"
  shows "Q s (snd (pbind m f l))"
  using assms by (auto simp: pbind_apply split: prod.splits sum.splits)

lemma invalid_at_core: "same_core l (snd (set_invalid_at i v s l))"
  by (auto simp: set_invalid_at_def require_transaction_def pbind_apply same_core_def statuses_set_insight
      set_insight_def split: option.splits sum.splits)
     (simp add: statuses_def update_where_def o_def)

lemma resolve_edge_keeps: "Q s l \<Longrightarrow> Q s (snd (resolve_edge nli t s e retired l))"
proof -
  assume q: "Q s l"
  obtain c i where e: "e = (c, i)" by fastforce
  have "Q s (snd (pbind (set_invalid_at i (invalid_at_stamp s) s) (\<lambda>_. pbind (set_status i ''retired'' s) (\<lambda>_.
      pret (retired @ [i]))) l))"
    by (intro bind_keeps_in frame_in [OF q invalid_at_core]) (simp add: pret_apply status frame_in [OF q invalid_at_core])+
  then show ?thesis using q by (simp add: resolve_edge_def e split: option.split sum.split prod.split)
qed

lemma seam_keeps: "Q s l \<Longrightarrow> Q s (snd (supersede_resolution_seam nli t ids s l))"
  unfolding supersede_resolution_seam_def
  by (simp add: pbind_apply pget_apply) (rule pfor_invariant, simp_all add: resolve_edge_keeps)

lemma read_keeps:
  assumes "P l" "\<And>x. fst (m l) = Inr x \<Longrightarrow> P (snd (f x l))" "snd (m l) = l"
  shows "P (snd (pbind m f l))"
  using assms by (cases "m l") (auto simp: pbind_apply split: sum.splits)

lemma read_batch [simp]: "snd (batch_id_of b l) = l"
  by (simp add: batch_id_of_def split: option.split)

lemma read_check [simp]: "snd (check e b l) = l"
  by (simp add: check_apply)

lemma read_pget [simp]: "snd (pget f l) = l"
  by (simp add: pget_apply)

lemma read_status [simp]: "snd (insight_status i l) = l"
  by (simp add: insight_status_def split: option.split)

lemma read_members [simp]: "snd (skill_members_with_status k st l) = l"
  by (simp add: skill_members_with_status_def)

lemma read_children [simp]: "snd (pfor (\<lambda>c _. check_child p c) cs u l) = l"
proof (induction cs arbitrary: u)
  case Nil
  then show ?case by (simp add: pret_apply)
next
  case (Cons c cs)
  have "snd (check_child p c l) = l"
    by (simp add: check_child_def pbind_apply check_apply insight_status_def split: option.split)
  then show ?case using Cons by (cases "check_child p c l") (auto simp: pbind_apply split: sum.splits)
qed

lemma punit_keeps: "P (snd (m l)) \<Longrightarrow> P (snd (punit m l))"
  by (cases "m l") (auto simp: pbind_apply pret_apply split: sum.splits)

lemma punit_keeps_in: "Q s (snd (m l)) \<Longrightarrow> Q s (snd (punit m l))"
  by (cases "m l") (auto simp: pbind_apply pret_apply split: sum.splits)

lemmas body_keeps = set_all_keeps seam_keeps status

lemma promote_keeps: "P l \<Longrightarrow> P (snd (promote_batch nli t b l))"
  unfolding promote_batch_def
  by (intro read_keeps queue_keeps bind_keeps_in) (simp_all add: pret_apply body_keeps)

lemma revert_keeps: "P l \<Longrightarrow> P (snd (revert_batch b l))"
  unfolding revert_batch_def
proof (intro read_keeps queue_keeps)
  fix targets s l and batch_id :: int assume "Q s l"
  have core: "same_core l' (snd (close_flags cs s l'))" "same_core l' (snd (remove_orphaned_batch_skills k l'))"
    for l' :: "'a library_scheme" and cs k
    by (simp_all add: close_flags_def pmodify_apply remove_orphaned_batch_skills_def Let_def same_core_def statuses_def)
  show "Q s (snd (pbind (set_all targets ''retired'' s) (\<lambda>_. pbind (pget (open_flags targets)) (\<lambda>closed.
       pbind (close_flags closed s) (\<lambda>_. pbind (remove_orphaned_batch_skills batch_id) (\<lambda>removed.
       pret ((lifecycle_result ''revert_batch'' s targets)
         \<lparr>lr_removed_skill_ids := removed, lr_closed_contradiction_ids := closed\<rparr>))))) l))"
    by (intro bind_keeps_in) (simp_all add: pret_apply pget_apply set_all_keeps [OF \<open>Q s l\<close>] frame_in [OF _ core(1)]
      frame_in [OF _ core(2)])
qed simp_all

lemma edge_core: "same_core l (snd (add_insight_edge a b k w l))"
  by (simp add: add_insight_edge_def pbind_apply check_apply same_core_def statuses_def Let_def)

lemma demote_keeps: "P l \<Longrightarrow> P (snd (demote_to_dormant cs p l))"
  unfolding demote_to_dormant_def Let_def
proof (intro read_keeps queue_keeps)
  fix s l assume q: "Q s l"
  have "Q s (snd (pfor (\<lambda>c _. pbind (set_status c ''dormant'' s) (\<lambda>_.
           pbind (add_insight_edge p c ''generalizes_from'' None) (\<lambda>_. pret ()))) (dedup cs) () l))"
    by (rule pfor_invariant [where P = "Q s"], intro bind_keeps_in)
       (simp_all add: q pret_apply status frame_in [OF _ edge_core])
  then show "Q s (snd (pbind (pfor (\<lambda>c _. pbind (set_status c ''dormant'' s) (\<lambda>_.
           pbind (add_insight_edge p c ''generalizes_from'' None) (\<lambda>_. pret ()))) (dedup cs) ()) (\<lambda>_.
       pret (lifecycle_result ''demote_to_dormant'' s (dedup cs))) l))"
    by (intro bind_keeps_in) (simp_all add: pret_apply)
qed simp_all

lemma single_keeps:
  "P l \<Longrightarrow> P (snd (retire_insight i l))" "P l \<Longrightarrow> P (snd (revive_insight i l))"
  "P l \<Longrightarrow> P (snd (retire_skill k l))" "P l \<Longrightarrow> P (snd (revive_skill k l))"
  unfolding retire_insight_def revive_insight_def retire_skill_def revive_skill_def
  by (intro read_keeps queue_keeps bind_keeps_in; simp add: pret_apply body_keeps)+

lemma split_core:
  "same_core l (snd (set_split_snapshot k v l))" "same_core l (snd (insert_child p e s l))"
  "same_core l (snd (delete_members ks l))" "same_core l (snd (delete_skills ids l))" "same_core l (snd (insert_member k m l))"
  by (simp_all add: set_split_snapshot_def insert_child_def delete_members_def delete_skills_def insert_member_def
      pmodify_apply Let_def same_core_def statuses_def split: prod.split)

lemma insert_members_keeps: "Q s l \<Longrightarrow> Q s (snd (insert_members k ids l))"
  unfolding insert_members_def by (rule pfor_invariant) (simp_all add: frame_in [OF _ split_core(5)])

lemma execute_split_keeps: "P l \<Longrightarrow> P (snd (execute_split k cs d l))"
  unfolding execute_split_def split_beta
  by (intro read_keeps)
     (auto simp: praise_apply intro!: queue_keeps bind_keeps_in insert_members_keeps frame_in [OF _ split_core(1)]
       frame_in [OF _ split_core(2)] frame_in [OF _ split_core(3)] simp: pret_apply split: option.split)

lemma revert_split_keeps: "P l \<Longrightarrow> P (snd (revert_split r l))"
  unfolding revert_split_def Let_def
  by (intro read_keeps queue_keeps bind_keeps_in insert_members_keeps frame_in [OF _ split_core(1)]
       frame_in [OF _ split_core(3)] frame_in [OF _ split_core(4)]) (simp_all add: pget_apply)

lemma frame_core:
  "same_core l (snd (stamp_insight_provenance i pr l))" "same_core l (snd (auto_stamp_batch_provenance b po l))"
  "same_core l (snd (set_batch_validation_class b c l))" "same_core l (snd (ensure_batch b l))"
  "same_core l (snd (record_fitness_event i k m s e l))" "same_core l (snd (create_skill a n d bo l))"
  "same_core l (snd (append_member sk i l))"
  by (simp_all add: stamp_insight_provenance_def auto_stamp_batch_provenance_def set_batch_validation_class_def
      ensure_batch_def record_fitness_event_def create_skill_def append_member_def pbind_apply check_apply
      batch_id_of_def pmodify_apply Let_def same_core_def statuses_set_insight set_insight_def statuses_def
      update_where_def o_def split: option.split)

lemma lib_op_keeps: "P l \<Longrightarrow> P (snd (run_lib_op nli t p l))"
  by (cases p) (simp_all add: punit_keeps promote_keeps revert_keeps demote_keeps single_keeps insert_row
      execute_split_keeps revert_split_keeps
      frame [OF _ frame_core(1)] frame [OF _ frame_core(2)] frame [OF _ frame_core(3)] frame [OF _ frame_core(4)]
      frame [OF _ frame_core(5)] frame [OF _ frame_core(6)] frame [OF _ frame_core(7)] frame [OF _ edge_core])

theorem lib_ops_keep: "P l \<Longrightarrow> P (run_lib_ops nli t ops l)"
  by (induction ops arbitrary: l) (simp_all add: run_lib_ops_def lib_op_keeps)

end

end
