(* ===== verification/AfAudit.thy ===== *)
theory AfAudit
  imports AfHistory
begin

text \<open>
  The audit trail of the library: the snapshots of every state a client can reach form one gapless
  chain, one queue entry each, and the recorded transitions reconstruct the status of every
  insight at every snapshot.
\<close>

section \<open>Well-formed libraries\<close>

definition snapshot_chain :: "snapshot_row list \<Rightarrow> bool" where
  "snapshot_chain sns \<longleftrightarrow> (\<forall>k < length sns. sn_id (sns ! k) = int k + 1 \<and>
     sn_parent_id (sns ! k) = (if k = 0 then None else Some (int k)))"

lemma chain_ids: "snapshot_chain sns \<Longrightarrow> map sn_id sns = map (\<lambda>k. int k + 1) [0..<length sns]"
  by (auto simp: snapshot_chain_def intro!: nth_equalityI)

lemma chain_max: "snapshot_chain sns \<Longrightarrow> sns \<noteq> [] \<Longrightarrow> Max (set (map sn_id sns)) = int (length sns)"
proof (rule Max_eqI)
  assume c: "snapshot_chain sns" and "sns \<noteq> []"
  then have "length sns - 1 < length sns" "sn_id (sns ! (length sns - 1)) = int (length sns)"
    by (cases sns; simp add: snapshot_chain_def)+
  then show "int (length sns) \<in> set (map sn_id sns)" by (force simp: in_set_conv_nth)
next
  fix y assume "snapshot_chain sns" "y \<in> set (map sn_id sns)"
  then show "y \<le> int (length sns)" by (simp only: chain_ids) auto
qed simp

lemma chain_current:
  assumes "snapshot_chain (lb_snapshots l)"
  shows "current_snapshot_id l = int (length (lb_snapshots l))"
    "next_rowid (map sn_id (lb_snapshots l)) = int (length (lb_snapshots l)) + 1"
  using chain_max [OF assms] by (auto simp: current_snapshot_id_def next_rowid_def)

lemma chain_snoc: "snapshot_chain sns \<Longrightarrow> sn_id r = int (length sns) + 1 \<Longrightarrow>
    sn_parent_id r = (if sns = [] then None else Some (int (length sns))) \<Longrightarrow> snapshot_chain (sns @ [r])"
  by (auto simp: snapshot_chain_def nth_append less_Suc_eq)

text \<open>Transitions that lead from one status to another, each starting where the last one ended.\<close>

fun path :: "string \<Rightarrow> transition_row list \<Rightarrow> string \<Rightarrow> bool" where
  "path s [] s' \<longleftrightarrow> s = s'"
| "path s (t # ts) s' \<longleftrightarrow> tr_from_status t = s \<and> path (tr_to_status t) ts s'"

lemma path_append: "path s (ts @ us) s' \<longleftrightarrow> (\<exists>m. path s ts m \<and> path m us s')"
  by (induction ts arbitrary: s) auto

lemma path_last: "path s ts s' \<Longrightarrow> ts \<noteq> [] \<Longrightarrow> tr_to_status (last ts) = s'"
  by (induction ts arbitrary: s) (auto split: if_splits)

lemma path_hd: "path s ts s' \<Longrightarrow> ts \<noteq> [] \<Longrightarrow> tr_from_status (hd ts) = s"
  by (cases ts) auto

abbreviation own :: "int \<Rightarrow> transition_row list \<Rightarrow> transition_row list" where
  "own i \<equiv> filter (\<lambda>t. tr_insight_id t = i)"

definition ordered :: "transition_row list \<Rightarrow> bool" where
  "ordered ts \<longleftrightarrow> sorted (map tr_id ts) \<and> sorted (map tr_snapshot_id ts)"

definition lib_wf :: "'a library_scheme \<Rightarrow> bool" where
  "lib_wf l \<longleftrightarrow> snapshot_chain (lb_snapshots l) \<and>
     map pq_snapshot_id (lb_queue l) = map sn_id (lb_snapshots l) \<and>
     distinct (map fst (statuses l)) \<and> ordered (lb_transitions l) \<and>
     (\<forall>t \<in> set (lb_transitions l). tr_snapshot_id t \<le> current_snapshot_id l \<and> tr_insight_id t \<in> fst ` set (statuses l)) \<and>
     (\<forall>(i, st) \<in> set (statuses l). \<exists>s0. path s0 (own i (lb_transitions l)) st)"

lemma same_core_current: "same_core l l' \<Longrightarrow> current_snapshot_id l' = current_snapshot_id l"
  by (simp add: same_core_def current_snapshot_id_def)

lemma lib_wf_core: "lib_wf l \<Longrightarrow> same_core l l' \<Longrightarrow> lib_wf l'"
  using same_core_current [of l l'] by (simp add: lib_wf_def same_core_def)

lemma lib_wf_empty: "lib_wf empty_library"
  by (simp add: lib_wf_def empty_library_def snapshot_chain_def statuses_def ordered_def)

lemma wf_distinct: "lib_wf l \<Longrightarrow> distinct (map in_id (lb_insights l))"
  by (simp add: lib_wf_def statuses_def o_def)

lemma get_insight_iff: "lib_wf l \<Longrightarrow> get_insight i l = Some r \<longleftrightarrow> r \<in> set (lb_insights l) \<and> in_id r = i"
  unfolding get_insight_def by (rule row_of_iff [OF wf_distinct])

lemma get_insight_id: "get_insight i l = Some r \<Longrightarrow> in_id r = i"
  unfolding get_insight_def by (drule row_of_Some) simp

lemma get_insight_status: "get_insight i l = Some r \<Longrightarrow> (i, in_status r) \<in> set (statuses l)"
  unfolding get_insight_def by (drule row_of_Some) (auto simp: statuses_def)

lemma get_set_insight:
  "(\<And>r. in_id (f r) = in_id r) \<Longrightarrow> get_insight j (set_insight i f l) =
     map_option (\<lambda>r. if j = i then f r else r) (get_insight j l)"
  unfolding get_insight_def set_insight_def
  by (simp add: row_of_update) (auto intro!: option.map_cong dest: row_of_Some)

section \<open>A mint and a status flip\<close>

lemma mint_eq:
  assumes "snapshot_chain (lb_snapshots l)"
  shows "mint_snapshot operation detail l = (Inr (current_snapshot_id l + 1),
    l\<lparr>lb_snapshots := lb_snapshots l @ [\<lparr>sn_id = current_snapshot_id l + 1,
        sn_parent_id = (if current_snapshot_id l = 0 then None else Some (current_snapshot_id l)),
        sn_mutation_summary = (if detail = [] then operation else operation @ '': '' @ detail)\<rparr>],
      lb_queue := lb_queue l @ [\<lparr>pq_id = next_rowid (map pq_id (lb_queue l)), pq_operation = operation,
        pq_detail = detail, pq_snapshot_id = current_snapshot_id l + 1\<rparr>]\<rparr>)"
  using chain_current [OF assms] by (simp add: mint_snapshot_def Let_def)

lemma mint_current:
  assumes "lib_wf l" "mint_snapshot operation detail l = (Inr s, l')"
  shows "s = current_snapshot_id l + 1" "current_snapshot_id l' = s" "0 < s" "lib_wf l'" "statuses l' = statuses l"
    "lb_transitions l' = lb_transitions l"
proof -
  have c: "snapshot_chain (lb_snapshots l)" using assms(1) by (simp add: lib_wf_def)
  note cur = chain_current [OF c]
  have s: "s = current_snapshot_id l + 1" using assms(2) unfolding mint_eq [OF c] by simp
  have l': "lb_snapshots l' = lb_snapshots l @ [\<lparr>sn_id = s,
        sn_parent_id = (if current_snapshot_id l = 0 then None else Some (current_snapshot_id l)),
        sn_mutation_summary = (if detail = [] then operation else operation @ '': '' @ detail)\<rparr>]"
      "map pq_snapshot_id (lb_queue l') = map pq_snapshot_id (lb_queue l) @ [s]"
      "lb_transitions l' = lb_transitions l" "statuses l' = statuses l"
    using assms(2) s unfolding mint_eq [OF c] by (auto simp: statuses_def)
  have chain: "snapshot_chain (lb_snapshots l')"
    unfolding l'(1) by (rule chain_snoc [OF c]) (simp_all add: s cur)
  show "s = current_snapshot_id l + 1" by (rule s)
  show cs: "current_snapshot_id l' = s" using chain_current(1) [OF chain] by (simp add: l'(1) s cur)
  show "0 < s" by (simp add: s cur)
  show "statuses l' = statuses l" "lb_transitions l' = lb_transitions l" by (rule l')+
  show "lib_wf l'" using assms(1) chain s by (auto simp: lib_wf_def l' cs)
qed

text \<open>What a status flip does when it succeeds; it writes nothing when it fails.\<close>

definition flipped :: "int \<Rightarrow> string \<Rightarrow> int \<Rightarrow> insight_row \<Rightarrow> 'a library_scheme \<Rightarrow> 'a library_scheme" where
  "flipped i to s row l = set_insight i (\<lambda>r. r\<lparr>in_status := to\<rparr>)
     (l\<lparr>lb_transitions := lb_transitions l @ [\<lparr>tr_id = next_rowid (map tr_id (lb_transitions l)), tr_insight_id = i,
        tr_from_status = in_status row, tr_to_status = to, tr_snapshot_id = s\<rparr>]\<rparr>)"

lemma set_status_cases:
  obtains e where "set_status i to s l = (Inl e, l)"
  | row where "get_insight i l = Some row" "set_status i to s l = (Inr (), flipped i to s row l)"
proof (cases "get_insight i l")
  case None
  then show ?thesis using that(1)
    by (cases "to \<in> set STATUSES"; cases "0 < lb_txn l")
       (auto simp: set_status_def pbind_apply check_apply require_transaction_def)
next
  case (Some row)
  show ?thesis
    by (cases "to \<in> set STATUSES"; cases "0 < lb_txn l"; cases "s \<in> set (map sn_id (lb_snapshots l))")
       (rule that; simp add: Some set_status_def pbind_apply check_apply require_transaction_def flipped_def)+
qed

lemma flipped_simps [simp]:
  "lb_snapshots (flipped i to s row l) = lb_snapshots l" "lb_queue (flipped i to s row l) = lb_queue l"
  "current_snapshot_id (flipped i to s row l) = current_snapshot_id l"
  "lb_txn (flipped i to s row l) = lb_txn l"
  "map fst (statuses (flipped i to s row l)) = map fst (statuses l)"
  by (simp_all add: flipped_def set_insight_def current_snapshot_id_def statuses_def update_where_def o_def)

lemma flipped_statuses: "statuses (flipped i to s row l) =
    map (\<lambda>(j, st). (j, if j = i then to else st)) (statuses l)"
  by (simp add: flipped_def set_insight_def statuses_def update_where_def o_def)

lemma flipped_transitions: "lb_transitions (flipped i to s row l) = lb_transitions l @
    [\<lparr>tr_id = next_rowid (map tr_id (lb_transitions l)), tr_insight_id = i, tr_from_status = in_status row,
      tr_to_status = to, tr_snapshot_id = s\<rparr>]"
  by (simp add: flipped_def set_insight_def)

lemma next_transition: "t \<in> set ts \<Longrightarrow> tr_id t < next_rowid (map tr_id ts)"
  by (simp add: next_rowid_fresh)

lemma statuses_unique: "lib_wf l \<Longrightarrow> (i, a) \<in> set (statuses l) \<Longrightarrow> (i, b) \<in> set (statuses l) \<Longrightarrow> a = b"
  by (auto simp: lib_wf_def intro: eq_key_imp_eq_value)

lemma flipped_wf:
  assumes "lib_wf l" "get_insight i l = Some row"
  shows "lib_wf (flipped i to (current_snapshot_id l) row l)"
proof -
  let ?l = "flipped i to (current_snapshot_id l) row l"
  have ids: "fst ` set (statuses ?l) = fst ` set (statuses l)"
    by (metis flipped_simps(5) set_map)
  have i: "(i, in_status row) \<in> set (statuses l)" by (rule get_insight_status [OF assms(2)])
  have "ordered (lb_transitions ?l)"
    using assms(1) by (auto simp: flipped_transitions ordered_def lib_wf_def sorted_append intro: less_imp_le next_transition)
  moreover have "\<exists>s0. path s0 (own j (lb_transitions ?l)) st" if "(j, st) \<in> set (statuses ?l)" for j st
  proof -
    obtain st0 where st0: "(j, st0) \<in> set (statuses l)" "st = (if j = i then to else st0)"
      using \<open>(j, st) \<in> set (statuses ?l)\<close> by (auto simp: flipped_statuses)
    obtain s0 where "path s0 (own j (lb_transitions l)) st0" using assms(1) st0(1) by (auto simp: lib_wf_def)
    then show ?thesis using statuses_unique [OF assms(1) i] st0
      by (cases "j = i") (auto simp: flipped_transitions path_append)
  qed
  ultimately show ?thesis using assms(1) i ids
    by (auto simp: lib_wf_def flipped_transitions intro: rev_image_eqI)
qed

lemma insert_insight_cases:
  obtains e where "insert_insight r l = (Inl e, l)"
  | "insert_insight r l = (Inr (next_rowid (map in_id (lb_insights l))),
       l\<lparr>lb_insights := lb_insights l @ [r\<lparr>in_id := next_rowid (map in_id (lb_insights l))\<rparr>]\<rparr>)"
  unfolding insert_insight_def Let_def by (metis (full_types))

lemma statuses_insert: "statuses (l\<lparr>lb_insights := lb_insights l @ [r\<lparr>in_id := i\<rparr>]\<rparr>) = statuses l @ [(i, in_status r)]"
  by (simp add: statuses_def)

lemma fresh_insight: "next_rowid (map in_id (lb_insights l)) \<notin> fst ` set (statuses l)"
  using next_rowid_notin [of "map in_id (lb_insights l)"] by (auto simp: statuses_def)

lemma insert_wf:
  assumes "lib_wf l"
  shows "lib_wf (snd (insert_insight r l))"
proof (cases rule: insert_insight_cases [of r l])
  case 1
  then show ?thesis using assms by simp
next
  case 2
  let ?i = "next_rowid (map in_id (lb_insights l))"
  have "own ?i (lb_transitions l) = []"
    using assms fresh_insight [of l] unfolding lib_wf_def filter_empty_conv by metis
  then show ?thesis using assms fresh_insight [of l] unfolding 2 snd_conv lib_wf_def statuses_insert
    by (auto simp: current_snapshot_id_def)
qed

interpretation wf: library_invariant lib_wf "\<lambda>s l. lib_wf l \<and> s = current_snapshot_id l"
proof (unfold_locales, goal_cases)
  case (1 l l')
  then show ?case by (rule lib_wf_core)
next
  case (2 s l l')
  then show ?case using lib_wf_core [of l l'] same_core_current [of l l'] by simp
next
  case (4 l operation detail s l')
  then show ?case using mint_current [of l operation detail s l'] by simp
next
  case (5 s l i to)
  then show ?case by (cases rule: set_status_cases [of i to s l]) (simp_all add: flipped_wf)
next
  case (6 l r)
  then show ?case by (rule insert_wf)
qed simp

section \<open>The past is kept\<close>

text \<open>A later state extends an earlier one: the transitions of the earlier state are still there,
  the new ones belong to later snapshots, and they lead every insight to its present status.\<close>

definition extends :: "'a library_scheme \<Rightarrow> 'a library_scheme \<Rightarrow> bool" where
  "extends l0 l \<longleftrightarrow> lib_wf l \<and> current_snapshot_id l0 \<le> current_snapshot_id l \<and>
     (\<exists>new. lb_transitions l = lb_transitions l0 @ new \<and> (\<forall>t \<in> set new. current_snapshot_id l0 < tr_snapshot_id t) \<and>
       (\<forall>(i, st0) \<in> set (statuses l0). \<exists>st. (i, st) \<in> set (statuses l) \<and> path st0 (own i new) st))"

lemma extends_refl: "lib_wf l \<Longrightarrow> extends l l"
  by (auto simp: extends_def)

lemma extends_core: "extends l0 l \<Longrightarrow> same_core l l' \<Longrightarrow> extends l0 l'"
  using lib_wf_core [of l l'] same_core_current [of l l'] by (simp add: extends_def same_core_def)

lemma extends_mint:
  assumes "extends l0 l" "mint_snapshot operation detail l = (Inr s, l')"
  shows "extends l0 l'" "s = current_snapshot_id l'" "current_snapshot_id l0 < s"
proof -
  have wf: "lib_wf l" using assms(1) by (simp add: extends_def)
  note m = mint_current [OF wf assms(2)]
  show "extends l0 l'" using assms(1) m(1,2,4) unfolding extends_def m(5,6) by simp
  show "s = current_snapshot_id l'" by (simp add: m(2))
  show "current_snapshot_id l0 < s" using assms(1) by (simp add: m(1) extends_def)
qed

lemma extends_flip:
  assumes "extends l0 l" "s = current_snapshot_id l" "current_snapshot_id l0 < s" "get_insight i l = Some row"
  shows "extends l0 (flipped i to s row l)"
proof -
  let ?l = "flipped i to s row l"
  have wf: "lib_wf l" using assms(1) by (simp add: extends_def)
  obtain new where new: "lb_transitions l = lb_transitions l0 @ new" "\<forall>t \<in> set new. current_snapshot_id l0 < tr_snapshot_id t"
      "\<And>i st0. (i, st0) \<in> set (statuses l0) \<Longrightarrow> \<exists>st. (i, st) \<in> set (statuses l) \<and> path st0 (own i new) st"
    using assms(1) unfolding extends_def by blast
  let ?t = "\<lparr>tr_id = next_rowid (map tr_id (lb_transitions l)), tr_insight_id = i, tr_from_status = in_status row,
      tr_to_status = to, tr_snapshot_id = s\<rparr>"
  have "\<exists>st. (j, st) \<in> set (statuses ?l) \<and> path st0 (own j (new @ [?t])) st" if st0: "(j, st0) \<in> set (statuses l0)" for j st0
  proof -
    obtain st where st: "(j, st) \<in> set (statuses l)" "path st0 (own j new) st" using new(3) [OF st0] by blast
    then have "(j, if j = i then to else st) \<in> set (statuses ?l)" by (force simp: flipped_statuses)
    moreover have "st = in_status row" if "j = i"
      using statuses_unique [OF wf st(1)] get_insight_status [OF assms(4)] that by simp
    ultimately show ?thesis using st(2) by (cases "j = i") (auto simp: path_append)
  qed
  then show ?thesis using assms new(2) flipped_wf [OF wf assms(4)]
    unfolding extends_def flipped_transitions new(1) by (intro conjI exI [of _ "new @ [?t]"]) (auto simp: new(1))
qed

lemma extends_insert:
  assumes "extends l0 l"
  shows "extends l0 (snd (insert_insight r l))"
proof (cases rule: insert_insight_cases [of r l])
  case 1
  then show ?thesis using assms by simp
next
  case 2
  have "lib_wf l" using assms by (simp add: extends_def)
  then have "lib_wf (snd (insert_insight r l))" by (rule insert_wf)
  then show ?thesis using assms unfolding 2 snd_conv extends_def statuses_insert
    by (fastforce simp: current_snapshot_id_def)
qed

interpretation past: library_invariant "extends l0"
  "\<lambda>s l. extends l0 l \<and> s = current_snapshot_id l \<and> current_snapshot_id l0 < s"
proof (unfold_locales, goal_cases)
  case (1 l l')
  then show ?case by (rule extends_core)
next
  case (2 s l l')
  then show ?case using extends_core [of l0 l l'] same_core_current [of l l'] by simp
next
  case (4 l operation detail s l')
  then show ?case using extends_mint [of l0 l operation detail s l'] by simp
next
  case (5 s l i to)
  then show ?case by (cases rule: set_status_cases [of i to s l]) (simp_all add: extends_flip)
next
  case (6 l r)
  then show ?case by (rule extends_insert)
qed simp

lemma by_snapshot_ordered: "ordered ts \<Longrightarrow> by_snapshot (filter P ts) = filter P ts"
  by (simp add: by_snapshot_def ordered_def sort_key_id_if_sorted sorted_filter)

lemma status_at_extends:
  assumes "extends l0 l" "lib_wf l0" "get_insight i l0 = Some r"
  shows "status_at i (current_snapshot_id l0) l = Inr (in_status r)"
proof -
  have wf: "lib_wf l" using assms(1) by (simp add: extends_def)
  have r: "(i, in_status r) \<in> set (statuses l0)" by (rule get_insight_status [OF assms(3)])
  obtain new st where new: "lb_transitions l = lb_transitions l0 @ new"
      "\<forall>t \<in> set new. current_snapshot_id l0 < tr_snapshot_id t"
      "(i, st) \<in> set (statuses l)" "path (in_status r) (own i new) st"
    using assms(1) r unfolding extends_def by blast
  have rows: "by_snapshot (own i (lb_transitions l)) = own i (lb_transitions l0) @ own i new"
    using wf by (subst by_snapshot_ordered) (simp_all add: lib_wf_def new(1))
  have old: "filter (\<lambda>t. tr_snapshot_id t \<le> current_snapshot_id l0) (own i (lb_transitions l0)) = own i (lb_transitions l0)"
    using assms(2) unfolding lib_wf_def by (intro filter_True) simp
  have fresh: "filter (\<lambda>t. tr_snapshot_id t \<le> current_snapshot_id l0) (own i new) = []"
    using new(2) by (auto simp: filter_empty_conv)
  obtain s0 where s0: "path s0 (own i (lb_transitions l0)) (in_status r)"
    using assms(2) r by (auto simp: lib_wf_def)
  have "get_insight i l \<noteq> None" using new(3) by (auto simp: get_insight_def row_of_None statuses_def)
  then obtain row where row: "get_insight i l = Some row" by blast
  have "in_status row = st" using statuses_unique [OF wf new(3) get_insight_status [OF row]] by simp
  then show ?thesis using path_last [OF s0] path_hd [OF new(4)] new(4)
    by (auto simp: status_at_def Let_def rows old fresh row hd_append simp del: filter_filter)
qed

end
