(* ===== verification/AfEffects.thy ===== *)
theory AfEffects
  imports AfAudit
begin

text \<open>
  The exact effect of the batch operations on the tables: which rows a promotion activates, which
  incumbents it retires, what a reversal retires, closes and deletes.
\<close>

section \<open>A queued operation\<close>

definition opened :: "string \<Rightarrow> string \<Rightarrow> 'a library_scheme \<Rightarrow> 'a library_scheme" where
  "opened operation detail l = snd (mint_snapshot operation detail (l\<lparr>lb_txn := 1\<rparr>))"

lemma opened_simps [simp]:
  "lb_txn (opened operation detail l) = 1" "lb_insights (opened operation detail l) = lb_insights l"
  "lb_transitions (opened operation detail l) = lb_transitions l"
  "lb_edges (opened operation detail l) = lb_edges l" "lb_fitness (opened operation detail l) = lb_fitness l"
  "lb_skills (opened operation detail l) = lb_skills l" "lb_members (opened operation detail l) = lb_members l"
  "lb_contradictions (opened operation detail l) = lb_contradictions l"
  "lb_batches (opened operation detail l) = lb_batches l"
  "get_insight i (opened operation detail l) = get_insight i l"
  by (simp_all add: opened_def mint_snapshot_def Let_def get_insight_def)

lemma chain_txn: "snapshot_chain (lb_snapshots l) \<Longrightarrow> snapshot_chain (lb_snapshots (l\<lparr>lb_txn := n\<rparr>))"
  by simp

lemma opened_snapshot:
  assumes "snapshot_chain (lb_snapshots l)"
  shows "current_snapshot_id l + 1 \<in> set (map sn_id (lb_snapshots (opened operation detail l)))"
  using mint_eq [OF chain_txn [OF assms, of 1], of operation detail] by (simp add: opened_def current_snapshot_id_def)

lemma opened_current:
  assumes "lib_wf l"
  shows "current_snapshot_id (opened operation detail l) = current_snapshot_id l + 1"
proof -
  have wf1: "lib_wf (l\<lparr>lb_txn := 1\<rparr>)" by (rule lib_wf_core [OF assms]) (simp add: same_core_def statuses_def)
  obtain s l' where m: "mint_snapshot operation detail (l\<lparr>lb_txn := 1\<rparr>) = (Inr s, l')"
    by (simp add: mint_snapshot_def Let_def)
  then show ?thesis using mint_current(1,2) [OF wf1 m] by (simp add: opened_def current_snapshot_id_def)
qed

text \<open>Outside a transaction the body runs under the next snapshot, and a failure restores the state.\<close>

lemma queue_operation_eq:
  assumes "lb_txn l = 0" "snapshot_chain (lb_snapshots l)"
  shows "queue_operation operation detail body l =
    (case body (current_snapshot_id l + 1) (opened operation detail l) of
       (Inl e, _) \<Rightarrow> (Inl e, l)
     | (Inr x, l1) \<Rightarrow> (Inr x, l1\<lparr>lb_txn := 0\<rparr>))"
proof -
  have cur: "current_snapshot_id (l\<lparr>lb_txn := 1\<rparr>) = current_snapshot_id l" by (simp add: current_snapshot_id_def)
  have fst: "fst (mint_snapshot operation detail (l\<lparr>lb_txn := 1\<rparr>)) = Inr (current_snapshot_id l + 1)"
    using mint_eq [OF chain_txn [OF assms(2), of 1], of operation detail] unfolding cur by simp
  have "l\<lparr>lb_txn := 0\<rparr> = l" using assms(1) by simp
  then show ?thesis using fst assms(1) unfolding queue_operation_def transaction_def Let_def
    by (cases "mint_snapshot operation detail (l\<lparr>lb_txn := 1\<rparr>)") (simp add: pbind_apply opened_def split: prod.split sum.split)
qed

lemma queue_operation_Inl: "lb_txn l = 0 \<Longrightarrow> fst (queue_operation operation detail body l) = Inl e \<Longrightarrow>
    snd (queue_operation operation detail body l) = l"
  by (auto simp: queue_operation_def transaction_def Let_def split: prod.splits sum.splits)

section \<open>Flipping a list of insights\<close>

lemma update_where_join:
  "(\<And>r. key (f r) = key r) \<Longrightarrow> (\<And>r. f (f r) = f r) \<Longrightarrow>
   update_where (\<lambda>r. key r \<in> set ks) f (update_where (\<lambda>r. key r = k) f rows) = update_where (\<lambda>r. key r \<in> set (k # ks)) f rows"
  by (simp add: update_where_def)

lemma set_status_ok:
  assumes "0 < lb_txn l" "s \<in> set (map sn_id (lb_snapshots l))" "to \<in> set STATUSES" "get_insight i l \<noteq> None"
  shows "\<exists>T. set_status i to s l = (Inr (), l\<lparr>lb_transitions := T, lb_insights :=
      update_where (\<lambda>r. in_id r = i) (\<lambda>r. r\<lparr>in_status := to\<rparr>) (lb_insights l)\<rparr>)"
proof -
  obtain row where "get_insight i l = Some row" using assms(4) by blast
  then show ?thesis using assms by (auto simp: set_status_def pbind_apply check_apply require_transaction_def set_insight_def)
qed

lemma set_all_ok:
  assumes "0 < lb_txn l" "s \<in> set (map sn_id (lb_snapshots l))" "to \<in> set STATUSES" "\<forall>i \<in> set ids. get_insight i l \<noteq> None"
  shows "\<exists>T. set_all ids to s l = (Inr (), l\<lparr>lb_transitions := T, lb_insights :=
      update_where (\<lambda>r. in_id r \<in> set ids) (\<lambda>r. r\<lparr>in_status := to\<rparr>) (lb_insights l)\<rparr>)"
  using assms
proof (induction ids arbitrary: l)
  case Nil
  show ?case by (rule exI [of _ "lb_transitions l"]) (simp add: set_all_def pret_apply update_where_def)
next
  case (Cons i ids)
  let ?f = "\<lambda>r. r\<lparr>in_status := to\<rparr>"
  let ?l = "\<lambda>T. l\<lparr>lb_transitions := T, lb_insights := update_where (\<lambda>r. in_id r = i) ?f (lb_insights l)\<rparr>"
  obtain T where T: "set_status i to s l = (Inr (), ?l T)" using set_status_ok [OF Cons.prems(1-3)] Cons.prems(4) by auto
  have keys: "get_insight j (?l T) \<noteq> None \<longleftrightarrow> get_insight j l \<noteq> None" for j
    by (simp add: get_insight_def row_of_update)
  have "\<exists>T'. set_all ids to s (?l T) = (Inr (), (?l T)\<lparr>lb_transitions := T', lb_insights :=
      update_where (\<lambda>r. in_id r \<in> set ids) ?f (lb_insights (?l T))\<rparr>)"
    by (rule Cons.IH) (use Cons.prems keys in simp_all)
  then show ?case using T update_where_join [of in_id ?f ids i "lb_insights l"]
    by (simp add: set_all_def pbind_apply)
qed

section \<open>The deferred supersede\<close>

definition wins :: "nli_model \<Rightarrow> pyfloat \<Rightarrow> int \<Rightarrow> int \<Rightarrow> 'a library_scheme \<Rightarrow> bool" where
  "wins nli t c i l \<longleftrightarrow> (case (get_insight c l, get_insight i l) of
     (Some ch, Some inc) \<Rightarrow> confirms nli t inc ch = Inr True \<and> beats ch inc l | _ \<Rightarrow> False)"

definition mark :: "int set \<Rightarrow> int \<Rightarrow> insight_row \<Rightarrow> insight_row" where
  "mark R s r = (if in_id r \<in> R then r\<lparr>in_status := ''retired'', in_invalid_at := Some (invalid_at_stamp s)\<rparr> else r)"

abbreviation marked :: "int set \<Rightarrow> int \<Rightarrow> transition_row list \<Rightarrow> 'a library_scheme \<Rightarrow> 'a library_scheme" where
  "marked R s T l \<equiv> l\<lparr>lb_transitions := T, lb_insights := map (mark R s) (lb_insights l)\<rparr>"

lemma mark_simps [simp]:
  "in_id (mark R s r) = in_id r" "insight_nli_text (mark R s r) = insight_nli_text r"
  "authority (mark R s r) = authority r" "in_created_at (mark R s r) = in_created_at r"
  "mark {} s r = r"
  by (simp_all add: mark_def insight_nli_text_def authority_def)

lemma row_of_map: "(\<And>r. key (f r) = key r) \<Longrightarrow> row_of key k (map f rows) = map_option f (row_of key k rows)"
  by (induction rows) (auto simp: row_of_def)

lemma get_marked [simp]: "get_insight j (marked R s T l) = map_option (mark R s) (get_insight j l)"
  by (simp add: get_insight_def row_of_map)

lemma confirms_mark [simp]: "confirms nli t (mark R s a) (mark R' s' b) = confirms nli t a b"
  by (simp add: confirms_def)

lemma beats_mark [simp]: "beats (mark R s a) (mark R' s' b) (marked Q s T l) = beats a b l"
  by (simp add: beats_def corroborate_count_def)

lemma resolve_edge_marked:
  assumes "0 < lb_txn l" "s \<in> set (map sn_id (lb_snapshots l))"
    "get_insight c l = Some ch" "get_insight i l = Some inc"
    "resolve_edge nli t s (c, i) ret (marked (set ret) s T l) = (Inr ret', l')"
  shows "\<exists>T'. l' = marked (set ret') s T' l \<and> set ret' = set ret \<union> (if wins nli t c i l then {i} else {})"
proof (cases "i \<in> set ret \<or> \<not> wins nli t c i l")
  case True
  then have "ret' = ret \<and> l' = marked (set ret) s T l" using assms(3-5)
    by (auto simp: resolve_edge_def wins_def split: sum.splits if_splits)
  then show ?thesis using True by auto
next
  case False
  let ?m = "marked (set ret) s T l" and ?f = "\<lambda>r. r\<lparr>in_status := ''retired''\<rparr>"
  let ?g = "\<lambda>r. r\<lparr>in_invalid_at := Some (invalid_at_stamp s)\<rparr>"
  have eq: "resolve_edge nli t s (c, i) ret ?m = pbind (set_invalid_at i (invalid_at_stamp s) s) (\<lambda>_.
      pbind (set_status i ''retired'' s) (\<lambda>_. pret (ret @ [i]))) ?m"
    using False assms(3,4) by (auto simp: resolve_edge_def wins_def)
  let ?l1 = "set_insight i ?g ?m"
  have l1: "set_invalid_at i (invalid_at_stamp s) s ?m = (Inr (), ?l1)"
    using assms(1,4) by (simp add: set_invalid_at_def require_transaction_def pbind_apply)
  have "get_insight i ?l1 \<noteq> None" using assms(4) by (simp add: get_set_insight)
  then obtain T' where T': "set_status i ''retired'' s ?l1 = (Inr (), ?l1\<lparr>lb_transitions := T', lb_insights :=
      update_where (\<lambda>r. in_id r = i) ?f (lb_insights ?l1)\<rparr>)"
    using set_status_ok [of ?l1 s "''retired''" i] assms(1,2) by (auto simp: set_insight_def STATUSES_def)
  have res: "ret' = ret @ [i]" "l' = ?l1\<lparr>lb_transitions := T', lb_insights :=
      update_where (\<lambda>r. in_id r = i) ?f (lb_insights ?l1)\<rparr>"
    using assms(5) unfolding eq by (simp_all add: pbind_apply pret_apply l1 T')
  have rows: "update_where (\<lambda>r. in_id r = i) ?f (update_where (\<lambda>r. in_id r = i) ?g (map (mark (set ret) s) (lb_insights l))) =
      map (mark (insert i (set ret)) s) (lb_insights l)"
    using False by (auto simp: update_where_def mark_def)
  have "l' = marked (insert i (set ret)) s T' l" using rows unfolding res(2) by (simp add: set_insight_def)
  with res(1) have "l' = marked (set ret') s T' l \<and> set ret' = insert i (set ret)" by simp
  then show ?thesis using False by auto
qed

lemma resolve_edges_marked:
  assumes "0 < lb_txn l" "s \<in> set (map sn_id (lb_snapshots l))"
    "\<And>c i. (c, i) \<in> set edges \<Longrightarrow> get_insight c l \<noteq> None \<and> get_insight i l \<noteq> None"
    "pfor (resolve_edge nli t s) edges ret (marked (set ret) s T l) = (Inr ret', l')"
  shows "\<exists>T'. l' = marked (set ret') s T' l \<and> set ret' = set ret \<union> {i. \<exists>c. (c, i) \<in> set edges \<and> wins nli t c i l}"
  using assms(3,4)
proof (induction edges arbitrary: ret T)
  case Nil
  then show ?case by (auto simp: pret_apply)
next
  case (Cons e edges)
  obtain c i where e: "e = (c, i)" by fastforce
  obtain ch inc where rows: "get_insight c l = Some ch" "get_insight i l = Some inc" using Cons.prems(1) [of c i] e by auto
  obtain ret1 l1 where step: "resolve_edge nli t s (c, i) ret (marked (set ret) s T l) = (Inr ret1, l1)"
      and rest: "pfor (resolve_edge nli t s) edges ret1 l1 = (Inr ret', l')"
    using Cons.prems(2) by (cases "resolve_edge nli t s (c, i) ret (marked (set ret) s T l)")
      (simp add: e pbind_apply split: sum.splits)
  obtain T1 where T1: "l1 = marked (set ret1) s T1 l" "set ret1 = set ret \<union> (if wins nli t c i l then {i} else {})"
    using resolve_edge_marked [OF assms(1,2) rows step] by blast
  have "\<exists>T'. l' = marked (set ret') s T' l \<and>
      set ret' = set ret1 \<union> {i. \<exists>c. (c, i) \<in> set edges \<and> wins nli t c i l}"
    by (rule Cons.IH [OF _ rest [unfolded T1(1)]]) (rule Cons.prems(1), simp)
  moreover have "set ret1 \<union> {i. \<exists>c. (c, i) \<in> set edges \<and> wins nli t c i l} =
      set ret \<union> {i. \<exists>c. (c, i) \<in> set (e # edges) \<and> wins nli t c i l}"
    by (auto simp: T1(2) e)
  ultimately show ?case by (simp only:)
qed

section \<open>Promotion\<close>

text \<open>The incumbents a promotion of \<open>up\<close> retires, read off the state before it.\<close>

definition superseded :: "nli_model \<Rightarrow> pyfloat \<Rightarrow> int list \<Rightarrow> int \<Rightarrow> 'a library_scheme \<Rightarrow> bool" where
  "superseded nli t up i l \<longleftrightarrow>
     (case get_insight i l of None \<Rightarrow> False | Some inc \<Rightarrow> in_status inc \<noteq> ''retired'' \<and> in_invalid_at inc = None) \<and>
     (\<exists>e \<in> set (lb_edges l). ed_kind e = ''contradicts'' \<and> ed_dst e = i \<and> ed_src e \<in> set up \<and> wins nli t (ed_src e) i l)"

definition promoted_row :: "int list \<Rightarrow> int set \<Rightarrow> int \<Rightarrow> insight_row \<Rightarrow> insight_row" where
  "promoted_row up R s r = (if in_id r \<in> R then r\<lparr>in_status := ''retired'', in_invalid_at := Some (invalid_at_stamp s)\<rparr>
     else if in_id r \<in> set up then r\<lparr>in_status := ''active''\<rparr> else r)"

lemma wins_activate:
  assumes "lb_fitness l1 = lb_fitness l"
    and "\<And>j. get_insight j l1 = map_option (\<lambda>r. if in_id r \<in> A then r\<lparr>in_status := to\<rparr> else r) (get_insight j l)"
  shows "wins nli t c i l1 = wins nli t c i l"
proof -
  let ?f = "\<lambda>r. if in_id r \<in> A then r\<lparr>in_status := to\<rparr> else r"
  have "confirms nli t (?f a) (?f b) = confirms nli t a b" "beats (?f a) (?f b) l1 = beats a b l" for a b
    by (simp_all add: confirms_def insight_nli_text_def beats_def authority_def corroborate_count_def assms(1))
  then show ?thesis
    by (cases "get_insight c l"; cases "get_insight i l") (simp_all add: wins_def assms(2) split del: if_split)
qed

lemma mark_activate: "mark R s (if in_id r \<in> set up then r\<lparr>in_status := ''active''\<rparr> else r) = promoted_row up R s r"
  by (simp add: mark_def promoted_row_def)

lemma batch_insights_get: "lib_wf l \<Longrightarrow> i \<in> set (batch_insights b sts l) \<longleftrightarrow>
    (\<exists>r. get_insight i l = Some r \<and> in_batch_id r = Some b \<and> in_status r \<in> set sts)"
  by (auto simp: batch_insights_def get_insight_iff)

lemma seam_effect:
  assumes "lib_wf l" "\<forall>i \<in> set up. \<exists>r. get_insight i l = Some r \<and> in_status r \<noteq> ''retired''"
    and l1: "0 < lb_txn l1" "s \<in> set (map sn_id (lb_snapshots l1))" "lb_edges l1 = lb_edges l" "lb_fitness l1 = lb_fitness l"
      "lb_insights l1 = update_where (\<lambda>r. in_id r \<in> set up) (\<lambda>r. r\<lparr>in_status := ''active''\<rparr>) (lb_insights l)"
    and run: "supersede_resolution_seam nli t up s l1 = (Inr ret, l2)"
  shows "set ret = {i. superseded nli t up i l} \<and>
    (\<exists>T. l2 = l1\<lparr>lb_transitions := T, lb_insights := map (promoted_row up (set ret) s) (lb_insights l)\<rparr>)"
proof -
  have get: "get_insight j l1 = map_option (\<lambda>r. if in_id r \<in> set up then r\<lparr>in_status := ''active''\<rparr> else r) (get_insight j l)" for j
    by (simp add: get_insight_def l1(5) row_of_update)
  note wins = wins_activate [OF l1(4) get]
  let ?edges = "open_contradicts_edges up l1"
  have edges: "(c, i) \<in> set ?edges \<longleftrightarrow> (\<exists>e \<in> set (lb_edges l). ed_kind e = ''contradicts'' \<and> ed_src e = c \<and> ed_dst e = i \<and> c \<in> set up)
      \<and> (case get_insight i l of None \<Rightarrow> False | Some inc \<Rightarrow> in_status inc \<noteq> ''retired'' \<and> in_invalid_at inc = None)" for c i
  proof (cases "get_insight i l")
    case None
    then show ?thesis by (auto simp: open_contradicts_edges_def l1(3) get)
  next
    case (Some inc)
    then have "in_status (if in_id inc \<in> set up then inc\<lparr>in_status := ''active''\<rparr> else inc) \<noteq> ''retired'' \<longleftrightarrow> in_status inc \<noteq> ''retired''"
      using assms(2) get_insight_id [OF Some] by auto
    then show ?thesis using Some by (auto simp: open_contradicts_edges_def l1(3) get split: if_splits)
  qed
  have "mark {} s = id" by (simp add: fun_eq_iff)
  then have start: "l1 = marked (set []) s (lb_transitions l1) l1" by simp
  have ends: "get_insight c l1 \<noteq> None \<and> get_insight i l1 \<noteq> None" if "(c, i) \<in> set ?edges" for c i
    using that assms(2) unfolding edges get by (auto split: option.splits)
  have "pfor (resolve_edge nli t s) ?edges [] (marked (set []) s (lb_transitions l1) l1) = (Inr ret, l2)"
    using run start by (simp add: supersede_resolution_seam_def pbind_apply pget_apply)
  from resolve_edges_marked [OF l1(1,2) ends this] obtain T where
    T: "l2 = marked (set ret) s T l1" "set ret = {i. \<exists>c. (c, i) \<in> set ?edges \<and> wins nli t c i l1}" by auto
  have "set ret = {i. superseded nli t up i l}" unfolding T(2) edges wins superseded_def by blast
  moreover have "map (mark (set ret) s) (lb_insights l1) = map (promoted_row up (set ret) s) (lb_insights l)"
    by (simp add: l1(5) update_where_def mark_activate)
  ultimately show ?thesis using T(1) by auto
qed

lemma promote_batch_effect:
  assumes "lib_wf l" "lb_txn l = 0" "promote_batch nli t label l = (Inr res, l')"
  shows "\<exists>b T. row_of bt_label label (lb_batches l) = Some b \<and>
    lr_insight_ids res = batch_insights (bt_id b) [''quarantined''] l \<and>
    set (lr_retired_incumbent_ids res) = {i. superseded nli t (lr_insight_ids res) i l} \<and>
    l' = (opened ''promote_batch'' label l)\<lparr>lb_transitions := T,
      lb_insights := map (promoted_row (lr_insight_ids res) (set (lr_retired_incumbent_ids res)) (current_snapshot_id l + 1)) (lb_insights l),
      lb_txn := 0\<rparr>"
proof -
  let ?s = "current_snapshot_id l + 1" and ?l0 = "opened ''promote_batch'' label l"
  have chain: "snapshot_chain (lb_snapshots l)" using assms(1) by (simp add: lib_wf_def)
  obtain b where b: "row_of bt_label label (lb_batches l) = Some b"
    using assms(3) by (cases "row_of bt_label label (lb_batches l)") (auto simp: promote_batch_def pbind_apply batch_id_of_def)
  let ?up = "batch_insights (bt_id b) [''quarantined''] l"
  have up: "\<forall>i \<in> set ?up. \<exists>r. get_insight i l = Some r \<and> in_status r \<noteq> ''retired''"
    using assms(1) by (auto simp: batch_insights_get)
  obtain T where T: "set_all ?up ''active'' ?s ?l0 = (Inr (), ?l0\<lparr>lb_transitions := T, lb_insights :=
      update_where (\<lambda>r. in_id r \<in> set ?up) (\<lambda>r. r\<lparr>in_status := ''active''\<rparr>) (lb_insights l)\<rparr>)"
    using set_all_ok [of ?l0 ?s "''active''" ?up, OF _ opened_snapshot [OF chain]] up by (auto simp: STATUSES_def)
  let ?l1 = "?l0\<lparr>lb_transitions := T, lb_insights :=
      update_where (\<lambda>r. in_id r \<in> set ?up) (\<lambda>r. r\<lparr>in_status := ''active''\<rparr>) (lb_insights l)\<rparr>"
  obtain ret l2 where seam: "supersede_resolution_seam nli t ?up ?s ?l1 = (Inr ret, l2)"
      and res: "res = (lifecycle_result ''promote_batch'' ?s ?up)\<lparr>lr_retired_incumbent_ids := ret\<rparr>" "l' = l2\<lparr>lb_txn := 0\<rparr>"
    using assms(3) by (auto simp: promote_batch_def pbind_apply batch_id_of_def b pget_apply check_apply
      queue_operation_eq [OF assms(2) chain] T pret_apply split: prod.splits sum.splits if_splits)
  have "set ret = {i. superseded nli t ?up i l} \<and>
      (\<exists>T. l2 = ?l1\<lparr>lb_transitions := T, lb_insights := map (promoted_row ?up (set ret) ?s) (lb_insights l)\<rparr>)"
    by (rule seam_effect [OF assms(1) up _ _ _ _ _ seam]) (use opened_snapshot [OF chain] in simp_all)
  then show ?thesis using b by (auto simp: res lifecycle_result_def)
qed

section \<open>Reversal\<close>

lemma orphaned_retire:
  assumes "\<And>j. get_insight j l1 = map_option (\<lambda>r. if in_id r \<in> A then r\<lparr>in_status := to\<rparr> else r) (get_insight j l)"
    "lb_skills l1 = lb_skills l" "lb_members l1 = lb_members l"
  shows "orphaned_batch_skills b l1 = orphaned_batch_skills b l"
proof -
  have "(case get_insight j l1 of None \<Rightarrow> False | Some i \<Rightarrow> in_batch_id i \<noteq> Some b) =
      (case get_insight j l of None \<Rightarrow> False | Some i \<Rightarrow> in_batch_id i \<noteq> Some b)" for j
    by (cases "get_insight j l") (simp_all add: assms(1))
  then show ?thesis by (simp add: orphaned_batch_skills_def assms(2,3))
qed

lemma revert_batch_effect:
  assumes "lib_wf l" "lb_txn l = 0" "row_of bt_label label (lb_batches l) = Some b"
    and targets: "batch_insights (bt_id b) [''active'', ''quarantined''] l = targets" "targets \<noteq> []"
    and removed: "orphaned_batch_skills (bt_id b) l = removed" and shut: "open_flags targets l = shut"
  shows "\<exists>T. revert_batch label l = (if split_from removed l then (Inl IntegrityError, l)
    else (Inr ((lifecycle_result ''revert_batch'' (current_snapshot_id l + 1) targets)
            \<lparr>lr_removed_skill_ids := removed, lr_closed_contradiction_ids := shut\<rparr>),
      (opened ''revert_batch'' label l)\<lparr>lb_transitions := T,
        lb_insights := update_where (\<lambda>r. in_id r \<in> set targets) (\<lambda>r. r\<lparr>in_status := ''retired''\<rparr>) (lb_insights l),
        lb_contradictions := update_where (\<lambda>c. ct_id c \<in> set shut)
          (\<lambda>c. c\<lparr>ct_status := ''closed'', ct_closed_snapshot_id := Some (current_snapshot_id l + 1)\<rparr>) (lb_contradictions l),
        lb_members := filter (\<lambda>m. mb_skill_id m \<notin> set removed) (lb_members l),
        lb_skills := filter (\<lambda>s. sk_id s \<notin> set removed) (lb_skills l), lb_txn := 0\<rparr>))"
proof -
  let ?s = "current_snapshot_id l + 1" and ?l0 = "opened ''revert_batch'' label l"
  let ?ins = "update_where (\<lambda>r. in_id r \<in> set targets) (\<lambda>r. r\<lparr>in_status := ''retired''\<rparr>) (lb_insights l)"
  have chain: "snapshot_chain (lb_snapshots l)" using assms(1) by (simp add: lib_wf_def)
  have "\<forall>i \<in> set targets. get_insight i l \<noteq> None"
    using assms(1) targets(1) by (auto simp: batch_insights_get)
  then obtain T where T: "set_all targets ''retired'' ?s ?l0 = (Inr (), ?l0\<lparr>lb_transitions := T, lb_insights := ?ins\<rparr>)"
    using set_all_ok [of ?l0 ?s "''retired''" targets, OF _ opened_snapshot [OF chain]] by (auto simp: STATUSES_def)
  let ?l1 = "?l0\<lparr>lb_transitions := T, lb_insights := ?ins\<rparr>"
  let ?l2 = "?l1\<lparr>lb_contradictions := update_where (\<lambda>c. ct_id c \<in> set shut)
      (\<lambda>c. c\<lparr>ct_status := ''closed'', ct_closed_snapshot_id := Some ?s\<rparr>) (lb_contradictions l)\<rparr>"
  have flags: "open_flags targets ?l1 = shut" using shut by (simp add: open_flags_def)
  have orphans: "orphaned_batch_skills (bt_id b) ?l2 = removed"
    unfolding removed [symmetric] by (rule orphaned_retire) (simp_all add: get_insight_def row_of_update)
  have split: "split_from removed (?l2\<lparr>lb_members := ms\<rparr>) = split_from removed l" for ms by (simp add: split_from_def)
  have remove: "remove_orphaned_batch_skills (bt_id b) ?l2 = (if split_from removed l
      then (Inl IntegrityError, ?l2\<lparr>lb_members := filter (\<lambda>m. mb_skill_id m \<notin> set removed) (lb_members l)\<rparr>)
      else (Inr removed, ?l2\<lparr>lb_members := filter (\<lambda>m. mb_skill_id m \<notin> set removed) (lb_members l),
        lb_skills := filter (\<lambda>s. sk_id s \<notin> set removed) (lb_skills l)\<rparr>))"
    by (simp add: remove_orphaned_batch_skills_def orphans Let_def split)
  show ?thesis
    by (rule exI [of _ T]) (simp add: revert_batch_def pbind_apply batch_id_of_def assms(3) pget_apply check_apply targets
      queue_operation_eq [OF assms(2) chain] T flags close_flags_def pmodify_apply remove pret_apply)
qed

end
