(* ===== verification/AfSplitEffects.thy ===== *)
theory AfSplitEffects
  imports AfEffects "HOL-Library.Multiset"
begin

text \<open>The exact effect of a split and of its reversal on the skills and their members.\<close>

section \<open>Inserting members\<close>

definition member_rows :: "int \<Rightarrow> int list \<Rightarrow> member_row list" where
  "member_rows k ids = map (\<lambda>(p, i). \<lparr>mb_skill_id = k, mb_insight_id = i, mb_position = p\<rparr>) (numbered ids)"

lemma insert_pairs_ok:
  assumes "k \<in> sk_id ` set (lb_skills l)" "snd ` set ps \<subseteq> in_id ` set (lb_insights l)"
    "distinct (map fst ps)" "distinct (map snd ps)"
    "\<forall>m \<in> set (lb_members l). mb_skill_id m = k \<longrightarrow> mb_insight_id m \<notin> snd ` set ps \<and> mb_position m \<notin> fst ` set ps"
  shows "pfor (\<lambda>p _. insert_member k p) ps () l = (Inr (), l\<lparr>lb_members := lb_members l @
     map (\<lambda>(p, i). \<lparr>mb_skill_id = k, mb_insight_id = i, mb_position = p\<rparr>) ps\<rparr>)"
  using assms
proof (induction ps arbitrary: l)
  case Nil
  then show ?case by (simp add: pret_apply)
next
  case (Cons q ps)
  obtain p i where q: "q = (p, i)" by fastforce
  let ?l = "l\<lparr>lb_members := lb_members l @ [\<lparr>mb_skill_id = k, mb_insight_id = i, mb_position = p\<rparr>]\<rparr>"
  have step: "insert_member k q l = (Inr (), ?l)" using Cons.prems by (auto simp: insert_member_def q)
  have "pfor (\<lambda>p _. insert_member k p) ps () ?l = (Inr (), ?l\<lparr>lb_members := lb_members ?l @
     map (\<lambda>(p, i). \<lparr>mb_skill_id = k, mb_insight_id = i, mb_position = p\<rparr>) ps\<rparr>)"
    by (rule Cons.IH) (use Cons.prems in \<open>auto simp: q image_iff\<close>)
  then show ?case by (simp add: pbind_apply step [unfolded q] q)
qed

lemma numbered_simps [simp]:
  "map fst (numbered ids) = map int [1..<1 + length ids]" "map snd (numbered ids) = sort ids"
proof -
  have "map fst (numbered ids) = map int (map fst (enumerate 1 (sort ids)))"
    by (simp only: numbered_def map_map comp_def split_beta fst_conv)
  then show "map fst (numbered ids) = map int [1..<1 + length ids]" by (simp only: map_fst_enumerate length_sort)
  have "map snd (numbered ids) = map snd (enumerate 1 (sort ids))" by (simp add: numbered_def split_beta o_def)
  then show "map snd (numbered ids) = sort ids" by simp
qed

lemma insert_members_ok:
  assumes "k \<in> sk_id ` set (lb_skills l)" "set ids \<subseteq> in_id ` set (lb_insights l)" "distinct ids"
    "\<forall>m \<in> set (lb_members l). mb_skill_id m \<noteq> k"
  shows "insert_members k ids l = (Inr (), l\<lparr>lb_members := lb_members l @ member_rows k ids\<rparr>)"
proof -
  have snd: "snd ` set (numbered ids) = set ids" by (metis list.set_map numbered_simps(2) set_sort)
  show ?thesis unfolding insert_members_def member_rows_def
    by (rule insert_pairs_ok) (use assms in \<open>auto simp: snd distinct_map inj_on_def\<close>)
qed

lemma member_rows_simps [simp]:
  "filter (\<lambda>m. mb_skill_id m = j) (member_rows k ids) = (if j = k then member_rows k ids else [])"
  "map mb_insight_id (member_rows k ids) = sort ids"
  "m \<in> set (member_rows k ids) \<Longrightarrow> mb_skill_id m = k"
  by (auto simp: member_rows_def filter_map o_def split_beta filter_True simp flip: numbered_simps(2))

lemma sort_member_rows [simp]: "sort_key mb_position (member_rows k ids) = member_rows k ids"
proof (rule sort_key_id_if_sorted)
  have "map mb_position (member_rows k ids) = map fst (numbered ids)" by (simp add: member_rows_def split_beta o_def)
  also have "sorted \<dots>" by (simp only: numbered_simps sorted_map) (rule sorted_wrt_mono_rel [OF _ sorted_wrt_upt], simp)
  finally show "sorted (map mb_position (member_rows k ids))" .
qed

lemma skill_members_rows: "\<forall>m \<in> set ms. mb_skill_id m \<noteq> k \<Longrightarrow> lb_members l = ms @ member_rows k ids @ us \<Longrightarrow>
    \<forall>m \<in> set us. mb_skill_id m \<noteq> k \<Longrightarrow> skill_members k l = sort ids"
  by (simp add: skill_members_def filter_empty_conv)

section \<open>Splitting\<close>

definition child_row :: "skill_row \<Rightarrow> string \<Rightarrow> int \<Rightarrow> int \<Rightarrow> skill_row" where
  "child_row parent ending i s = \<lparr>sk_id = i, sk_agent_id = sk_agent_id parent,
     sk_name = Some ((case sk_name parent of None \<Rightarrow> ''None'' | Some n \<Rightarrow> n) @ ending), sk_description = [],
     sk_created_batch_id = None, sk_token_count = 0, sk_parent_skill_id = Some (sk_id parent),
     sk_split_snapshot_id = Some s, sk_level = None\<rparr>"

text \<open>What the skills and members tables promise by their foreign keys and primary keys.\<close>

definition members_wf :: "'a library_scheme \<Rightarrow> bool" where
  "members_wf l \<longleftrightarrow> distinct (map sk_id (lb_skills l)) \<and>
     (\<forall>s \<in> set (lb_skills l). refers (sk_parent_skill_id s) (map sk_id (lb_skills l))) \<and>
     (\<forall>m \<in> set (lb_members l). mb_skill_id m \<in> sk_id ` set (lb_skills l) \<and> mb_insight_id m \<in> in_id ` set (lb_insights l)) \<and>
     distinct (map (\<lambda>m. (mb_skill_id m, mb_insight_id m)) (lb_members l))"

text \<open>A request to split a skill that the code accepts.\<close>

definition splittable :: "int \<Rightarrow> int list \<Rightarrow> int list \<Rightarrow> skill_row \<Rightarrow> 'a library_scheme \<Rightarrow> bool" where
  "splittable k c0 c1 parent l \<longleftrightarrow> row_of sk_id k (lb_skills l) = Some parent \<and> c0 \<noteq> [] \<and> c1 \<noteq> [] \<and>
     distinct (c0 @ c1) \<and> set (c0 @ c1) = set (skill_members k l) \<and>
     (\<forall>s \<in> set (lb_skills l). \<forall>e \<in> {''-0'', ''-1''}. sk_agent_id s = sk_agent_id parent \<longrightarrow>
        sk_name s \<noteq> sk_name (child_row parent e 0 0))"

lemma members_set: "set (skill_members k l) = mb_insight_id ` {m \<in> set (lb_members l). mb_skill_id m = k}"
  by (auto simp: skill_members_def)

lemma next_rowid_snoc: "next_rowid (ids @ [next_rowid ids]) = next_rowid ids + 1"
proof -
  have "Max (set (ids @ [next_rowid ids])) = next_rowid ids"
    by (rule Max_eqI) (auto intro: less_imp_le next_rowid_fresh)
  then show ?thesis by (simp only: next_rowid_def) simp
qed

lemma insert_child_ok:
  assumes "\<forall>s \<in> set (lb_skills l). sk_agent_id s = sk_agent_id parent \<longrightarrow> sk_name s \<noteq> sk_name (child_row parent e 0 0)"
  shows "insert_child parent e s l = (Inr (next_rowid (map sk_id (lb_skills l))),
    l\<lparr>lb_skills := lb_skills l @ [child_row parent e (next_rowid (map sk_id (lb_skills l))) s]\<rparr>)"
  using assms by (auto simp: insert_child_def child_row_def Let_def)

abbreviation first_child :: "'a library_scheme \<Rightarrow> int" where
  "first_child l \<equiv> next_rowid (map sk_id (lb_skills l))"

lemma execute_split_effect:
  assumes "lb_txn l = 0" "snapshot_chain (lb_snapshots l)" "members_wf l" "splittable k c0 c1 parent l"
  shows "execute_split k (c0, c1) d l =
    (Inr \<lparr>sr_parent_skill_id = k, sr_child_skill_ids = (first_child l, first_child l + 1),
       sr_snapshot_id = current_snapshot_id l + 1, sr_finalized = False\<rparr>,
     (opened ''agent_split'' (if d \<noteq> [] then d else ''split '' @ show_int k) l)\<lparr>
       lb_skills := update_where (\<lambda>s. sk_id s = k) (\<lambda>s. s\<lparr>sk_split_snapshot_id := Some (current_snapshot_id l + 1)\<rparr>) (lb_skills l) @
         [child_row parent ''-0'' (first_child l) (current_snapshot_id l + 1),
          child_row parent ''-1'' (first_child l + 1) (current_snapshot_id l + 1)],
       lb_members := filter (\<lambda>m. mb_skill_id m \<noteq> k) (lb_members l) @ member_rows (first_child l) c0 @ member_rows (first_child l + 1) c1,
       lb_txn := 0\<rparr>)"
proof -
  let ?s = "current_snapshot_id l + 1" and ?l0 = "opened ''agent_split'' (if d \<noteq> [] then d else ''split '' @ show_int k) l"
  let ?i = "first_child l" and ?i1 = "first_child l + 1"
  let ?sk = "update_where (\<lambda>s. sk_id s = k) (\<lambda>s. s\<lparr>sk_split_snapshot_id := Some ?s\<rparr>) (lb_skills l)"
  let ?c0 = "child_row parent ''-0'' ?i ?s" and ?c1 = "child_row parent ''-1'' ?i1 ?s"
  note sp = assms(4) [unfolded splittable_def]
  have ids: "map sk_id ?sk = map sk_id (lb_skills l)" by (rule keys_update_where) simp
  have free: "\<forall>s \<in> set ?sk. sk_agent_id s = sk_agent_id parent \<longrightarrow> sk_name s \<noteq> sk_name (child_row parent e 0 0)"
    if "e \<in> {''-0'', ''-1''}" for e
    using sp that by (fastforce simp: update_where_def)
  define l1 where "l1 = ?l0\<lparr>lb_skills := ?sk\<rparr>"
  define l2 where "l2 = l1\<lparr>lb_skills := ?sk @ [?c0]\<rparr>"
  define l3 where "l3 = l2\<lparr>lb_skills := ?sk @ [?c0, ?c1]\<rparr>"
  define l4 where "l4 = l3\<lparr>lb_members := filter (\<lambda>m. mb_skill_id m \<notin> {k}) (lb_members l)\<rparr>"
  define l5 where "l5 = l4\<lparr>lb_members := lb_members l4 @ member_rows ?i c0\<rparr>"
  define l6 where "l6 = l5\<lparr>lb_members := lb_members l5 @ member_rows ?i1 c1\<rparr>"
  have sid: "sk_id ?c0 = ?i" "sk_id ?c1 = ?i1" by (simp_all add: child_row_def)
  have s1: "set_split_snapshot k (Some ?s) ?l0 = (Inr (), l1)" by (simp add: set_split_snapshot_def pmodify_apply l1_def)
  have s2: "insert_child parent ''-0'' ?s l1 = (Inr ?i, l2)"
    using insert_child_ok [of l1 parent "''-0''" ?s] free [of "''-0''"] by (simp add: l1_def l2_def ids)
  have "\<forall>s \<in> set (lb_skills l2). sk_agent_id s = sk_agent_id parent \<longrightarrow> sk_name s \<noteq> sk_name (child_row parent ''-1'' 0 0)"
    using free [of "''-1''"] by (auto simp: l2_def) (simp add: child_row_def)
  moreover have "first_child l2 = ?i1" using next_rowid_snoc [of "map sk_id (lb_skills l)"] by (simp add: l2_def ids sid)
  ultimately have s3: "insert_child parent ''-1'' ?s l2 = (Inr ?i1, l3)"
    using insert_child_ok [of l2 parent "''-1''" ?s] by (simp add: l2_def l3_def)
  have s4: "delete_members {k} l3 = (Inr (), l4)"
    by (simp add: delete_members_def pmodify_apply l4_def l3_def l2_def l1_def)
  have fresh: "j < ?i" if "j \<in> sk_id ` set (lb_skills l)" for j
    using next_rowid_fresh [of j "map sk_id (lb_skills l)"] that by simp
  have members: "set (c0 @ c1) \<subseteq> in_id ` set (lb_insights l)"
    using sp assms(3) by (auto simp: members_set members_wf_def)
  have old: "mb_skill_id m < ?i" if "m \<in> set (lb_members l)" for m
    using assms(3) that by (auto simp: members_wf_def intro: fresh)
  have s5: "insert_members ?i c0 l4 = (Inr (), l5)" unfolding l5_def
    by (rule insert_members_ok) (use sp members old in \<open>force simp: l4_def l3_def l2_def l1_def sid\<close>)+
  have s6: "insert_members ?i1 c1 l5 = (Inr (), l6)" unfolding l6_def
    by (rule insert_members_ok) (use sp members old in \<open>force simp: l5_def l4_def l3_def l2_def l1_def sid\<close>)+
  have body: "l6\<lparr>lb_txn := 0\<rparr> = ?l0\<lparr>lb_skills := ?sk @ [?c0, ?c1], lb_members :=
      filter (\<lambda>m. mb_skill_id m \<noteq> k) (lb_members l) @ member_rows ?i c0 @ member_rows ?i1 c1, lb_txn := 0\<rparr>"
    by (simp add: l6_def l5_def l4_def l3_def l2_def l1_def)
  show ?thesis using sp
    by (simp add: execute_split_def check_apply pbind_apply pget_apply queue_operation_eq [OF assms(1,2)]
      s1 s2 s3 s4 s5 s6 pret_apply body [simplified])
qed

lemma update_where_same_key: "(\<And>r. key (g r) = key r) \<Longrightarrow>
    update_where (\<lambda>r. key r = k) f (update_where (\<lambda>r. key r = k) g rows) = update_where (\<lambda>r. key r = k) (f \<circ> g) rows"
  by (simp add: update_where_def)

lemma revert_split_effect:
  assumes "lb_txn l = 0" "lib_wf l" "members_wf l" "splittable k c0 c1 parent l"
    and run: "execute_split k (c0, c1) d l = (Inr r, l')"
  shows "\<exists>l''. revert_split r l' = (Inr (), l'') \<and>
    lb_skills l'' = update_where (\<lambda>s. sk_id s = k) (\<lambda>s. s\<lparr>sk_split_snapshot_id := None\<rparr>) (lb_skills l) \<and>
    lb_members l'' = filter (\<lambda>m. mb_skill_id m \<noteq> k) (lb_members l) @ member_rows k (skill_members k l) \<and>
    lb_insights l'' = lb_insights l \<and> current_snapshot_id l'' = current_snapshot_id l + 2"
proof -
  have chain: "snapshot_chain (lb_snapshots l)" using assms(2) by (simp add: lib_wf_def)
  note eff = execute_split_effect [OF assms(1) chain assms(3,4), of d]
  have wf': "lib_wf l'" using wf.execute_split_keeps [OF assms(2), of k "(c0, c1)" d] run by simp
  then have chain': "snapshot_chain (lb_snapshots l')" by (simp add: lib_wf_def)
  let ?i = "first_child l" and ?i1 = "first_child l + 1" and ?s = "current_snapshot_id l + 1"
  let ?c0 = "child_row parent ''-0'' ?i ?s" and ?c1 = "child_row parent ''-1'' ?i1 ?s"
  let ?stamp = "\<lambda>v s. s\<lparr>sk_split_snapshot_id := v\<rparr>"
  have r: "sr_parent_skill_id r = k" "sr_child_skill_ids r = (?i, ?i1)" "\<not> sr_finalized r" using run unfolding eff by auto
  have l': "lb_txn l' = 0" "lb_insights l' = lb_insights l"
      "lb_skills l' = update_where (\<lambda>s. sk_id s = k) (?stamp (Some ?s)) (lb_skills l) @ [?c0, ?c1]"
      "lb_members l' = filter (\<lambda>m. mb_skill_id m \<noteq> k) (lb_members l) @ member_rows ?i c0 @ member_rows ?i1 c1"
    using run unfolding eff by auto
  have fresh: "j < ?i" if "j \<in> sk_id ` set (lb_skills l)" for j
    using next_rowid_fresh [of j "map sk_id (lb_skills l)"] that by simp
  have old: "mb_skill_id m < ?i" if "m \<in> set (lb_members l)" for m
    using assms(3) that by (auto simp: members_wf_def intro: fresh)
  have k: "k \<in> sk_id ` set (lb_skills l)" using assms(4) row_of_Some by (fastforce simp: splittable_def)
  define detail where "detail = ''revert split of '' @ show_int k"
  define l0 where "l0 = opened ''agent_split_revert'' detail l'"
  have other: "filter (\<lambda>m. mb_skill_id m = j) (filter (\<lambda>m. mb_skill_id m \<noteq> k) (lb_members l)) = []" if "?i \<le> j" for j
    using old that by (fastforce simp: filter_empty_conv)
  have dist: "distinct (skill_members k l)" using assms(3)
    by (auto simp: skill_members_def members_wf_def distinct_map inj_on_def intro: distinct_filter)
  have known: "set (skill_members k l) \<subseteq> in_id ` set (lb_insights l)" using assms(3) by (auto simp: members_set members_wf_def)
  have "mset (sort c0 @ sort c1) = mset (skill_members k l)"
    by (rule set_eq_iff_mset_eq_distinct [THEN iffD1]) (use assms(4) dist in \<open>auto simp: splittable_def\<close>)
  then have all: "sort (members_of ?i l0 @ members_of ?i1 l0) = sort (skill_members k l)"
    using other [of ?i] other [of ?i1] by (simp add: members_of_def l0_def l'(4) del: filter_filter) (metis properties_for_sort sorted_sort mset_sort mset_append)
  define l1 where "l1 = l0\<lparr>lb_members := filter (\<lambda>m. mb_skill_id m \<noteq> k) (lb_members l)\<rparr>"
  define l2 where "l2 = l1\<lparr>lb_skills := update_where (\<lambda>s. sk_id s = k) (?stamp (Some ?s)) (lb_skills l)\<rparr>"
  define l3 where "l3 = l2\<lparr>lb_skills := update_where (\<lambda>s. sk_id s = k) (?stamp None) (lb_skills l)\<rparr>"
  have s1: "delete_members {?i, ?i1} l0 = (Inr (), l1)"
  proof -
    have "filter (\<lambda>m. mb_skill_id m \<notin> {?i, ?i1}) (lb_members l') = filter (\<lambda>m. mb_skill_id m \<noteq> k) (lb_members l)"
      using old by (force simp: l'(4) filter_empty_conv intro: filter_cong)
    then show ?thesis by (simp add: delete_members_def pmodify_apply l1_def l0_def)
  qed
  have s2: "delete_skills [?i, ?i1] l1 = (Inr (), l2)"
  proof -
    have "\<not> split_from [?i, ?i1] l1"
      using assms(3) fresh by (fastforce simp: split_from_def l1_def l0_def l'(3) members_wf_def refers_def update_where_def child_row_def split: option.splits)
    moreover have "filter (\<lambda>s. sk_id s \<notin> set [?i, ?i1]) (lb_skills l') = update_where (\<lambda>s. sk_id s = k) (?stamp (Some ?s)) (lb_skills l)"
      using fresh by (force simp: l'(3) child_row_def update_where_def filter_id_conv)
    ultimately show ?thesis by (simp add: delete_skills_def l2_def l1_def l0_def)
  qed
  have s3: "set_split_snapshot k None l2 = (Inr (), l3)"
    by (simp add: set_split_snapshot_def pmodify_apply l3_def l2_def update_where_same_key o_def)
  have s4: "insert_members k (sort (skill_members k l)) l3 = (Inr (), l3\<lparr>lb_members := lb_members l3 @ member_rows k (sort (skill_members k l))\<rparr>)"
  proof (rule insert_members_ok)
    have "map sk_id (lb_skills l3) = map sk_id (lb_skills l)" unfolding l3_def by (simp add: keys_update_where)
    then show "k \<in> sk_id ` set (lb_skills l3)" using k by (metis set_map)
    show "set (sort (skill_members k l)) \<subseteq> in_id ` set (lb_insights l3)" using known by (simp add: l3_def l2_def l1_def l0_def l'(2))
  qed (use dist in \<open>simp_all add: l3_def l2_def l1_def l0_def\<close>)
  let ?l4 = "(l3\<lparr>lb_members := lb_members l3 @ member_rows k (sort (skill_members k l))\<rparr>)\<lparr>lb_txn := 0\<rparr>"
  have res: "revert_split r l' = (Inr (), ?l4)"
    unfolding revert_split_def r(1,2) fst_conv snd_conv Let_def detail_def [symmetric]
    by (simp add: check_apply r(3) pbind_apply pget_apply queue_operation_eq [OF l'(1) chain'] l0_def [symmetric] all s1 s2 s3 s4)
  have same: "lb_snapshots a = lb_snapshots b \<Longrightarrow> current_snapshot_id a = current_snapshot_id b" for a b :: "'a library_scheme"
    by (simp add: current_snapshot_id_def)
  have "current_snapshot_id l' = current_snapshot_id (opened ''agent_split'' (if d \<noteq> [] then d else ''split '' @ show_int k) l)"
    using run unfolding eff by (intro same) auto
  moreover have "current_snapshot_id ?l4 = current_snapshot_id (opened ''agent_split_revert'' detail l')"
    by (rule same) (simp add: l3_def l2_def l1_def l0_def)
  ultimately have "current_snapshot_id ?l4 = current_snapshot_id l + 2"
    by (simp add: opened_current [OF assms(2)] opened_current [OF wf'])
  moreover have "member_rows k (sort ids) = member_rows k ids" for ids by (simp add: member_rows_def numbered_def sorted_sort_id)
  ultimately show ?thesis unfolding res by (simp add: l3_def l2_def l1_def l0_def l'(2))
qed

text \<open>A skill created by a batch, once split, has no members of its own: reversing the batch wants to
  delete it, and its children still refer to it.\<close>

lemma split_blocks_revert_effect:
  assumes "lb_txn l = 0" "lib_wf l" "members_wf l" "splittable k c0 c1 parent l"
    and run: "execute_split k (c0, c1) d l = (Inr r, l')"
    and batch: "row_of bt_label label (lb_batches l) = Some b" "sk_created_batch_id parent = Some (bt_id b)"
      "batch_insights (bt_id b) [''active'', ''quarantined''] l \<noteq> []"
  shows "revert_batch label l' = (Inl IntegrityError, l')"
proof -
  have chain: "snapshot_chain (lb_snapshots l)" using assms(2) by (simp add: lib_wf_def)
  note eff = execute_split_effect [OF assms(1) chain assms(3,4), of d]
  have wf': "lib_wf l'" using wf.execute_split_keeps [OF assms(2), of k "(c0, c1)" d] run by simp
  let ?i = "first_child l" and ?s = "current_snapshot_id l + 1"
  have parent: "parent \<in> set (lb_skills l)" "sk_id parent = k" using assms(4) row_of_Some by (fastforce simp: splittable_def)+
  have l': "lb_txn l' = 0" "lb_insights l' = lb_insights l" "lb_batches l' = lb_batches l"
      "lb_skills l' = update_where (\<lambda>s. sk_id s = k) (\<lambda>s. s\<lparr>sk_split_snapshot_id := Some ?s\<rparr>) (lb_skills l) @
        [child_row parent ''-0'' ?i ?s, child_row parent ''-1'' (?i + 1) ?s]"
      "lb_members l' = filter (\<lambda>m. mb_skill_id m \<noteq> k) (lb_members l) @ member_rows ?i c0 @ member_rows (?i + 1) c1"
    using run unfolding eff by auto
  have fresh: "j < ?i" if "j \<in> sk_id ` set (lb_skills l)" for j
    using next_rowid_fresh [of j "map sk_id (lb_skills l)"] that by simp
  have k: "k < ?i" using parent fresh by blast
  let ?removed = "orphaned_batch_skills (bt_id b) l'"
  have "mb_skill_id m \<noteq> k" if "m \<in> set (lb_members l')" for m using that k by (auto simp: l'(5))
  moreover have "parent\<lparr>sk_split_snapshot_id := Some ?s\<rparr> \<in> set (lb_skills l')"
    using parent by (force simp: l'(4) update_where_def)
  ultimately have "k \<in> set ?removed" using parent(2) batch(2) unfolding orphaned_batch_skills_def
    by (auto intro!: image_eqI [of _ sk_id "parent\<lparr>sk_split_snapshot_id := Some ?s\<rparr>"])
  moreover have "?i \<notin> set ?removed"
    using fresh by (fastforce simp: orphaned_batch_skills_def l'(4) child_row_def update_where_def)
  ultimately have "split_from ?removed l'" using parent(2)
    by (auto simp: split_from_def l'(4) child_row_def)
  moreover have "batch_insights (bt_id b) [''active'', ''quarantined''] l' \<noteq> []"
    using batch(3) by (simp add: batch_insights_def l'(2))
  ultimately show ?thesis
    using revert_batch_effect [OF wf' l'(1) _ refl _ refl refl, of label b] batch(1) by (simp add: l'(3))
qed

end
