(* ===== verification/AfLifecycleProps.thy ===== *)
theory AfLifecycleProps
  imports AfSplitEffects
begin

text \<open>
  The properties of the library store and its lifecycle: the audit trail, atomicity, and the exact
  effect of promoting, reverting and splitting.
\<close>

section \<open>A failing operation writes nothing\<close>

definition atomic :: "('a library_scheme, 'b) py \<Rightarrow> bool" where
  "atomic m \<longleftrightarrow> (\<forall>l e. lb_txn l = 0 \<longrightarrow> fst (m l) = Inl e \<longrightarrow> snd (m l) = l)"

lemma atomic_queue: "atomic (queue_operation operation detail body)"
  by (simp add: atomic_def queue_operation_Inl)

lemma atomic_read: "(\<And>l. snd (m l) = l) \<Longrightarrow> (\<And>x. atomic (f x)) \<Longrightarrow> atomic (pbind m f)"
  unfolding atomic_def by (auto simp: pbind_apply split: prod.splits sum.splits) (metis fst_conv snd_conv)+

lemma atomic_punit: "atomic m \<Longrightarrow> atomic (punit m)"
  unfolding atomic_def by (auto simp: pbind_apply pret_apply split: prod.splits sum.splits) (metis fst_conv snd_conv)+

lemma atomic_praise: "atomic (praise e)"
  by (simp add: atomic_def praise_apply)

lemmas atomic_rules = atomic_queue atomic_punit atomic_praise atomic_read

lemma atomic_lifecycle:
  "atomic (promote_batch nli t b)" "atomic (revert_batch b)" "atomic (retire_insight i)" "atomic (revive_insight i)"
  "atomic (retire_skill k)" "atomic (revive_skill k)" "atomic (revert_split r)"
  unfolding promote_batch_def revert_batch_def retire_insight_def revive_insight_def retire_skill_def revive_skill_def
    revert_split_def Let_def
  by (intro atomic_rules; simp)+

lemma atomic_demote: "atomic (demote_to_dormant cs p)"
  unfolding demote_to_dormant_def Let_def by (intro atomic_rules; simp)

lemma atomic_execute_split: "atomic (execute_split k cs d)"
  unfolding execute_split_def split_beta by (intro atomic_rules) (auto intro: atomic_rules split: option.split)

lemma atomic_inserts:
  "atomic (stamp_insight_provenance i pr)" "atomic (auto_stamp_batch_provenance b po)"
  "atomic (set_batch_validation_class b c)" "atomic (ensure_batch b)" "atomic (insert_insight r)"
  "atomic (add_insight_edge s d k w)" "atomic (record_fitness_event i k m s e)" "atomic (create_skill a n de bo)"
  "atomic (append_member sk i)"
  by (auto simp: atomic_def stamp_insight_provenance_def auto_stamp_batch_provenance_def set_batch_validation_class_def
      ensure_batch_def insert_insight_def add_insight_edge_def record_fitness_event_def create_skill_def append_member_def
      pbind_apply check_apply batch_id_of_def pmodify_apply Let_def split: option.splits if_splits sum.splits)

text \<open>C29: a library operation that raises leaves the database exactly as it was: no row, no snapshot,
  no queue entry, whatever failed and however far the operation had got.\<close>

theorem failed_library_operation_writes_nothing:
  assumes "lb_txn l = 0" "run_lib_op nli t p l = (Inl e, l')"
  shows "l' = l"
proof -
  have "atomic (run_lib_op nli t p)"
    by (cases p) (auto intro!: atomic_punit atomic_lifecycle atomic_demote atomic_execute_split atomic_inserts)
  then show ?thesis using assms unfolding atomic_def by (metis fst_conv snd_conv)
qed

section \<open>The audit trail\<close>

text \<open>C30: whatever sequence of operations a library has been through, its snapshots are numbered
  1, 2, 3, ... without a gap, each the child of the one before, each with its one entry in the
  promotion queue; and the recorded transitions of every insight form a path that ends in the
  status the insight has.\<close>

theorem library_audit_trail:
  "lib_wf (run_lib_ops nli t ops (empty_library\<lparr>lb_families := families, lb_agents := agents,
     lb_tickets := tickets, lb_scens := scenarios, lb_episodes := episodes\<rparr>))"
proof (rule wf.lib_ops_keep)
  show "lib_wf (empty_library\<lparr>lb_families := families, lb_agents := agents,
     lb_tickets := tickets, lb_scens := scenarios, lb_episodes := episodes\<rparr>)"
    by (rule lib_wf_core [OF lib_wf_empty]) (simp add: same_core_def statuses_def empty_library_def)
qed

text \<open>C31: the past can be read back: the status an insight has now is what \<open>status_at\<close> answers for
  the current snapshot at any later time, after any further operations.\<close>

theorem status_at_reads_the_past:
  assumes "lib_wf l" "get_insight i l = Some row"
  shows "status_at i (current_snapshot_id l) (run_lib_ops nli t ops l) = Inr (in_status row)"
  by (rule status_at_extends [OF past.lib_ops_keep [OF extends_refl [OF assms(1)]] assms])

section \<open>Promotion and reversal\<close>



section \<open>Splitting a skill\<close>

text \<open>C34: an accepted split followed by its reversal gives the skill back its members, now in the order
  of their ids, deletes both children, leaves every other membership row as it was, and costs two
  snapshots.\<close>

theorem split_then_revert:
  assumes "lb_txn l = 0" "lib_wf l" "members_wf l" "splittable k c0 c1 parent l"
    and "execute_split k (c0, c1) d l = (Inr r, l')"
  shows "\<exists>l''. revert_split r l' = (Inr (), l'') \<and>
    lb_skills l'' = update_where (\<lambda>s. sk_id s = k) (\<lambda>s. s\<lparr>sk_split_snapshot_id := None\<rparr>) (lb_skills l) \<and>
    lb_members l'' = filter (\<lambda>m. mb_skill_id m \<noteq> k) (lb_members l) @ member_rows k (skill_members k l) \<and>
    lb_insights l'' = lb_insights l \<and> current_snapshot_id l'' = current_snapshot_id l + 2"
  by (rule revert_split_effect [OF assms])


section \<open>A library\<close>

definition demo_insight :: "string \<Rightarrow> int \<Rightarrow> string \<Rightarrow> insight_row" where
  "demo_insight hash batch provenance = \<lparr>in_id = 0, in_precondition = ''p'', in_action = hash, in_expected_outcome = [],
     in_scope_tag = None, in_content_hash = hash, in_status = ''quarantined'', in_batch_id = Some batch,
     in_source_run_id = None, in_embedding_model = None, in_embedding_dim = None, in_duplicate_of = None,
     in_supersedes = None, in_created_at = ''2026'', in_episode_id = None, in_evidence_scenario_id = None,
     in_evidence_ticket_id = None, in_provenance = provenance, in_negative_scope = None, in_valid_at = None,
     in_invalid_at = None, in_rationale = None\<rparr>"

definition demo_nli :: nli_model where
  "demo_nli a b = Inr (''contradiction'', 1)"

text \<open>An active insight, a batch of two that one of them contradicts, and a skill the batch created.\<close>

definition demo_library :: library where
  "demo_library = run_lib_ops demo_nli (1/2)
     [EnsureBatch ''old'', InsertInsight (demo_insight ''a'' 1 ''reflector''), Promote ''old'', EnsureBatch ''new'',
      InsertInsight (demo_insight ''b'' 2 ''manual''), InsertInsight (demo_insight ''c'' 2 ''manual''),
      AddEdge 2 1 ''contradicts'' None, CreateSkill 1 (Some ''s'') [] (Some 2), AppendMember 1 2, AppendMember 1 3]
     (empty_library\<lparr>lb_families := [\<lparr>fm_id = 1, fm_name = ''f'', fm_charter = [], fm_router_prompt = []\<rparr>],
        lb_agents := [\<lparr>ag_id = 1, ag_family_id = 1, ag_parent_id = None, ag_name = ''g'', ag_description = [],
          ag_permissions = [], ag_active_cap = 9, ag_routing_decisions = 0, ag_lineage_status = None\<rparr>]\<rparr>)"

lemma demo_wf: "lib_wf demo_library"
  unfolding demo_library_def
  by (rule wf.lib_ops_keep, rule lib_wf_core [OF lib_wf_empty]) (simp add: same_core_def statuses_def empty_library_def)

lemma demo_state: "lb_txn demo_library = 0"
  "map in_status (lb_insights demo_library) = [''active'', ''quarantined'', ''quarantined'']"
  "current_snapshot_id demo_library = 1"
  "map_option in_status (get_insight 1 demo_library) = Some ''active''"
  "map_option bt_id (row_of bt_label ''new'' (lb_batches demo_library)) = Some 2"
  "batch_insights 2 [''active'', ''quarantined''] demo_library = [2, 3]"
  by code_simp+

lemma demo_members: "members_wf demo_library"
  by code_simp

lemma demo_splittable: "\<exists>parent. splittable 1 [2] [3] parent demo_library \<and> sk_created_batch_id parent = Some 2"
proof -
  have "map_option (\<lambda>p. (splittable 1 [2] [3] p demo_library, sk_created_batch_id p)) (row_of sk_id 1 (lb_skills demo_library)) =
      Some (True, Some 2)"
    by code_simp
  then show ?thesis by auto
qed

lemma demo_split: "\<exists>r l'. execute_split 1 ([2], [3]) [] demo_library = (Inr r, l')"
proof -
  obtain parent where "splittable 1 [2] [3] parent demo_library" using demo_splittable by blast
  from execute_split_effect [OF demo_state(1) _ demo_members this] show ?thesis using demo_wf by (auto simp: lib_wf_def)
qed

theorem failed_library_operation_writes_nothing_witness:
  "snd (run_lib_op demo_nli (1/2) (Promote ''old'') demo_library) = demo_library"
proof -
  have "fst (run_lib_op demo_nli (1/2) (Promote ''old'') demo_library) = Inl LifecycleError" by code_simp
  then obtain l' where l': "run_lib_op demo_nli (1/2) (Promote ''old'') demo_library = (Inl LifecycleError, l')"
    by (metis prod.collapse)
  show ?thesis using failed_library_operation_writes_nothing [OF demo_state(1) l'] l' by simp
qed

theorem status_at_reads_the_past_witness:
  "status_at 1 1 (run_lib_ops demo_nli (1/2) [Promote ''new'', Revert ''new''] demo_library) = Inr ''active''"
proof -
  obtain row where row: "get_insight 1 demo_library = Some row" "in_status row = ''active''" using demo_state(4) by auto
  show ?thesis
    using status_at_reads_the_past [OF demo_wf row(1), of demo_nli "1/2" "[Promote ''new'', Revert ''new'']"]
    by (simp add: demo_state row)
qed



theorem split_then_revert_witness:
  "\<exists>r l' l''. execute_split 1 ([2], [3]) [] demo_library = (Inr r, l') \<and> revert_split r l' = (Inr (), l'') \<and>
     current_snapshot_id l'' = 3"
proof -
  obtain parent where "splittable 1 [2] [3] parent demo_library" using demo_splittable by blast
  moreover obtain r l' where run: "execute_split 1 ([2], [3]) [] demo_library = (Inr r, l')" using demo_split by blast
  ultimately obtain l'' where "revert_split r l' = (Inr (), l'')" "current_snapshot_id l'' = 1 + 2"
    using split_then_revert [OF demo_state(1) demo_wf demo_members] demo_state(3) by metis
  then show ?thesis using run by auto
qed


end
