(* ===== verification/AfDeriveProps.thy ===== *)
theory AfDeriveProps
  imports AfDerive AfPartitionProps AfLifecycleProps
begin

text \<open>
  The properties of the derive pass: the proposers return partitions of all nodes, a pass adopts
  only what is strictly cheaper, modules keep their identity by majority, and an adopted partition
  is exactly what the membership table holds afterwards.
\<close>

section \<open>Proposals\<close>

text \<open>C36: the proposers always return, whatever the weights are: merging ends because every merge
  removes a community, moving nodes ends because the score takes finitely many values and rises
  with every pass; and each candidate is a partition of exactly the nodes of the graph, with the
  labels 0 to n-1.\<close>

theorem propose_partitions_returns:
  assumes "native_ok nt edges nodes"
  shows "\<exists>p. propose_partitions lg sq nt edges resolutions seed nodes = Some p \<and> ps_candidates p \<noteq> [] \<and>
    (\<forall>c \<in> set (ps_candidates p). covers (nodes_of edges nodes) (cd_membership c))"
  by (rule propose_covers [OF assms])

text \<open>C37: the cost is a function of the grouping alone: two partitions of the same nodes that put the
  same nodes together cost the same, bit for bit, whatever their labels and the order of their
  entries.\<close>

theorem cost_depends_on_grouping_only:
  assumes "dict_wf p" "dict_wf q" "fst ` set p = fst ` set q"
    and "\<And>a b. a \<in> fst ` set p \<Longrightarrow> b \<in> fst ` set p \<Longrightarrow> dget p a = dget p b \<longleftrightarrow> dget q a = dget q b"
  shows "cost lg overhead p g = cost lg overhead q g"
proof -
  define f where "f c = the (dget q (SOME n. dget p n = Some c))" for c
  have dom: "n \<in> fst ` set p \<longleftrightarrow> dget p n \<noteq> None" "n \<in> fst ` set q \<longleftrightarrow> dget q n \<noteq> None" for n
    by (simp_all add: map_of_eq_None_iff)
  have f: "dget q n = Some (f c)" if n: "dget p n = Some c" for n c
  proof -
    let ?n = "SOME n. dget p n = Some c"
    have "dget p ?n = Some c" using n by (rule someI)
    then have "dget q ?n = dget q n" using assms(4) [of ?n n] dom n by auto
    moreover have "dget q n \<noteq> None" using dom [of n] assms(3) n by auto
    ultimately show ?thesis by (simp add: f_def)
  qed
  have inj: "inj_on f (snd ` set p)"
  proof (rule inj_onI)
    fix c d assume "c \<in> snd ` set p" "d \<in> snd ` set p" and eq: "f c = f d"
    then obtain m n where mn: "dget p m = Some c" "dget p n = Some d" using assms(1) by (auto simp: dget_Some_iff)
    then have "dget q m = dget q n" using f [of m c] f [of n d] eq by simp
    then show "c = d" using assms(4) [of m n] dom mn by auto
  qed
  have wf: "dict_wf (relabel f p)" using assms(1) by (simp add: dict_wf_def)
  have "dget (relabel f p) n = dget q n" for n
    using f [of n] dom [of n] assms(3) by (cases "dget p n") auto
  then have "set (relabel f p) = set q" using wf assms(2) by (metis dget_Some_iff set_eqI surj_pair)
  then have "mset (relabel f p) = mset q"
    using wf assms(2) by (metis dict_wf_def distinct_map set_eq_iff_mset_eq_distinct)
  then show ?thesis using cost_mset [OF _ wf, of q] cost_relabel_parts [OF inj] by (simp add: cost_def)
qed

text \<open>coarsening a partition never raises its cost, rounding included.\<close>

theorem coarsening_never_raises_cost:
  assumes "dict_wf m"
  shows "cost lg DEFAULT_MODULE_OVERHEAD_BITS (coarsen_by_cost lg m edges) edges \<le> cost lg DEFAULT_MODULE_OVERHEAD_BITS m edges"
  by (rule coarsen_lowers [OF assms])

section \<open>Adoption\<close>

lemma select_least:
  assumes "cs \<noteq> []"
  shows "select_candidate lg overhead edges cs \<in> set cs \<and>
    (\<forall>c \<in> set cs. candidate_key lg overhead edges (select_candidate lg overhead edges cs) \<le> candidate_key lg overhead edges c)"
proof -
  let ?key = "candidate_key lg overhead edges"
  have "fold (\<lambda>c best. if ?key c < ?key best then c else best) xs b \<in> insert b (set xs) \<and>
      (\<forall>c \<in> insert b (set xs). ?key (fold (\<lambda>c best. if ?key c < ?key best then c else best) xs b) \<le> ?key c)" for xs b
  proof (induction xs arbitrary: b)
    case (Cons x xs)
    then show ?case using Cons.IH [of "if ?key x < ?key b then x else b"] by (force split: if_splits)
  qed simp
  from this [of "tl cs" "hd cs"] show ?thesis using assms by (cases cs) (auto simp: select_candidate_def)
qed

lemma select_least_cost:
  assumes "cs \<noteq> []" "c \<in> set cs"
  shows "cost lg overhead (cd_membership (select_candidate lg overhead edges cs)) edges \<le> cost lg overhead (cd_membership c) edges"
  using select_least [OF assms(1), of lg overhead edges] assms(2) by (auto simp: candidate_key_def less_eq_prod_def)

lemma apply_partition_snapshot:
  assumes "lib_wf l" "lb_txn l = 0" "apply_partition agent_id cs matched pm namer detail l = (Inr (s, a), l')"
  shows "s = current_snapshot_id l + 1"
proof -
  have chain: "snapshot_chain (lb_snapshots l)" using assms(1) by (simp add: lib_wf_def)
  show ?thesis using assms(3)
    by (auto simp: apply_partition_def queue_operation_eq [OF assms(2) chain] pbind_apply pret_apply split: prod.splits sum.splits)
qed


section \<open>Identity\<close>

lemma best_prior_fold:
  assumes "fold (better_prior ms) xs (b0, o0) = (b, ov)"
  shows "((b, ov) = (b0, o0) \<or> (\<exists>k prior. (k, prior) \<in> set xs \<and> b = Some k \<and> ov = overlap ms prior)) \<and> o0 \<le> ov \<and>
    (\<forall>(k, prior) \<in> set xs. overlap ms prior \<le> ov)"
  using assms
proof (induction xs arbitrary: b0 o0)
  case (Cons x xs)
  obtain k prior where x: "x = (k, prior)" by fastforce
  show ?case
    using Cons.IH [of "if o0 < overlap ms prior then Some k else b0" "max o0 (overlap ms prior)"] Cons.prems
    by (auto simp: x better_prior_def max_def split: if_splits)
qed simp

lemma best_prior_Some:
  assumes "best_prior pm ms = (Some k, ov)"
  shows "\<exists>prior. (k, prior) \<in> set pm \<and> ov = overlap ms prior \<and> (\<forall>(j, p) \<in> set pm. overlap ms p \<le> ov)"
  using best_prior_fold [of ms "sort_key fst pm" None "- 1" "Some k" ov] assms by (auto simp: best_prior_def)

lemma best_prior_exists: "pm \<noteq> [] \<Longrightarrow> \<exists>k ov. best_prior pm ms = (Some k, ov)"
proof -
  assume "pm \<noteq> []"
  then obtain j p where "(j, p) \<in> set pm" by (cases pm) auto
  then have jp: "(j, p) \<in> set (sort_key fst pm)" by simp
  obtain b ov where run: "best_prior pm ms = (b, ov)" by fastforce
  have "- 1 < overlap ms p" by (simp add: overlap_def)
  then have "ov \<noteq> - 1" using best_prior_fold [of ms "sort_key fst pm" None "- 1" b ov] run jp by (fastforce simp: best_prior_def)
  then show ?thesis using best_prior_fold [of ms "sort_key fst pm" None "- 1" b ov] run by (auto simp: best_prior_def)
qed

definition preferences :: "(int, int list) dict \<Rightarrow> (int, int list) dict \<Rightarrow> (int \<times> int \<times> int) list" where
  "preferences communities pm = concat (map (preference pm) (sort_key fst communities))"

lemma preferences_iff: "(label, k, ov) \<in> set (preferences communities pm) \<longleftrightarrow>
    (\<exists>ms. (label, ms) \<in> set communities \<and> best_prior pm ms = (Some k, ov) \<and> int (card (set ms)) < ov * 2)"
  by (auto simp: preferences_def preference_def split: prod.splits option.splits if_splits; force)

lemma set_dedup [simp]: "set (dedup xs) = set xs" and distinct_dedup [simp]: "distinct (dedup xs)"
  by (simp_all add: dedup_def)

lemma claims_iff: "(m, label) \<in> set (claims k ps) \<longleftrightarrow> (label, k, - m) \<in> set ps"
  by (force simp: claims_def)

lemma match_iff:
  "(label, k) \<in> set (match_to_prior_modules communities pm) \<longleftrightarrow>
     (\<exists>ov. (label, k, ov) \<in> set (preferences communities pm)) \<and> label = snd (Min (set (claims k (preferences communities pm))))"
  (is "?lhs \<longleftrightarrow> ?rhs")
proof -
  let ?ps = "preferences communities pm"
  have eq: "match_to_prior_modules communities pm =
      map (\<lambda>k. (snd (Min (set (claims k ?ps))), k)) (dedup (map (\<lambda>(label, k, ov). k) ?ps))"
    by (simp add: match_to_prior_modules_def preferences_def Let_def)
  have winner: "(snd (Min (set (claims k ?ps))), k, - fst (Min (set (claims k ?ps)))) \<in> set ?ps" if "(l, k, ov) \<in> set ?ps" for l ov
  proof -
    have "(- ov, l) \<in> set (claims k ?ps)" using that by (simp add: claims_iff)
    then have "Min (set (claims k ?ps)) \<in> set (claims k ?ps)" by (metis Min_in empty_iff finite_set)
    then show ?thesis by (metis claims_iff prod.collapse)
  qed
  show ?thesis unfolding eq using winner by force
qed

lemma match_preferred: "(label, k) \<in> set (match_to_prior_modules communities pm) \<Longrightarrow>
    \<exists>ms ov. (label, ms) \<in> set communities \<and> best_prior pm ms = (Some k, ov) \<and> int (card (set ms)) < ov * 2"
  unfolding match_iff preferences_iff by blast

text \<open>C39: a group inherits the identity of a module only when the module holds a strict majority of its
  members, every module is inherited at most once, and every group inherits at most one.\<close>

theorem inherited_by_majority:
  assumes "dict_wf communities" "dict_wf prior_members"
  shows "distinct (map fst (match_to_prior_modules communities prior_members)) \<and>
    distinct (map snd (match_to_prior_modules communities prior_members)) \<and>
    (\<forall>(label, k) \<in> set (match_to_prior_modules communities prior_members). \<exists>members prior.
       dget communities label = Some members \<and> dget prior_members k = Some prior \<and>
       int (card (set members)) < 2 * overlap members prior)"
proof (intro conjI ballI)
  let ?M = "match_to_prior_modules communities prior_members"
  show snd: "distinct (map snd ?M)" by (simp add: match_to_prior_modules_def Let_def comp_def)
  have unique: "k = k'" if ks: "(label, k) \<in> set ?M" "(label, k') \<in> set ?M" for label k k'
  proof -
    obtain ms ms' ov ov' where "(label, ms) \<in> set communities" "best_prior prior_members ms = (Some k, ov)"
        "(label, ms') \<in> set communities" "best_prior prior_members ms' = (Some k', ov')"
      using match_preferred [OF ks(1)] match_preferred [OF ks(2)] by blast
    then show ?thesis using assms(1) by (metis dget_Some_iff option.inject prod.inject)
  qed
  then show "distinct (map fst ?M)" using snd by (auto simp: distinct_map inj_on_def)
  fix x assume "x \<in> set ?M"
  moreover obtain label k where x: "x = (label, k)" by fastforce
  ultimately obtain ms ov where ms: "(label, ms) \<in> set communities" "best_prior prior_members ms = (Some k, ov)"
      "int (card (set ms)) < ov * 2"
    using match_preferred by blast
  obtain prior where "(k, prior) \<in> set prior_members" "ov = overlap ms prior" using best_prior_Some [OF ms(2)] by blast
  then show "case x of (label, k) \<Rightarrow> \<exists>members prior. dget communities label = Some members \<and>
      dget prior_members k = Some prior \<and> int (card (set members)) < 2 * overlap members prior"
    using ms assms by (auto simp: x dget_Some_iff mult.commute)
qed

text \<open>a group that has not changed keeps its module: if its members are exactly those of a prior
  module, it inherits that module, whatever the other groups are.\<close>

theorem unchanged_group_keeps_module:
  assumes "dict_wf communities" "dict_wf prior_members"
    and disjoint: "\<And>a b ms ms'. (a, ms) \<in> set communities \<Longrightarrow> (b, ms') \<in> set communities \<Longrightarrow> a \<noteq> b \<Longrightarrow> set ms \<inter> set ms' = {}"
    and disjoint': "\<And>a b ms ms'. (a, ms) \<in> set prior_members \<Longrightarrow> (b, ms') \<in> set prior_members \<Longrightarrow> a \<noteq> b \<Longrightarrow> set ms \<inter> set ms' = {}"
    and same: "(label, members) \<in> set communities" "(k, prior) \<in> set prior_members" "set members = set prior" "members \<noteq> []"
  shows "(label, k) \<in> set (match_to_prior_modules communities prior_members)"
proof -
  let ?ps = "preferences communities prior_members"
  have full: "overlap members prior = int (card (set members))" "0 < card (set members)"
    using same(4) by (simp_all add: overlap_def card_gt_0_iff flip: same(3))
  obtain j ov where best: "best_prior prior_members members = (Some j, ov)" using best_prior_exists same(2) by (metis empty_iff list.set(1))
  obtain p where p: "(j, p) \<in> set prior_members" "ov = overlap members p" "overlap members prior \<le> ov"
    using best_prior_Some [OF best] same(2) by blast
  have "j = k"
  proof (rule ccontr)
    assume "j \<noteq> k"
    then have "set members \<inter> set p = {}" using disjoint' [OF p(1) same(2)] same(3) by blast
    then show False using p(2,3) full by (simp add: overlap_def)
  qed
  then have "p = prior" using p(1) same(2) assms(2) by (metis dget_Some_iff option.inject)
  then have pref: "(label, k, int (card (set members))) \<in> set ?ps"
    using best p(2) full same(1) \<open>j = k\<close> by (auto simp: preferences_iff)
  have only: "label' = label \<and> ov' = int (card (set members))" if other: "(label', k, ov') \<in> set ?ps" for label' ov'
  proof -
    obtain ms where ms: "(label', ms) \<in> set communities" "best_prior prior_members ms = (Some k, ov')" "int (card (set ms)) < ov' * 2"
      using other by (auto simp: preferences_iff)
    obtain p' where "(k, p') \<in> set prior_members" "ov' = overlap ms p'" using best_prior_Some [OF ms(2)] by blast
    then have ov': "ov' = overlap ms prior" using same(2) assms(2) by (metis dget_Some_iff option.inject)
    have "label' = label"
    proof (rule ccontr)
      assume "label' \<noteq> label"
      then have "set ms \<inter> set prior = {}" using disjoint [OF ms(1) same(1)] same(3) by blast
      then show False using ov' ms(3) by (simp add: overlap_def)
    qed
    then have "ms = members" using ms(1) same(1) assms(1) by (metis dget_Some_iff option.inject)
    then show ?thesis using ov' full \<open>label' = label\<close> by simp
  qed
  have "(m, lb) \<in> set (claims k ?ps) \<longleftrightarrow> (m, lb) = (- int (card (set members)), label)" for m lb
    using pref only [of lb "- m"] by (auto simp: claims_iff)
  then have "set (claims k ?ps) = {(- int (card (set members)), label)}" by (auto simp: set_eq_iff)
  then show ?thesis using pref by (auto simp: match_iff)
qed

section \<open>Application\<close>

definition rows_from :: "nat \<Rightarrow> int \<Rightarrow> int list \<Rightarrow> member_row list" where
  "rows_from n k ms = map (\<lambda>(p, i). \<lparr>mb_skill_id = k, mb_insight_id = i, mb_position = int p\<rparr>) (enumerate n ms)"

lemma rows_from_simps [simp]:
  "rows_from n k [] = []" "rows_from n k (i # ms) = \<lparr>mb_skill_id = k, mb_insight_id = i, mb_position = int n\<rparr> # rows_from (Suc n) k ms"
  "map mb_insight_id (rows_from n k ms) = ms" "map mb_position (rows_from n k ms) = map int [n..<n + length ms]"
  "rows_from n k (ms @ ns) = rows_from n k ms @ rows_from (n + length ms) k ns"
  by (simp_all add: rows_from_def split_beta comp_def enumerate_append_eq flip: map_map [unfolded comp_def])

lemma rows_from_skill [simp]: "m \<in> set (rows_from n k ms) \<Longrightarrow> mb_skill_id m = k"
  by (auto simp: rows_from_def)

lemma filter_rows_from [simp]: "filter (\<lambda>m. mb_skill_id m = j) (rows_from n k ms) = (if j = k then rows_from n k ms else [])"
  by (auto simp: filter_empty_conv filter_id_conv)

lemma append_members:
  assumes "pfor (\<lambda>i _. append_member k i) ms () l = (Inr u, l')"
    "filter (\<lambda>m. mb_skill_id m = k) (lb_members l) = rows_from 1 k pre"
  shows "l' = l\<lparr>lb_members := lb_members l @ rows_from (1 + length pre) k ms\<rparr> \<and> (ms \<noteq> [] \<longrightarrow> k \<in> sk_id ` set (lb_skills l))"
  using assms
proof (induction ms arbitrary: l pre)
  case Nil
  then show ?case by (simp add: pret_apply)
next
  case (Cons i ms)
  let ?l = "l\<lparr>lb_members := lb_members l @ [\<lparr>mb_skill_id = k, mb_insight_id = i, mb_position = 1 + int (length pre)\<rparr>]\<rparr>"
  have "Max (int ` {1..<1 + n}) = int n" if "n \<noteq> 0" for n using that by (intro Max_eqI) auto
  moreover have "set (map mb_position (rows_from 1 k pre)) = int ` {1..<1 + length pre}" by (simp only: rows_from_simps set_map set_upt)
  moreover have "rows_from 1 k pre = [] \<longleftrightarrow> length pre = 0" by (cases pre) simp_all
  ultimately have pos: "(if rows_from 1 k pre = [] then 0 else Max (set (map mb_position (rows_from 1 k pre)))) = int (length pre)"
    by simp
  have ok: "append_member k i l = (Inr (), ?l)" "k \<in> sk_id ` set (lb_skills l)"
    using Cons.prems(1) pos unfolding pfor.simps pbind_apply append_member_def Let_def Cons.prems(2)
    by (auto split: if_splits)
  have "pfor (\<lambda>i _. append_member k i) ms () ?l = (Inr u, l')" using Cons.prems(1) by (simp add: pbind_apply ok(1))
  moreover have "filter (\<lambda>m. mb_skill_id m = k) (lb_members ?l) = rows_from 1 k (pre @ [i])" using Cons.prems(2) by simp
  ultimately show ?case using Cons.IH [of ?l "pre @ [i]"] ok(2) by simp
qed

abbreviation skill_ids :: "'a library_scheme \<Rightarrow> int set" where
  "skill_ids l \<equiv> sk_id ` set (lb_skills l)"

definition owned :: "'a library_scheme \<Rightarrow> (int \<times> int) list" where
  "owned l = map (\<lambda>s. (sk_id s, sk_agent_id s)) (lb_skills l)"

lemma skill_ids_owned: "skill_ids l = fst ` set (owned l)"
  by (simp add: owned_def image_image)

text \<open>Two states that differ in the skills' names and in the membership at most.\<close>

definition same_base :: "'a library_scheme \<Rightarrow> 'a library_scheme \<Rightarrow> bool" where
  "same_base l l' \<longleftrightarrow> lb_insights l' = lb_insights l \<and> lb_snapshots l' = lb_snapshots l"

lemma name_if_changed_frame:
  assumes "name_if_changed namer k ms ch acc l = (Inr acc', l')"
  shows "ap_community_module acc' = ap_community_module acc \<and> lb_members l' = lb_members l \<and> same_base l l' \<and> owned l' = owned l"
proof -
  have "owned (l\<lparr>lb_skills := update_where (\<lambda>s. sk_id s = k) (\<lambda>s. s\<lparr>sk_name := n, sk_description := d\<rparr>) (lb_skills l)\<rparr>) = owned l" for n d
    by (simp add: owned_def update_where_def)
  then show ?thesis using assms
    by (auto simp: name_if_changed_def pbind_apply pret_apply name_skill_def same_base_def
      split: if_splits option.splits prod.splits sum.splits)
qed

lemma apply_community_effect:
  assumes run: "apply_community agent matched pm namer (label, ms) acc l = (Inr acc', l')"
    and free: "\<And>k. dget matched label = Some k \<Longrightarrow> \<forall>m \<in> set (lb_members l). mb_skill_id m \<noteq> k"
    and known: "\<forall>m \<in> set (lb_members l). mb_skill_id m \<in> skill_ids l"
  defines "k \<equiv> (case dget matched label of None \<Rightarrow> first_child l | Some k \<Rightarrow> k)"
  shows "ap_community_module acc' = dset label k (ap_community_module acc) \<and> lb_members l' = lb_members l @ rows_from 1 k ms \<and>
    same_base l l' \<and> owned l' = owned l @ (if dget matched label = None then [(k, agent)] else [])"
proof -
  define acc1 where "acc1 = (if dget matched label = None then acc\<lparr>ap_new := ap_new acc @ [k]\<rparr>
     else acc\<lparr>ap_inherited := ap_inherited acc @ [k]\<rparr>)\<lparr>ap_community_module := dset label k (ap_community_module acc)\<rparr>"
  have cm: "ap_community_module acc1 = dset label k (ap_community_module acc)" by (simp add: acc1_def)
  obtain l1 where create: "(case dget matched label of None \<Rightarrow> create_skill agent None [] None | Some k \<Rightarrow> pret k) l = (Inr k, l1)"
      and l1: "lb_members l1 = lb_members l" "same_base l l1" "owned l1 = owned l @ (if dget matched label = None then [(k, agent)] else [])"
    using run by (cases "dget matched label")
      (auto simp: apply_community_def pbind_apply pret_apply create_skill_def Let_def k_def same_base_def owned_def split: if_splits)
  obtain u l2 ch where app: "pfor (\<lambda>i _. append_member k i) ms () l1 = (Inr u, l2)"
      and rest: "name_if_changed namer k ms ch acc1 l2 = (Inr acc', l')"
    using run unfolding apply_community_def split_conv pbind_apply [of _ _ l] create Let_def
    by (cases "dget matched label") (auto simp: acc1_def cm pbind_apply split: prod.splits sum.splits)
  have "\<forall>m \<in> set (lb_members l1). mb_skill_id m \<noteq> k"
    using free known next_rowid_fresh [of _ "map sk_id (lb_skills l)"] unfolding l1(1) k_def
    by (cases "dget matched label") (fastforce+)
  then have "filter (\<lambda>m. mb_skill_id m = k) (lb_members l1) = rows_from 1 k []" by (simp add: filter_empty_conv)
  from append_members [OF app this] have l2: "l2 = l1\<lparr>lb_members := lb_members l1 @ rows_from 1 k ms\<rparr>" by simp
  have "same_base l1 l2" "owned l2 = owned l1" by (simp_all add: l2 same_base_def owned_def)
  then show ?thesis using name_if_changed_frame [OF rest] l1 by (simp add: l2 cm same_base_def)
qed

lemma apply_communities_effect:
  assumes run: "pfor (apply_community agent matched pm namer) cs acc l = (Inr acc', l')"
    and cs: "distinct (map fst cs)" and matched: "dict_wf matched" "distinct (map snd matched)" "snd ` set matched \<subseteq> skill_ids l"
    and free: "\<And>label k. label \<in> fst ` set cs \<Longrightarrow> dget matched label = Some k \<Longrightarrow> \<forall>m \<in> set (lb_members l). mb_skill_id m \<noteq> k"
    and known: "\<forall>m \<in> set (lb_members l). mb_skill_id m \<in> skill_ids l"
  shows "\<exists>f new. (\<forall>label. dget (ap_community_module acc') label =
        (if label \<in> fst ` set cs then Some (f label) else dget (ap_community_module acc) label)) \<and>
      inj_on f (fst ` set cs) \<and> (\<forall>label \<in> fst ` set cs. case dget matched label of Some k \<Rightarrow> f label = k | None \<Rightarrow> f label \<in> set new) \<and>
      lb_members l' = lb_members l @ concat (map (\<lambda>(label, ms). rows_from 1 (f label) ms) cs) \<and>
      same_base l l' \<and> owned l' = owned l @ map (\<lambda>k. (k, agent)) new \<and> set new \<inter> skill_ids l = {}"
  using run cs matched(3) free known
proof (induction cs arbitrary: acc l)
  case Nil
  then show ?case by (intro exI [of _ id] exI [of _ "[]"]) (simp add: pret_apply same_base_def)
next
  case (Cons c cs)
  obtain label ms where c: "c = (label, ms)" by fastforce
  obtain acc1 l1 where step: "apply_community agent matched pm namer (label, ms) acc l = (Inr acc1, l1)"
      and rest: "pfor (apply_community agent matched pm namer) cs acc1 l1 = (Inr acc', l')"
    using Cons.prems(1) unfolding c pfor.simps pbind_apply by (auto split: prod.splits sum.splits)
  define k where "k = (case dget matched label of None \<Rightarrow> first_child l | Some k \<Rightarrow> k)"
  have eff: "ap_community_module acc1 = dset label k (ap_community_module acc)" "lb_members l1 = lb_members l @ rows_from 1 k ms"
      "same_base l l1" "owned l1 = owned l @ (if dget matched label = None then [(k, agent)] else [])"
    using apply_community_effect [OF step _ Cons.prems(5)] Cons.prems(4) [of label] by (simp_all add: c k_def)
  have ids: "skill_ids l1 = skill_ids l \<union> (if dget matched label = None then {k} else {})"
    by (cases "dget matched label") (simp_all add: skill_ids_owned eff(4))
  have k: "k \<in> skill_ids l1" "dget matched label = None \<Longrightarrow> k \<notin> skill_ids l"
    using Cons.prems(3) next_rowid_notin [of "map sk_id (lb_skills l)"] dget_snd [of matched label]
    by (auto simp: ids k_def split: option.splits)
  have other: "k \<noteq> k'" if k': "label' \<in> fst ` set cs" "dget matched label' = Some k'" for label' k'
  proof (cases "dget matched label")
    case None
    then show ?thesis using k(2) dget_snd [OF k'(2)] Cons.prems(3) by blast
  next
    case (Some j)
    have "label' \<noteq> label" using Cons.prems(2) k'(1) by (auto simp: c)
    moreover have "(label, j) \<in> set matched" "(label', k') \<in> set matched" using Some k'(2) matched(1) by (simp_all add: dget_Some_iff)
    ultimately have "j \<noteq> k'" using matched(2) by (metis distinct_map fst_conv inj_onD snd_conv)
    then show ?thesis by (simp add: k_def Some)
  qed
  have "\<exists>f new. (\<forall>label. dget (ap_community_module acc') label =
        (if label \<in> fst ` set cs then Some (f label) else dget (ap_community_module acc1) label)) \<and>
      inj_on f (fst ` set cs) \<and> (\<forall>label \<in> fst ` set cs. case dget matched label of Some k \<Rightarrow> f label = k | None \<Rightarrow> f label \<in> set new) \<and>
      lb_members l' = lb_members l1 @ concat (map (\<lambda>(label, ms). rows_from 1 (f label) ms) cs) \<and>
      same_base l1 l' \<and> owned l' = owned l1 @ map (\<lambda>k. (k, agent)) new \<and> set new \<inter> skill_ids l1 = {}"
  proof (rule Cons.IH [OF rest])
    show "distinct (map fst cs)" using Cons.prems(2) by (simp add: c)
    show "snd ` set matched \<subseteq> skill_ids l1" using Cons.prems(3) ids by auto
    show "\<forall>m \<in> set (lb_members l1). mb_skill_id m \<noteq> k'" if "label' \<in> fst ` set cs" "dget matched label' = Some k'" for label' k'
      using other [OF that] Cons.prems(4) [of label' k'] that by (auto simp: eff(2) c)
    show "\<forall>m \<in> set (lb_members l1). mb_skill_id m \<in> skill_ids l1" using Cons.prems(5) k(1) by (auto simp: eff(2) ids)
  qed
  then obtain f new where IH: "\<forall>label. dget (ap_community_module acc') label =
        (if label \<in> fst ` set cs then Some (f label) else dget (ap_community_module acc1) label)"
      "inj_on f (fst ` set cs)" "\<forall>label \<in> fst ` set cs. case dget matched label of Some k \<Rightarrow> f label = k | None \<Rightarrow> f label \<in> set new"
      "lb_members l' = lb_members l1 @ concat (map (\<lambda>(label, ms). rows_from 1 (f label) ms) cs)"
      "same_base l1 l'" "owned l' = owned l1 @ map (\<lambda>k. (k, agent)) new" "set new \<inter> skill_ids l1 = {}"
    by blast
  let ?f = "f(label := k)" and ?new = "(if dget matched label = None then [k] else []) @ new"
  have label: "label \<notin> fst ` set cs" using Cons.prems(2) by (simp add: c)
  have fk: "f label' \<noteq> k" if "label' \<in> fst ` set cs" for label'
    using IH(3,7) k(1) other [OF that] that by (cases "dget matched label'") (fastforce+)
  have "concat (map (\<lambda>(label, ms). rows_from 1 (?f label) ms) cs) = concat (map (\<lambda>(label, ms). rows_from 1 (f label) ms) cs)"
    using label by (intro arg_cong [of _ _ concat] map_cong) (auto simp: image_iff)
  then have "lb_members l' = lb_members l @ concat (map (\<lambda>(label, ms). rows_from 1 (?f label) ms) (c # cs))"
    by (simp add: c IH(4) eff(2))
  moreover have "dget (ap_community_module acc') lb =
      (if lb \<in> fst ` set (c # cs) then Some (?f lb) else dget (ap_community_module acc) lb)" for lb
    using IH(1) label by (auto simp: c eff(1) dict_simps)
  moreover have "inj_on ?f (fst ` set (c # cs))"
    using IH(2) fk label by (auto simp: c inj_on_def image_iff)
  moreover have "\<forall>lb \<in> fst ` set (c # cs). case dget matched lb of Some k \<Rightarrow> ?f lb = k | None \<Rightarrow> ?f lb \<in> set ?new"
    using IH(3) label by (auto simp: c k_def split: option.splits)
  moreover have "same_base l l'" using eff(3) IH(5) by (simp add: same_base_def)
  moreover have "owned l' = owned l @ map (\<lambda>k. (k, agent)) ?new" by (simp add: IH(6) eff(4))
  moreover have "set ?new \<inter> skill_ids l = {}" using IH(7) k(2) ids by auto
  ultimately show ?case by blast
qed

lemma skill_members_concat:
  assumes "lb_members l = base @ concat (map (\<lambda>(label, ms). rows_from 1 (f label) ms) cs)" "distinct (map fst cs)"
    "inj_on f (fst ` set cs)" "(label, ms) \<in> set cs" "\<forall>m \<in> set base. mb_skill_id m \<noteq> f label"
  shows "skill_members (f label) l = ms"
proof -
  have "filter (\<lambda>m. mb_skill_id m = f label) (concat (map (\<lambda>(label, ms). rows_from 1 (f label) ms) cs)) = rows_from 1 (f label) ms"
    using assms(2-4)
  proof (induction cs)
    case (Cons c cs)
    obtain lb ns where c: "c = (lb, ns)" by fastforce
    show ?case
    proof (cases "lb = label")
      case True
      then have "label \<notin> fst ` set cs" "ns = ms" using Cons.prems by (force simp: c)+
      moreover have "f lb' \<noteq> f label" if "lb' \<in> fst ` set cs" for lb'
        using Cons.prems(2) that calculation(1) True by (auto simp: c inj_on_def image_iff)
      ultimately have "\<forall>m \<in> set (concat (map (\<lambda>(label, ms). rows_from 1 (f label) ms) cs)). mb_skill_id m \<noteq> f label" by force
      then show ?thesis by (simp add: c True \<open>ns = ms\<close> filter_empty_conv)
    next
      case False
      then have "(label, ms) \<in> set cs" "f lb \<noteq> f label" using Cons.prems by (force simp: c inj_on_def)+
      then show ?thesis using Cons.IH Cons.prems by (simp add: c)
    qed
  qed simp
  then have "filter (\<lambda>m. mb_skill_id m = f label) (lb_members l) = rows_from 1 (f label) ms"
    using assms(5) by (simp add: assms(1) filter_empty_conv)
  moreover have "sort_key mb_position (rows_from 1 (f label) ms) = rows_from 1 (f label) ms"
    by (rule sort_key_id_if_sorted) (simp only: rows_from_simps sorted_map, rule sorted_wrt_mono_rel [OF _ sorted_wrt_upt], simp)
  ultimately show ?thesis by (simp add: skill_members_def)
qed

text \<open>The modules an adopted partition has: \<open>f\<close> names the module of every group, \<open>new\<close> lists the fresh ones.\<close>

definition partitioned :: "int \<Rightarrow> (int, int list) dict \<Rightarrow> (int, int) dict \<Rightarrow> (int \<Rightarrow> int) \<Rightarrow> int list \<Rightarrow>
    'a library_scheme \<Rightarrow> 'a library_scheme \<Rightarrow> bool" where
  "partitioned agent communities matched f new l l' \<longleftrightarrow>
     inj_on f (fst ` set communities) \<and>
     (\<forall>label \<in> fst ` set communities. case dget matched label of Some k \<Rightarrow> f label = k | None \<Rightarrow> f label \<in> set new) \<and>
     lb_members l' = filter (\<lambda>m. mb_skill_id m \<notin> sk_id ` {s \<in> set (lb_skills l). sk_agent_id s = agent}) (lb_members l) @
       concat (map (\<lambda>(label, ms). rows_from 1 (f label) ms) (sort_key fst communities)) \<and>
     lb_insights l' = lb_insights l \<and> owned l' = owned l @ map (\<lambda>k. (k, agent)) new \<and> set new \<inter> skill_ids l = {}"

lemma apply_partition_run:
  assumes "lib_wf l" "lb_txn l = 0" "members_wf l"
    and communities: "dict_wf communities"
    and matched: "dict_wf matched" "distinct (map snd matched)" "\<forall>k \<in> snd ` set matched. (k, agent) \<in> set (owned l)"
    and run: "apply_partition agent communities matched prior namer detail l = (Inr (s, a), l')"
  shows "\<exists>f new. partitioned agent communities matched f new l l' \<and> current_snapshot_id l' = current_snapshot_id l + 1 \<and>
    (\<forall>label. dget (ap_community_module a) label = (if label \<in> fst ` set communities then Some (f label) else None))"
proof -
  have chain: "snapshot_chain (lb_snapshots l)" using assms(1) by (simp add: lib_wf_def)
  let ?l0 = "opened ''derive'' detail l" and ?cs = "sort_key fst communities"
  let ?base = "filter (\<lambda>m. mb_skill_id m \<notin> sk_id ` {s \<in> set (lb_skills l). sk_agent_id s = agent}) (lb_members l)"
  let ?l1 = "?l0\<lparr>lb_members := ?base\<rparr>"
  let ?acc = "\<lparr>ap_community_module = [], ap_inherited = [], ap_new = [], ap_renamed = [], ap_namer_calls = 0\<rparr>"
  obtain l2 where loop: "pfor (apply_community agent matched prior namer) ?cs ?acc ?l1 = (Inr a, l2)" and l': "l' = l2\<lparr>lb_txn := 0\<rparr>"
    using run by (auto simp: apply_partition_def queue_operation_eq [OF assms(2) chain] clear_members_def pbind_apply pret_apply
      pmodify_apply split: prod.splits sum.splits)
  have own1: "owned ?l1 = owned l" by (simp add: owned_def)
  have agents: "m \<in> set ?base \<Longrightarrow> (mb_skill_id m, agent) \<notin> set (owned l)" for m by (auto simp: owned_def)
  have "\<exists>f new. (\<forall>label. dget (ap_community_module a) label =
        (if label \<in> fst ` set ?cs then Some (f label) else dget (ap_community_module ?acc) label)) \<and>
      inj_on f (fst ` set ?cs) \<and> (\<forall>label \<in> fst ` set ?cs. case dget matched label of Some k \<Rightarrow> f label = k | None \<Rightarrow> f label \<in> set new) \<and>
      lb_members l2 = lb_members ?l1 @ concat (map (\<lambda>(label, ms). rows_from 1 (f label) ms) ?cs) \<and>
      same_base ?l1 l2 \<and> owned l2 = owned ?l1 @ map (\<lambda>k. (k, agent)) new \<and> set new \<inter> skill_ids ?l1 = {}"
  proof (rule apply_communities_effect [OF loop _ matched(1,2)])
    have "mset (map fst ?cs) = mset (map fst communities)" by simp
    then show "distinct (map fst ?cs)" using communities unfolding dict_wf_def by (metis mset_eq_imp_distinct_iff)
    show "snd ` set matched \<subseteq> skill_ids ?l1" using matched(3) by (auto simp: owned_def)
    show "\<forall>m \<in> set (lb_members ?l1). mb_skill_id m \<in> skill_ids ?l1" using assms(3) by (auto simp: members_wf_def)
    show "\<forall>m \<in> set (lb_members ?l1). mb_skill_id m \<noteq> k" if "dget matched label = Some k" for label k
    proof -
      have "(k, agent) \<in> set (owned l)" using matched(3) dget_snd [OF that] by blast
      then show ?thesis using agents by auto
    qed
  qed
  then obtain f new where eff0: "\<forall>label. dget (ap_community_module a) label =
        (if label \<in> fst ` set ?cs then Some (f label) else dget (ap_community_module ?acc) label)"
      "inj_on f (fst ` set ?cs)"
      "\<forall>label \<in> fst ` set ?cs. case dget matched label of Some k \<Rightarrow> f label = k | None \<Rightarrow> f label \<in> set new"
      "lb_members l2 = lb_members ?l1 @ concat (map (\<lambda>(label, ms). rows_from 1 (f label) ms) ?cs)"
      "same_base ?l1 l2" "owned l2 = owned ?l1 @ map (\<lambda>k. (k, agent)) new" "set new \<inter> skill_ids ?l1 = {}"
    by blast
  have ids: "skill_ids ?l1 = skill_ids l" by (simp add: skill_ids_owned own1)
  have snapshots: "lb_snapshots l' = lb_snapshots ?l0" using eff0(5) by (simp add: l' same_base_def)
  then have "current_snapshot_id l' = current_snapshot_id ?l0" by (simp add: current_snapshot_id_def)
  then have last: "current_snapshot_id l' = current_snapshot_id l + 1" by (simp add: opened_current [OF assms(1)])
  have "owned l' = owned l @ map (\<lambda>k. (k, agent)) new" using eff0(6) unfolding own1 by (simp add: l' owned_def)
  moreover have "\<forall>label \<in> fst ` set communities. case dget matched label of Some k \<Rightarrow> f label = k | None \<Rightarrow> f label \<in> set new"
    using eff0(3) by simp
  ultimately have "partitioned agent communities matched f new l l'"
    using eff0(2,4,5,7) unfolding ids by (simp add: partitioned_def l' same_base_def)
  then show ?thesis using last eff0(1) by (intro exI [of _ f] exI [of _ new]) simp
qed

lemma partitioned_members:
  assumes "partitioned agent communities matched f new l l'" "members_wf l"
    and communities: "dict_wf communities" and matched: "\<forall>k \<in> snd ` set matched. (k, agent) \<in> set (owned l)"
  shows "\<And>label ms. (label, ms) \<in> set communities \<Longrightarrow> skill_members (f label) l' = ms"
    "\<And>label. label \<in> fst ` set communities \<Longrightarrow>
       (f label, agent) \<in> set (owned l') \<and> (dget matched label = None \<or> dget matched label = Some (f label))"
    "\<And>k ag. (k, ag) \<in> set (owned l') \<Longrightarrow> if ag = agent
       then (\<exists>label \<in> fst ` set communities. f label = k) \<or> skill_members k l' = [] else skill_members k l' = skill_members k l"
proof -
  let ?cs = "sort_key fst communities" and ?base = "filter (\<lambda>m. mb_skill_id m \<notin> sk_id ` {s \<in> set (lb_skills l). sk_agent_id s = agent}) (lb_members l)"
  have eff: "inj_on f (fst ` set communities)"
      "\<And>label. label \<in> fst ` set communities \<Longrightarrow> case dget matched label of Some k \<Rightarrow> f label = k | None \<Rightarrow> f label \<in> set new"
      "lb_members l' = ?base @ concat (map (\<lambda>(label, ms). rows_from 1 (f label) ms) ?cs)"
      "owned l' = owned l @ map (\<lambda>k. (k, agent)) new" "set new \<inter> skill_ids l = {}"
    using assms(1) unfolding partitioned_def by (blast, blast, blast, blast, blast)
  have agents: "m \<in> set ?base \<Longrightarrow> (mb_skill_id m, agent) \<notin> set (owned l)" for m by (auto simp: owned_def)
  have known: "mb_skill_id m \<in> skill_ids l" if "m \<in> set ?base" for m using that assms(2) by (auto simp: members_wf_def)
  have mods: "((f label, agent) \<in> set (owned l) \<or> f label \<in> set new) \<and> (dget matched label = None \<or> dget matched label = Some (f label))"
    if "label \<in> fst ` set communities" for label
    using eff(2) [OF that] matched dget_snd [of matched label] by (cases "dget matched label") auto
  have base: "mb_skill_id m \<noteq> f label" if "label \<in> fst ` set communities" "m \<in> set ?base" for label m
    using mods [OF that(1)] known [OF that(2)] agents [OF that(2)] eff(5) by auto
  note members = eff(3) and owned = eff(4)
  have dist: "distinct (map fst (owned l))" using assms(2) by (simp add: members_wf_def owned_def comp_def)
  have fresh: "(k, ag) \<notin> set (owned l)" if "k \<in> set new" for k ag
    using that eff(5) by (auto simp: owned_def)
  have foreign: "mb_skill_id m = k \<Longrightarrow> m \<notin> set (concat (map (\<lambda>(label, ms). rows_from 1 (f label) ms) ?cs))"
    if "\<And>label. label \<in> fst ` set communities \<Longrightarrow> f label \<noteq> k" for m k
    using that by fastforce
  have first: "skill_members (f label) l' = ms" if "(label, ms) \<in> set communities" for label ms
  proof (rule skill_members_concat [OF members])
    have "mset (map fst ?cs) = mset (map fst communities)" by simp
    then show "distinct (map fst ?cs)" using communities unfolding dict_wf_def by (metis mset_eq_imp_distinct_iff)
    show "\<forall>m \<in> set ?base. mb_skill_id m \<noteq> f label" using base that by force
  qed (use that eff(1) in simp_all)
  have third: "if ag = agent then (\<exists>label \<in> fst ` set communities. f label = k) \<or> skill_members k l' = [] else skill_members k l' = skill_members k l"
    if kag: "(k, ag) \<in> set (owned l')" for k ag
  proof (cases "\<exists>label \<in> fst ` set communities. f label = k")
    case True
    then have "ag = agent" using mods kag fresh dist unfolding owned by (auto dest: eq_key_imp_eq_value)
    then show ?thesis using True by simp
  next
    case False
    then have none: "filter (\<lambda>m. mb_skill_id m = k) (concat (map (\<lambda>(label, ms). rows_from 1 (f label) ms) ?cs)) = []"
      using foreign [of k] unfolding filter_empty_conv by blast
    show ?thesis
    proof (cases "ag = agent")
      case True
      then have "filter (\<lambda>m. mb_skill_id m = k) ?base = []"
        using kag known agents eff(5) unfolding owned filter_empty_conv by auto
      then show ?thesis using True none by (simp add: skill_members_def members del: filter_filter)
    next
      case False
      then have "(k, ag) \<in> set (owned l)" using kag by (auto simp: owned)
      then have "(k, agent) \<notin> set (owned l)" using False dist by (auto dest: eq_key_imp_eq_value)
      then have "filter (\<lambda>m. mb_skill_id m = k) ?base = filter (\<lambda>m. mb_skill_id m = k) (lb_members l)"
        by (auto simp: owned_def image_iff intro!: filter_cong)
      then show ?thesis using False none by (simp add: skill_members_def members del: filter_filter)
    qed
  qed
  show "\<And>label ms. (label, ms) \<in> set communities \<Longrightarrow> skill_members (f label) l' = ms" by (rule first)
  show "\<And>label. label \<in> fst ` set communities \<Longrightarrow>
       (f label, agent) \<in> set (owned l') \<and> (dget matched label = None \<or> dget matched label = Some (f label))"
    using mods by (auto simp: owned)
  show "\<And>k ag. (k, ag) \<in> set (owned l') \<Longrightarrow> if ag = agent
       then (\<exists>label \<in> fst ` set communities. f label = k) \<or> skill_members k l' = [] else skill_members k l' = skill_members k l"
    by (rule third)
qed


section \<open>The hypotheses can hold\<close>

definition demo_lg :: "nat \<Rightarrow> pyfloat" where
  "demo_lg n = (if n < 2 then 0 else if n < 4 then 1 else 2)"

definition no_natives :: natives where
  "no_natives = \<lparr>nt_leiden = None, nt_infomap = None\<rparr>"

text \<open>A back end that puts every node of the edges into one community.\<close>

definition one_community :: natives where
  "one_community = \<lparr>nt_leiden = None, nt_infomap = Some (\<lambda>edges seed. Some (map (\<lambda>n. (n, 0)) (nodes_of edges [])))\<rparr>"

definition demo_edges :: "flow_edge list" where
  "demo_edges = [(1, 2, 1), (2, 3, 1), (1, 3, 1)]"

theorem propose_partitions_returns_witness:
  "\<exists>p. propose_partitions demo_lg (\<lambda>x. x * x) no_natives demo_edges [1] 0 [4] = Some p \<and> ps_candidates p \<noteq> []"
  using propose_partitions_returns [of no_natives demo_edges "[4]" demo_lg "\<lambda>x. x * x" "[1]" 0]
  by (auto simp: native_ok_def no_natives_def)

theorem cost_depends_on_grouping_only_witness:
  "cost demo_lg 4 [(1, 5), (2, 5), (3, 6)] demo_edges = cost demo_lg 4 [(3, 0), (2, 1), (1, 1)] demo_edges"
  by (rule cost_depends_on_grouping_only) (auto simp: dict_wf_def)

theorem coarsening_never_raises_cost_witness:
  "cost demo_lg DEFAULT_MODULE_OVERHEAD_BITS (coarsen_by_cost demo_lg [(1, 1), (2, 2), (3, 3)] demo_edges) demo_edges \<le>
   cost demo_lg DEFAULT_MODULE_OVERHEAD_BITS [(1, 1), (2, 2), (3, 3)] demo_edges"
  by (rule coarsening_never_raises_cost) (simp add: dict_wf_def)

lemma fst_Inr: "map_sum id g (fst x) = Inr y \<Longrightarrow> \<exists>z s. x = (Inr z, s) \<and> g z = y"
  by (cases x; cases "fst x") auto

lemma demo_parts:
  "propose_partitions demo_lg (\<lambda>x. x * x) one_community demo_edges [1] 0 [1, 2, 3] =
     Some \<lparr>ps_candidates = [\<lparr>cd_proposer = ''infomap'', cd_membership = [(1, 0), (2, 0), (3, 0)], cd_resolution = None,
       cd_backend = ''infomap''\<rparr>], ps_leiden_ran = False, ps_fallback = Some ''infomap-only''\<rparr>"
  "prior_module_members 1 demo_library = [(1, [2, 3])]"
  "incumbent_partition [1, 2, 3] [(1, [2, 3])] = [(1, 2), (2, 1), (3, 1)]"
  "cost demo_lg 4 [(1, 2), (2, 1), (3, 1)] demo_edges = 17"
  "cost demo_lg 4 [(1, 0), (2, 0), (3, 0)] demo_edges = 13"
  "communities_of [(1, 0), (2, 0), (3, 0)] = [(0, [1, 2, 3])]"
  "match_to_prior_modules [(0, [1, 2, 3])] [(1, [2, 3])] = [(0, 1)]"
  by code_simp+

lemma demo_adopts:
  "map_sum id (\<lambda>(s, a). ap_community_module a) (fst (apply_partition 1 [(0, [1, 2, 3])] [(0, 1)] [(1, [2, 3])] default_namer
     (''snapshot<='' @ show_int 1 @ ''; '' @ show_int 1 @ '' communities'') demo_library)) = Inr [(0, 1)]"
  by code_simp

definition demo_derive :: "((py_exn + derive_result) \<times> library) option" where
  "demo_derive = derive_skills demo_lg (\<lambda>x. x * x) one_community [1, 2, 3] demo_edges 1
     \<lparr>dp_knn_k = 1, dp_resolutions = [1], dp_seed = 0, dp_module_overhead_bits = 4\<rparr> default_namer None demo_library"

lemma demo_derive_adopts: "\<exists>r l'. demo_derive = Some (Inr r, l') \<and> dr_adopted r"
  using fst_Inr [OF demo_adopts] by (auto simp: demo_derive_def derive_skills_def demo_parts demo_state(3)
    select_candidate_def beats_incumbent_def pbind_def pret_def)


theorem inherited_by_majority_witness:
  "distinct (map snd (match_to_prior_modules [(0, [1, 2, 3]), (1, [4, 5])] [(7, [2, 3]), (9, [4, 6])])) \<and>
   match_to_prior_modules [(0, [1, 2, 3]), (1, [4, 5])] [(7, [2, 3]), (9, [4, 6])] = [(0, 7)]"
proof
  show "distinct (map snd (match_to_prior_modules [(0, [1, 2, 3]), (1, [4, 5])] [(7, [2, 3]), (9, [4, 6])]))"
    using inherited_by_majority [of "[(0, [1, 2, 3]), (1, [4, 5])]" "[(7, [2, 3]), (9, [4, 6])]"] by (simp add: dict_wf_def)
qed code_simp

theorem unchanged_group_keeps_module_witness:
  "(0, 7) \<in> set (match_to_prior_modules [(0, [1, 2]), (1, [3])] [(7, [2, 1]), (9, [4])])"
  by (rule unchanged_group_keeps_module [where members = "[1, 2]" and prior = "[2, 1]"]) (auto simp: dict_wf_def)

definition demo_apply :: "(py_exn + int \<times> applied) \<times> library" where
  "demo_apply = apply_partition 1 [(0, [2]), (1, [1, 3])] [(0, 1)] [(1, [2, 3])] default_namer [] demo_library"

lemma demo_apply_returns:
  "map_sum id (\<lambda>(s, a). ap_community_module a) (fst demo_apply) = Inr [(0, 1), (1, 2)]"
  by code_simp

lemma demo_owned: "(1, 1) \<in> set (owned demo_library)"
  by code_simp


end
