(* ===== verification/Spec2Isabelle.thy ===== *)
theory Spec2Isabelle
  imports StoreProps SupersessionProps Classifier NecessityProps GithubProps FoldProps PipelineProps DynamoContract MigrationProps AuthoredProps AfDeriveProps
begin

text \<open>
  Two programs are verified here.  The learning service
  (\<open>src/packages/learning-service/src/learning_service/\<close>) reads the merged pull requests of a
  repository, distils a lesson from each, collects votes for lessons from distinct pull requests,
  folds a lesson into a skill document once its weight reaches a threshold, and retires lessons
  that later pull requests contradict.  The agent library (\<open>src/agent-families/\<close>) keeps insights
  in batches that are promoted, reverted and split under a chain of snapshots.

  \<^bold>\<open>The parts and how they interact\<close>
  \<^item> \<open>github.py\<close> lists pull requests, filters noise, infers how well a change is verified (its
    rung), scrubs secrets and repository names, and distils the lesson.
  \<^item> \<open>merge_handler.py\<close> decides what one pull request leads to and keeps the cursor of processed
    ones; \<open>replay_merge_log\<close> runs it, and then the pipeline, over a log.
  \<^item> \<open>pipeline.py\<close> composes the rest for one pull request: it extracts anchors from the diff
    (\<open>anchors.py\<close>), looks up the ideas anchored there, has each judged (\<open>classifier.py\<close>),
    supersedes or revives (\<open>supersession.py\<close>), casts the vote or creates the idea
    (\<open>corroboration.py\<close>), filters trivial ideas (\<open>necessity.py\<close>) and folds
    (\<open>skills_write.py\<close>).
  \<^item> \<open>necessity.py\<close> also holds the scheduled scan that demotes ideas the skills do not need; its
    judge is \<open>entrypoints/golden_judge.py\<close>.
  \<^item> \<open>migration.py\<close> tags ideas folded before pull requests were counted, lets them be confirmed
    one by one, and compares the old library with a replay.  \<open>authored.py\<close> takes directives and
    pasted texts of users into the same graph of ideas.
  \<^item> All of them act on the learning store (\<open>db/store.py\<close>), the skill store and the telemetry
    accumulator (\<open>telemetry.py\<close>); the record types are those of
    \<open>schema/generated/py_types.py\<close>.
  \<^item> In the agent library \<open>store.py\<close> holds the tables, the transactions and the promotion queue
    (one operation, one snapshot); \<open>lifecycle.py\<close> promotes and reverts batches, retires and
    revives insights and skills; \<open>reflector/agent_split.py\<close> splits a skill.  The derive pass
    (\<open>reflector/derive.py\<close>) regroups the insights of an agent into modules: it has partitions of
    the insight graph proposed (\<open>reflector/partition.py\<close>), weighs them by the cost of
    \<open>reflector/objective.py\<close> against the present modules, and rewrites the memberships.

  \<^bold>\<open>The language\<close> (prelude).  \<open>PyBase\<close>: exceptions as values, operations of type
  \<open>('s, 'a) py\<close> that take the state and return the result or the exception together with the
  state left behind, \<open>for\<close> loops, insertion-ordered dictionaries as association lists.
  \<open>PyStr\<close>: the string methods the code calls, on characters below code point 256.
  \<open>PyFloat\<close>: IEEE doubles as rationals closed under round-to-nearest-even; every arithmetic
  operation rounds.  \<open>Regex\<close>: the backtracking matcher of \<open>re\<close> for the constructs used, with
  \<open>match\<close>, \<open>search\<close> and \<open>sub\<close>.  \<open>Uuid5\<close>: SHA-1 on 32-bit words and version 5 UUIDs; \<open>Sha256\<close>;
  \<open>Json\<close>: the rendering of the documents the code hashes or stores.  \<open>AfSql\<close>: tables as lists of
  rows, fresh row identifiers, constraint violations.
  \<open>Interfaces\<close>: the locales \<open>upsert_store\<close>, \<open>occ_cell\<close>, \<open>occ_clock\<close> and
  \<open>spot_check_gate\<close>, interpreted on the tables of the store, the skill pointers, and the three
  calibration gates.

  \<^bold>\<open>Theories and sources\<close>
  \<^item> \<open>Records\<close>: \<open>py_types.py\<close>.  \<open>LearningStore\<close>, \<open>StoreProps\<close>: \<open>InMemoryLearningStore\<close>,
    one field of \<open>learning_store\<close> per dictionary of the class, one definition per method.
    Properties: well-formedness of every reachable store, isolation of organisations, no lost
    update under conditional writes, the append-only audit log.
  \<^item> \<open>Telemetry\<close>: the accumulator, the snapshot and the enforcement gates.  \<open>World\<close>: the
    state shared by the operations, store and telemetry.
  \<^item> \<open>Corroboration\<close>, \<open>CorroborationProps\<close>: the vote with its retry loop, the weight, the
    rewriting of bodies.  Properties: effect, idempotence and progress of a vote, one vote per
    pull request in every store the service reaches, bounds of the weight in double arithmetic.
  \<^item> \<open>SkillsWrite\<close>, \<open>SkillsWriteProps\<close>: the skill store and \<open>write_revision\<close> with its
    compare-and-swap loop.  Properties: progress, no lost edit, and what the shared base variant
    breaks.
  \<^item> \<open>Anchors\<close>, \<open>AnchorsProps\<close>: diff parsing, the enclosing symbol, the anchor index.
  \<^item> \<open>Supersession\<close>, \<open>SupersessionProps\<close>: the calibration gate, the anti-thrash tracker,
    \<open>supersede\<close> with its un-fold, \<open>revive\<close>.  \<open>Classifier\<close>: the verdict map.
  \<^item> \<open>Necessity\<close>, \<open>NecessityProps\<close>: the fold-time filter, the ablation, the demotion loop, the
    scheduled scan.
  \<^item> \<open>Github\<close>, \<open>GithubProps\<close>: \<open>github.py\<close>.  \<open>MergeHandler\<close>: \<open>handle_merged_pr\<close>.
    \<open>Pipeline\<close>: \<open>run_pipeline\<close> and \<open>replay_merge_log\<close>.
  \<^item> \<open>PipelineInv\<close>: the locale \<open>pipeline_invariant\<close>.  A predicate of the store that survives the
    single writes of the service survives every operation, the pipeline and the replay; it is
    interpreted for the stores the service reaches, for the reads of another organisation, for
    the entries of the cursor and for the absence of fold records.  \<open>PipelineProps\<close> draws the
    consequences for a replay: one vote per pull request, isolation, idempotence, shadow mode as a
    read-only mode, what is lost when a pipeline raises, what a replay can decide.
    \<open>FoldProps\<close>: the fold, the semantic join, the identifiers.
  \<^item> \<open>Dynamo\<close>, \<open>DynamoStore\<close>: \<open>DynamoLearningStore\<close>, item by item and request by request.
    \<open>DynamoProps\<close>, \<open>DynamoRefinement\<close>, \<open>DynamoContract\<close>: the locale \<open>dynamo_table\<close> states what
    the table service promises, and it is interpreted on a table of items; every run of writes of
    the table store refines the same run of the in-memory store, reads agree, and the theorems on
    sequence numbers, second pages and separators say where the two differ.
  \<^item> \<open>BulkUpdate\<close>: loops that rewrite listed ideas.  \<open>Migration\<close>, \<open>MigrationProps\<close>;
    \<open>Authored\<close>, \<open>AuthoredProps\<close>: the effects of a backfill, a directive, a paste, a deletion.
  \<^item> \<open>AfStore\<close>, \<open>AfRuns\<close>: \<open>agent_families/store.py\<close>, one record per \<open>CREATE TABLE\<close> and one
    definition per method.  \<open>AfLifecycle\<close>: \<open>lifecycle.py\<close>.  \<open>AfSplit\<close>: \<open>agent_split.py\<close>.
    \<open>AfHistory\<close>: the operations as one step type, and the locale \<open>library_invariant\<close>, which
    reduces an invariant of all of them to minting, status flips and inserts.  \<open>AfAudit\<close> interprets
    it for the audit trail and for the persistence of the past.  \<open>AfEffects\<close>, \<open>AfSplitEffects\<close>:
    the exact effect of promotion, reversal and splitting.  \<open>AfLifecycleProps\<close>: the properties.
  \<^item> \<open>AfObjective\<close>: \<open>objective.py\<close>, in double arithmetic.  \<open>AfPartition\<close>: \<open>partition.py\<close>; merging is a
    function that ends because every merge removes a community, moving single nodes is a
    partial function.  \<open>AfPartitionProps\<close>: it returns for all weights, since the score takes finitely
    many values and rises with every pass.  \<open>AfDerive\<close>: \<open>derive.py\<close>.  \<open>AfDeriveProps\<close>: what is
    proposed, what is adopted, which modules are inherited, what the tables hold afterwards.

  \<^bold>\<open>Parameters\<close> stand for code outside the repository and for the environment: the NLI model and
  the language model (a result for each input, none where the call raises), the tree-sitter parser
  (a node tree for each file), the pages the GitHub server answers, the table service of DynamoDB
  (its documented conditional writes, queries and pages), the clock and the random
  numbers; for the derive pass \<open>log2\<close> and \<open>pow\<close> of the C library, the native back ends of Leiden
  and Infomap, the namer of modules and the neighbour graph of the vector index.  Other writers are explicit: every conditional write has an argument that says what
  happens to the store between the read and the write (\<open>interference\<close> for a whole run,
  \<open>alone\<close> for none), so the optimistic loops meet real conflicts.

  \<^bold>\<open>Bounds and fuel\<close>.  The retry loops count down the attempts of the code
  (\<open>MAX_OCC_RETRIES\<close> 5, \<open>MAX_CAS_RETRIES\<close> 5, \<open>DEMOTE_OCC_RETRIES\<close> 3) and raise at 0, as the code
  does.  \<open>list_pages\<close> takes fuel; with a cap on the pull requests \<open>max_pages + 1\<close> is proved to be
  enough, without a cap the code itself may not end.  The fuel of a paged scan is the
  number of items, which is proved to be enough.  The star of a regular expression tries at
  most as many repetitions as characters are left, which is all that can consume one.  Doubles:
  no overflow to infinity and no NaN occurs in the modelled expressions.

  \<^bold>\<open>Not modelled\<close>.  The S3 and vector stores, the DynamoDB tables of skills and of authored
  memory; the HTTP and AWS entry points; the transport and the diff and content fetching of
  \<open>github.py\<close>; log lines; the JSON rendering, means and reason texts of the telemetry.  Of
  \<open>agent-families\<close>: the migration runner of the library store, similarity search (an SQLite
  extension), everything that drives a language model or a browser (planning, sessions, tickets,
  grading, the reflector stages) and the command line.  Characters from code point 256 on do not
  occur in modelled strings.
\<close>

end
